(* ===== verification/K8s_Prelude.thy ===== *)
theory K8s_Prelude
  imports
    "HOL-Library.Word"
    "HOL-Library.Finite_Map"
    "HOL-Library.List_Lexorder"
    "HOL-Library.Char_ord"
begin

text \<open>
  Shared vocabulary of the development.

  \<^item> Go's integer types as machine words, slices as options of lists (\<open>None\<close> is the
    nil slice), string maps as finite maps.
  \<^item> \<open>draw_fresh\<close>: the shape of the three unbounded generator loops of the code
    (\<open>for { x := random(); if !used(x) { return x } }\<close>), as a partial function whose
    value \<open>None\<close> is "the loop never ends".
  \<^item> the interface \<open>id_allocator\<close>: what every generator of identifiers promises, and
    what follows for sequences of allocations.
  \<^item> \<open>strconv\<close>: decimal printing and parsing at the widths the code uses, with the
    round trips.
\<close>

section \<open>Go data\<close>

type_synonym int32 = "32 word"
type_synonym int64 = "64 word"
type_synonym 'a slice = "'a list option"
type_synonym str_map = "(string, string) fmap"

text \<open>
  An instant, in nanoseconds since Go's zero time (so \<open>0\<close> is \<open>time.Time{}\<close>); a
  \<open>time.Duration\<close> is an int64 number of nanoseconds, and its arithmetic wraps.
\<close>

type_synonym instant = int

definition seconds :: "int64 \<Rightarrow> int64" where
  "seconds n = 1000000000 * n"

definition time_add :: "instant \<Rightarrow> int64 \<Rightarrow> instant" where
  "time_add t d = t + sint d"

text \<open>The elements a \<open>range\<close> loop or \<open>len\<close> sees: a nil slice is empty.\<close>

definition elems :: "'a slice \<Rightarrow> 'a list" where
  "elems s = (case s of None \<Rightarrow> [] | Some xs \<Rightarrow> xs)"

lemma elems_simps [simp]: "elems None = []" "elems (Some xs) = xs"
  by (simp_all add: elems_def)

text \<open>\<open>append(s, xs...)\<close>: appending nothing to nil stays nil.\<close>

definition append_slice :: "'a slice \<Rightarrow> 'a list \<Rightarrow> 'a slice" where
  "append_slice s xs = (if s = None \<and> xs = [] then None else Some (elems s @ xs))"

lemma elems_append_slice [simp]: "elems (append_slice s xs) = elems s @ xs"
  by (auto simp: append_slice_def)

text \<open>Reading a possibly nil Go map: a missing key gives the zero value \<open>""\<close>.\<close>

definition map_get :: "str_map option \<Rightarrow> string \<Rightarrow> string option" where
  "map_get mp k = (case mp of None \<Rightarrow> None | Some f \<Rightarrow> fmlookup f k)"

definition map_index :: "str_map option \<Rightarrow> string \<Rightarrow> string" where
  "map_index mp k = (case map_get mp k of None \<Rightarrow> [] | Some v \<Rightarrow> v)"

lemma map_get_simps [simp]: "map_get None k = None" "map_get (Some f) k = fmlookup f k"
  by (simp_all add: map_get_def)

lemma map_sum_Inr: "map_sum f g x = Inr y \<longleftrightarrow> (\<exists>a. x = Inr a \<and> y = g a)"
  by (cases x) auto

section \<open>Results\<close>

text \<open>
  A Go function with results \<open>(T, error)\<close> returns \<open>Inl err\<close> or \<open>Inr value\<close>;
  \<open>ebind\<close> is \<open>if err != nil { return err }\<close>.
\<close>

definition ebind :: "'e + 'a \<Rightarrow> ('a \<Rightarrow> 'e + 'b) \<Rightarrow> 'e + 'b" where
  "ebind r k = (case r of Inl e \<Rightarrow> Inl e | Inr x \<Rightarrow> k x)"

lemma ebind_simps [simp]: "ebind (Inl e) k = Inl e" "ebind (Inr x) k = k x"
  by (simp_all add: ebind_def)

lemma ebind_Inr_iff: "ebind r k = Inr y \<longleftrightarrow> (\<exists>x. r = Inr x \<and> k x = Inr y)"
  by (cases r) simp_all

lemma ebind_Inl_iff: "ebind r k = Inl e \<longleftrightarrow> r = Inl e \<or> (\<exists>x. r = Inr x \<and> k x = Inl e)"
  by (cases r) auto

lemma ebind_cong [fundef_cong]:
  "r = r' \<Longrightarrow> (\<And>x. r' = Inr x \<Longrightarrow> k x = k' x) \<Longrightarrow> ebind r k = ebind r' k'"
  by (cases r') simp_all

section \<open>Drawing until fresh\<close>

partial_function (option) draw_fresh :: "(nat \<Rightarrow> 'a) \<Rightarrow> ('a \<Rightarrow> bool) \<Rightarrow> nat \<Rightarrow> 'a option" where
  "draw_fresh draw used i =
     (if used (draw i) then draw_fresh draw used (Suc i) else Some (draw i))"

lemma draw_fresh_now: "\<not> used (draw i) \<Longrightarrow> draw_fresh draw used i = Some (draw i)"
  by (simp add: draw_fresh.simps)

lemma draw_fresh_later: "used (draw i) \<Longrightarrow> draw_fresh draw used i = draw_fresh draw used (Suc i)"
  by (subst draw_fresh.simps) simp

lemma draw_fresh_Some:
  assumes "draw_fresh draw used i = Some x"
  shows "\<not> used x \<and> (\<exists>j\<ge>i. x = draw j \<and> (\<forall>k. i \<le> k \<and> k < j \<longrightarrow> used (draw k)))"
proof (rule draw_fresh.raw_induct [where P = "\<lambda>draw used i x. \<not> used x \<and>
    (\<exists>j\<ge>i. x = draw j \<and> (\<forall>k. i \<le> k \<and> k < j \<longrightarrow> used (draw k)))", OF _ assms])
  fix f :: "(nat \<Rightarrow> 'a) \<Rightarrow> ('a \<Rightarrow> bool) \<Rightarrow> nat \<Rightarrow> 'a option" and draw used i x
  assume IH: "\<And>draw used i x. f draw used i = Some x \<Longrightarrow> \<not> used x \<and>
      (\<exists>j\<ge>i. x = draw j \<and> (\<forall>k. i \<le> k \<and> k < j \<longrightarrow> used (draw k)))"
    and eq: "(if used (draw i) then f draw used (Suc i) else Some (draw i)) = Some x"
  show "\<not> used x \<and> (\<exists>j\<ge>i. x = draw j \<and> (\<forall>k. i \<le> k \<and> k < j \<longrightarrow> used (draw k)))"
  proof (cases "used (draw i)")
    case False
    with eq have "x = draw i" by simp
    with False show ?thesis by auto
  next
    case True
    with eq have "f draw used (Suc i) = Some x" by simp
    from IH [OF this] obtain j where "\<not> used x" "Suc i \<le> j" "x = draw j"
      and below: "\<forall>k. Suc i \<le> k \<and> k < j \<longrightarrow> used (draw k)"
      by auto
    moreover have "\<forall>k. i \<le> k \<and> k < j \<longrightarrow> used (draw k)"
      using below True by (metis Suc_leI le_neq_implies_less)
    ultimately show ?thesis by (intro conjI exI [of _ j]) auto
  qed
qed

lemma draw_fresh_returns: "i \<le> j \<Longrightarrow> \<not> used (draw j) \<Longrightarrow> \<exists>x. draw_fresh draw used i = Some x"
proof (induction "j - i" arbitrary: i)
  case 0
  then show ?case by (auto simp: draw_fresh_now)
next
  case (Suc n)
  show ?case
  proof (cases "used (draw i)")
    case True
    with Suc have "Suc i \<le> j" by simp
    with Suc True show ?thesis by (simp add: draw_fresh_later)
  qed (auto simp: draw_fresh_now)
qed

lemma draw_fresh_Some_iff: "(\<exists>x. draw_fresh draw used i = Some x) \<longleftrightarrow> (\<exists>j\<ge>i. \<not> used (draw j))"
  by (metis draw_fresh_Some draw_fresh_returns)

text \<open>A source that takes infinitely many values always ends the loop on a finite used set.\<close>

lemma draw_fresh_inj_returns:
  assumes "inj draw" and "finite {x. used x}"
  shows "\<exists>x. draw_fresh draw used i = Some x"
proof -
  have "\<not> draw ` {i..} \<subseteq> {x. used x}"
    using assms finite_subset finite_imageD infinite_Ici inj_on_subset [OF assms(1)] by (metis subset_UNIV)
  then show ?thesis by (auto intro: draw_fresh_returns)
qed

section \<open>Allocators of identifiers\<close>

text \<open>
  The contract of a generator that records what it hands out: the identifier was not used
  before, and the used set grows by exactly that identifier.
\<close>

locale id_allocator =
  fixes alloc :: "'r \<Rightarrow> 's \<Rightarrow> ('i \<times> 's) option"
    and used :: "'s \<Rightarrow> 'i set"
  assumes alloc_fresh: "alloc r s = Some (x, s') \<Longrightarrow> x \<notin> used s"
    and alloc_used: "alloc r s = Some (x, s') \<Longrightarrow> used s' = insert x (used s)"
begin

fun alloc_run :: "'r list \<Rightarrow> 's \<Rightarrow> ('i list \<times> 's) option" where
  "alloc_run [] s = Some ([], s)"
| "alloc_run (r # rs) s =
     (case alloc r s of None \<Rightarrow> None
      | Some (x, s1) \<Rightarrow> (case alloc_run rs s1 of None \<Rightarrow> None
                        | Some (xs, s2) \<Rightarrow> Some (x # xs, s2)))"

lemma alloc_run_used:
  "alloc_run rs s = Some (xs, s') \<Longrightarrow> used s' = used s \<union> set xs"
  by (induction rs arbitrary: s xs) (fastforce split: option.splits dest: alloc_used)+

lemma alloc_run_fresh:
  "alloc_run rs s = Some (xs, s') \<Longrightarrow> distinct xs \<and> set xs \<inter> used s = {}"
proof (induction rs arbitrary: s xs)
  case (Cons r rs)
  then obtain x s1 ys where step: "alloc r s = Some (x, s1)" "alloc_run rs s1 = Some (ys, s')"
    and xs: "xs = x # ys"
    by (auto split: option.splits)
  have "distinct ys \<and> set ys \<inter> used s1 = {}" using Cons.IH [OF step(2)] .
  then show ?case using alloc_fresh [OF step(1)] alloc_used [OF step(1)] xs by auto
qed simp

lemma alloc_mono: "alloc r s = Some (x, s') \<Longrightarrow> used s \<subseteq> used s'"
  by (auto dest: alloc_used)

end

section \<open>Decimal numbers (package strconv)\<close>

definition digit_char :: "nat \<Rightarrow> char" where
  "digit_char d = char_of (48 + d)"

definition digit_val :: "char \<Rightarrow> nat option" where
  "digit_val c = (let v = (of_char c :: nat) in if 48 \<le> v \<and> v \<le> 57 then Some (v - 48) else None)"

lemma digit_val_char [simp]: "d < 10 \<Longrightarrow> digit_val (digit_char d) = Some d"
  by (simp add: digit_val_def digit_char_def Let_def)

lemma digit_val_Some: "digit_val c = Some d \<Longrightarrow> d < 10 \<and> digit_char d = c"
  by (auto simp: digit_val_def digit_char_def Let_def split: if_splits)

lemma digit_char_neq [simp]:
  "d < 10 \<Longrightarrow> digit_char d \<noteq> CHR ''-''" "d < 10 \<Longrightarrow> digit_char d \<noteq> CHR ''+''"
  using digit_val_char [of d] by (auto simp: digit_val_def)

text \<open>\<open>strconv.FormatInt(n, 10)\<close> and \<open>strconv.Itoa\<close>.\<close>

fun format_nat :: "nat \<Rightarrow> string" where
  "format_nat n = (if n < 10 then [digit_char n] else format_nat (n div 10) @ [digit_char (n mod 10)])"

declare format_nat.simps [simp del]

definition format_int :: "int \<Rightarrow> string" where
  "format_int i = (if i < 0 then CHR ''-'' # format_nat (nat (- i)) else format_nat (nat i))"

fun parse_digits :: "nat \<Rightarrow> string \<Rightarrow> nat option" where
  "parse_digits acc [] = Some acc"
| "parse_digits acc (c # cs) =
     (case digit_val c of None \<Rightarrow> None | Some d \<Rightarrow> parse_digits (10 * acc + d) cs)"

text \<open>\<open>strconv.ParseUint(s, 10, bits)\<close>: \<open>None\<close> is a syntax or a range error.\<close>

definition parse_uint :: "string \<Rightarrow> nat \<Rightarrow> nat option" where
  "parse_uint s bits =
     (if s = [] then None
      else case parse_digits 0 s of
             None \<Rightarrow> None
           | Some n \<Rightarrow> if n < 2 ^ bits then Some n else None)"

text \<open>\<open>strconv.ParseInt(s, 10, bits)\<close>: an optional sign, then digits.\<close>

definition parse_int :: "string \<Rightarrow> nat \<Rightarrow> int option" where
  "parse_int s bits =
     (let neg = (s \<noteq> [] \<and> hd s = CHR ''-'');
          rest = (if s \<noteq> [] \<and> (hd s = CHR ''-'' \<or> hd s = CHR ''+'') then tl s else s)
      in if rest = [] then None
         else case parse_digits 0 rest of
                None \<Rightarrow> None
              | Some n \<Rightarrow>
                  if neg then (if n \<le> 2 ^ (bits - 1) then Some (- int n) else None)
                  else (if n < 2 ^ (bits - 1) then Some (int n) else None))"

lemma parse_digits_append:
  "parse_digits acc (xs @ ys) = (case parse_digits acc xs of None \<Rightarrow> None | Some a \<Rightarrow> parse_digits a ys)"
  by (induction acc xs rule: parse_digits.induct) (auto split: option.splits)

lemma parse_format_nat [simp]: "parse_digits 0 (format_nat n) = Some n"
proof (induction n rule: format_nat.induct)
  case (1 n)
  then show ?case
    by (cases "n < 10") (simp_all add: format_nat.simps [of n] parse_digits_append)
qed

lemma format_nat_not_Nil [simp]: "format_nat n \<noteq> []"
  by (subst format_nat.simps) simp

lemma format_nat_digits: "c \<in> set (format_nat n) \<Longrightarrow> \<exists>d<10. c = digit_char d"
proof (induction n rule: format_nat.induct)
  case (1 n)
  have last: "\<exists>d<10. digit_char (n mod 10) = digit_char d"
    by (rule exI [of _ "n mod 10"]) simp
  show ?case
  proof (cases "n < 10")
    case True
    with "1.prems" last show ?thesis by (simp add: format_nat.simps [of n])
  next
    case False
    with "1.prems" have "c \<in> set (format_nat (n div 10)) \<or> c = digit_char (n mod 10)"
      by (auto simp: format_nat.simps [of n])
    with "1.IH" False last show ?thesis by blast
  qed
qed

lemma format_nat_no_sign:
  "CHR ''-'' \<notin> set (format_nat n)" "CHR ''+'' \<notin> set (format_nat n)"
  by (metis digit_char_neq format_nat_digits)+

lemma hd_format_nat [simp]:
  "hd (format_nat n) \<noteq> CHR ''-''" "hd (format_nat n) \<noteq> CHR ''+''"
  by (metis format_nat_no_sign format_nat_not_Nil hd_in_set)+

lemma format_nat_inject [simp]: "format_nat a = format_nat b \<longleftrightarrow> a = b"
  by (metis option.inject parse_format_nat)

lemma parse_uint_format: "n < 2 ^ bits \<Longrightarrow> parse_uint (format_nat n) bits = Some n"
  by (simp add: parse_uint_def)

lemma parse_int_format:
  assumes "0 \<le> i" and "i < 2 ^ (bits - 1)"
  shows "parse_int (format_int i) bits = Some i"
proof -
  have "nat i < 2 ^ (bits - 1)" using assms by (simp add: nat_less_iff)
  with assms(1) show ?thesis by (simp add: parse_int_def format_int_def)
qed

lemma format_int_inject_nonneg: "0 \<le> a \<Longrightarrow> 0 \<le> b \<Longrightarrow> format_int a = format_int b \<longleftrightarrow> a = b"
  by (simp add: format_int_def eq_nat_nat_iff)

end
