(* ===== verification/K8s_Types.thy ===== *)
theory K8s_Types
  imports K8s_Prelude
begin

text \<open>
  The Kubernetes objects the code under src/ handles, as records.

  The Go structs belong to the Kubernetes packages; their fields are listed in
  src/src/code/k8s_io/api and src/src/generatedviews. A record below has every field that
  code under src/ reads or writes, under its Go name, and one field \<open>..._rest\<close> (a value
  of type \<open>opaque\<close>) for all the remaining fields of the struct, which this code only
  copies and compares. A pointer is an option; a slice or a map is an option of a list or
  of a finite map, so that nil and empty differ as they do for reflect.DeepEqual.

  Go embeds \<open>TypeMeta\<close> and \<open>ObjectMeta\<close> in every object; the object records extend
  one base record \<open>Object\<close>, so \<open>ObjectMeta\<close> is one selector for all of them, as
  \<open>meta.Accessor\<close> is in Go. The internal types of k8s.io/kubernetes/pkg/apis (core.Pod,
  apps.ReplicaSet, ...) have the same modelled fields, so they are the same records, kept
  apart by the constructors of \<open>legacy\<close>.
\<close>

type_synonym opaque = string

section \<open>Metadata\<close>

record TypeMeta =
  tm_Kind :: string
  tm_APIVersion :: string

definition empty_TypeMeta :: TypeMeta where
  "empty_TypeMeta = \<lparr>tm_Kind = [], tm_APIVersion = []\<rparr>"

record OwnerReference =
  or_APIVersion :: string
  or_Kind :: string
  or_Name :: string
  or_UID :: string
  or_Controller :: "bool option"
  or_BlockOwnerDeletion :: "bool option"

record ObjectMeta =
  Name :: string
  GenerateName :: string
  Namespace :: string
  SelfLink :: string
  UID :: string
  ResourceVersion :: string
  Generation :: int64
  CreationTimestamp :: instant
  DeletionTimestamp :: "instant option"
  DeletionGracePeriodSeconds :: "int64 option"
  Labels :: "str_map option"
  Annotations :: "str_map option"
  OwnerReferences :: "OwnerReference slice"
  Finalizers :: "string slice"
  ManagedFields :: "opaque slice"

record Object =
  TypeMeta :: TypeMeta
  ObjectMeta :: ObjectMeta

record LabelSelectorRequirement =
  lsr_Key :: string
  lsr_Operator :: string
  lsr_Values :: "string slice"

record LabelSelector =
  MatchLabels :: "str_map option"
  MatchExpressions :: "LabelSelectorRequirement slice"

text \<open>A \<open>labels.Selector\<close> is used through its method \<open>Matches\<close> only.\<close>

type_synonym selector = "str_map option \<Rightarrow> bool"

section \<open>Pods and volumes\<close>

record Toleration =
  tol_Key :: string
  tol_Operator :: string
  tol_Value :: string
  tol_Effect :: string
  tol_TolerationSeconds :: "int64 option"

text \<open>
  A \<open>resource.Quantity\<close> is what \<open>resource.MustParse\<close> returns, so opaque; a resource list maps
  resource names to quantities. \<open>LocalObjectReference\<close> and \<open>PodSchedulingGate\<close> are their names.
\<close>

type_synonym resource_list = "(string, opaque) fmap option"

record PersistentVolumeClaimVolumeSource =
  pvs_ClaimName :: string
  pvs_rest :: opaque

record EmptyDirVolumeSource =
  ed_Medium :: string
  ed_SizeLimit :: "opaque option"

record Volume =
  vol_Name :: string
  vol_PersistentVolumeClaim :: "PersistentVolumeClaimVolumeSource option"
  vol_EmptyDir :: "EmptyDirVolumeSource option"
  vol_rest :: opaque

record EnvVar =
  env_Name :: string
  env_Value :: string
  env_rest :: opaque

record VolumeMount =
  vm_Name :: string
  vm_MountPath :: string
  vm_rest :: opaque

record Container =
  cont_Name :: string
  cont_Image :: string
  cont_Command :: "string slice"
  cont_Env :: "EnvVar slice"
  cont_Requests :: resource_list
  cont_Limits :: resource_list
  cont_VolumeMounts :: "VolumeMount slice"
  cont_ImagePullPolicy :: string
  cont_TerminationMessagePath :: string
  cont_TerminationMessagePolicy :: string
  cont_rest :: opaque

record PodSpec =
  Volumes :: "Volume slice"
  InitContainers :: "Container slice"
  Containers :: "Container slice"
  RestartPolicy :: string
  TerminationGracePeriodSeconds :: "int64 option"
  ActiveDeadlineSeconds :: "int64 option"
  DNSPolicy :: string
  NodeSelector :: "str_map option"
  ServiceAccountName :: string
  NodeName :: string
  ImagePullSecrets :: "string slice"
  Hostname :: string
  Subdomain :: string
  SchedulerName :: string
  Tolerations :: "Toleration slice"
  PriorityClassName :: string
  Priority :: "int32 option"
  PreemptionPolicy :: "string option"
  EnableServiceLinks :: "bool option"
  SchedulingGates :: "string slice"
  podspec_rest :: opaque

record PodCondition =
  pc_Type :: string
  pc_Status :: string
  pc_LastTransitionTime :: instant
  pc_rest :: opaque

record PodStatus =
  pod_Phase :: string
  pod_Conditions :: "PodCondition slice"
  pod_ObservedGeneration :: int64
  pod_Reason :: string
  pod_Message :: string
  podstatus_rest :: opaque

record Pod = Object +
  pod_Spec :: PodSpec
  pod_Status :: PodStatus

record PodTemplateSpec =
  tmpl_ObjectMeta :: ObjectMeta
  tmpl_Spec :: PodSpec

record PersistentVolumeClaimSpec =
  AccessModes :: "string slice"
  claim_Requests :: resource_list
  StorageClassName :: "string option"
  VolumeMode :: "string option"
  claimspec_rest :: opaque

record PersistentVolumeClaim = Object +
  pvc_Spec :: PersistentVolumeClaimSpec
  pvc_Phase :: string
  pvc_Capacity :: resource_list
  pvcstatus_rest :: opaque

section \<open>Workloads, roles, namespaces\<close>

record ReplicaSetSpec =
  rs_Replicas :: "int32 option"
  rs_MinReadySeconds :: int32
  rs_Selector :: "LabelSelector option"
  rs_Template :: PodTemplateSpec

record ReplicaSetCondition =
  rsc_Type :: string
  rsc_Status :: string
  rsc_LastTransitionTime :: instant
  rsc_Reason :: string
  rsc_Message :: string

record ReplicaSetStatus =
  st_Replicas :: int32
  st_FullyLabeledReplicas :: int32
  st_ReadyReplicas :: int32
  st_AvailableReplicas :: int32
  st_TerminatingReplicas :: "int32 option"
  st_ObservedGeneration :: int64
  st_Conditions :: "ReplicaSetCondition slice"

record ReplicaSet = Object +
  rs_Spec :: ReplicaSetSpec
  rs_Status :: ReplicaSetStatus

record StatefulSetSpec =
  ss_Replicas :: "int32 option"
  ss_Selector :: "LabelSelector option"
  ss_Template :: PodTemplateSpec
  VolumeClaimTemplates :: "PersistentVolumeClaim slice"
  ServiceName :: string
  ss_MinReadySeconds :: int32
  ssspec_rest :: opaque

record StatefulSetStatus =
  sst_ObservedGeneration :: int64
  sst_Replicas :: int32
  sst_ReadyReplicas :: int32
  sst_CurrentReplicas :: int32
  sst_UpdatedReplicas :: int32
  sst_CollisionCount :: "int32 option"
  sst_AvailableReplicas :: int32
  sst_rest :: opaque

record StatefulSet = Object +
  ss_Spec :: StatefulSetSpec
  ss_Status :: StatefulSetStatus

datatype IntOrString = FromInt32 int32 | FromString string

record RollingUpdateDeployment =
  MaxUnavailable :: "IntOrString option"
  MaxSurge :: "IntOrString option"

record DeploymentStrategy =
  strategy_Type :: string
  strategy_RollingUpdate :: "RollingUpdateDeployment option"

record DeploymentSpec =
  d_Replicas :: "int32 option"
  d_Selector :: "LabelSelector option"
  d_Template :: PodTemplateSpec
  d_Strategy :: DeploymentStrategy
  d_MinReadySeconds :: int32
  d_RevisionHistoryLimit :: "int32 option"
  d_Paused :: bool
  d_ProgressDeadlineSeconds :: "int32 option"

record DeploymentStatus =
  dst_ObservedGeneration :: int64
  dst_Replicas :: int32
  dst_UpdatedReplicas :: int32
  dst_ReadyReplicas :: int32
  dst_AvailableReplicas :: int32
  dst_UnavailableReplicas :: int32
  dst_rest :: opaque

record Deployment = Object +
  d_Spec :: DeploymentSpec
  d_Status :: DeploymentStatus

record NamespaceObj = Object +
  ns_Phase :: string
  ns_rest :: opaque

record ServiceAccount = Object +
  sa_rest :: opaque

record PolicyRule =
  pr_Verbs :: "string slice"
  pr_APIGroups :: "string slice"
  pr_Resources :: "string slice"
  pr_ResourceNames :: "string slice"
  pr_NonResourceURLs :: "string slice"

record ClusterRole = Object +
  cr_Rules :: "PolicyRule slice"
  cr_AggregationRule :: "LabelSelector slice option"

record ControllerRevision = Object +
  rev_Data_Raw :: "string option"
  rev_Data_Object :: "opaque option"
  rev_Revision :: int64

section \<open>Zero values\<close>

text \<open>The Go zero value of each struct the code builds.\<close>

definition empty_ObjectMeta :: ObjectMeta where
  "empty_ObjectMeta = \<lparr>Name = [], GenerateName = [], Namespace = [], SelfLink = [], UID = [], ResourceVersion = [],
     Generation = 0, CreationTimestamp = 0, DeletionTimestamp = None, DeletionGracePeriodSeconds = None,
     Labels = None, Annotations = None, OwnerReferences = None, Finalizers = None, ManagedFields = None\<rparr>"

definition empty_Container :: Container where
  "empty_Container = \<lparr>cont_Name = [], cont_Image = [], cont_Command = None, cont_Env = None,
     cont_Requests = None, cont_Limits = None, cont_VolumeMounts = None, cont_ImagePullPolicy = [],
     cont_TerminationMessagePath = [], cont_TerminationMessagePolicy = [], cont_rest = []\<rparr>"

definition empty_PodSpec :: PodSpec where
  "empty_PodSpec = \<lparr>Volumes = None, InitContainers = None, Containers = None, RestartPolicy = [],
     TerminationGracePeriodSeconds = None, ActiveDeadlineSeconds = None, DNSPolicy = [], NodeSelector = None,
     ServiceAccountName = [], NodeName = [], ImagePullSecrets = None, Hostname = [], Subdomain = [],
     SchedulerName = [], Tolerations = None, PriorityClassName = [], Priority = None, PreemptionPolicy = None,
     EnableServiceLinks = None, SchedulingGates = None, podspec_rest = []\<rparr>"

definition empty_PodStatus :: PodStatus where
  "empty_PodStatus = \<lparr>pod_Phase = [], pod_Conditions = None, pod_ObservedGeneration = 0, pod_Reason = [],
     pod_Message = [], podstatus_rest = []\<rparr>"

definition empty_PersistentVolumeClaimSpec :: PersistentVolumeClaimSpec where
  "empty_PersistentVolumeClaimSpec = \<lparr>AccessModes = None, claim_Requests = None, StorageClassName = None,
     VolumeMode = None, claimspec_rest = []\<rparr>"

definition empty_ReplicaSetStatus :: ReplicaSetStatus where
  "empty_ReplicaSetStatus = \<lparr>st_Replicas = 0, st_FullyLabeledReplicas = 0, st_ReadyReplicas = 0,
     st_AvailableReplicas = 0, st_TerminatingReplicas = None, st_ObservedGeneration = 0, st_Conditions = None\<rparr>"

definition empty_StatefulSetStatus :: StatefulSetStatus where
  "empty_StatefulSetStatus = \<lparr>sst_ObservedGeneration = 0, sst_Replicas = 0, sst_ReadyReplicas = 0,
     sst_CurrentReplicas = 0, sst_UpdatedReplicas = 0, sst_CollisionCount = None, sst_AvailableReplicas = 0,
     sst_rest = []\<rparr>"

definition empty_DeploymentStrategy :: DeploymentStrategy where
  "empty_DeploymentStrategy = \<lparr>strategy_Type = [], strategy_RollingUpdate = None\<rparr>"

definition empty_DeploymentStatus :: DeploymentStatus where
  "empty_DeploymentStatus = \<lparr>dst_ObservedGeneration = 0, dst_Replicas = 0, dst_UpdatedReplicas = 0,
     dst_ReadyReplicas = 0, dst_AvailableReplicas = 0, dst_UnavailableReplicas = 0, dst_rest = []\<rparr>"

section \<open>The dynamic types\<close>

text \<open>
  The values of type \<open>interface{}\<close> the API model stores: exactly the nine types
  \<open>deepCopy\<close> accepts (src/kubernetes_model/apimodel/api_model.go, any other type panics).
\<close>

datatype kobject =
    KPod Pod
  | KPersistentVolumeClaim PersistentVolumeClaim
  | KNamespace NamespaceObj
  | KServiceAccount ServiceAccount
  | KReplicaSet ReplicaSet
  | KStatefulSet StatefulSet
  | KDeployment Deployment
  | KClusterRole ClusterRole
  | KControllerRevision ControllerRevision

text \<open>The internal objects: there is no internal Namespace in the code.\<close>

datatype legacy =
    LPod Pod
  | LPersistentVolumeClaim PersistentVolumeClaim
  | LServiceAccount ServiceAccount
  | LReplicaSet ReplicaSet
  | LStatefulSet StatefulSet
  | LDeployment Deployment
  | LClusterRole ClusterRole
  | LControllerRevision ControllerRevision

text \<open>The resource kind, as the string the typed operations pass for each Go type.\<close>

fun kind_of :: "kobject \<Rightarrow> string" where
  "kind_of (KPod _) = ''Pod''"
| "kind_of (KPersistentVolumeClaim _) = ''PersistentVolumeClaim''"
| "kind_of (KNamespace _) = ''Namespace''"
| "kind_of (KServiceAccount _) = ''ServiceAccount''"
| "kind_of (KReplicaSet _) = ''ReplicaSet''"
| "kind_of (KStatefulSet _) = ''StatefulSet''"
| "kind_of (KDeployment _) = ''Deployment''"
| "kind_of (KClusterRole _) = ''ClusterRole''"
| "kind_of (KControllerRevision _) = ''ControllerRevision''"

fun legacy_kind :: "legacy \<Rightarrow> string" where
  "legacy_kind (LPod _) = ''Pod''"
| "legacy_kind (LPersistentVolumeClaim _) = ''PersistentVolumeClaim''"
| "legacy_kind (LServiceAccount _) = ''ServiceAccount''"
| "legacy_kind (LReplicaSet _) = ''ReplicaSet''"
| "legacy_kind (LStatefulSet _) = ''StatefulSet''"
| "legacy_kind (LDeployment _) = ''Deployment''"
| "legacy_kind (LClusterRole _) = ''ClusterRole''"
| "legacy_kind (LControllerRevision _) = ''ControllerRevision''"

text \<open>\<open>meta.Accessor(obj)\<close>: reading the metadata, and writing through the accessor.\<close>

fun metadata :: "kobject \<Rightarrow> ObjectMeta" where
  "metadata (KPod o') = ObjectMeta o'"
| "metadata (KPersistentVolumeClaim o') = ObjectMeta o'"
| "metadata (KNamespace o') = ObjectMeta o'"
| "metadata (KServiceAccount o') = ObjectMeta o'"
| "metadata (KReplicaSet o') = ObjectMeta o'"
| "metadata (KStatefulSet o') = ObjectMeta o'"
| "metadata (KDeployment o') = ObjectMeta o'"
| "metadata (KClusterRole o') = ObjectMeta o'"
| "metadata (KControllerRevision o') = ObjectMeta o'"

fun set_metadata :: "kobject \<Rightarrow> ObjectMeta \<Rightarrow> kobject" where
  "set_metadata (KPod o') md = KPod (o'\<lparr>ObjectMeta := md\<rparr>)"
| "set_metadata (KPersistentVolumeClaim o') md = KPersistentVolumeClaim (o'\<lparr>ObjectMeta := md\<rparr>)"
| "set_metadata (KNamespace o') md = KNamespace (o'\<lparr>ObjectMeta := md\<rparr>)"
| "set_metadata (KServiceAccount o') md = KServiceAccount (o'\<lparr>ObjectMeta := md\<rparr>)"
| "set_metadata (KReplicaSet o') md = KReplicaSet (o'\<lparr>ObjectMeta := md\<rparr>)"
| "set_metadata (KStatefulSet o') md = KStatefulSet (o'\<lparr>ObjectMeta := md\<rparr>)"
| "set_metadata (KDeployment o') md = KDeployment (o'\<lparr>ObjectMeta := md\<rparr>)"
| "set_metadata (KClusterRole o') md = KClusterRole (o'\<lparr>ObjectMeta := md\<rparr>)"
| "set_metadata (KControllerRevision o') md = KControllerRevision (o'\<lparr>ObjectMeta := md\<rparr>)"

lemma metadata_set [simp]: "metadata (set_metadata ob md) = md"
  by (cases ob) simp_all

lemma set_metadata_set [simp]: "set_metadata (set_metadata ob md) md' = set_metadata ob md'"
  by (cases ob) simp_all

lemma set_metadata_same [simp]: "set_metadata ob (metadata ob) = ob"
  by (cases ob) simp_all

lemma kind_of_set_metadata [simp]: "kind_of (set_metadata ob md) = kind_of ob"
  by (cases ob) simp_all

fun legacy_metadata :: "legacy \<Rightarrow> ObjectMeta" where
  "legacy_metadata (LPod o') = ObjectMeta o'"
| "legacy_metadata (LPersistentVolumeClaim o') = ObjectMeta o'"
| "legacy_metadata (LServiceAccount o') = ObjectMeta o'"
| "legacy_metadata (LReplicaSet o') = ObjectMeta o'"
| "legacy_metadata (LStatefulSet o') = ObjectMeta o'"
| "legacy_metadata (LDeployment o') = ObjectMeta o'"
| "legacy_metadata (LClusterRole o') = ObjectMeta o'"
| "legacy_metadata (LControllerRevision o') = ObjectMeta o'"

section \<open>Delete options\<close>

text \<open>A propagation policy is a string type in Go; \<open>metav1.DeletePropagation...\<close> are its known values.\<close>

record Preconditions =
  pre_UID :: "string option"
  pre_ResourceVersion :: "string option"

record DeleteOptions =
  GracePeriodSeconds :: "int64 option"
  do_Preconditions :: "Preconditions option"
  OrphanDependents :: "bool option"
  PropagationPolicy :: "string option"
  DryRun :: "string slice"
  IgnoreStoreReadError :: "bool option"

definition empty_DeleteOptions :: DeleteOptions where
  "empty_DeleteOptions = \<lparr>GracePeriodSeconds = None, do_Preconditions = None, OrphanDependents = None,
     PropagationPolicy = None, DryRun = None, IgnoreStoreReadError = None\<rparr>"

definition DeletePropagationOrphan :: string where "DeletePropagationOrphan = ''Orphan''"
definition DeletePropagationBackground :: string where "DeletePropagationBackground = ''Background''"
definition DeletePropagationForeground :: string where "DeletePropagationForeground = ''Foreground''"
definition FinalizerOrphanDependents :: string where "FinalizerOrphanDependents = ''orphan''"
definition FinalizerDeleteDependents :: string where "FinalizerDeleteDependents = ''foregroundDeletion''"

lemmas gc_constants = DeletePropagationOrphan_def DeletePropagationBackground_def
  DeletePropagationForeground_def FinalizerOrphanDependents_def FinalizerDeleteDependents_def

section \<open>API errors\<close>

text \<open>
  The errors of k8s.io/apimachinery/pkg/api/errors the code builds, and \<open>fmt.Errorf\<close>.
  A formatted message is kept as its format string and arguments. \<open>UpstreamError\<close> is an
  error a Kubernetes function returned.
\<close>

datatype error =
    NotFound string string
  | AlreadyExists string string
  | Conflict string string "string list"
  | BadRequest string "string list"
  | Invalid string string "string list"
  | InternalError string
  | UnsupportedMediaType string string
  | UnprocessableEntity string
  | RequestEntityTooLarge string
  | Errorf string "string list"
  | UpstreamError string

fun IsNotFound :: "error \<Rightarrow> bool" where
  "IsNotFound (NotFound _ _) = True"
| "IsNotFound _ = False"

fun IsConflict :: "error \<Rightarrow> bool" where
  "IsConflict (Conflict _ _ _) = True"
| "IsConflict _ = False"

fun IsAlreadyExists :: "error \<Rightarrow> bool" where
  "IsAlreadyExists (AlreadyExists _ _) = True"
| "IsAlreadyExists _ = False"

section \<open>Controller references\<close>

text \<open>
  \<open>metav1.GetControllerOf\<close> (src/src/code/k8s_io/apimachinery/pkg/apis/meta/v1.v): the
  first owner reference whose \<open>Controller\<close> is true; \<open>controller.PodControllerIndexKey\<close>
  (src/src/code/k8s_io/kubernetes/pkg/controller.v): the key of the pod index.
\<close>

definition GetControllerOf :: "ObjectMeta \<Rightarrow> OwnerReference option" where
  "GetControllerOf md = List.find (\<lambda>r. or_Controller r = Some True) (elems (OwnerReferences md))"

definition NewControllerRef :: "ObjectMeta \<Rightarrow> string \<Rightarrow> string \<Rightarrow> OwnerReference" where
  "NewControllerRef owner api_version kind =
     \<lparr>or_APIVersion = api_version, or_Kind = kind, or_Name = Name owner, or_UID = UID owner,
      or_Controller = Some True, or_BlockOwnerDeletion = Some True\<rparr>"

definition PodControllerIndexKey :: "string \<Rightarrow> OwnerReference option \<Rightarrow> string" where
  "PodControllerIndexKey namespace ownerReference =
     (case ownerReference of
        None \<Rightarrow> namespace
      | Some r \<Rightarrow> namespace @ ''/'' @ or_Kind r @ ''/'' @ or_Name r @ ''/'' @ or_UID r)"

lemma GetControllerOf_Some:
  "GetControllerOf md = Some r \<Longrightarrow> r \<in> set (elems (OwnerReferences md)) \<and> or_Controller r = Some True"
  by (auto simp: GetControllerOf_def find_Some_iff)

lemma split_at_sep:
  assumes "c \<notin> set a" "c \<notin> set b" "a @ c # x = b @ c # y"
  shows "a = b \<and> x = y"
  using assms by (induction a arbitrary: b) (auto simp: Cons_eq_append_conv append_eq_Cons_conv)

text \<open>The key determines the controller when no component contains the separator.\<close>

lemma PodControllerIndexKey_inject:
  assumes "CHR ''/'' \<notin> set ns" "CHR ''/'' \<notin> set ns'"
    and "\<And>r. ref = Some r \<Longrightarrow> CHR ''/'' \<notin> set (or_Kind r) \<union> set (or_Name r) \<union> set (or_UID r)"
    and "\<And>r. ref' = Some r \<Longrightarrow> CHR ''/'' \<notin> set (or_Kind r) \<union> set (or_Name r) \<union> set (or_UID r)"
    and eq: "PodControllerIndexKey ns ref = PodControllerIndexKey ns' ref'"
  shows "ns = ns' \<and> map_option (\<lambda>r. (or_Kind r, or_Name r, or_UID r)) ref
                  = map_option (\<lambda>r. (or_Kind r, or_Name r, or_UID r)) ref'"
proof (cases ref; cases ref')
  fix r r' assume refs: "ref = Some r" "ref' = Some r'"
  with eq have "ns @ CHR ''/'' # (or_Kind r @ CHR ''/'' # (or_Name r @ CHR ''/'' # or_UID r))
      = ns' @ CHR ''/'' # (or_Kind r' @ CHR ''/'' # (or_Name r' @ CHR ''/'' # or_UID r'))"
    by (simp add: PodControllerIndexKey_def)
  from split_at_sep [OF assms(1,2) this]
  have "ns = ns'" and "or_Kind r @ CHR ''/'' # (or_Name r @ CHR ''/'' # or_UID r)
      = or_Kind r' @ CHR ''/'' # (or_Name r' @ CHR ''/'' # or_UID r')" by simp_all
  moreover from split_at_sep [OF _ _ this(2)] assms(3,4) refs
  have "or_Kind r = or_Kind r'" "or_Name r @ CHR ''/'' # or_UID r = or_Name r' @ CHR ''/'' # or_UID r'"
    by auto
  moreover from split_at_sep [OF _ _ this(2)] assms(3,4) refs
  have "or_Name r = or_Name r'" "or_UID r = or_UID r'" by auto
  ultimately show ?thesis using refs by simp
qed (use assms in \<open>auto simp: PodControllerIndexKey_def split: option.splits\<close>)

end
