(* ===== verification/Api_State.thy ===== *)
theory Api_State
  imports K8s_Types
begin

text \<open>
  The state of the API model and its read operations
  (src/kubernetes_model/apimodel/api_model.go, lines 75 to 298): the object map with the
  sets of used UIDs and resource versions, listing, label selection, the two indexes,
  \<open>get\<close>, and the generators of names, UIDs and resource versions.

  Every public operation of the code holds \<open>s.mu\<close> from start to end, so an operation is
  one atomic function from a state to a result and a new state.
\<close>

section \<open>State\<close>

datatype KKey = KKey (key_Kind: string) (key_Name: string) (key_Namespace: string)

instantiation KKey :: linorder
begin

definition less_eq_KKey :: "KKey \<Rightarrow> KKey \<Rightarrow> bool" where
  "k \<le> k' \<longleftrightarrow> [key_Kind k, key_Name k, key_Namespace k] \<le> [key_Kind k', key_Name k', key_Namespace k']"

definition less_KKey :: "KKey \<Rightarrow> KKey \<Rightarrow> bool" where
  "k < k' \<longleftrightarrow> [key_Kind k, key_Name k, key_Namespace k] < [key_Kind k', key_Name k', key_Namespace k']"

instance
proof
  fix x y z :: KKey
  show "x < y \<longleftrightarrow> x \<le> y \<and> \<not> y \<le> x" by (auto simp: less_eq_KKey_def less_KKey_def)
  show "x \<le> x" by (simp add: less_eq_KKey_def)
  show "x \<le> y \<Longrightarrow> y \<le> z \<Longrightarrow> x \<le> z" unfolding less_eq_KKey_def by (rule order_trans)
  show "x \<le> y \<Longrightarrow> y \<le> x \<Longrightarrow> x = y"
    unfolding less_eq_KKey_def by (drule (1) order_antisym) (simp add: KKey.expand)
  show "x \<le> y \<or> y \<le> x" unfolding less_eq_KKey_def by (rule linear)
qed

end

record State =
  st_m :: "KKey \<Rightarrow> kobject option"
  usedUID :: "string set"
  usedRV :: "string set"
  resourceVersionCounter :: int64

definition NewState :: State where
  "NewState = \<lparr>st_m = Map.empty, usedUID = {}, usedRV = {}, resourceVersionCounter = 0\<rparr>"

lemma NewState_simps [simp]: "st_m NewState = Map.empty" "usedUID NewState = {}" "usedRV NewState = {}"
  by (simp_all add: NewState_def)

text \<open>
  What one call reads from outside the program: the clock, the random sources (the i-th
  candidate of each generator), and the order in which \<open>range\<close> visits the keys of the
  object map. \<open>rand.Int63()\<close> returns a 63-bit value; \<open>o_intn i j\<close> is the value
  of \<open>Intn(27)\<close> for character j of candidate name i.
\<close>

record choices =
  o_now :: instant
  o_uuid :: "nat \<Rightarrow> string"
  o_int63 :: "nat \<Rightarrow> 63 word"
  o_intn :: "nat \<Rightarrow> nat \<Rightarrow> nat"
  o_range :: "KKey set \<Rightarrow> KKey list"

text \<open>What Go promises of \<open>range\<close> over a map: each key once, in some order.\<close>

definition range_ok :: "choices \<Rightarrow> bool" where
  "range_ok ch \<longleftrightarrow> (\<forall>A. finite A \<longrightarrow> distinct (o_range ch A) \<and> set (o_range ch A) = A)"

definition NamespaceAll :: string where "NamespaceAll = []"
definition NamespaceNone :: string where "NamespaceNone = []"

section \<open>Copies and listing\<close>

text \<open>Objects are values, so a deep copy of a supported object is the object.\<close>

fun deepCopy :: "kobject \<Rightarrow> kobject" where
  "deepCopy (KPod o') = KPod o'"
| "deepCopy (KPersistentVolumeClaim o') = KPersistentVolumeClaim o'"
| "deepCopy (KNamespace o') = KNamespace o'"
| "deepCopy (KServiceAccount o') = KServiceAccount o'"
| "deepCopy (KReplicaSet o') = KReplicaSet o'"
| "deepCopy (KStatefulSet o') = KStatefulSet o'"
| "deepCopy (KDeployment o') = KDeployment o'"
| "deepCopy (KClusterRole o') = KClusterRole o'"
| "deepCopy (KControllerRevision o') = KControllerRevision o'"

lemma deepCopy_id [simp]: "deepCopy ob = ob"
  by (cases ob) simp_all

definition list_entry :: "State \<Rightarrow> string \<Rightarrow> string \<Rightarrow> KKey \<Rightarrow> kobject list" where
  "list_entry s kind namespace key =
     (case st_m s key of
        None \<Rightarrow> []
      | Some val \<Rightarrow>
          if kind = key_Kind key \<and> (namespace = NamespaceAll \<or> namespace = key_Namespace key)
          then [deepCopy val] else [])"

definition objListLocked :: "choices \<Rightarrow> State \<Rightarrow> string \<Rightarrow> string \<Rightarrow> kobject list" where
  "objListLocked ch s kind namespace =
     concat (map (list_entry s kind namespace) (o_range ch (dom (st_m s))))"

definition objList :: "choices \<Rightarrow> State \<Rightarrow> string \<Rightarrow> string \<Rightarrow> kobject list" where
  "objList ch s kind namespace = objListLocked ch s kind namespace"

definition filterByLabelSelector :: "kobject list \<Rightarrow> selector \<Rightarrow> error + kobject list" where
  "filterByLabelSelector items selector =
     Inr (filter (\<lambda>val. selector (Labels (metadata val))) items)"

definition objListBySelector ::
  "choices \<Rightarrow> State \<Rightarrow> string \<Rightarrow> string \<Rightarrow> selector \<Rightarrow> error + kobject list" where
  "objListBySelector ch s kind namespace selector =
     filterByLabelSelector (objList ch s kind namespace) selector"

definition api_get :: "State \<Rightarrow> KKey \<Rightarrow> error + kobject" where
  "api_get s key =
     (case st_m s key of
        Some item \<Rightarrow> Inr (deepCopy item)
      | None \<Rightarrow> Inl (NotFound (key_Kind key) (key_Name key)))"

section \<open>Indexes\<close>

definition index_of :: "string \<Rightarrow> kobject \<Rightarrow> error + string list" where
  "index_of indexName ob =
     (if indexName = ''podController'' then
        (case ob of
           KPod pod \<Rightarrow> Inr [PodControllerIndexKey (Namespace (ObjectMeta pod)) (GetControllerOf (ObjectMeta pod))]
         | _ \<Rightarrow> Inr [])
      else if indexName = ''controllerUID'' then
        (case ob of
           KReplicaSet rs \<Rightarrow>
             (case GetControllerOf (ObjectMeta rs) of
                None \<Rightarrow> Inr []
              | Some controllerRef \<Rightarrow> Inr [or_UID controllerRef])
         | _ \<Rightarrow> Inr [])
      else Inl (Errorf ''index %q does not exist'' [indexName]))"

text \<open>The loop both index reads share: keep an object when one of its index values matches.\<close>

fun index_scan :: "string \<Rightarrow> (string \<Rightarrow> bool) \<Rightarrow> kobject list \<Rightarrow> error + kobject list" where
  "index_scan indexName matches [] = Inr []"
| "index_scan indexName matches (val # vals) =
     ebind (index_of indexName val) (\<lambda>values.
     ebind (index_scan indexName matches vals) (\<lambda>items.
       Inr (if list_ex matches values then val # items else items)))"

definition Index :: "choices \<Rightarrow> State \<Rightarrow> string \<Rightarrow> string \<Rightarrow> kobject \<Rightarrow> error + kobject list" where
  "Index ch s kind indexName ob =
     ebind (index_of indexName ob) (\<lambda>indexedValues.
       if indexedValues = [] then Inr []
       else index_scan indexName (\<lambda>v. v \<in> set indexedValues) (objListLocked ch s kind NamespaceAll))"

definition ByIndex :: "choices \<Rightarrow> State \<Rightarrow> string \<Rightarrow> string \<Rightarrow> string \<Rightarrow> error + kobject list" where
  "ByIndex ch s kind indexName indexedValue =
     index_scan indexName (\<lambda>v. v = indexedValue) (objListLocked ch s kind NamespaceAll)"

section \<open>Generators\<close>

definition randomSuffixChars :: string where
  "randomSuffixChars = ''bcdfghjklmnpqrstvwxz2456789''"

definition randomSuffix :: "(nat \<Rightarrow> nat) \<Rightarrow> nat \<Rightarrow> string" where
  "randomSuffix intn n = map (\<lambda>i. randomSuffixChars ! intn i) [0..<n]"

definition generateNewName :: "choices \<Rightarrow> State \<Rightarrow> string \<Rightarrow> string \<Rightarrow> string \<Rightarrow> string option" where
  "generateNewName ch s kind namespace generateName =
     draw_fresh (\<lambda>i. generateName @ randomSuffix (o_intn ch i) 5)
       (\<lambda>name. st_m s (KKey kind name namespace) \<noteq> None) 0"

definition generateNewUIDAndUpdate :: "choices \<Rightarrow> State \<Rightarrow> (string \<times> State) option" where
  "generateNewUIDAndUpdate ch s =
     (case draw_fresh (o_uuid ch) (\<lambda>uid. uid \<in> usedUID s) 0 of
        None \<Rightarrow> None
      | Some uid \<Rightarrow> Some (uid, s\<lparr>usedUID := insert uid (usedUID s)\<rparr>))"

definition generateNewRVAndUpdate :: "choices \<Rightarrow> State \<Rightarrow> (string \<times> State) option" where
  "generateNewRVAndUpdate ch s =
     (case draw_fresh (\<lambda>i. format_nat (unat (o_int63 ch i))) (\<lambda>rv. rv \<in> usedRV s) 0 of
        None \<Rightarrow> None
      | Some rv \<Rightarrow> Some (rv, s\<lparr>usedRV := insert rv (usedRV s)\<rparr>))"

interpretation uids: id_allocator generateNewUIDAndUpdate usedUID
  by unfold_locales (auto simp: generateNewUIDAndUpdate_def split: option.splits dest: draw_fresh_Some)

interpretation rvs: id_allocator generateNewRVAndUpdate usedRV
  by unfold_locales (auto simp: generateNewRVAndUpdate_def split: option.splits dest: draw_fresh_Some)

lemma generateNewUID_frame:
  "generateNewUIDAndUpdate ch s = Some (uid, s') \<Longrightarrow> s' = s\<lparr>usedUID := insert uid (usedUID s)\<rparr>"
  by (auto simp: generateNewUIDAndUpdate_def split: option.splits)

lemma generateNewRV_frame:
  "generateNewRVAndUpdate ch s = Some (rv, s') \<Longrightarrow> s' = s\<lparr>usedRV := insert rv (usedRV s)\<rparr>"
  by (auto simp: generateNewRVAndUpdate_def split: option.splits)

text \<open>A generated resource version always parses as an unsigned 64-bit number.\<close>

lemma generateNewRV_parses:
  assumes "generateNewRVAndUpdate ch s = Some (rv, s')"
  shows "\<exists>n. parse_uint rv 64 = Some n"
proof -
  from assms obtain j where "rv = format_nat (unat (o_int63 ch j))"
    by (auto simp: generateNewRVAndUpdate_def split: option.splits dest!: draw_fresh_Some)
  moreover have "unat (o_int63 ch j) < 2 ^ 64"
    using unsigned_less [where ?'a = nat, of "o_int63 ch j"] by simp
  ultimately show ?thesis using parse_uint_format by blast
qed

lemma generateNewName_unused:
  "generateNewName ch s kind ns gn = Some name \<Longrightarrow> st_m s (KKey kind name ns) = None"
  by (auto simp: generateNewName_def dest: draw_fresh_Some)

section \<open>What the reads return\<close>

lemma set_objListLocked:
  assumes "range_ok ch" "finite (dom (st_m s))"
  shows "set (objListLocked ch s kind namespace) =
    {ob. \<exists>key. st_m s key = Some ob \<and> key_Kind key = kind \<and>
        (namespace = NamespaceAll \<or> key_Namespace key = namespace)}"
  using assms by (auto simp: objListLocked_def list_entry_def range_ok_def split: option.splits if_splits)

lemma index_of_known:
  assumes "indexName = ''podController'' \<or> indexName = ''controllerUID''"
  shows "\<exists>vs. index_of indexName ob = Inr vs"
  using assms by (auto simp: index_of_def split: kobject.splits option.splits)

lemma index_scan_known:
  assumes "indexName = ''podController'' \<or> indexName = ''controllerUID''"
  shows "index_scan indexName matches obs =
    Inr (filter (\<lambda>ob. \<exists>vs. index_of indexName ob = Inr vs \<and> list_ex matches vs) obs)"
proof (induction obs)
  case (Cons ob obs)
  then show ?case using index_of_known [OF assms, of ob] by auto
qed simp

lemma api_get_Inr: "api_get s key = Inr ob \<longleftrightarrow> st_m s key = Some ob"
  by (auto simp: api_get_def split: option.splits)

lemma api_get_Inl: "api_get s key = Inl e \<longleftrightarrow>
    st_m s key = None \<and> e = NotFound (key_Kind key) (key_Name key)"
  by (auto simp: api_get_def split: option.splits)


section \<open>The invariant of the object map\<close>

text \<open>
  A stored object has the kind, name and namespace of its key, and its UID and resource
  version are recorded as used; no two stored objects share a UID or a resource version; a
  used resource version is a number.
\<close>

definition stored_ok :: "State \<Rightarrow> KKey \<Rightarrow> kobject \<Rightarrow> bool" where
  "stored_ok s key ob \<longleftrightarrow>
     kind_of ob = key_Kind key \<and> Name (metadata ob) = key_Name key \<and>
     Namespace (metadata ob) = key_Namespace key \<and> UID (metadata ob) \<in> usedUID s \<and>
     ResourceVersion (metadata ob) \<in> usedRV s"

definition wf_state :: "State \<Rightarrow> bool" where
  "wf_state s \<longleftrightarrow>
     finite (dom (st_m s)) \<and> finite (usedUID s) \<and> finite (usedRV s) \<and>
     (\<forall>key ob. st_m s key = Some ob \<longrightarrow> stored_ok s key ob) \<and>
     (\<forall>key key' ob ob'. st_m s key = Some ob \<longrightarrow> st_m s key' = Some ob' \<longrightarrow>
        UID (metadata ob) = UID (metadata ob') \<or>
        ResourceVersion (metadata ob) = ResourceVersion (metadata ob') \<longrightarrow> key = key') \<and>
     (\<forall>rv \<in> usedRV s. parse_uint rv 64 \<noteq> None)"

lemma wf_NewState: "wf_state NewState"
  by (simp add: wf_state_def NewState_def)

lemma wf_state_finite: "wf_state s \<Longrightarrow> finite (dom (st_m s))"
  by (simp add: wf_state_def)

lemma wf_state_stored: "wf_state s \<Longrightarrow> st_m s key = Some ob \<Longrightarrow> stored_ok s key ob"
  by (simp add: wf_state_def)

lemma wf_state_kind: "wf_state s \<Longrightarrow> st_m s key = Some ob \<Longrightarrow> kind_of ob = key_Kind key"
  by (simp add: wf_state_def stored_ok_def)

lemma wf_state_rv: "wf_state s \<Longrightarrow> rv \<in> usedRV s \<Longrightarrow> \<exists>n. parse_uint rv 64 = Some n"
  by (auto simp: wf_state_def)

lemma wf_state_uid_unique:
  "wf_state s \<Longrightarrow> st_m s key = Some ob \<Longrightarrow> st_m s key' = Some ob' \<Longrightarrow>
    UID (metadata ob) = UID (metadata ob') \<Longrightarrow> key = key'"
  unfolding wf_state_def by blast

lemma wf_state_new_uid:
  "wf_state s \<Longrightarrow> generateNewUIDAndUpdate ch s = Some (uid, s') \<Longrightarrow> wf_state s'"
  by (auto simp: wf_state_def stored_ok_def dest!: generateNewUID_frame)

lemma wf_state_new_rv:
  assumes "wf_state s" and "generateNewRVAndUpdate ch s = Some (rv, s')"
  shows "wf_state s'"
  using assms generateNewRV_parses [OF assms(2)]
  by (auto simp: wf_state_def stored_ok_def dest!: generateNewRV_frame)

lemma wf_state_more_uids:
  "wf_state s \<Longrightarrow> finite U \<Longrightarrow> usedUID s \<subseteq> U \<Longrightarrow> wf_state (s\<lparr>usedUID := U\<rparr>)"
  by (auto simp: wf_state_def stored_ok_def)

lemma wf_state_remove: "wf_state s \<Longrightarrow> wf_state (s\<lparr>st_m := (st_m s)(key := None)\<rparr>)"
  unfolding wf_state_def by (auto simp: stored_ok_def split: if_splits)

text \<open>Storing an object under its key keeps the invariant when nobody else has its UID or version.\<close>

lemma wf_state_store:
  assumes wf: "wf_state s" and ok: "stored_ok s key ob"
    and fresh: "\<And>key' ob'. st_m s key' = Some ob' \<Longrightarrow> key' \<noteq> key \<Longrightarrow>
      UID (metadata ob') \<noteq> UID (metadata ob) \<and> ResourceVersion (metadata ob') \<noteq> ResourceVersion (metadata ob)"
  shows "wf_state (s\<lparr>st_m := (st_m s)(key \<mapsto> ob)\<rparr>)"
proof -
  have "stored_ok (s\<lparr>st_m := (st_m s)(key \<mapsto> ob)\<rparr>) key' ob' \<longleftrightarrow> stored_ok s key' ob'" for key' ob'
    by (simp add: stored_ok_def)
  then show ?thesis using wf ok fresh unfolding wf_state_def by (simp split: if_splits) metis
qed

section \<open>How states evolve\<close>

text \<open>
  What every write of the API guarantees to the others, whatever the interleaving: used
  identifiers stay used; an entry is left alone, removed, or written with a resource version
  that was never used before, and then its UID is new or the one the entry already had.
\<close>

definition evolves :: "State \<Rightarrow> State \<Rightarrow> bool" where
  "evolves s s' \<longleftrightarrow>
     usedUID s \<subseteq> usedUID s' \<and> usedRV s \<subseteq> usedRV s' \<and>
     (\<forall>key ob'. st_m s' key = Some ob' \<longrightarrow>
        st_m s key = Some ob' \<or>
        ResourceVersion (metadata ob') \<notin> usedRV s \<and>
        (UID (metadata ob') \<notin> usedUID s \<or>
         (\<exists>ob. st_m s key = Some ob \<and> UID (metadata ob) = UID (metadata ob'))))"

lemma evolves_refl [simp]: "evolves s s"
  by (simp add: evolves_def)

lemma evolves_trans:
  assumes "evolves s s1" "evolves s1 s2"
  shows "evolves s s2"
proof -
  have used: "usedUID s \<subseteq> usedUID s1" "usedRV s \<subseteq> usedRV s1"
    "usedUID s1 \<subseteq> usedUID s2" "usedRV s1 \<subseteq> usedRV s2"
    using assms by (auto simp: evolves_def)
  have "st_m s key = Some ob' \<or> ResourceVersion (metadata ob') \<notin> usedRV s \<and>
      (UID (metadata ob') \<notin> usedUID s \<or>
       (\<exists>ob. st_m s key = Some ob \<and> UID (metadata ob) = UID (metadata ob')))"
    if "st_m s2 key = Some ob'" for key ob'
  proof (cases "st_m s1 key = Some ob'")
    case True
    then show ?thesis using assms(1) by (auto simp: evolves_def)
  next
    case False
    with that assms(2) have new: "ResourceVersion (metadata ob') \<notin> usedRV s1"
      and uid_from: "UID (metadata ob') \<in> usedUID s1 \<Longrightarrow>
        \<exists>ob1. st_m s1 key = Some ob1 \<and> UID (metadata ob1) = UID (metadata ob')"
      by (auto simp: evolves_def)
    show ?thesis
    proof (cases "UID (metadata ob') \<in> usedUID s1")
      case True
      from uid_from [OF this] obtain ob1
        where ob1: "st_m s1 key = Some ob1" "UID (metadata ob1) = UID (metadata ob')" by blast
      with assms(1) have "st_m s key = Some ob1 \<or> UID (metadata ob1) \<notin> usedUID s \<or>
          (\<exists>ob. st_m s key = Some ob \<and> UID (metadata ob) = UID (metadata ob1))"
        unfolding evolves_def by blast
      with ob1 new used show ?thesis by auto
    qed (use new used in auto)
  qed
  with used show ?thesis unfolding evolves_def by blast
qed

lemma evolves_same_version:
  assumes "evolves s s'" "wf_state s" "st_m s key = Some ob" "st_m s' key' = Some ob'"
    and "ResourceVersion (metadata ob) = ResourceVersion (metadata ob')"
  shows "key' = key \<and> ob' = ob"
proof -
  have "ResourceVersion (metadata ob') \<in> usedRV s"
    using wf_state_stored [OF assms(2,3)] assms(5) by (simp add: stored_ok_def)
  with assms(1,4) have "st_m s key' = Some ob'" by (auto simp: evolves_def)
  with assms(2,3,5) show ?thesis unfolding wf_state_def by (metis option.inject)
qed

lemma evolves_uid_dead:
  assumes "evolves s s'" "uid \<in> usedUID s"
    and "\<And>key ob. st_m s key = Some ob \<Longrightarrow> UID (metadata ob) \<noteq> uid"
    and "st_m s' key = Some ob'"
  shows "UID (metadata ob') \<noteq> uid"
  using assms unfolding evolves_def by metis

section \<open>The contract of an operation\<close>

text \<open>
  The contract every call of the API keeps under its precondition, and what follows for
  any sequence of calls, that is for any interleaving of the clients, since calls are atomic.
\<close>

locale api_operation =
  fixes call :: "'a \<Rightarrow> State \<Rightarrow> ('r \<times> State) option"
    and pre :: "'a \<Rightarrow> bool"
  assumes call_wf: "pre a \<Longrightarrow> wf_state s \<Longrightarrow> call a s = Some (r, s') \<Longrightarrow> wf_state s'"
    and call_evolves: "pre a \<Longrightarrow> wf_state s \<Longrightarrow> call a s = Some (r, s') \<Longrightarrow> evolves s s'"
begin

fun calls :: "'a list \<Rightarrow> State \<Rightarrow> ('r list \<times> State) option" where
  "calls [] s = Some ([], s)"
| "calls (a # as) s =
     (case call a s of
        None \<Rightarrow> None
      | Some (r, s1) \<Rightarrow> (case calls as s1 of None \<Rightarrow> None | Some (rs, s2) \<Rightarrow> Some (r # rs, s2)))"

lemma calls_ok:
  "list_all pre as \<Longrightarrow> wf_state s \<Longrightarrow> calls as s = Some (rs, s') \<Longrightarrow> wf_state s' \<and> evolves s s'"
proof (induction as arbitrary: s rs)
  case (Cons a as)
  then obtain r s1 rs1 where step: "call a s = Some (r, s1)" "calls as s1 = Some (rs1, s')"
    by (auto split: option.splits)
  have "wf_state s1" "evolves s s1"
    using Cons.prems step(1) call_wf [of a] call_evolves [of a] by auto
  then show ?case using Cons.IH [OF _ _ step(2)] Cons.prems(1) evolves_trans by auto
qed simp

lemma calls_same_version:
  assumes "list_all pre as" "wf_state s" "calls as s = Some (rs, s')"
    and "st_m s key = Some ob" "st_m s' key' = Some ob'"
    and "ResourceVersion (metadata ob) = ResourceVersion (metadata ob')"
  shows "key' = key \<and> ob' = ob"
  using calls_ok [OF assms(1-3)] evolves_same_version assms by blast

lemma calls_uid_dead:
  assumes "list_all pre as" "wf_state s" "calls as s = Some (rs, s')" "uid \<in> usedUID s"
    and "\<And>key ob. st_m s key = Some ob \<Longrightarrow> UID (metadata ob) \<noteq> uid"
    and "st_m s' key = Some ob'"
  shows "UID (metadata ob') \<noteq> uid"
  using calls_ok [OF assms(1-3)] evolves_uid_dead assms(4-6) by blast

end

end
