(* ===== verification/Api_Example.thy ===== *)
theory Api_Example
  imports Api_State
begin

text \<open>
  Concrete objects, choices and a concrete state, at which the theorems of the API model are
  applied.
\<close>

section \<open>Objects\<close>

definition example_meta :: "string \<Rightarrow> string \<Rightarrow> ObjectMeta" where
  "example_meta name ns = \<lparr>Name = name, GenerateName = [], Namespace = ns, SelfLink = [], UID = [],
     ResourceVersion = [], Generation = 0, CreationTimestamp = 0, DeletionTimestamp = None,
     DeletionGracePeriodSeconds = None, Labels = None, Annotations = None, OwnerReferences = None,
     Finalizers = None, ManagedFields = None\<rparr>"

definition example_spec :: PodSpec where
  "example_spec = empty_PodSpec\<lparr>NodeName := ''n''\<rparr>"

definition example_pod :: "ObjectMeta \<Rightarrow> Pod" where
  "example_pod md = \<lparr>TypeMeta = empty_TypeMeta, ObjectMeta = md, pod_Spec = example_spec,
     pod_Status = empty_PodStatus\<lparr>pod_Phase := ''Running''\<rparr>\<rparr>"

definition example_choices :: choices where
  "example_choices = \<lparr>o_now = 100, o_uuid = (\<lambda>i. format_nat i), o_int63 = (\<lambda>i. of_nat i),
     o_intn = (\<lambda>i j. (i + j) mod 27), o_range = sorted_list_of_set\<rparr>"

lemma example_range_ok: "range_ok example_choices"
  by (simp add: range_ok_def example_choices_def)

text \<open>A state with one stored pod, \<open>default/p\<close>, at resource version \<open>7\<close>.\<close>

definition stored_meta :: ObjectMeta where
  "stored_meta = (example_meta ''p'' ''default'')\<lparr>UID := ''u'', ResourceVersion := ''7''\<rparr>"

definition stored_key :: KKey where
  "stored_key = KKey ''Pod'' ''p'' ''default''"

definition example_state :: State where
  "example_state = \<lparr>st_m = [stored_key \<mapsto> KPod (example_pod stored_meta)], usedUID = {''u''},
     usedRV = {''7''}, resourceVersionCounter = 0\<rparr>"

lemmas example_object_defs = example_meta_def example_spec_def example_pod_def example_choices_def
  stored_meta_def stored_key_def example_state_def

lemma example_state_wf: "wf_state example_state"
  by (auto simp: wf_state_def stored_ok_def example_object_defs parse_uint_def digit_val_def)

text \<open>The pod a client got from a read, with its own change to the labels.\<close>

definition example_labels :: str_map where
  "example_labels = fmap_of_list [(''app'', ''web'')]"

definition client_pod :: "ObjectMeta \<Rightarrow> kobject" where
  "client_pod md = KPod (example_pod (md\<lparr>Labels := Some example_labels\<rparr>))"

lemma example_meta_simps:
  "Name (example_meta name ns) = name" "GenerateName (example_meta name ns) = []"
  "Namespace (example_meta name ns) = ns" "ObjectMeta (example_pod md) = md"
  "example_pod md\<lparr>ObjectMeta := md'\<rparr> = example_pod md'"
  by (simp_all add: example_meta_def example_pod_def)

lemma stored_meta_simps:
  "Name stored_meta = ''p''" "Namespace stored_meta = ''default''" "UID stored_meta = ''u''"
  "ResourceVersion stored_meta = ''7''" "Labels stored_meta = None" "DeletionTimestamp stored_meta = None"
  "DeletionGracePeriodSeconds stored_meta = None" "Finalizers stored_meta = None"
  by (simp_all add: stored_meta_def example_meta_def)

lemma format_nat_0: "format_nat 0 = ''0''"
  by (subst format_nat.simps) (simp add: digit_char_def char_of_def bit_iff_odd)

lemma example_new_uid:
  "''0'' \<notin> usedUID s \<Longrightarrow>
    generateNewUIDAndUpdate example_choices s = Some (''0'', s\<lparr>usedUID := insert ''0'' (usedUID s)\<rparr>)"
  by (simp add: generateNewUIDAndUpdate_def draw_fresh_now example_choices_def format_nat_0)

lemma example_new_rv:
  "''0'' \<notin> usedRV s \<Longrightarrow>
    generateNewRVAndUpdate example_choices s = Some (''0'', s\<lparr>usedRV := insert ''0'' (usedRV s)\<rparr>)"
  by (simp add: generateNewRVAndUpdate_def draw_fresh_now example_choices_def format_nat_0)

lemma example_now: "o_now example_choices = 100"
  by (simp add: example_choices_def)

lemma example_state_simps:
  "usedUID example_state = {''u''}" "usedRV example_state = {''7''}"
  "st_m example_state = [stored_key \<mapsto> KPod (example_pod stored_meta)]"
  by (simp_all add: example_state_def)

end
