(* ===== verification/Api_Reads.thy ===== *)
theory Api_Reads
  imports Api_Example
begin

text \<open>
  What the reads and the generators of the API model return: the generated names, when a
  generator loop ends, listing with a label selector, and the two controller indexes.
\<close>

section \<open>Lemmas\<close>

lemma randomSuffixChars_length: "length randomSuffixChars = 27"
  by (simp add: randomSuffixChars_def)

lemma randomSuffix_chars:
  "(\<And>i. intn i < 27) \<Longrightarrow> set (randomSuffix intn n) \<subseteq> set randomSuffixChars"
  using randomSuffixChars_length by (auto simp: randomSuffix_def)

lemma objListLocked_as_map:
  assumes "range_ok ch" "finite (dom (st_m s))"
  shows "objListLocked ch s kind namespace = map (\<lambda>key. the (st_m s key))
    (filter (\<lambda>key. key_Kind key = kind \<and> (namespace = NamespaceAll \<or> key_Namespace key = namespace))
      (o_range ch (dom (st_m s))))"
proof -
  have "concat (map (list_entry s kind namespace) keys) = map (\<lambda>key. the (st_m s key))
    (filter (\<lambda>key. key_Kind key = kind \<and> (namespace = NamespaceAll \<or> key_Namespace key = namespace)) keys)"
    if "set keys \<subseteq> dom (st_m s)" for keys
    using that by (induction keys) (auto simp: list_entry_def)
  then show ?thesis using assms by (simp add: objListLocked_def range_ok_def)
qed

lemma objListLocked_distinct:
  assumes "range_ok ch" "wf_state s"
  shows "distinct (objListLocked ch s kind namespace)"
proof -
  have "inj_on (\<lambda>key. the (st_m s key)) (dom (st_m s))"
    using wf_state_uid_unique [OF assms(2)] by (auto simp: inj_on_def)
  then show ?thesis using assms wf_state_finite [OF assms(2)]
    by (auto simp: objListLocked_as_map distinct_map range_ok_def intro: inj_on_subset)
qed

section \<open>Properties\<close>

text \<open>A generated name is not taken in its kind and namespace, and it is the requested
  prefix followed by five characters of the alphabet without vowels.\<close>

theorem generateNewName_spec:
  assumes "\<forall>i j. o_intn ch i j < 27"
    and "generateNewName ch s kind namespace generateName = Some name"
  shows "st_m s (KKey kind name namespace) = None \<and>
    (\<exists>suffix. name = generateName @ suffix \<and> length suffix = 5 \<and> set suffix \<subseteq> set randomSuffixChars)"
proof -
  from assms(2) obtain i where "name = generateName @ randomSuffix (o_intn ch i) 5"
    by (auto simp: generateNewName_def dest!: draw_fresh_Some)
  moreover have "length (randomSuffix (o_intn ch i) 5) = 5" by (simp add: randomSuffix_def)
  moreover have "set (randomSuffix (o_intn ch i) 5) \<subseteq> set randomSuffixChars"
    using assms(1) by (intro randomSuffix_chars) simp
  ultimately show ?thesis using generateNewName_unused [OF assms(2)] by blast
qed

lemma example_new_name:
  "generateNewName example_choices NewState ''Pod'' ''default'' ''web-'' = Some ''web-bcdfg''"
  unfolding generateNewName_def
  by (subst draw_fresh_now)
    (simp_all add: NewState_def example_choices_def randomSuffix_def randomSuffixChars_def upt_rec)

theorem generateNewName_spec_witness:
  "st_m NewState (KKey ''Pod'' ''web-bcdfg'' ''default'') = None \<and>
    (\<exists>suffix. ''web-bcdfg'' = ''web-'' @ suffix \<and> length suffix = 5 \<and> set suffix \<subseteq> set randomSuffixChars)"
  by (rule generateNewName_spec [of example_choices NewState "''Pod''" "''default''" "''web-''" "''web-bcdfg''"])
    (simp_all add: example_new_name, simp add: example_choices_def)

text \<open>The loops that draw a UID and a resource version end exactly when the random source
  yields an unused one at some point.\<close>

theorem generators_return_iff:
  "(generateNewUIDAndUpdate ch s \<noteq> None \<longleftrightarrow> (\<exists>i. o_uuid ch i \<notin> usedUID s)) \<and>
   (generateNewRVAndUpdate ch s \<noteq> None \<longleftrightarrow> (\<exists>i. format_nat (unat (o_int63 ch i)) \<notin> usedRV s))"
  using draw_fresh_Some_iff [of "o_uuid ch" "\<lambda>uid. uid \<in> usedUID s" 0]
    draw_fresh_Some_iff [of "\<lambda>i. format_nat (unat (o_int63 ch i))" "\<lambda>rv. rv \<in> usedRV s" 0]
  by (auto simp: generateNewUIDAndUpdate_def generateNewRVAndUpdate_def split: option.splits)

text \<open>A list with a selector returns every stored object of the kind and namespace whose
  labels match, each once, and nothing else.\<close>

theorem objListBySelector_spec:
  assumes "range_ok ch" "wf_state s"
  shows "\<exists>items. objListBySelector ch s kind namespace selector = Inr items \<and> distinct items \<and>
    set items = {ob. \<exists>key. st_m s key = Some ob \<and> key_Kind key = kind \<and>
      (namespace = NamespaceAll \<or> key_Namespace key = namespace) \<and> selector (Labels (metadata ob))}"
  using objListLocked_distinct [OF assms] set_objListLocked [OF assms(1) wf_state_finite [OF assms(2)]]
  by (auto simp: objListBySelector_def objList_def filterByLabelSelector_def)

theorem objListBySelector_spec_witness:
  "\<exists>items. objListBySelector example_choices example_state ''Pod'' NamespaceAll (\<lambda>_. True) = Inr items \<and>
    distinct items \<and> set items = {ob. \<exists>key. st_m example_state key = Some ob \<and> key_Kind key = ''Pod'' \<and>
      (NamespaceAll = NamespaceAll \<or> key_Namespace key = NamespaceAll) \<and> (\<lambda>_. True) (Labels (metadata ob))}"
  by (rule objListBySelector_spec [OF example_range_ok example_state_wf])

definition no_slash :: "OwnerReference option \<Rightarrow> bool" where
  "no_slash ref \<longleftrightarrow> (\<forall>r. ref = Some r \<longrightarrow>
     CHR ''/'' \<notin> set (or_Kind r) \<union> set (or_Name r) \<union> set (or_UID r))"

definition same_owner :: "OwnerReference option \<Rightarrow> OwnerReference option \<Rightarrow> bool" where
  "same_owner a b \<longleftrightarrow> map_option (\<lambda>r. (or_Kind r, or_Name r, or_UID r)) a
                      = map_option (\<lambda>r. (or_Kind r, or_Name r, or_UID r)) b"

lemma pod_key_eq_iff:
  assumes "CHR ''/'' \<notin> set ns" "CHR ''/'' \<notin> set ns'" "no_slash ref" "no_slash ref'"
  shows "PodControllerIndexKey ns ref = PodControllerIndexKey ns' ref' \<longleftrightarrow> ns = ns' \<and> same_owner ref ref'"
proof
  assume "PodControllerIndexKey ns ref = PodControllerIndexKey ns' ref'"
  with assms show "ns = ns' \<and> same_owner ref ref'"
    using PodControllerIndexKey_inject [of ns ns' ref ref'] unfolding no_slash_def same_owner_def by blast
next
  assume "ns = ns' \<and> same_owner ref ref'"
  then show "PodControllerIndexKey ns ref = PodControllerIndexKey ns' ref'"
    by (cases ref; cases ref') (simp_all add: same_owner_def PodControllerIndexKey_def)
qed

text \<open>The pod index returns exactly the pods of the namespace that the given controller
  controls, since the key it is searched by determines namespace and controller.\<close>

theorem ByIndex_podController_spec:
  assumes "range_ok ch" "wf_state s" and "CHR ''/'' \<notin> set namespace" "no_slash (Some r)"
    and "\<And>key pod. st_m s key = Some (KPod pod) \<Longrightarrow>
      CHR ''/'' \<notin> set (key_Namespace key) \<and> no_slash (GetControllerOf (ObjectMeta pod))"
  shows "\<exists>items. ByIndex ch s ''Pod'' ''podController'' (PodControllerIndexKey namespace (Some r)) = Inr items \<and>
    distinct items \<and>
    set items = {KPod pod | pod. \<exists>key. st_m s key = Some (KPod pod) \<and> Namespace (ObjectMeta pod) = namespace \<and>
      same_owner (GetControllerOf (ObjectMeta pod)) (Some r)}"
proof -
  let ?key = "PodControllerIndexKey namespace (Some r)"
  let ?match = "\<lambda>ob. \<exists>vs. index_of ''podController'' ob = Inr vs \<and> list_ex (\<lambda>v. v = ?key) vs"
  have match: "?match ob \<longleftrightarrow> (\<exists>pod. ob = KPod pod \<and> Namespace (ObjectMeta pod) = namespace \<and>
      same_owner (GetControllerOf (ObjectMeta pod)) (Some r))"
    if "st_m s key = Some ob" for key ob
  proof (cases ob)
    case (KPod pod)
    have "Namespace (ObjectMeta pod) = key_Namespace key"
      using wf_state_stored [OF assms(2) that] KPod by (simp add: stored_ok_def)
    then show ?thesis using assms(3,4) assms(5) [of key pod] that KPod
      by (auto simp: index_of_def pod_key_eq_iff)
  qed (simp_all add: index_of_def)
  have "set (objListLocked ch s ''Pod'' NamespaceAll) = {ob. \<exists>key. st_m s key = Some ob \<and> key_Kind key = ''Pod''}"
    using set_objListLocked [OF assms(1) wf_state_finite [OF assms(2)]] by auto
  moreover have "key_Kind key = ''Pod''" if "st_m s key = Some (KPod pod)" for key pod
    using wf_state_kind [OF assms(2) that] by simp
  ultimately have "set (filter ?match (objListLocked ch s ''Pod'' NamespaceAll)) =
      {KPod pod | pod. \<exists>key. st_m s key = Some (KPod pod) \<and> Namespace (ObjectMeta pod) = namespace \<and>
      same_owner (GetControllerOf (ObjectMeta pod)) (Some r)}"
    using match by fastforce
  then show ?thesis using objListLocked_distinct [OF assms(1,2)]
    by (simp add: ByIndex_def index_scan_known)
qed

definition example_owner :: OwnerReference where
  "example_owner = \<lparr>or_APIVersion = ''apps/v1'', or_Kind = ''ReplicaSet'', or_Name = ''web'', or_UID = ''v'',
     or_Controller = Some True, or_BlockOwnerDeletion = Some True\<rparr>"

theorem ByIndex_podController_spec_witness:
  "\<exists>items. ByIndex example_choices example_state ''Pod'' ''podController''
      (PodControllerIndexKey ''default'' (Some example_owner)) = Inr items \<and> distinct items \<and>
    set items = {KPod pod | pod. \<exists>key. st_m example_state key = Some (KPod pod) \<and>
      Namespace (ObjectMeta pod) = ''default'' \<and>
      same_owner (GetControllerOf (ObjectMeta pod)) (Some example_owner)}"
  by (rule ByIndex_podController_spec [OF example_range_ok example_state_wf])
    (auto simp: no_slash_def example_owner_def example_object_defs GetControllerOf_def split: if_splits)

text \<open>The controller UID index returns exactly the replica sets whose controller has that UID.\<close>

theorem ByIndex_controllerUID_spec:
  assumes "range_ok ch" "wf_state s"
  shows "\<exists>items. ByIndex ch s ''ReplicaSet'' ''controllerUID'' uid = Inr items \<and> distinct items \<and>
    set items = {KReplicaSet rs | rs. \<exists>key r. st_m s key = Some (KReplicaSet rs) \<and>
      GetControllerOf (ObjectMeta rs) = Some r \<and> or_UID r = uid}"
proof -
  let ?match = "\<lambda>ob. \<exists>vs. index_of ''controllerUID'' ob = Inr vs \<and> list_ex (\<lambda>v. v = uid) vs"
  have match: "?match ob \<longleftrightarrow> (\<exists>rs r. ob = KReplicaSet rs \<and> GetControllerOf (ObjectMeta rs) = Some r \<and> or_UID r = uid)"
    for ob by (cases ob) (auto simp: index_of_def split: option.splits)
  have "set (objListLocked ch s ''ReplicaSet'' NamespaceAll) =
      {ob. \<exists>key. st_m s key = Some ob \<and> key_Kind key = ''ReplicaSet''}"
    using set_objListLocked [OF assms(1) wf_state_finite [OF assms(2)]] by auto
  moreover have "key_Kind key = ''ReplicaSet''" if "st_m s key = Some (KReplicaSet rs)" for key rs
    using wf_state_kind [OF assms(2) that] by simp
  ultimately have "set (filter ?match (objListLocked ch s ''ReplicaSet'' NamespaceAll)) =
      {KReplicaSet rs | rs. \<exists>key r. st_m s key = Some (KReplicaSet rs) \<and>
      GetControllerOf (ObjectMeta rs) = Some r \<and> or_UID r = uid}"
    using match by fastforce
  then show ?thesis using objListLocked_distinct [OF assms]
    by (simp add: ByIndex_def index_scan_known)
qed

theorem ByIndex_controllerUID_spec_witness:
  "\<exists>items. ByIndex example_choices example_state ''ReplicaSet'' ''controllerUID'' ''v'' = Inr items \<and> distinct items \<and>
    set items = {KReplicaSet rs | rs. \<exists>key r. st_m example_state key = Some (KReplicaSet rs) \<and>
      GetControllerOf (ObjectMeta rs) = Some r \<and> or_UID r = ''v''}"
  by (rule ByIndex_controllerUID_spec [OF example_range_ok example_state_wf])

end
