(* ===== verification/Api_Admission.thy ===== *)
theory Api_Admission
  imports Api_Example
begin

text \<open>
  The create and update pipelines of src/kubernetes_model/apimodel/api_model.go (lines 300
  to 1008): metadata validation, admission mutation, schema defaulting, the conversion to
  internal objects, strategy hooks, and their composition.

  The scheme's conversions, the schema defaults and the REST strategies are Kubernetes code
  that is not in this repository; they are the fields of \<open>kind_ops\<close> (one record per
  kind) and of \<open>env\<close>. What the code relies on of them is \<open>upstream_laws\<close>, stated at
  the end and used as a hypothesis only where it is needed.
\<close>

section \<open>Kubernetes functions the model calls\<close>

record 'a kind_ops =
  to_internal :: "'a \<Rightarrow> string + 'a"
  to_versioned :: "'a \<Rightarrow> string + 'a"
  SetObjectDefaults :: "'a \<Rightarrow> 'a"
  PrepareForCreate :: "'a \<Rightarrow> 'a"
  StrategyValidate :: "'a \<Rightarrow> string list"
  Canonicalize :: "'a \<Rightarrow> 'a"
  RestBeforeUpdate :: "string \<Rightarrow> 'a \<Rightarrow> 'a \<Rightarrow> error + 'a"
  RestBeforeStatusUpdate :: "string \<Rightarrow> 'a \<Rightarrow> 'a \<Rightarrow> error + 'a"

record env =
  podOps :: "Pod kind_ops"
  pvcOps :: "PersistentVolumeClaim kind_ops"
  saOps :: "ServiceAccount kind_ops"
  rsOps :: "ReplicaSet kind_ops"
  ssOps :: "StatefulSet kind_ops"
  deployOps :: "Deployment kind_ops"
  roleOps :: "ClusterRole kind_ops"
  revOps :: "ControllerRevision kind_ops"
  WipeObjectMetaSystemFields :: "ObjectMeta \<Rightarrow> ObjectMeta"
  EnsureObjectNamespaceMatchesRequestNamespace :: "string \<Rightarrow> ObjectMeta \<Rightarrow> error + ObjectMeta"
  ValidateObjectMetaAccessor :: "ObjectMeta \<Rightarrow> bool \<Rightarrow> string list"
  PodCheckGracefulDelete :: "Pod \<Rightarrow> DeleteOptions \<Rightarrow> bool \<times> Pod \<times> DeleteOptions"

text \<open>The Go types, as \<open>%T\<close> prints them in the error messages of the dispatchers.\<close>

definition validateObjectMeta :: "env \<Rightarrow> ObjectMeta \<Rightarrow> string \<Rightarrow> error option" where
  "validateObjectMeta E md kind =
     (let requiresNamespace = (kind \<noteq> ''ClusterRole'');
          errs = ValidateObjectMetaAccessor E md requiresNamespace
      in if errs \<noteq> [] then Some (Invalid kind (Name md) errs) else None)"

section \<open>Admission on pods and claims\<close>

definition TaintNodeNotReady :: string where
  "TaintNodeNotReady = ''node.kubernetes.io/not-ready''"

definition TaintNodeUnreachable :: string where
  "TaintNodeUnreachable = ''node.kubernetes.io/unreachable''"

definition TaintEffectNoExecute :: string where "TaintEffectNoExecute = ''NoExecute''"
definition TolerationOpExists :: string where "TolerationOpExists = ''Exists''"
definition PreemptLowerPriority :: string where "PreemptLowerPriority = ''PreemptLowerPriority''"
definition ClaimPending :: string where "ClaimPending = ''Pending''"

lemmas taint_constants = TaintNodeNotReady_def TaintNodeUnreachable_def TaintEffectNoExecute_def

definition tolerates_taint :: "string \<Rightarrow> Toleration \<Rightarrow> bool" where
  "tolerates_taint taint tol \<longleftrightarrow>
     (tol_Key tol = taint \<or> tol_Key tol = []) \<and>
     (tol_Effect tol = TaintEffectNoExecute \<or> tol_Effect tol = [])"

definition default_toleration :: "string \<Rightarrow> Toleration" where
  "default_toleration taint =
     \<lparr>tol_Key = taint, tol_Operator = TolerationOpExists, tol_Value = [],
      tol_Effect = TaintEffectNoExecute, tol_TolerationSeconds = Some 300\<rparr>"

definition applyDefaultTolerationSeconds :: "Pod \<Rightarrow> Pod" where
  "applyDefaultTolerationSeconds pod =
     (let tolerations = elems (Tolerations (pod_Spec pod));
          toleratesNodeNotReady = list_ex (tolerates_taint TaintNodeNotReady) tolerations;
          toleratesNodeUnreachable = list_ex (tolerates_taint TaintNodeUnreachable) tolerations;
          added = (if toleratesNodeNotReady then [] else [default_toleration TaintNodeNotReady]) @
                  (if toleratesNodeUnreachable then [] else [default_toleration TaintNodeUnreachable])
      in pod\<lparr>pod_Spec := (pod_Spec pod)\<lparr>Tolerations := append_slice (Tolerations (pod_Spec pod)) added\<rparr>\<rparr>)"

definition applyPriorityAdmission :: "Pod \<Rightarrow> Pod" where
  "applyPriorityAdmission pod =
     (if Priority (pod_Spec pod) = None \<and> PriorityClassName (pod_Spec pod) = []
      then pod\<lparr>pod_Spec := (pod_Spec pod)
             \<lparr>Priority := Some 0, PreemptionPolicy := Some PreemptLowerPriority\<rparr>\<rparr>
      else pod)"

definition pvcProtectionFinalizer :: string where
  "pvcProtectionFinalizer = ''kubernetes.io/pvc-protection''"

definition applyPersistentVolumeClaimProtectionAdmission ::
  "PersistentVolumeClaim \<Rightarrow> PersistentVolumeClaim" where
  "applyPersistentVolumeClaimProtectionAdmission pvc =
     (if pvcProtectionFinalizer \<in> set (elems (Finalizers (ObjectMeta pvc))) then pvc
      else pvc\<lparr>ObjectMeta := (ObjectMeta pvc)
             \<lparr>Finalizers := append_slice (Finalizers (ObjectMeta pvc)) [pvcProtectionFinalizer]\<rparr>\<rparr>)"

section \<open>Conversion and defaulting\<close>

definition convert_in ::
  "string \<Rightarrow> ('a \<Rightarrow> legacy) \<Rightarrow> 'a kind_ops \<Rightarrow> 'a \<Rightarrow> error + legacy" where
  "convert_in msg C ops x =
     (case to_internal ops x of Inl e \<Rightarrow> Inl (BadRequest msg [e]) | Inr y \<Rightarrow> Inr (C y))"

fun convertVersionedToLegacy :: "env \<Rightarrow> kobject \<Rightarrow> error + legacy" where
  "convertVersionedToLegacy E (KPod x) =
     convert_in ''failed to convert v1.Pod to internal Pod: %v'' LPod (podOps E) x"
| "convertVersionedToLegacy E (KPersistentVolumeClaim x) =
     convert_in ''failed to convert v1.PersistentVolumeClaim to internal PersistentVolumeClaim: %v''
       LPersistentVolumeClaim (pvcOps E) x"
| "convertVersionedToLegacy E (KServiceAccount x) =
     convert_in ''failed to convert v1.ServiceAccount to internal ServiceAccount: %v''
       LServiceAccount (saOps E) x"
| "convertVersionedToLegacy E (KReplicaSet x) =
     convert_in ''failed to convert appsv1.ReplicaSet to internal ReplicaSet: %v''
       LReplicaSet (rsOps E) x"
| "convertVersionedToLegacy E (KStatefulSet x) =
     convert_in ''failed to convert appsv1.StatefulSet to internal StatefulSet: %v''
       LStatefulSet (ssOps E) x"
| "convertVersionedToLegacy E (KDeployment x) =
     convert_in ''failed to convert appsv1.Deployment to internal Deployment: %v''
       LDeployment (deployOps E) x"
| "convertVersionedToLegacy E (KClusterRole x) =
     convert_in ''failed to convert rbacv1.ClusterRole to internal ClusterRole: %v''
       LClusterRole (roleOps E) x"
| "convertVersionedToLegacy E (KControllerRevision x) =
     convert_in ''failed to convert ControllerRevision: %v'' LControllerRevision (revOps E) x"
| "convertVersionedToLegacy E (KNamespace _) =
     Inl (Errorf ''unsupported versioned object type for conversion: %T'' [''*v1.Namespace''])"

text \<open>\<open>legacyscheme.Scheme.Convert(legacyObj, obj, nil)\<close>, writing back to the versioned object.\<close>

definition convert_out ::
  "string \<Rightarrow> ('a \<Rightarrow> kobject) \<Rightarrow> 'a kind_ops \<Rightarrow> 'a \<Rightarrow> error + kobject" where
  "convert_out msg C ops x =
     (case to_versioned ops x of Inl e \<Rightarrow> Inl (BadRequest msg [e]) | Inr y \<Rightarrow> Inr (C y))"

fun convertLegacyToVersioned :: "env \<Rightarrow> string \<Rightarrow> legacy \<Rightarrow> error + kobject" where
  "convertLegacyToVersioned E msg (LPod x) = convert_out msg KPod (podOps E) x"
| "convertLegacyToVersioned E msg (LPersistentVolumeClaim x) =
     convert_out msg KPersistentVolumeClaim (pvcOps E) x"
| "convertLegacyToVersioned E msg (LServiceAccount x) = convert_out msg KServiceAccount (saOps E) x"
| "convertLegacyToVersioned E msg (LReplicaSet x) = convert_out msg KReplicaSet (rsOps E) x"
| "convertLegacyToVersioned E msg (LStatefulSet x) = convert_out msg KStatefulSet (ssOps E) x"
| "convertLegacyToVersioned E msg (LDeployment x) = convert_out msg KDeployment (deployOps E) x"
| "convertLegacyToVersioned E msg (LClusterRole x) = convert_out msg KClusterRole (roleOps E) x"
| "convertLegacyToVersioned E msg (LControllerRevision x) =
     convert_out msg KControllerRevision (revOps E) x"

fun applySchemaDefaults :: "env \<Rightarrow> kobject \<Rightarrow> error + kobject" where
  "applySchemaDefaults E (KPod x) = Inr (KPod (SetObjectDefaults (podOps E) x))"
| "applySchemaDefaults E (KPersistentVolumeClaim x) =
     Inr (KPersistentVolumeClaim (SetObjectDefaults (pvcOps E) x))"
| "applySchemaDefaults E (KServiceAccount x) = Inr (KServiceAccount x)"
| "applySchemaDefaults E (KReplicaSet x) = Inr (KReplicaSet (SetObjectDefaults (rsOps E) x))"
| "applySchemaDefaults E (KStatefulSet x) = Inr (KStatefulSet (SetObjectDefaults (ssOps E) x))"
| "applySchemaDefaults E (KDeployment x) = Inr (KDeployment (SetObjectDefaults (deployOps E) x))"
| "applySchemaDefaults E (KClusterRole x) = Inr (KClusterRole x)"
| "applySchemaDefaults E (KControllerRevision x) = Inr (KControllerRevision x)"
| "applySchemaDefaults E (KNamespace _) =
     Inl (Errorf ''unsupported object type for schema defaults: %T'' [''*v1.Namespace''])"

section \<open>Strategy hooks on create\<close>

fun applyStrategyPrepareForCreate :: "env \<Rightarrow> legacy \<Rightarrow> error + legacy" where
  "applyStrategyPrepareForCreate E (LPod x) = Inr (LPod (PrepareForCreate (podOps E) x))"
| "applyStrategyPrepareForCreate E (LPersistentVolumeClaim x) =
     Inr (LPersistentVolumeClaim (PrepareForCreate (pvcOps E) x))"
| "applyStrategyPrepareForCreate E (LServiceAccount x) =
     Inr (LServiceAccount (PrepareForCreate (saOps E) x))"
| "applyStrategyPrepareForCreate E (LReplicaSet x) = Inr (LReplicaSet (PrepareForCreate (rsOps E) x))"
| "applyStrategyPrepareForCreate E (LStatefulSet x) = Inr (LStatefulSet (PrepareForCreate (ssOps E) x))"
| "applyStrategyPrepareForCreate E (LDeployment x) =
     Inr (LDeployment (PrepareForCreate (deployOps E) x))"
| "applyStrategyPrepareForCreate E (LClusterRole x) =
     Inr (LClusterRole (PrepareForCreate (roleOps E) x))"
| "applyStrategyPrepareForCreate E (LControllerRevision x) =
     Inr (LControllerRevision (PrepareForCreate (revOps E) x))"

fun applyAdmissionMutate :: "legacy \<Rightarrow> error + legacy" where
  "applyAdmissionMutate (LPod x) = Inr (LPod (applyPriorityAdmission (applyDefaultTolerationSeconds x)))"
| "applyAdmissionMutate (LPersistentVolumeClaim x) =
     Inr (LPersistentVolumeClaim (applyPersistentVolumeClaimProtectionAdmission x))"
| "applyAdmissionMutate (LServiceAccount x) = Inr (LServiceAccount x)"
| "applyAdmissionMutate (LReplicaSet x) = Inr (LReplicaSet x)"
| "applyAdmissionMutate (LStatefulSet x) = Inr (LStatefulSet x)"
| "applyAdmissionMutate (LDeployment x) = Inr (LDeployment x)"
| "applyAdmissionMutate (LClusterRole x) = Inr (LClusterRole x)"
| "applyAdmissionMutate (LControllerRevision x) = Inr (LControllerRevision x)"

fun applyPostPrepareCreateDefaults :: "legacy \<Rightarrow> error + legacy" where
  "applyPostPrepareCreateDefaults (LPersistentVolumeClaim x) =
     Inr (LPersistentVolumeClaim (if pvc_Phase x = [] then x\<lparr>pvc_Phase := ClaimPending\<rparr> else x))"
| "applyPostPrepareCreateDefaults ob = Inr ob"

definition validate_with :: "'a kind_ops \<Rightarrow> string \<Rightarrow> string \<Rightarrow> 'a \<Rightarrow> error option" where
  "validate_with ops kind name x =
     (if StrategyValidate ops x \<noteq> [] then Some (Invalid kind name (StrategyValidate ops x)) else None)"

fun applyStrategyValidate :: "env \<Rightarrow> legacy \<Rightarrow> string \<Rightarrow> error option" where
  "applyStrategyValidate E (LPod x) name = validate_with (podOps E) ''Pod'' name x"
| "applyStrategyValidate E (LPersistentVolumeClaim x) name =
     validate_with (pvcOps E) ''PersistentVolumeClaim'' name x"
| "applyStrategyValidate E (LServiceAccount x) name = validate_with (saOps E) ''ServiceAccount'' name x"
| "applyStrategyValidate E (LReplicaSet x) name = validate_with (rsOps E) ''apps/ReplicaSet'' name x"
| "applyStrategyValidate E (LStatefulSet x) name = validate_with (ssOps E) ''apps/StatefulSet'' name x"
| "applyStrategyValidate E (LDeployment x) name = validate_with (deployOps E) ''apps/Deployment'' name x"
| "applyStrategyValidate E (LClusterRole x) name =
     validate_with (roleOps E) ''rbac.authorization.k8s.io/ClusterRole'' name x"
| "applyStrategyValidate E (LControllerRevision x) name =
     validate_with (revOps E) ''apps/ControllerRevision'' name x"

fun applyStrategyCanonicalize :: "env \<Rightarrow> legacy \<Rightarrow> error + legacy" where
  "applyStrategyCanonicalize E (LPod x) = Inr (LPod (Canonicalize (podOps E) x))"
| "applyStrategyCanonicalize E (LPersistentVolumeClaim x) =
     Inr (LPersistentVolumeClaim (Canonicalize (pvcOps E) x))"
| "applyStrategyCanonicalize E (LServiceAccount x) = Inr (LServiceAccount (Canonicalize (saOps E) x))"
| "applyStrategyCanonicalize E (LReplicaSet x) = Inr (LReplicaSet (Canonicalize (rsOps E) x))"
| "applyStrategyCanonicalize E (LStatefulSet x) = Inr (LStatefulSet (Canonicalize (ssOps E) x))"
| "applyStrategyCanonicalize E (LDeployment x) = Inr (LDeployment (Canonicalize (deployOps E) x))"
| "applyStrategyCanonicalize E (LClusterRole x) = Inr (LClusterRole (Canonicalize (roleOps E) x))"
| "applyStrategyCanonicalize E (LControllerRevision x) =
     Inr (LControllerRevision (Canonicalize (revOps E) x))"

text \<open>No validating admission is mirrored: every supported object is accepted.\<close>

fun applyAdmissionValidate :: "legacy \<Rightarrow> error option" where
  "applyAdmissionValidate (LPod _) = None"
| "applyAdmissionValidate (LPersistentVolumeClaim _) = None"
| "applyAdmissionValidate (LServiceAccount _) = None"
| "applyAdmissionValidate (LReplicaSet _) = None"
| "applyAdmissionValidate (LStatefulSet _) = None"
| "applyAdmissionValidate (LDeployment _) = None"
| "applyAdmissionValidate (LClusterRole _) = None"
| "applyAdmissionValidate (LControllerRevision _) = None"

lemma applyAdmissionValidate_None [simp]: "applyAdmissionValidate ob = None"
  by (cases ob) simp_all

fun normalizeVersionedObject :: "kobject \<Rightarrow> kobject" where
  "normalizeVersionedObject (KStatefulSet x) =
     KStatefulSet (x\<lparr>ss_Spec := (ss_Spec x)\<lparr>VolumeClaimTemplates :=
       map_option (map (\<lambda>t. t\<lparr>TypeMeta := empty_TypeMeta\<rparr>)) (VolumeClaimTemplates (ss_Spec x))\<rparr>\<rparr>)"
| "normalizeVersionedObject ob = ob"

section \<open>The create pipeline\<close>

text \<open>\<open>if err := check; err != nil { return err }\<close>, for a check that changes nothing.\<close>

definition check :: "error option \<Rightarrow> (error + 'a) \<Rightarrow> error + 'a" where
  "check c k = (case c of Some e \<Rightarrow> Inl e | None \<Rightarrow> k)"

lemma check_simps [simp]: "check None k = k" "check (Some e) k = Inl e"
  by (simp_all add: check_def)

lemma check_Inr_iff: "check c k = Inr y \<longleftrightarrow> c = None \<and> k = Inr y"
  by (cases c) auto

definition applyValidationAndDefaulting :: "env \<Rightarrow> kobject \<Rightarrow> string \<Rightarrow> error + kobject" where
  "applyValidationAndDefaulting E ob name =
     ebind (applySchemaDefaults E ob) (\<lambda>ob1.
     ebind (convertVersionedToLegacy E ob1) (\<lambda>l0.
     ebind (applyAdmissionMutate l0) (\<lambda>l1.
     ebind (applyStrategyPrepareForCreate E l1) (\<lambda>l2.
     ebind (applyPostPrepareCreateDefaults l2) (\<lambda>l3.
     check (applyStrategyValidate E l3 name) (
     ebind (applyStrategyCanonicalize E l3) (\<lambda>l4.
     check (applyAdmissionValidate l4) (
     ebind (convertLegacyToVersioned E ''failed to convert internal object back to versioned object: %v'' l4)
       (\<lambda>ob2. Inr (normalizeVersionedObject ob2))))))))))"

section \<open>The update pipelines\<close>

fun applyAdmissionMutateForUpdate :: "legacy \<Rightarrow> legacy \<Rightarrow> error + legacy" where
  "applyAdmissionMutateForUpdate (LPod x) oldObj =
     (case oldObj of
        LPod oldPod \<Rightarrow>
          (let p1 = applyDefaultTolerationSeconds x;
               p2 = (if Priority (pod_Spec p1) = None \<and> Priority (pod_Spec oldPod) \<noteq> None
                     then p1\<lparr>pod_Spec := (pod_Spec p1)\<lparr>Priority := Priority (pod_Spec oldPod)\<rparr>\<rparr> else p1);
               p3 = (if PreemptionPolicy (pod_Spec p2) = None \<and> PreemptionPolicy (pod_Spec oldPod) \<noteq> None
                     then p2\<lparr>pod_Spec := (pod_Spec p2)
                            \<lparr>PreemptionPolicy := PreemptionPolicy (pod_Spec oldPod)\<rparr>\<rparr> else p2)
           in Inr (LPod p3))
      | _ \<Rightarrow> Inl (Errorf ''expected *core.Pod for old object, got %T'' [legacy_kind oldObj]))"
| "applyAdmissionMutateForUpdate ob oldObj = Inr ob"

definition updatable_kinds :: "string list" where
  "updatable_kinds = [''Pod'', ''PersistentVolumeClaim'', ''ReplicaSet'', ''StatefulSet'',
     ''Deployment'', ''ControllerRevision'', ''ServiceAccount'', ''ClusterRole'']"

definition allowUnconditionalUpdate :: "string \<Rightarrow> error + bool" where
  "allowUnconditionalUpdate kind =
     (if kind \<in> set updatable_kinds then Inr True
      else Inl (Errorf ''unsupported kind for update: %s'' [kind]))"

datatype strategy =
    PodStrategy | PVCStrategy | ServiceAccountStrategy | ReplicaSetStrategy
  | StatefulSetStrategy | DeploymentStrategy | ClusterRoleStrategy | ControllerRevisionStrategy
  | PodStatusStrategy | PVCStatusStrategy | ReplicaSetStatusStrategy
  | StatefulSetStatusStrategy | DeploymentStatusStrategy

fun updateStrategyForLegacyObject :: "legacy \<Rightarrow> error + strategy" where
  "updateStrategyForLegacyObject (LServiceAccount _) = Inr ServiceAccountStrategy"
| "updateStrategyForLegacyObject (LPod _) = Inr PodStrategy"
| "updateStrategyForLegacyObject (LPersistentVolumeClaim _) = Inr PVCStrategy"
| "updateStrategyForLegacyObject (LReplicaSet _) = Inr ReplicaSetStrategy"
| "updateStrategyForLegacyObject (LStatefulSet _) = Inr StatefulSetStrategy"
| "updateStrategyForLegacyObject (LDeployment _) = Inr DeploymentStrategy"
| "updateStrategyForLegacyObject (LClusterRole _) = Inr ClusterRoleStrategy"
| "updateStrategyForLegacyObject (LControllerRevision _) = Inr ControllerRevisionStrategy"

fun statusUpdateStrategyForLegacyObject :: "legacy \<Rightarrow> error + strategy" where
  "statusUpdateStrategyForLegacyObject (LPod _) = Inr PodStatusStrategy"
| "statusUpdateStrategyForLegacyObject (LPersistentVolumeClaim _) = Inr PVCStatusStrategy"
| "statusUpdateStrategyForLegacyObject (LReplicaSet _) = Inr ReplicaSetStatusStrategy"
| "statusUpdateStrategyForLegacyObject (LStatefulSet _) = Inr StatefulSetStatusStrategy"
| "statusUpdateStrategyForLegacyObject (LDeployment _) = Inr DeploymentStatusStrategy"
| "statusUpdateStrategyForLegacyObject ob =
     Inl (Errorf ''unsupported object type for status update strategy: %T'' [legacy_kind ob])"

text \<open>
  \<open>rest.BeforeUpdate(strategy, ctx, obj, old)\<close>. A strategy asserts the Go type of both
  objects; a mismatch is a panic, written as an error here. It cannot happen on a
  well-formed state, where the stored object has the kind of its key.
\<close>

definition type_panic :: error where
  "type_panic = UpstreamError ''panic: interface conversion''"

fun as_Pod :: "legacy \<Rightarrow> Pod option" where
  "as_Pod (LPod x) = Some x"
| "as_Pod _ = None"

fun as_PersistentVolumeClaim :: "legacy \<Rightarrow> PersistentVolumeClaim option" where
  "as_PersistentVolumeClaim (LPersistentVolumeClaim x) = Some x"
| "as_PersistentVolumeClaim _ = None"

fun as_ServiceAccount :: "legacy \<Rightarrow> ServiceAccount option" where
  "as_ServiceAccount (LServiceAccount x) = Some x"
| "as_ServiceAccount _ = None"

fun as_ReplicaSet :: "legacy \<Rightarrow> ReplicaSet option" where
  "as_ReplicaSet (LReplicaSet x) = Some x"
| "as_ReplicaSet _ = None"

fun as_StatefulSet :: "legacy \<Rightarrow> StatefulSet option" where
  "as_StatefulSet (LStatefulSet x) = Some x"
| "as_StatefulSet _ = None"

fun as_Deployment :: "legacy \<Rightarrow> Deployment option" where
  "as_Deployment (LDeployment x) = Some x"
| "as_Deployment _ = None"

fun as_ClusterRole :: "legacy \<Rightarrow> ClusterRole option" where
  "as_ClusterRole (LClusterRole x) = Some x"
| "as_ClusterRole _ = None"

fun as_ControllerRevision :: "legacy \<Rightarrow> ControllerRevision option" where
  "as_ControllerRevision (LControllerRevision x) = Some x"
| "as_ControllerRevision _ = None"

definition typed_update ::
  "(legacy \<Rightarrow> 'a option) \<Rightarrow> ('a \<Rightarrow> legacy) \<Rightarrow> ('a \<Rightarrow> 'a \<Rightarrow> error + 'a) \<Rightarrow> legacy \<Rightarrow> legacy \<Rightarrow> error + legacy" where
  "typed_update as C f ob old =
     (case as ob of
        None \<Rightarrow> Inl type_panic
      | Some x \<Rightarrow> (case as old of None \<Rightarrow> Inl type_panic | Some y \<Rightarrow> map_sum id C (f x y)))"

fun BeforeUpdate :: "env \<Rightarrow> strategy \<Rightarrow> string \<Rightarrow> legacy \<Rightarrow> legacy \<Rightarrow> error + legacy" where
  "BeforeUpdate E PodStrategy ns ob old =
     typed_update as_Pod LPod (RestBeforeUpdate (podOps E) ns) ob old"
| "BeforeUpdate E PVCStrategy ns ob old =
     typed_update as_PersistentVolumeClaim LPersistentVolumeClaim (RestBeforeUpdate (pvcOps E) ns) ob old"
| "BeforeUpdate E ServiceAccountStrategy ns ob old =
     typed_update as_ServiceAccount LServiceAccount (RestBeforeUpdate (saOps E) ns) ob old"
| "BeforeUpdate E ReplicaSetStrategy ns ob old =
     typed_update as_ReplicaSet LReplicaSet (RestBeforeUpdate (rsOps E) ns) ob old"
| "BeforeUpdate E StatefulSetStrategy ns ob old =
     typed_update as_StatefulSet LStatefulSet (RestBeforeUpdate (ssOps E) ns) ob old"
| "BeforeUpdate E DeploymentStrategy ns ob old =
     typed_update as_Deployment LDeployment (RestBeforeUpdate (deployOps E) ns) ob old"
| "BeforeUpdate E ClusterRoleStrategy ns ob old =
     typed_update as_ClusterRole LClusterRole (RestBeforeUpdate (roleOps E) ns) ob old"
| "BeforeUpdate E ControllerRevisionStrategy ns ob old =
     typed_update as_ControllerRevision LControllerRevision (RestBeforeUpdate (revOps E) ns) ob old"
| "BeforeUpdate E PodStatusStrategy ns ob old =
     typed_update as_Pod LPod (RestBeforeStatusUpdate (podOps E) ns) ob old"
| "BeforeUpdate E PVCStatusStrategy ns ob old =
     typed_update as_PersistentVolumeClaim LPersistentVolumeClaim (RestBeforeStatusUpdate (pvcOps E) ns) ob old"
| "BeforeUpdate E ReplicaSetStatusStrategy ns ob old =
     typed_update as_ReplicaSet LReplicaSet (RestBeforeStatusUpdate (rsOps E) ns) ob old"
| "BeforeUpdate E StatefulSetStatusStrategy ns ob old =
     typed_update as_StatefulSet LStatefulSet (RestBeforeStatusUpdate (ssOps E) ns) ob old"
| "BeforeUpdate E DeploymentStatusStrategy ns ob old =
     typed_update as_Deployment LDeployment (RestBeforeStatusUpdate (deployOps E) ns) ob old"

definition applyValidationAndDefaultingOnUpdate ::
  "env \<Rightarrow> kobject \<Rightarrow> kobject \<Rightarrow> string \<Rightarrow> error + kobject" where
  "applyValidationAndDefaultingOnUpdate E newObj oldObj namespace =
     ebind (applySchemaDefaults E newObj) (\<lambda>new1.
     ebind (convertVersionedToLegacy E new1) (\<lambda>legacyNewObj.
     ebind (convertVersionedToLegacy E oldObj) (\<lambda>legacyOldObj.
     ebind (applyAdmissionMutateForUpdate legacyNewObj legacyOldObj) (\<lambda>mutated.
     ebind (updateStrategyForLegacyObject mutated) (\<lambda>strategy.
     ebind (BeforeUpdate E strategy namespace mutated legacyOldObj) (\<lambda>updated.
     check (applyAdmissionValidate updated) (
     ebind (convertLegacyToVersioned E
              ''failed to convert internal updated object back to versioned object: %v'' updated)
       (\<lambda>new2. Inr (normalizeVersionedObject new2)))))))))"

definition applyValidationAndDefaultingOnStatusUpdate ::
  "env \<Rightarrow> kobject \<Rightarrow> kobject \<Rightarrow> string \<Rightarrow> error + kobject" where
  "applyValidationAndDefaultingOnStatusUpdate E newObj oldObj namespace =
     ebind (applySchemaDefaults E newObj) (\<lambda>new1.
     ebind (convertVersionedToLegacy E new1) (\<lambda>legacyNewObj.
     ebind (convertVersionedToLegacy E oldObj) (\<lambda>legacyOldObj.
     ebind (statusUpdateStrategyForLegacyObject legacyNewObj) (\<lambda>strategy.
     ebind (BeforeUpdate E strategy namespace legacyNewObj legacyOldObj) (\<lambda>updated.
     check (applyAdmissionValidate updated) (
     ebind (convertLegacyToVersioned E
              ''failed to convert internal status-updated object back to versioned object: %v'' updated)
       (\<lambda>new2. Inr (normalizeVersionedObject new2))))))))"

section \<open>What Kubernetes promises of these functions\<close>

text \<open>
  The identity of an object is its name, namespace and UID. Conversion, defaulting and the
  create hooks keep it; \<open>rest.BeforeUpdate\<close> rejects an update that would change the
  identity of the stored object (name, namespace and UID are immutable, an empty UID is
  filled in); \<open>EnsureObjectNamespaceMatchesRequestNamespace\<close> succeeds only by setting
  the request's namespace; the pod strategy's
  \<open>CheckGracefulDelete\<close> decides about the options and leaves the metadata alone. A
  conversion copies the metadata, except that it drops deprecated annotations.
\<close>

definition same_id :: "ObjectMeta \<Rightarrow> ObjectMeta \<Rightarrow> bool" where
  "same_id a b \<longleftrightarrow> Name a = Name b \<and> Namespace a = Namespace b \<and> UID a = UID b"

definition converted :: "ObjectMeta \<Rightarrow> ObjectMeta \<Rightarrow> bool" where
  "converted a b \<longleftrightarrow> (\<exists>annotations. a = b\<lparr>Annotations := annotations\<rparr>)"

definition ops_laws :: "'z Object_scheme kind_ops \<Rightarrow> bool" where
  "ops_laws ops \<longleftrightarrow>
     (\<forall>x y. to_internal ops x = Inr y \<longrightarrow> converted (ObjectMeta y) (ObjectMeta x)) \<and>
     (\<forall>x y. to_versioned ops x = Inr y \<longrightarrow> converted (ObjectMeta y) (ObjectMeta x)) \<and>
     (\<forall>x. same_id (ObjectMeta (SetObjectDefaults ops x)) (ObjectMeta x)) \<and>
     (\<forall>x. same_id (ObjectMeta (PrepareForCreate ops x)) (ObjectMeta x)) \<and>
     (\<forall>x. same_id (ObjectMeta (Canonicalize ops x)) (ObjectMeta x)) \<and>
     (\<forall>ns x y z. RestBeforeUpdate ops ns x y = Inr z \<longrightarrow> same_id (ObjectMeta z) (ObjectMeta y)) \<and>
     (\<forall>ns x y z. RestBeforeStatusUpdate ops ns x y = Inr z \<longrightarrow> same_id (ObjectMeta z) (ObjectMeta y))"

definition upstream_laws :: "env \<Rightarrow> bool" where
  "upstream_laws E \<longleftrightarrow>
     ops_laws (podOps E) \<and> ops_laws (pvcOps E) \<and> ops_laws (saOps E) \<and> ops_laws (rsOps E) \<and>
     ops_laws (ssOps E) \<and> ops_laws (deployOps E) \<and> ops_laws (roleOps E) \<and> ops_laws (revOps E) \<and>
     (\<forall>md. Name (WipeObjectMetaSystemFields E md) = Name md) \<and>
     (\<forall>ns md md'. EnsureObjectNamespaceMatchesRequestNamespace E ns md = Inr md' \<longrightarrow>
        md' = md\<lparr>Namespace := ns\<rparr>) \<and>
     (\<forall>p opts g p' opts'. PodCheckGracefulDelete E p opts = (g, p', opts') \<longrightarrow>
        ObjectMeta p' = ObjectMeta p)"

section \<open>What the pipelines keep\<close>

lemma same_id_refl [simp]: "same_id a a"
  by (simp add: same_id_def)

lemma same_id_sym: "same_id a b \<Longrightarrow> same_id b a"
  by (simp add: same_id_def)

lemma same_id_trans: "same_id a b \<Longrightarrow> same_id b c \<Longrightarrow> same_id a c"
  by (simp add: same_id_def)

lemma converted_id: "converted a b \<Longrightarrow> same_id a b"
  by (auto simp: converted_def same_id_def)

lemma ops_convertedD:
  assumes "ops_laws ops"
  shows "to_internal ops x = Inr y \<Longrightarrow> converted (ObjectMeta y) (ObjectMeta x)"
    and "to_versioned ops x = Inr y \<Longrightarrow> converted (ObjectMeta y) (ObjectMeta x)"
  using assms by (auto simp: ops_laws_def)

lemma ops_lawsD:
  assumes "ops_laws ops"
  shows "to_internal ops x = Inr y \<Longrightarrow> same_id (ObjectMeta y) (ObjectMeta x)"
    and "to_versioned ops x = Inr y \<Longrightarrow> same_id (ObjectMeta y) (ObjectMeta x)"
    and "same_id (ObjectMeta (SetObjectDefaults ops x)) (ObjectMeta x)"
    and "same_id (ObjectMeta (PrepareForCreate ops x)) (ObjectMeta x)"
    and "same_id (ObjectMeta (Canonicalize ops x)) (ObjectMeta x)"
    and "RestBeforeUpdate ops ns x y = Inr z \<Longrightarrow> same_id (ObjectMeta z) (ObjectMeta y)"
    and "RestBeforeStatusUpdate ops ns x y = Inr z \<Longrightarrow> same_id (ObjectMeta z) (ObjectMeta y)"
  using assms by (auto simp: ops_laws_def intro: converted_id)

lemma upstream_opsD:
  assumes "upstream_laws E"
  shows "ops_laws (podOps E)" "ops_laws (pvcOps E)" "ops_laws (saOps E)" "ops_laws (rsOps E)"
    "ops_laws (ssOps E)" "ops_laws (deployOps E)" "ops_laws (roleOps E)" "ops_laws (revOps E)"
  using assms by (simp_all add: upstream_laws_def)

lemmas env_opsD =
  ops_lawsD [OF upstream_opsD(1)] ops_lawsD [OF upstream_opsD(2)] ops_lawsD [OF upstream_opsD(3)]
  ops_lawsD [OF upstream_opsD(4)] ops_lawsD [OF upstream_opsD(5)] ops_lawsD [OF upstream_opsD(6)]
  ops_lawsD [OF upstream_opsD(7)] ops_lawsD [OF upstream_opsD(8)]

lemma ensure_namespaceD:
  "upstream_laws E \<Longrightarrow> EnsureObjectNamespaceMatchesRequestNamespace E ns md = Inr md' \<Longrightarrow>
    md' = md\<lparr>Namespace := ns\<rparr>"
  by (simp add: upstream_laws_def)

text \<open>Every stage keeps the Go type of the object.\<close>

named_theorems stage_kind \<open>the type of the object after one stage of a pipeline\<close>

lemma convert_in_kind [stage_kind]:
  "convertVersionedToLegacy E ob = Inr l \<Longrightarrow> legacy_kind l = kind_of ob"
  by (cases ob) (auto simp: convert_in_def split: sum.splits)

lemma convert_out_kind [stage_kind]:
  "convertLegacyToVersioned E msg l = Inr ob \<Longrightarrow> kind_of ob = legacy_kind l"
  by (cases l) (auto simp: convert_out_def split: sum.splits)

lemma schema_defaults_kind [stage_kind]:
  "applySchemaDefaults E ob = Inr ob' \<Longrightarrow> kind_of ob' = kind_of ob"
  by (cases ob) auto

lemma prepare_kind [stage_kind]:
  "applyStrategyPrepareForCreate E l = Inr l' \<Longrightarrow> legacy_kind l' = legacy_kind l"
  by (cases l) auto

lemma admission_kind [stage_kind]:
  "applyAdmissionMutate l = Inr l' \<Longrightarrow> legacy_kind l' = legacy_kind l"
  by (cases l) auto

lemma post_prepare_kind [stage_kind]:
  "applyPostPrepareCreateDefaults l = Inr l' \<Longrightarrow> legacy_kind l' = legacy_kind l"
  by (cases l) auto

lemma canonicalize_kind [stage_kind]:
  "applyStrategyCanonicalize E l = Inr l' \<Longrightarrow> legacy_kind l' = legacy_kind l"
  by (cases l) auto

lemma admission_update_kind [stage_kind]:
  "applyAdmissionMutateForUpdate l old = Inr l' \<Longrightarrow> legacy_kind l' = legacy_kind l"
  by (cases l) (auto simp: Let_def split: legacy.splits)

lemma normalize_kind [simp]: "kind_of (normalizeVersionedObject ob) = kind_of ob"
  by (cases ob) simp_all

lemma normalize_metadata [simp]: "metadata (normalizeVersionedObject ob) = metadata ob"
  by (cases ob) simp_all

lemma typed_update_kind:
  assumes "typed_update as C f x y = Inr z"
    and "\<And>o' a. as o' = Some a \<Longrightarrow> o' = C a" and "\<And>a b. legacy_kind (C a) = legacy_kind (C b)"
  shows "legacy_kind z = legacy_kind x \<and> legacy_kind y = legacy_kind x"
  using assms(1) assms(2) [of x] assms(2) [of y] assms(3)
  by (fastforce simp: typed_update_def map_sum_def split: option.splits sum.splits)

lemma as_legacy_Some:
  "as_Pod l = Some a1 \<Longrightarrow> l = LPod a1"
  "as_PersistentVolumeClaim l = Some a2 \<Longrightarrow> l = LPersistentVolumeClaim a2"
  "as_ServiceAccount l = Some a3 \<Longrightarrow> l = LServiceAccount a3"
  "as_ReplicaSet l = Some a4 \<Longrightarrow> l = LReplicaSet a4"
  "as_StatefulSet l = Some a5 \<Longrightarrow> l = LStatefulSet a5"
  "as_Deployment l = Some a6 \<Longrightarrow> l = LDeployment a6"
  "as_ClusterRole l = Some a7 \<Longrightarrow> l = LClusterRole a7"
  "as_ControllerRevision l = Some a8 \<Longrightarrow> l = LControllerRevision a8"
  by (cases l; simp)+

lemma before_update_kind [stage_kind]:
  "BeforeUpdate E st ns x y = Inr z \<Longrightarrow> legacy_kind z = legacy_kind x"
  by (cases st) (auto dest: typed_update_kind as_legacy_Some)

lemma before_update_kinds_agree:
  "BeforeUpdate E st ns x y = Inr z \<Longrightarrow> legacy_kind y = legacy_kind x"
  by (cases st) (auto dest: typed_update_kind as_legacy_Some)

text \<open>Every stage keeps the identity, if the Kubernetes functions do.\<close>

lemma convert_in_id:
  "upstream_laws E \<Longrightarrow> convertVersionedToLegacy E ob = Inr l \<Longrightarrow>
    same_id (legacy_metadata l) (metadata ob)"
  by (cases ob) (auto simp: convert_in_def split: sum.splits intro: env_opsD)

lemma convert_out_id:
  "upstream_laws E \<Longrightarrow> convertLegacyToVersioned E msg l = Inr ob \<Longrightarrow>
    same_id (metadata ob) (legacy_metadata l)"
  by (cases l) (auto simp: convert_out_def split: sum.splits intro: env_opsD)

lemma schema_defaults_id:
  "upstream_laws E \<Longrightarrow> applySchemaDefaults E ob = Inr ob' \<Longrightarrow> same_id (metadata ob') (metadata ob)"
  by (cases ob) (auto intro: env_opsD)

lemma prepare_id:
  "upstream_laws E \<Longrightarrow> applyStrategyPrepareForCreate E l = Inr l' \<Longrightarrow>
    same_id (legacy_metadata l') (legacy_metadata l)"
  by (cases l) (auto intro: env_opsD)

lemma canonicalize_id:
  "upstream_laws E \<Longrightarrow> applyStrategyCanonicalize E l = Inr l' \<Longrightarrow>
    same_id (legacy_metadata l') (legacy_metadata l)"
  by (cases l) (auto intro: env_opsD)

lemma admission_id:
  "applyAdmissionMutate l = Inr l' \<Longrightarrow> same_id (legacy_metadata l') (legacy_metadata l)"
  by (cases l) (auto simp: applyPriorityAdmission_def applyDefaultTolerationSeconds_def Let_def
      applyPersistentVolumeClaimProtectionAdmission_def same_id_def)

lemma post_prepare_id:
  "applyPostPrepareCreateDefaults l = Inr l' \<Longrightarrow> same_id (legacy_metadata l') (legacy_metadata l)"
  by (cases l) auto

lemma typed_update_id:
  assumes "typed_update as C f x y = Inr z"
    and "\<And>o' a. as o' = Some a \<Longrightarrow> o' = C a"
    and "\<And>a b c. f a b = Inr c \<Longrightarrow> same_id (legacy_metadata (C c)) (legacy_metadata (C b))"
  shows "same_id (legacy_metadata z) (legacy_metadata y)"
  using assms(1) assms(2) [of y] assms(3)
  by (fastforce simp: typed_update_def map_sum_def split: option.splits sum.splits)

lemma before_update_id:
  assumes laws: "upstream_laws E" and eq: "BeforeUpdate E st ns x y = Inr z"
  shows "same_id (legacy_metadata z) (legacy_metadata y)"
  using eq by (cases st) (auto elim!: typed_update_id [OF _ as_legacy_Some(1)]
      typed_update_id [OF _ as_legacy_Some(2)] typed_update_id [OF _ as_legacy_Some(3)]
      typed_update_id [OF _ as_legacy_Some(4)] typed_update_id [OF _ as_legacy_Some(5)]
      typed_update_id [OF _ as_legacy_Some(6)] typed_update_id [OF _ as_legacy_Some(7)]
      typed_update_id [OF _ as_legacy_Some(8)]
      intro: env_opsD [OF laws])

lemma create_pipeline_keeps:
  assumes "applyValidationAndDefaulting E ob name = Inr ob'"
  shows "kind_of ob' = kind_of ob"
    and "upstream_laws E \<Longrightarrow> same_id (metadata ob') (metadata ob)"
proof -
  from assms obtain ob1 l0 l1 l2 l3 l4 ob2 where stages:
    "applySchemaDefaults E ob = Inr ob1" "convertVersionedToLegacy E ob1 = Inr l0"
    "applyAdmissionMutate l0 = Inr l1" "applyStrategyPrepareForCreate E l1 = Inr l2"
    "applyPostPrepareCreateDefaults l2 = Inr l3" "applyStrategyCanonicalize E l3 = Inr l4"
    "convertLegacyToVersioned E ''failed to convert internal object back to versioned object: %v'' l4
      = Inr ob2" and ob': "ob' = normalizeVersionedObject ob2"
    by (auto simp: applyValidationAndDefaulting_def ebind_Inr_iff check_Inr_iff)
  show "kind_of ob' = kind_of ob" using stages ob' by (simp add: stage_kind)
  assume laws: "upstream_laws E"
  show "same_id (metadata ob') (metadata ob)"
    using schema_defaults_id [OF laws stages(1)] convert_in_id [OF laws stages(2)]
      admission_id [OF stages(3)] prepare_id [OF laws stages(4)] post_prepare_id [OF stages(5)]
      canonicalize_id [OF laws stages(6)] convert_out_id [OF laws stages(7)] ob'
    by (simp add: same_id_def)
qed

lemma update_pipeline_keeps:
  assumes "applyValidationAndDefaultingOnUpdate E ob old namespace = Inr ob'"
  shows "kind_of ob' = kind_of ob \<and> kind_of old = kind_of ob"
    and "upstream_laws E \<Longrightarrow> same_id (metadata ob') (metadata old)"
proof -
  from assms obtain ob1 l0 lold l1 st l2 ob2 where stages:
    "applySchemaDefaults E ob = Inr ob1" "convertVersionedToLegacy E ob1 = Inr l0"
    "convertVersionedToLegacy E old = Inr lold" "applyAdmissionMutateForUpdate l0 lold = Inr l1"
    "BeforeUpdate E st namespace l1 lold = Inr l2"
    "convertLegacyToVersioned E
       ''failed to convert internal updated object back to versioned object: %v'' l2 = Inr ob2"
    and ob': "ob' = normalizeVersionedObject ob2"
    by (auto simp: applyValidationAndDefaultingOnUpdate_def ebind_Inr_iff check_Inr_iff)
  show "kind_of ob' = kind_of ob \<and> kind_of old = kind_of ob"
    using schema_defaults_kind [OF stages(1)] convert_in_kind [OF stages(2)] convert_in_kind [OF stages(3)]
      admission_update_kind [OF stages(4)] before_update_kind [OF stages(5)]
      before_update_kinds_agree [OF stages(5)] convert_out_kind [OF stages(6)] ob' by simp
  assume laws: "upstream_laws E"
  show "same_id (metadata ob') (metadata old)"
    using convert_in_id [OF laws stages(3)] before_update_id [OF laws stages(5)]
      convert_out_id [OF laws stages(6)] ob' by (simp add: same_id_def)
qed

lemma status_pipeline_keeps:
  assumes "applyValidationAndDefaultingOnStatusUpdate E ob old namespace = Inr ob'"
  shows "kind_of ob' = kind_of ob \<and> kind_of old = kind_of ob"
    and "upstream_laws E \<Longrightarrow> same_id (metadata ob') (metadata old)"
proof -
  from assms obtain ob1 l0 lold st l2 ob2 where stages:
    "applySchemaDefaults E ob = Inr ob1" "convertVersionedToLegacy E ob1 = Inr l0"
    "convertVersionedToLegacy E old = Inr lold" "BeforeUpdate E st namespace l0 lold = Inr l2"
    "convertLegacyToVersioned E
       ''failed to convert internal status-updated object back to versioned object: %v'' l2 = Inr ob2"
    and ob': "ob' = normalizeVersionedObject ob2"
    by (auto simp: applyValidationAndDefaultingOnStatusUpdate_def ebind_Inr_iff check_Inr_iff)
  show "kind_of ob' = kind_of ob \<and> kind_of old = kind_of ob"
    using schema_defaults_kind [OF stages(1)] convert_in_kind [OF stages(2)] convert_in_kind [OF stages(3)]
      before_update_kind [OF stages(4)] before_update_kinds_agree [OF stages(4)]
      convert_out_kind [OF stages(5)] ob' by simp
  assume laws: "upstream_laws E"
  show "same_id (metadata ob') (metadata old)"
    using convert_in_id [OF laws stages(3)] before_update_id [OF laws stages(4)]
      convert_out_id [OF laws stages(5)] ob' by (simp add: same_id_def)
qed

section \<open>A concrete environment\<close>

text \<open>
  A small instance of the Kubernetes functions, at which the theorems are applied:
  conversions and defaults that change nothing, an update check that makes name, namespace
  and UID immutable, the namespace rule and the graceful deletion of pods. It satisfies
  \<open>upstream_laws\<close>, so that hypothesis can hold.
\<close>

definition example_before_update ::
  "string \<Rightarrow> 'z Object_scheme \<Rightarrow> 'z Object_scheme \<Rightarrow> error + 'z Object_scheme" where
  "example_before_update ns x old =
     (let md = ObjectMeta x; omd = ObjectMeta old in
      if Name md \<noteq> Name omd then Inl (Invalid ''Object'' (Name md) [''metadata.name''])
      else if Namespace md \<noteq> Namespace omd then Inl (Invalid ''Object'' (Name md) [''metadata.namespace''])
      else if UID md \<noteq> [] \<and> UID md \<noteq> UID omd then Inl (Invalid ''Object'' (Name md) [''metadata.uid''])
      else Inr (x\<lparr>ObjectMeta := md\<lparr>UID := UID omd\<rparr>\<rparr>))"

definition example_ops :: "'z Object_scheme kind_ops" where
  "example_ops = \<lparr>to_internal = Inr, to_versioned = Inr, SetObjectDefaults = id,
     PrepareForCreate = id, StrategyValidate = (\<lambda>_. []), Canonicalize = id,
     RestBeforeUpdate = example_before_update, RestBeforeStatusUpdate = example_before_update\<rparr>"

definition example_wipe :: "ObjectMeta \<Rightarrow> ObjectMeta" where
  "example_wipe md = md\<lparr>SelfLink := [], UID := [], CreationTimestamp := 0,
     DeletionTimestamp := None, DeletionGracePeriodSeconds := None\<rparr>"

definition example_ensure_namespace :: "string \<Rightarrow> ObjectMeta \<Rightarrow> error + ObjectMeta" where
  "example_ensure_namespace ns md =
     (if Namespace md = [] \<or> Namespace md = ns then Inr (md\<lparr>Namespace := ns\<rparr>)
      else Inl (BadRequest ''the namespace of the provided object does not match'' [Namespace md, ns]))"

definition example_graceful :: "Pod \<Rightarrow> DeleteOptions \<Rightarrow> bool \<times> Pod \<times> DeleteOptions" where
  "example_graceful pod opts =
     (let asked = (case GracePeriodSeconds opts of Some p \<Rightarrow> p | None \<Rightarrow> 30);
          period = (if NodeName (pod_Spec pod) = [] \<or> pod_Phase (pod_Status pod) = ''Failed''
                       \<or> pod_Phase (pod_Status pod) = ''Succeeded'' then 0 else asked)
      in (True, pod, opts\<lparr>GracePeriodSeconds := Some period\<rparr>))"

definition example_env :: env where
  "example_env = \<lparr>podOps = example_ops, pvcOps = example_ops, saOps = example_ops,
     rsOps = example_ops, ssOps = example_ops, deployOps = example_ops, roleOps = example_ops,
     revOps = example_ops, WipeObjectMetaSystemFields = example_wipe,
     EnsureObjectNamespaceMatchesRequestNamespace = example_ensure_namespace,
     ValidateObjectMetaAccessor = (\<lambda>_ _. []), PodCheckGracefulDelete = example_graceful\<rparr>"

lemma example_before_update_id:
  "example_before_update ns x y = Inr z \<Longrightarrow> same_id (ObjectMeta z) (ObjectMeta y)"
  by (auto simp: example_before_update_def Let_def same_id_def split: if_splits)

lemma converted_refl [simp]: "converted md md"
  unfolding converted_def by (rule exI [of _ "Annotations md"]) simp

lemma example_ops_laws: "ops_laws example_ops"
  by (simp add: ops_laws_def example_ops_def example_before_update_id)

lemma example_env_laws: "upstream_laws example_env"
  by (simp add: upstream_laws_def example_env_def example_ops_laws)
    (auto simp: example_wipe_def example_ensure_namespace_def example_graceful_def Let_def
      split: if_splits)

lemma example_env_simps:
  "WipeObjectMetaSystemFields example_env = example_wipe"
  "EnsureObjectNamespaceMatchesRequestNamespace example_env = example_ensure_namespace"
  "ValidateObjectMetaAccessor example_env md b = []"
  "podOps example_env = example_ops"
  "PodCheckGracefulDelete example_env = example_graceful"
  by (simp_all add: example_env_def)

lemma example_wiped:
  "example_wipe (example_meta name ns) = example_meta name ns"
  "example_ensure_namespace ns (example_meta name []) = Inr (example_meta name ns)"
  by (simp_all add: example_wipe_def example_ensure_namespace_def example_meta_def)

lemmas example_defs = example_object_defs example_env_def example_ops_def example_before_update_def
  example_wipe_def example_ensure_namespace_def example_graceful_def

end
