(* ===== verification/Api_Admission_Spec.thy ===== *)
theory Api_Admission_Spec
  imports Api_Admission
begin

text \<open>
  The properties of the mirrored admission plugins: default tolerations, priority, claim
  protection, and the types along the pipelines.
\<close>

definition tolerates :: "string \<Rightarrow> Pod \<Rightarrow> bool" where
  "tolerates taint pod \<longleftrightarrow> list_ex (tolerates_taint taint) (elems (Tolerations (pod_Spec pod)))"

lemma default_toleration_tolerates: "tolerates_taint taint (default_toleration taint)"
  by (simp add: tolerates_taint_def default_toleration_def)

lemma taints_differ: "TaintNodeNotReady \<noteq> TaintNodeUnreachable" "TaintNodeNotReady \<noteq> []" "TaintNodeUnreachable \<noteq> []"
  by (simp_all add: taint_constants)

lemma tolerates_after:
  "tolerates TaintNodeNotReady (applyDefaultTolerationSeconds pod)"
  "tolerates TaintNodeUnreachable (applyDefaultTolerationSeconds pod)"
  by (simp_all add: tolerates_def applyDefaultTolerationSeconds_def default_toleration_tolerates Let_def)

lemma defaults_when_tolerated:
  "tolerates TaintNodeNotReady pod \<Longrightarrow> tolerates TaintNodeUnreachable pod \<Longrightarrow>
    applyDefaultTolerationSeconds pod = pod"
  by (simp add: tolerates_def applyDefaultTolerationSeconds_def append_slice_def Let_def)
    (cases "Tolerations (pod_Spec pod)"; simp)

section \<open>Properties\<close>

text \<open>After the default tolerations every pod tolerates the two NoExecute taints; the tolerations
  it had stay, in order and in front; at most two are appended, each for a taint it did not
  tolerate; and doing it twice is doing it once.\<close>

theorem default_tolerations_spec:
  "tolerates TaintNodeNotReady (applyDefaultTolerationSeconds pod) \<and>
   tolerates TaintNodeUnreachable (applyDefaultTolerationSeconds pod) \<and>
   elems (Tolerations (pod_Spec (applyDefaultTolerationSeconds pod))) = elems (Tolerations (pod_Spec pod)) @
     map default_toleration (filter (\<lambda>taint. \<not> tolerates taint pod) [TaintNodeNotReady, TaintNodeUnreachable]) \<and>
   applyDefaultTolerationSeconds (applyDefaultTolerationSeconds pod) = applyDefaultTolerationSeconds pod"
proof -
  have "elems (Tolerations (pod_Spec (applyDefaultTolerationSeconds pod))) = elems (Tolerations (pod_Spec pod)) @
     map default_toleration (filter (\<lambda>taint. \<not> tolerates taint pod) [TaintNodeNotReady, TaintNodeUnreachable])"
    by (simp add: applyDefaultTolerationSeconds_def tolerates_def Let_def)
  then show ?thesis using tolerates_after defaults_when_tolerated [OF tolerates_after] by simp
qed

text \<open>The create admission: a claim ends up with the protection finalizer, added only when it was
  missing and after the others; a pod without priority and priority class gets priority zero, and
  one with either keeps what it has.\<close>

theorem create_admission_spec:
  "elems (Finalizers (ObjectMeta (applyPersistentVolumeClaimProtectionAdmission pvc))) =
     (if pvcProtectionFinalizer \<in> set (elems (Finalizers (ObjectMeta pvc))) then elems (Finalizers (ObjectMeta pvc))
      else elems (Finalizers (ObjectMeta pvc)) @ [pvcProtectionFinalizer]) \<and>
   applyPersistentVolumeClaimProtectionAdmission (applyPersistentVolumeClaimProtectionAdmission pvc) =
     applyPersistentVolumeClaimProtectionAdmission pvc \<and>
   applyAdmissionMutate (LPersistentVolumeClaim pvc) =
     Inr (LPersistentVolumeClaim (applyPersistentVolumeClaimProtectionAdmission pvc)) \<and>
   (\<exists>pod'. applyAdmissionMutate (LPod pod) = Inr (LPod pod') \<and>
     Priority (pod_Spec pod') = (if Priority (pod_Spec pod) = None \<and> PriorityClassName (pod_Spec pod) = []
       then Some 0 else Priority (pod_Spec pod)) \<and>
     tolerates TaintNodeNotReady pod' \<and> tolerates TaintNodeUnreachable pod')"
proof -
  let ?pod = "applyPriorityAdmission (applyDefaultTolerationSeconds pod)"
  have "Tolerations (pod_Spec ?pod) = Tolerations (pod_Spec (applyDefaultTolerationSeconds pod))"
    by (simp add: applyPriorityAdmission_def)
  then have "tolerates TaintNodeNotReady ?pod" "tolerates TaintNodeUnreachable ?pod"
    using tolerates_after [of pod] by (simp_all add: tolerates_def)
  then show ?thesis
    by (auto simp: applyPersistentVolumeClaimProtectionAdmission_def applyPriorityAdmission_def
        applyDefaultTolerationSeconds_def Let_def)
qed

text \<open>The update admission of a pod never drops a priority or a preemption policy the stored pod
  has: an unset field takes the stored value, a set one stays.\<close>

theorem update_admission_spec:
  "\<exists>pod'. applyAdmissionMutateForUpdate (LPod pod) (LPod old) = Inr (LPod pod') \<and>
     Priority (pod_Spec pod') = (if Priority (pod_Spec pod) = None then Priority (pod_Spec old) else Priority (pod_Spec pod)) \<and>
     PreemptionPolicy (pod_Spec pod') =
       (if PreemptionPolicy (pod_Spec pod) = None then PreemptionPolicy (pod_Spec old) else PreemptionPolicy (pod_Spec pod)) \<and>
     tolerates TaintNodeNotReady pod' \<and> tolerates TaintNodeUnreachable pod' \<and> ObjectMeta pod' = ObjectMeta pod"
  using tolerates_after [of pod]
  by (auto simp: tolerates_def applyDefaultTolerationSeconds_def Let_def)

text \<open>The three pipelines keep the Go type: what comes out of a create has the type of what went
  in, and an update or status update succeeds only between two objects of one type and returns
  that type.\<close>

theorem pipelines_keep_type:
  "(applyValidationAndDefaulting E ob name = Inr ob' \<longrightarrow> kind_of ob' = kind_of ob) \<and>
   (applyValidationAndDefaultingOnUpdate E ob old namespace = Inr ob' \<longrightarrow> kind_of ob' = kind_of ob \<and> kind_of old = kind_of ob) \<and>
   (applyValidationAndDefaultingOnStatusUpdate E ob old namespace = Inr ob' \<longrightarrow> kind_of ob' = kind_of ob \<and> kind_of old = kind_of ob)"
  using create_pipeline_keeps(1) update_pipeline_keeps(1) status_pipeline_keeps(1) by blast

theorem pipelines_keep_type_witness:
  "applyValidationAndDefaulting example_env (KPod (example_pod stored_meta)) ''p'' =
     Inr (KPod (applyPriorityAdmission (applyDefaultTolerationSeconds (example_pod stored_meta)))) \<and>
   kind_of (KPod (applyPriorityAdmission (applyDefaultTolerationSeconds (example_pod stored_meta)))) = ''Pod''"
proof -
  have "applyValidationAndDefaulting example_env (KPod (example_pod stored_meta)) ''p'' =
     Inr (KPod (applyPriorityAdmission (applyDefaultTolerationSeconds (example_pod stored_meta))))"
    by (simp add: applyValidationAndDefaulting_def example_env_simps example_ops_def convert_in_def
        convert_out_def validate_with_def)
  with pipelines_keep_type [of example_env "KPod (example_pod stored_meta)" "''p''"] show ?thesis by simp
qed

end
