(* ===== verification/Api_Write.thy ===== *)
theory Api_Write
  imports Api_Admission
begin

text \<open>
  The writes of the API model (src/kubernetes_model/apimodel/api_model.go): \<open>create\<close>,
  \<open>updateLocked\<close> and \<open>updateStatusLocked\<close>. The two updates differ only in the text of
  one message and in the pipeline they run, so they share \<open>update_checks\<close> (everything up
  to the point where the state may change) and \<open>update_commit\<close> (the change).

  A result \<open>None\<close> means that a generator loop never ends; otherwise the pair is Go's
  \<open>(obj, err)\<close> and the state after the call, on errors too.
\<close>

section \<open>Comparing stored objects\<close>

definition storage_view :: "kobject \<Rightarrow> kobject" where
  "storage_view ob = set_metadata ob ((metadata ob)\<lparr>ResourceVersion := [], SelfLink := []\<rparr>)"

definition storageObjectDeepEqual :: "kobject \<Rightarrow> kobject \<Rightarrow> bool" where
  "storageObjectDeepEqual obj1 obj2 \<longleftrightarrow> storage_view (deepCopy obj1) = storage_view (deepCopy obj2)"

text \<open>
  \<open>genericregistry.ShouldDeleteDuringUpdate\<close>
  (src/src/code/k8s_io/apiserver/pkg/registry/generic/registry.v): no finalizer is left, and
  the stored object is being deleted with no grace period to wait for.
\<close>

definition shouldDeleteDuringUpdate :: "kobject \<Rightarrow> kobject \<Rightarrow> bool" where
  "shouldDeleteDuringUpdate objCopy existingObjCopy \<longleftrightarrow>
     elems (Finalizers (metadata objCopy)) = [] \<and>
     DeletionTimestamp (metadata existingObjCopy) \<noteq> None \<and>
     (DeletionGracePeriodSeconds (metadata existingObjCopy) = None \<or>
      DeletionGracePeriodSeconds (metadata existingObjCopy) = Some 0)"

section \<open>Create\<close>

type_synonym 'a call = "((error + 'a) \<times> State) option"

text \<open>The end of both write paths: a new resource version, and the object in the map.\<close>

definition store_object :: "choices \<Rightarrow> KKey \<Rightarrow> kobject \<Rightarrow> State \<Rightarrow> kobject call" where
  "store_object ch key objCopy s =
     (case generateNewRVAndUpdate ch s of
        None \<Rightarrow> None
      | Some (rv, s') \<Rightarrow>
          (let stored = set_metadata objCopy ((metadata objCopy)\<lparr>ResourceVersion := rv\<rparr>)
           in Some (Inr (deepCopy stored), s'\<lparr>st_m := (st_m s')(key \<mapsto> stored)\<rparr>)))"

definition create_named ::
  "env \<Rightarrow> choices \<Rightarrow> string \<Rightarrow> string \<Rightarrow> string \<Rightarrow> kobject \<Rightarrow> State \<Rightarrow> kobject call" where
  "create_named E ch kind namespace name objCopy s =
     (case applyValidationAndDefaulting E objCopy name of
        Inl e \<Rightarrow> Some (Inl e, s)
      | Inr ob \<Rightarrow>
          (case validateObjectMeta E (metadata ob) kind of
             Some e \<Rightarrow> Some (Inl e, s)
           | None \<Rightarrow>
               (let key = KKey kind name namespace
                in if st_m s key \<noteq> None then Some (Inl (AlreadyExists kind name), s)
                   else store_object ch key ob s)))"

definition create ::
  "env \<Rightarrow> choices \<Rightarrow> string \<Rightarrow> string \<Rightarrow> kobject \<Rightarrow> State \<Rightarrow> kobject call" where
  "create E ch kind namespace ob s =
     (let objCopy = deepCopy ob
      in case EnsureObjectNamespaceMatchesRequestNamespace E namespace
               (WipeObjectMetaSystemFields E (metadata objCopy)) of
           Inl e \<Rightarrow> Some (Inl e, s)
         | Inr md \<Rightarrow>
             (case generateNewUIDAndUpdate ch s of
                None \<Rightarrow> None
              | Some (uid, s1) \<Rightarrow>
                  (let md1 = md\<lparr>CreationTimestamp := o_now ch, UID := uid\<rparr>
                   in if Name md1 \<noteq> []
                      then create_named E ch kind namespace (Name md1) (set_metadata objCopy md1) s1
                      else if GenerateName md1 = []
                      then Some (Inl (Errorf ''object of kind %q must specify a name or generateName'' [kind]), s1)
                      else case generateNewName ch s1 kind namespace (GenerateName md1) of
                             None \<Rightarrow> None
                           | Some name \<Rightarrow>
                               create_named E ch kind namespace name
                                 (set_metadata objCopy (md1\<lparr>Name := name\<rparr>)) s1)))"

section \<open>Update and status update\<close>

definition uid_conflict :: "string \<Rightarrow> string \<Rightarrow> string \<Rightarrow> string \<Rightarrow> error" where
  "uid_conflict kind name expected got =
     Conflict kind name [''UID mismatch: expected %q, got %q'', expected, got]"

definition rv_conflict :: "string \<Rightarrow> string \<Rightarrow> string \<Rightarrow> string \<Rightarrow> error" where
  "rv_conflict kind name expected got =
     Conflict kind name [''resourceVersion mismatch: expected %q, got %q'', expected, got]"

text \<open>
  The resource version the update goes on with: the stored one for an unconditional update,
  the client's when it is a number.
\<close>

definition request_rv :: "string \<Rightarrow> string \<Rightarrow> string \<Rightarrow> string \<Rightarrow> error + string" where
  "request_rv kind name rv existingRv =
     (if rv = [] then
        ebind (allowUnconditionalUpdate kind) (\<lambda>allowUnconditional.
          if \<not> allowUnconditional
          then Inl (Invalid kind name [''metadata.resourceVersion'', rv, ''must be specified for an update''])
          else Inr existingRv)
      else if parse_uint rv 64 = None then Inl (InternalError rv)
      else Inr rv)"

type_synonym pipeline = "kobject \<Rightarrow> kobject \<Rightarrow> string \<Rightarrow> error + kobject"

definition update_checks ::
  "pipeline \<Rightarrow> string \<Rightarrow> env \<Rightarrow> string \<Rightarrow> string \<Rightarrow> kobject \<Rightarrow> bool \<Rightarrow> State \<Rightarrow>
   error + KKey \<times> kobject \<times> kobject" where
  "update_checks pipe msg E kind namespace ob uidPrecondition s =
     (let objCopy = deepCopy ob in
      ebind (EnsureObjectNamespaceMatchesRequestNamespace E namespace (metadata objCopy)) (\<lambda>md.
      let name = Name md; key = KKey kind name namespace in
      if name = [] then Inl (BadRequest msg [kind])
      else
      case st_m s key of
        None \<Rightarrow> Inl (NotFound kind name)
      | Some existingObj \<Rightarrow>
          let existing = deepCopy existingObj; emd = metadata existing in
          if uidPrecondition \<and> UID md \<noteq> [] \<and> UID md \<noteq> UID emd
          then Inl (uid_conflict kind name (UID emd) (UID md))
          else
          ebind (request_rv kind name (ResourceVersion md) (ResourceVersion emd)) (\<lambda>rv.
          if rv \<noteq> ResourceVersion emd then Inl (rv_conflict kind name (ResourceVersion emd) rv)
          else
          ebind (pipe (set_metadata objCopy (md\<lparr>ResourceVersion := rv\<rparr>)) existing namespace)
            (\<lambda>updated. Inr (key, updated, existing)))))"

definition update_commit :: "choices \<Rightarrow> KKey \<Rightarrow> kobject \<Rightarrow> kobject \<Rightarrow> State \<Rightarrow> kobject call" where
  "update_commit ch key objCopy existing s =
     (if shouldDeleteDuringUpdate objCopy existing
      then Some (Inr objCopy, s\<lparr>st_m := (st_m s)(key := None)\<rparr>)
      else if storageObjectDeepEqual objCopy existing then Some (Inr existing, s)
      else store_object ch key objCopy s)"

definition update_with ::
  "pipeline \<Rightarrow> string \<Rightarrow> env \<Rightarrow> choices \<Rightarrow> string \<Rightarrow> string \<Rightarrow> kobject \<Rightarrow> bool \<Rightarrow> State \<Rightarrow> kobject call" where
  "update_with pipe msg E ch kind namespace ob uidPrecondition s =
     (case update_checks pipe msg E kind namespace ob uidPrecondition s of
        Inl e \<Rightarrow> Some (Inl e, s)
      | Inr (key, objCopy, existing) \<Rightarrow> update_commit ch key objCopy existing s)"

definition updateLocked ::
  "env \<Rightarrow> choices \<Rightarrow> string \<Rightarrow> string \<Rightarrow> kobject \<Rightarrow> bool \<Rightarrow> State \<Rightarrow> kobject call" where
  "updateLocked E =
     update_with (applyValidationAndDefaultingOnUpdate E)
       ''object of kind %q must specify a name for update'' E"

definition updateStatusLocked ::
  "env \<Rightarrow> choices \<Rightarrow> string \<Rightarrow> string \<Rightarrow> kobject \<Rightarrow> bool \<Rightarrow> State \<Rightarrow> kobject call" where
  "updateStatusLocked E =
     update_with (applyValidationAndDefaultingOnStatusUpdate E)
       ''object of kind %q must specify a name for status update'' E"

definition update :: "env \<Rightarrow> choices \<Rightarrow> string \<Rightarrow> string \<Rightarrow> kobject \<Rightarrow> State \<Rightarrow> kobject call" where
  "update E ch kind namespace ob s = updateLocked E ch kind namespace ob True s"

definition updateStatus :: "env \<Rightarrow> choices \<Rightarrow> string \<Rightarrow> string \<Rightarrow> kobject \<Rightarrow> State \<Rightarrow> kobject call" where
  "updateStatus E ch kind namespace ob s = updateStatusLocked E ch kind namespace ob True s"


section \<open>Storing\<close>

lemma store_object_Some:
  assumes "store_object ch key objCopy s = Some (r, s')"
  obtains rv where "generateNewRVAndUpdate ch s = Some (rv, s\<lparr>usedRV := insert rv (usedRV s)\<rparr>)"
    and "r = Inr (set_metadata objCopy ((metadata objCopy)\<lparr>ResourceVersion := rv\<rparr>))"
    and "s' = s\<lparr>usedRV := insert rv (usedRV s), st_m := (st_m s)(key \<mapsto>
           set_metadata objCopy ((metadata objCopy)\<lparr>ResourceVersion := rv\<rparr>))\<rparr>"
    and "rv \<notin> usedRV s"
proof -
  from assms obtain rv s1 where gen: "generateNewRVAndUpdate ch s = Some (rv, s1)"
    by (auto simp: store_object_def split: option.splits)
  note s1 = generateNewRV_frame [OF gen]
  show thesis
    by (rule that [of rv]) (use assms gen rvs.alloc_fresh [OF gen] in \<open>simp_all add: store_object_def Let_def s1\<close>)
qed

lemma store_object_ok:
  assumes store: "store_object ch key objCopy s = Some (r, s')" and wf: "wf_state s"
    and id: "kind_of objCopy = key_Kind key" "Name (metadata objCopy) = key_Name key"
      "Namespace (metadata objCopy) = key_Namespace key" "UID (metadata objCopy) \<in> usedUID s"
    and others: "\<And>key' ob'. st_m s key' = Some ob' \<Longrightarrow> UID (metadata ob') = UID (metadata objCopy) \<Longrightarrow> key' = key"
  shows "wf_state s'"
proof -
  from store obtain rv where gen: "generateNewRVAndUpdate ch s = Some (rv, s\<lparr>usedRV := insert rv (usedRV s)\<rparr>)"
    and s': "s' = s\<lparr>usedRV := insert rv (usedRV s), st_m := (st_m s)(key \<mapsto>
           set_metadata objCopy ((metadata objCopy)\<lparr>ResourceVersion := rv\<rparr>))\<rparr>"
    and rv: "rv \<notin> usedRV s"
    by (rule store_object_Some)
  have old_rv: "ResourceVersion (metadata ob') \<in> usedRV s" if "st_m s key' = Some ob'" for key' ob'
    using wf_state_stored [OF wf that] by (simp add: stored_ok_def)
  have "wf_state ((s\<lparr>usedRV := insert rv (usedRV s)\<rparr>)\<lparr>st_m := (st_m (s\<lparr>usedRV := insert rv (usedRV s)\<rparr>))(key \<mapsto>
      set_metadata objCopy ((metadata objCopy)\<lparr>ResourceVersion := rv\<rparr>))\<rparr>)"
    by (rule wf_state_store [OF wf_state_new_rv [OF wf gen]])
      (use id others old_rv rv in \<open>auto simp: stored_ok_def\<close>)
  then show ?thesis by (simp add: s')
qed

lemma store_object_evolves:
  assumes "store_object ch key objCopy s = Some (r, s')"
    and "UID (metadata objCopy) \<notin> used \<or>
      (\<exists>ob. st_m s key = Some ob \<and> UID (metadata ob) = UID (metadata objCopy))"
    and "used \<subseteq> usedUID s"
  shows "evolves (s\<lparr>usedUID := used\<rparr>) s'"
  using assms by (elim store_object_Some) (auto simp: evolves_def)

section \<open>Create keeps the contract\<close>

lemma create_named_stored:
  assumes "create_named E ch kind namespace name objCopy s = Some (Inr ob', s')"
  obtains ob where "applyValidationAndDefaulting E objCopy name = Inr ob"
    and "validateObjectMeta E (metadata ob) kind = None"
    and "st_m s (KKey kind name namespace) = None"
    and "store_object ch (KKey kind name namespace) ob s = Some (Inr ob', s')"
  using assms by (auto simp: create_named_def Let_def split: sum.splits option.splits if_splits)

lemma create_named_error:
  "create_named E ch kind namespace name objCopy s = Some (Inl e, s') \<Longrightarrow> s' = s"
  by (auto simp: create_named_def store_object_def Let_def split: sum.splits option.splits if_splits)

text \<open>
  Every outcome of \<open>create\<close>: rejected before a UID is drawn, rejected afterwards (only the
  used UIDs grow), or stored.
\<close>

lemma create_outcomes:
  assumes "create E ch kind namespace ob s = Some (r, s')"
  obtains (early) e where "r = Inl e" "s' = s"
  | (late) e uid where "r = Inl e" "generateNewUIDAndUpdate ch s = Some (uid, s')"
  | (stored) md uid s1 name objCopy ob' where
      "EnsureObjectNamespaceMatchesRequestNamespace E namespace
         (WipeObjectMetaSystemFields E (metadata ob)) = Inr md"
      "generateNewUIDAndUpdate ch s = Some (uid, s1)"
      "objCopy = set_metadata ob (md\<lparr>CreationTimestamp := o_now ch, UID := uid, Name := name\<rparr>)"
      "name \<noteq> [] \<and> Name md = name \<or> Name md = [] \<and> GenerateName md \<noteq> [] \<and>
         generateNewName ch s1 kind namespace (GenerateName md) = Some name"
      "r = Inr ob'" "create_named E ch kind namespace name objCopy s1 = Some (Inr ob', s')"
proof -
  show thesis
  proof (cases "EnsureObjectNamespaceMatchesRequestNamespace E namespace
      (WipeObjectMetaSystemFields E (metadata ob))")
    case (Inl e)
    with assms show thesis by (intro early) (auto simp: create_def)
  next
    case (Inr md)
    with assms obtain uid s1 where uid: "generateNewUIDAndUpdate ch s = Some (uid, s1)"
      by (auto simp: create_def split: option.splits)
    let ?copy = "\<lambda>name. set_metadata ob (md\<lparr>CreationTimestamp := o_now ch, UID := uid, Name := name\<rparr>)"
    have same: "md\<lparr>CreationTimestamp := o_now ch, UID := uid\<rparr> =
        md\<lparr>CreationTimestamp := o_now ch, UID := uid, Name := Name md\<rparr>" by simp
    consider (nothing) e where "r = Inl e" "s' = s1"
      | (named) name where "name \<noteq> [] \<and> Name md = name \<or> Name md = [] \<and> GenerateName md \<noteq> [] \<and>
          generateNewName ch s1 kind namespace (GenerateName md) = Some name"
        "create_named E ch kind namespace name (?copy name) s1 = Some (r, s')"
      using assms Inr uid same
      by (fastforce simp: create_def Let_def split: if_splits option.splits)
    then show thesis
    proof cases
      case nothing
      with uid show thesis by (intro late) auto
    next
      case named
      show thesis
      proof (cases r)
        case (Inl e)
        with named(2) have "s' = s1" by (auto dest: create_named_error)
        with Inl uid show thesis by (intro late) auto
      next
        case (Inr ob')
        with named uid \<open>EnsureObjectNamespaceMatchesRequestNamespace E namespace _ = Inr md\<close>
        show thesis by (intro stored) auto
      qed
    qed
  qed
qed

lemma create_stored_facts:
  assumes laws: "upstream_laws E" and kind: "kind_of ob = kind"
    and md: "EnsureObjectNamespaceMatchesRequestNamespace E namespace md0 = Inr md"
    and copy: "objCopy = set_metadata ob (md\<lparr>CreationTimestamp := t, UID := uid, Name := name\<rparr>)"
    and named: "create_named E ch kind namespace name objCopy s1 = Some (Inr ob', s')"
  obtains ob1 where "store_object ch (KKey kind name namespace) ob1 s1 = Some (Inr ob', s')"
    and "st_m s1 (KKey kind name namespace) = None"
    and "kind_of ob1 = kind" "Name (metadata ob1) = name" "Namespace (metadata ob1) = namespace"
      "UID (metadata ob1) = uid"
proof -
  from named obtain ob1 where pipe: "applyValidationAndDefaulting E objCopy name = Inr ob1"
    and free: "st_m s1 (KKey kind name namespace) = None"
    and store: "store_object ch (KKey kind name namespace) ob1 s1 = Some (Inr ob', s')"
    by (rule create_named_stored)
  have "Namespace md = namespace" using ensure_namespaceD [OF laws md] by simp
  with create_pipeline_keeps [OF pipe] laws kind copy show thesis
    by (intro that [OF store free]) (simp_all add: same_id_def)
qed

lemma create_wf:
  assumes "upstream_laws E" "kind_of ob = kind" and wf: "wf_state s"
    and call: "create E ch kind namespace ob s = Some (r, s')"
  shows "wf_state s' \<and> evolves s s'"
  using call
proof (cases rule: create_outcomes)
  case early
  with wf show ?thesis by simp
next
  case (late e uid)
  then have "s' = s\<lparr>usedUID := insert uid (usedUID s)\<rparr>" by (auto dest: generateNewUID_frame)
  then have "evolves s s'" by (auto simp: evolves_def)
  with late wf show ?thesis by (auto intro: wf_state_new_uid)
next
  case (stored md uid s1 name objCopy ob')
  note uid = generateNewUID_frame [OF stored(2)] uids.alloc_fresh [OF stored(2)]
  from create_stored_facts [OF assms(1,2) stored(1,3,6)] obtain ob1
    where store: "store_object ch (KKey kind name namespace) ob1 s1 = Some (Inr ob', s')"
      and ob1: "kind_of ob1 = kind" "Name (metadata ob1) = name" "Namespace (metadata ob1) = namespace"
        "UID (metadata ob1) = uid" by blast
  have unused: "UID (metadata ob2) \<noteq> uid" if "st_m s1 key' = Some ob2" for key' ob2
    using wf_state_stored [OF wf, of key' ob2] that uid by (auto simp: stored_ok_def)
  have "wf_state s'"
    by (rule store_object_ok [OF store wf_state_new_uid [OF wf stored(2)]])
      (use ob1 uid unused in auto)
  moreover have "evolves (s1\<lparr>usedUID := usedUID s\<rparr>) s'"
    by (rule store_object_evolves [OF store]) (use ob1 uid in auto)
  ultimately show ?thesis using uid by (simp add: evolves_def)
qed

text \<open>
  The requests a typed client can make: the kind is the one of the object's Go type, and the
  Kubernetes functions behave as documented.
\<close>

type_synonym write_request = "env \<times> choices \<times> string \<times> string \<times> kobject"

fun request_ok :: "write_request \<Rightarrow> bool" where
  "request_ok (E, ch, kind, namespace, ob) \<longleftrightarrow> upstream_laws E \<and> kind_of ob = kind"

fun create_request :: "write_request \<Rightarrow> State \<Rightarrow> kobject call" where
  "create_request (E, ch, kind, namespace, ob) s = create E ch kind namespace ob s"

interpretation create_op: api_operation create_request request_ok
  by unfold_locales (auto dest: create_wf)

section \<open>The updates keep the contract\<close>

text \<open>
  What the two pipelines promise to \<open>update_with\<close>: the result has the type of the
  client's object, which is the type of the stored one, and the identity of the stored one.
\<close>

locale update_pipeline =
  fixes pipe :: "env \<Rightarrow> pipeline"
  assumes pipe_kind: "pipe E ob old namespace = Inr ob' \<Longrightarrow>
      kind_of ob' = kind_of ob \<and> kind_of old = kind_of ob"
    and pipe_id: "upstream_laws E \<Longrightarrow> pipe E ob old namespace = Inr ob' \<Longrightarrow>
      same_id (metadata ob') (metadata old)"
begin

lemma checks_passed:
  assumes "update_checks (pipe E) msg E kind namespace ob uidPre s = Inr (key, updated, existing)"
  obtains md rv where
    "EnsureObjectNamespaceMatchesRequestNamespace E namespace (metadata ob) = Inr md"
    and "key = KKey kind (Name md) namespace" "Name md \<noteq> []"
    and "st_m s key = Some existing"
    and "uidPre \<Longrightarrow> UID md = [] \<or> UID md = UID (metadata existing)"
    and "request_rv kind (Name md) (ResourceVersion md) (ResourceVersion (metadata existing)) = Inr rv"
    and "rv = ResourceVersion (metadata existing)"
    and "pipe E (set_metadata ob (md\<lparr>ResourceVersion := rv\<rparr>)) existing namespace = Inr updated"
  using assms
  by (auto simp: update_checks_def Let_def ebind_Inr_iff split: option.splits if_splits)

lemma checks_identity:
  assumes "upstream_laws E" "wf_state s"
    and checks: "update_checks (pipe E) msg E kind namespace ob uidPre s = Inr (key, updated, existing)"
  shows "st_m s key = Some existing" "kind_of updated = key_Kind key"
    "Name (metadata updated) = key_Name key" "Namespace (metadata updated) = key_Namespace key"
    "UID (metadata updated) = UID (metadata existing)" "UID (metadata updated) \<in> usedUID s"
proof -
  from checks obtain md rv where key: "st_m s key = Some existing"
    and pipe: "pipe E (set_metadata ob (md\<lparr>ResourceVersion := rv\<rparr>)) existing namespace = Inr updated"
    by (rule checks_passed)
  show "st_m s key = Some existing" by (fact key)
  note ids = pipe_id [OF assms(1) pipe] pipe_kind [OF pipe] wf_state_stored [OF assms(2) key]
  show "kind_of updated = key_Kind key" using ids by (simp add: stored_ok_def)
  show "Name (metadata updated) = key_Name key" "Namespace (metadata updated) = key_Namespace key"
    "UID (metadata updated) = UID (metadata existing)" "UID (metadata updated) \<in> usedUID s"
    using ids by (simp_all add: stored_ok_def same_id_def)
qed

lemma update_with_wf:
  assumes laws: "upstream_laws E" and wf: "wf_state s"
    and call: "update_with (pipe E) msg E ch kind namespace ob uidPre s = Some (r, s')"
  shows "wf_state s' \<and> evolves s s'"
proof (cases "update_checks (pipe E) msg E kind namespace ob uidPre s")
  case (Inl e)
  with call wf show ?thesis by (simp add: update_with_def)
next
  case (Inr triple)
  obtain key updated existing where triple: "triple = (key, updated, existing)" by (cases triple)
  note facts = checks_identity [OF laws wf Inr [unfolded triple]]
  from call Inr triple have commit: "update_commit ch key updated existing s = Some (r, s')"
    by (simp add: update_with_def)
  then consider "s' = s\<lparr>st_m := (st_m s)(key := None)\<rparr>" | "s' = s"
    | "store_object ch key updated s = Some (r, s')"
    by (auto simp: update_commit_def split: if_splits)
  then show ?thesis
  proof cases
    case 1
    have "evolves s (s\<lparr>st_m := (st_m s)(key := None)\<rparr>)" by (simp add: evolves_def)
    then show ?thesis using 1 wf_state_remove [OF wf] by simp
  next
    case 2
    with wf show ?thesis by simp
  next
    case 3
    have "wf_state s'"
      using store_object_ok [OF 3 wf facts(2,3,4,6)] wf_state_uid_unique [OF wf _ facts(1)] facts(5)
      by metis
    moreover have "evolves (s\<lparr>usedUID := usedUID s\<rparr>) s'"
      by (rule store_object_evolves [OF 3]) (use facts in auto)
    ultimately show ?thesis by simp
  qed
qed

end

interpretation put: update_pipeline applyValidationAndDefaultingOnUpdate
  by unfold_locales (auto dest: update_pipeline_keeps)

interpretation put_status: update_pipeline applyValidationAndDefaultingOnStatusUpdate
  by unfold_locales (auto dest: status_pipeline_keeps)

lemma updateLocked_wf:
  "upstream_laws E \<Longrightarrow> wf_state s \<Longrightarrow> updateLocked E ch kind namespace ob uidPre s = Some (r, s') \<Longrightarrow>
    wf_state s' \<and> evolves s s'"
  unfolding updateLocked_def by (rule put.update_with_wf)

lemma updateStatusLocked_wf:
  "upstream_laws E \<Longrightarrow> wf_state s \<Longrightarrow>
    updateStatusLocked E ch kind namespace ob uidPre s = Some (r, s') \<Longrightarrow>
    wf_state s' \<and> evolves s s'"
  unfolding updateStatusLocked_def by (rule put_status.update_with_wf)

fun update_request :: "write_request \<Rightarrow> State \<Rightarrow> kobject call" where
  "update_request (E, ch, kind, namespace, ob) s = update E ch kind namespace ob s"

fun updateStatus_request :: "write_request \<Rightarrow> State \<Rightarrow> kobject call" where
  "updateStatus_request (E, ch, kind, namespace, ob) s = updateStatus E ch kind namespace ob s"

interpretation update_op: api_operation update_request request_ok
  by unfold_locales (auto simp: update_def dest: updateLocked_wf)

interpretation update_status_op: api_operation updateStatus_request request_ok
  by unfold_locales (auto simp: updateStatus_def dest: updateStatusLocked_wf)


section \<open>Outcomes of an update\<close>

lemma storage_view_eqD:
  assumes "storageObjectDeepEqual a b"
  shows "elems (Finalizers (metadata a)) = elems (Finalizers (metadata b))" and "UID (metadata a) = UID (metadata b)"
proof -
  from assms have "metadata (storage_view a) = metadata (storage_view b)"
    by (simp add: storageObjectDeepEqual_def)
  then have "(metadata a)\<lparr>ResourceVersion := [], SelfLink := []\<rparr> = (metadata b)\<lparr>ResourceVersion := [], SelfLink := []\<rparr>"
    by (simp add: storage_view_def)
  from arg_cong [OF this, of Finalizers] arg_cong [OF this, of UID]
  show "elems (Finalizers (metadata a)) = elems (Finalizers (metadata b))" "UID (metadata a) = UID (metadata b)"
    by simp_all
qed

lemma storage_view_rv [simp]:
  "storage_view (set_metadata ob ((metadata ob)\<lparr>ResourceVersion := rv\<rparr>)) = storage_view ob"
  by (simp add: storage_view_def)

lemma shouldDelete_rv [simp]:
  "shouldDeleteDuringUpdate (set_metadata ob ((metadata ob)\<lparr>ResourceVersion := rv\<rparr>)) existing =
    shouldDeleteDuringUpdate ob existing"
  by (simp add: shouldDeleteDuringUpdate_def)

text \<open>What a successful update did, in terms of the stored object and the returned one.\<close>

definition updated_as :: "KKey \<Rightarrow> kobject \<Rightarrow> kobject \<Rightarrow> State \<Rightarrow> State \<Rightarrow> bool" where
  "updated_as key existing ob' s s' \<longleftrightarrow>
     usedUID s' = usedUID s \<and>
     (if shouldDeleteDuringUpdate ob' existing
      then st_m s' = (st_m s)(key := None) \<and> usedRV s' = usedRV s
      else st_m s' = (st_m s)(key \<mapsto> ob') \<and>
           (ob' = existing \<and> s' = s \<or>
            \<not> storageObjectDeepEqual ob' existing \<and> ResourceVersion (metadata ob') \<notin> usedRV s \<and>
            usedRV s' = insert (ResourceVersion (metadata ob')) (usedRV s)))"

lemma update_commit_as:
  assumes "update_commit ch key objCopy existing s = Some (r, s')" and "st_m s key = Some existing"
  obtains ob' where "r = Inr ob'" "updated_as key existing ob' s s'"
    "UID (metadata objCopy) = UID (metadata existing) \<Longrightarrow> UID (metadata ob') = UID (metadata existing)"
proof -
  consider (deleted) "shouldDeleteDuringUpdate objCopy existing"
      "r = Inr objCopy" "s' = s\<lparr>st_m := (st_m s)(key := None)\<rparr>"
    | (same) "\<not> shouldDeleteDuringUpdate objCopy existing" "storageObjectDeepEqual objCopy existing"
      "r = Inr existing" "s' = s"
    | (written) "\<not> shouldDeleteDuringUpdate objCopy existing" "\<not> storageObjectDeepEqual objCopy existing"
      "store_object ch key objCopy s = Some (r, s')"
    using assms(1) by (auto simp: update_commit_def split: if_splits)
  then show thesis
  proof cases
    case deleted
    then show thesis by (intro that [of objCopy]) (simp_all add: updated_as_def)
  next
    case same
    have "elems (Finalizers (metadata existing)) = elems (Finalizers (metadata objCopy))"
      using storage_view_eqD [OF same(2)] by simp
    with same(1) have "\<not> shouldDeleteDuringUpdate existing existing" by (simp add: shouldDeleteDuringUpdate_def)
    with same assms(2) show thesis by (intro that [of existing]) (auto simp: updated_as_def)
  next
    case written
    from written(3) obtain rv where "r = Inr (set_metadata objCopy ((metadata objCopy)\<lparr>ResourceVersion := rv\<rparr>))"
      and "s' = s\<lparr>usedRV := insert rv (usedRV s), st_m := (st_m s)(key \<mapsto>
           set_metadata objCopy ((metadata objCopy)\<lparr>ResourceVersion := rv\<rparr>))\<rparr>" and "rv \<notin> usedRV s"
      by (rule store_object_Some)
    with written(1,2) show thesis
      by (intro that [of "set_metadata objCopy ((metadata objCopy)\<lparr>ResourceVersion := rv\<rparr>)"])
        (auto simp: updated_as_def storageObjectDeepEqual_def)
  qed
qed

text \<open>The client's copy, after the namespace rule, names the object and carries its preconditions.\<close>

definition update_accepted :: "env \<Rightarrow> string \<Rightarrow> string \<Rightarrow> kobject \<Rightarrow> kobject \<Rightarrow> State \<Rightarrow> State \<Rightarrow> bool" where
  "update_accepted E kind namespace ob ob' s s' \<longleftrightarrow>
     (\<exists>md existing.
        EnsureObjectNamespaceMatchesRequestNamespace E namespace (metadata ob) = Inr md \<and> Name md \<noteq> [] \<and>
        st_m s (KKey kind (Name md) namespace) = Some existing \<and>
        (UID md = [] \<or> UID md = UID (metadata existing)) \<and>
        (ResourceVersion md = [] \<or> ResourceVersion md = ResourceVersion (metadata existing)) \<and>
        UID (metadata ob') = UID (metadata existing) \<and>
        updated_as (KKey kind (Name md) namespace) existing ob' s s')"

lemma request_rv_Inr:
  "request_rv kind name rv existingRv = Inr x \<Longrightarrow> x = existingRv \<Longrightarrow> rv = [] \<or> rv = existingRv"
  by (auto simp: request_rv_def split: if_splits)

context update_pipeline
begin

lemma update_with_success:
  assumes laws: "upstream_laws E" and wf: "wf_state s"
    and call: "update_with (pipe E) msg E ch kind namespace ob True s = Some (Inr ob', s')"
  shows "update_accepted E kind namespace ob ob' s s'"
proof (cases "update_checks (pipe E) msg E kind namespace ob True s")
  case (Inl e)
  with call show ?thesis by (simp add: update_with_def)
next
  case (Inr triple)
  obtain key updated existing where triple: "triple = (key, updated, existing)" by (cases triple)
  note checks = Inr [unfolded triple]
  from call Inr triple have "update_commit ch key updated existing s = Some (Inr ob', s')"
    by (simp add: update_with_def)
  then obtain "updated_as key existing ob' s s'" "UID (metadata ob') = UID (metadata existing)"
    using checks_identity [OF laws wf checks] by (elim update_commit_as) auto
  moreover from checks obtain md rv where
    "EnsureObjectNamespaceMatchesRequestNamespace E namespace (metadata ob) = Inr md"
    "key = KKey kind (Name md) namespace" "Name md \<noteq> []" "st_m s key = Some existing"
    "UID md = [] \<or> UID md = UID (metadata existing)"
    "request_rv kind (Name md) (ResourceVersion md) (ResourceVersion (metadata existing)) = Inr rv"
    "rv = ResourceVersion (metadata existing)"
    by (rule checks_passed) simp
  ultimately show ?thesis unfolding update_accepted_def
    using request_rv_Inr by (intro exI [of _ md] exI [of _ existing]) auto
qed

lemma update_with_stale:
  assumes "EnsureObjectNamespaceMatchesRequestNamespace E namespace (metadata ob) = Inr md"
    and "Name md \<noteq> []" "ResourceVersion md \<noteq> []"
    and "\<And>existing. st_m s (KKey kind (Name md) namespace) = Some existing \<Longrightarrow>
      ResourceVersion (metadata existing) \<noteq> ResourceVersion md"
  shows "\<exists>e. update_with (pipe E) msg E ch kind namespace ob uidPre s = Some (Inl e, s) \<and>
    (IsConflict e \<or> IsNotFound e \<or> e = InternalError (ResourceVersion md))"
proof (cases "st_m s (KKey kind (Name md) namespace)")
  case None
  with assms show ?thesis by (simp add: update_with_def update_checks_def Let_def)
next
  case (Some existing)
  with assms show ?thesis
    by (auto simp: update_with_def update_checks_def Let_def request_rv_def uid_conflict_def rv_conflict_def)
qed

end

end
