(* ===== verification/Api_Write_Spec.thy ===== *)
theory Api_Write_Spec
  imports Api_Write
begin

text \<open>
  The properties of \<open>create\<close>, \<open>update\<close> and \<open>updateStatus\<close>: what success means, what an
  error leaves behind, optimistic concurrency, and when \<open>create\<close> returns.
\<close>

section \<open>Create\<close>

text \<open>C3: A successful create stores exactly one new object, the one it returns, under the kind,
  the namespace of the request and the object's name, where nothing was stored before; its UID
  and resource version were never used before and are now recorded; nothing else changes.\<close>

theorem create_success:
  assumes "upstream_laws E" "kind_of ob = kind" "wf_state s"
    and call: "create E ch kind namespace ob s = Some (Inr ob', s')"
  shows "(let key = KKey kind (Name (metadata ob')) namespace; uid = UID (metadata ob');
              rv = ResourceVersion (metadata ob') in
     kind_of ob' = kind \<and> Namespace (metadata ob') = namespace \<and>
     (Name (metadata ob) \<noteq> [] \<longrightarrow> Name (metadata ob') = Name (metadata ob)) \<and>
     st_m s key = None \<and> uid \<notin> usedUID s \<and> rv \<notin> usedRV s \<and>
     s' = s\<lparr>st_m := (st_m s)(key \<mapsto> ob'), usedUID := insert uid (usedUID s),
           usedRV := insert rv (usedRV s)\<rparr>)"
  using call
proof (cases rule: create_outcomes)
  case (stored md uid s1 name objCopy ob2)
  note uid = generateNewUID_frame [OF stored(2)] uids.alloc_fresh [OF stored(2)]
  from create_stored_facts [OF assms(1,2) stored(1,3,6)] obtain ob1
    where store: "store_object ch (KKey kind name namespace) ob1 s1 = Some (Inr ob2, s')"
      and free: "st_m s1 (KKey kind name namespace) = None"
      and ob1: "kind_of ob1 = kind" "Name (metadata ob1) = name" "Namespace (metadata ob1) = namespace"
        "UID (metadata ob1) = uid" by blast
  from store obtain rv where ob2: "ob2 = set_metadata ob1 ((metadata ob1)\<lparr>ResourceVersion := rv\<rparr>)"
    and s': "s' = s1\<lparr>usedRV := insert rv (usedRV s1), st_m := (st_m s1)(KKey kind name namespace \<mapsto>
           set_metadata ob1 ((metadata ob1)\<lparr>ResourceVersion := rv\<rparr>))\<rparr>"
    and rv: "rv \<notin> usedRV s1"
    by (elim store_object_Some) simp
  have "Name md = Name (metadata ob)"
    using ensure_namespaceD [OF assms(1) stored(1)] assms(1) by (simp add: upstream_laws_def)
  with stored(4,5) uid free ob1 ob2 s' rv show ?thesis by (auto simp: Let_def)
qed simp_all

definition example_new_meta :: ObjectMeta where
  "example_new_meta = (example_meta ''q'' ''default'')\<lparr>CreationTimestamp := 100, UID := ''0''\<rparr>"

definition example_created :: kobject where
  "example_created = KPod (applyPriorityAdmission (applyDefaultTolerationSeconds
     (example_pod (example_new_meta\<lparr>ResourceVersion := ''0''\<rparr>))))"

lemma example_pipeline:
  "applyValidationAndDefaulting example_env (KPod (example_pod md)) name =
     Inr (KPod (applyPriorityAdmission (applyDefaultTolerationSeconds (example_pod md))))"
  by (simp add: applyValidationAndDefaulting_def example_env_def example_ops_def convert_in_def
      convert_out_def validate_with_def)

lemma example_create_eq:
  "create example_env example_choices ''Pod'' ''default'' (KPod (example_pod (example_meta ''q'' []))) example_state =
     Some (Inr example_created,
           example_state\<lparr>usedUID := {''0'', ''u''}, usedRV := {''0'', ''7''},
             st_m := (st_m example_state)(KKey ''Pod'' ''q'' ''default'' \<mapsto> example_created)\<rparr>)"
proof -
  let ?pod = "example_pod example_new_meta"
  have "create_named example_env example_choices ''Pod'' ''default'' ''q'' (KPod ?pod)
      (example_state\<lparr>usedUID := {''0'', ''u''}\<rparr>) =
     Some (Inr example_created,
           example_state\<lparr>usedUID := {''0'', ''u''}, usedRV := {''0'', ''7''},
             st_m := (st_m example_state)(KKey ''Pod'' ''q'' ''default'' \<mapsto> example_created)\<rparr>)"
    by (simp add: create_named_def example_pipeline Let_def example_state_simps stored_key_def
        store_object_def example_new_rv validateObjectMeta_def)
      (simp add: example_env_def example_created_def applyPriorityAdmission_def
        applyDefaultTolerationSeconds_def example_pod_def Let_def)
  then show ?thesis
    by (simp add: create_def example_new_uid example_state_simps example_env_simps example_wiped
        example_meta_simps example_now example_new_meta_def Let_def)
qed

theorem create_success_witness:
  "\<exists>ob'. kind_of ob' = ''Pod'' \<and> UID (metadata ob') \<notin> usedUID example_state"
proof -
  from create_success [OF example_env_laws _ example_state_wf example_create_eq]
  show ?thesis by (auto simp: Let_def)
qed

text \<open>A failed create leaves the stored objects and the used resource versions as they
  were; at most one fresh UID is consumed.\<close>

theorem create_error:
  assumes "create E ch kind namespace ob s = Some (Inl e, s')"
  shows "s' = s \<or> (\<exists>uid. uid \<notin> usedUID s \<and> s' = s\<lparr>usedUID := insert uid (usedUID s)\<rparr>)"
  using assms
proof (cases rule: create_outcomes)
  case (late e' uid)
  with generateNewUID_frame [OF late(2)] uids.alloc_fresh [OF late(2)] show ?thesis by blast
qed simp_all

lemma example_create_nameless:
  "create example_env example_choices ''Pod'' ''default'' (KPod (example_pod (example_meta [] []))) NewState =
     Some (Inl (Errorf ''object of kind %q must specify a name or generateName'' [''Pod'']),
           NewState\<lparr>usedUID := {''0''}\<rparr>)"
  by (simp add: create_def example_new_uid example_env_simps example_wiped example_meta_simps Let_def)

theorem create_error_witness:
  "NewState\<lparr>usedUID := {''0''}\<rparr> = NewState \<or>
    (\<exists>uid. uid \<notin> usedUID NewState \<and> NewState\<lparr>usedUID := {''0''}\<rparr> = NewState\<lparr>usedUID := insert uid (usedUID NewState)\<rparr>)"
  by (rule create_error [OF example_create_nameless])

text \<open>A create whose explicit name is taken never succeeds, whatever the object is.\<close>

theorem create_taken:
  assumes "upstream_laws E" "kind_of ob = kind" "wf_state s"
    and "Name (metadata ob) \<noteq> []" "st_m s (KKey kind (Name (metadata ob)) namespace) \<noteq> None"
  shows "create E ch kind namespace ob s \<noteq> Some (Inr ob', s')"
proof
  assume call: "create E ch kind namespace ob s = Some (Inr ob', s')"
  obtain taken where "st_m s (KKey kind (Name (metadata ob)) namespace) = Some taken" using assms(5) by blast
  moreover from call have "st_m s (KKey kind (Name (metadata ob)) namespace) = None"
  proof (cases rule: create_outcomes)
    case (stored md uid s1 name objCopy ob2)
    have "Name md = Name (metadata ob)"
      using ensure_namespaceD [OF assms(1) stored(1)] assms(1) by (simp add: upstream_laws_def)
    with stored(4) assms(4) have "name = Name (metadata ob)" by auto
    with create_named_stored [OF stored(6)] generateNewUID_frame [OF stored(2)] show ?thesis by auto
  qed simp_all
  ultimately show False by simp
qed

theorem create_taken_witness:
  "create example_env example_choices ''Pod'' ''default'' (KPod (example_pod (example_meta ''p'' []))) example_state
    \<noteq> Some (Inr (KPod (example_pod stored_meta)), example_state)"
  by (rule create_taken [OF example_env_laws _ example_state_wf]) (simp_all add: example_object_defs)

lemma store_object_returns:
  "\<exists>i. format_nat (unat (o_int63 ch i)) \<notin> usedRV s \<Longrightarrow> store_object ch key ob s \<noteq> None"
  using draw_fresh_Some_iff [of "\<lambda>i. format_nat (unat (o_int63 ch i))" "\<lambda>rv. rv \<in> usedRV s" 0]
  by (auto simp: store_object_def generateNewRVAndUpdate_def Let_def split: option.splits)

text \<open>Create returns, with a value or an error, as soon as the random sources offer an unused
  UID, an unused resource version and, when a name has to be generated, a free name.\<close>

theorem create_returns:
  assumes "\<exists>i. o_uuid ch i \<notin> usedUID s" "\<exists>i. format_nat (unat (o_int63 ch i)) \<notin> usedRV s"
    and "\<And>gn. \<exists>i. st_m s (KKey kind (gn @ randomSuffix (o_intn ch i) 5) namespace) = None"
  shows "\<exists>r s'. create E ch kind namespace ob s = Some (r, s')"
proof -
  have named: "create_named E ch kind namespace name objCopy s1 \<noteq> None" if "usedRV s1 = usedRV s" for name objCopy s1
    using store_object_returns [of ch s1] that assms(2)
    by (auto simp: create_named_def Let_def split: sum.splits option.splits)
  obtain uid s1 where uid: "generateNewUIDAndUpdate ch s = Some (uid, s1)"
    using draw_fresh_Some_iff [of "o_uuid ch" "\<lambda>uid. uid \<in> usedUID s" 0] assms(1)
    by (auto simp: generateNewUIDAndUpdate_def)
  note s1 = generateNewUID_frame [OF uid]
  have gen: "generateNewName ch s1 kind namespace gn \<noteq> None" for gn
    using draw_fresh_Some_iff [of "\<lambda>i. gn @ randomSuffix (o_intn ch i) 5"
        "\<lambda>name. st_m s1 (KKey kind name namespace) \<noteq> None" 0] assms(3) [of gn] s1
    by (auto simp: generateNewName_def)
  have rvs: "usedRV s1 = usedRV s" using s1 by simp
  have "create E ch kind namespace ob s \<noteq> None"
  proof (cases "EnsureObjectNamespaceMatchesRequestNamespace E namespace
      (WipeObjectMetaSystemFields E (metadata ob))")
    case (Inr md)
    with uid gen [of "GenerateName md"] named [OF rvs] show ?thesis
      by (cases "generateNewName ch s1 kind namespace (GenerateName md)") (simp_all add: create_def Let_def)
  qed (simp add: create_def)
  then show ?thesis by fastforce
qed

theorem create_returns_witness:
  "\<exists>r s'. create example_env example_choices ''Pod'' ''default'' (client_pod stored_meta) NewState = Some (r, s')"
  by (rule create_returns) (simp_all add: NewState_def)

section \<open>Update\<close>

text \<open>C4: A successful update met its preconditions (the UID and resource version the client sent
  are empty or the stored ones), kept the object's UID, and touched only its own key: the key is
  removed when the update completes a pending deletion, left alone with its resource version when
  the write would change nothing, and otherwise holds the returned object under a resource version
  never used before.\<close>

theorem update_success:
  assumes "upstream_laws E" "wf_state s"
    and "update E ch kind namespace ob s = Some (Inr ob', s')"
  shows "update_accepted E kind namespace ob ob' s s'"
  using assms(3) put.update_with_success [OF assms(1,2)] by (simp add: update_def updateLocked_def)

lemma example_update_pipeline:
  assumes "same_id md omd"
  shows "applyValidationAndDefaultingOnUpdate example_env (KPod (example_pod md)) (KPod (example_pod omd)) ns =
    Inr (KPod (applyDefaultTolerationSeconds (example_pod md)))"
proof -
  have "md\<lparr>UID := UID omd\<rparr> = md" using assms by (simp add: same_id_def)
  with assms show ?thesis
    by (simp add: applyValidationAndDefaultingOnUpdate_def example_env_simps example_ops_def convert_in_def
        convert_out_def typed_update_def example_before_update_def applyDefaultTolerationSeconds_def
        example_pod_def example_spec_def same_id_def Let_def)
qed

definition example_updated :: "string \<Rightarrow> kobject" where
  "example_updated rv = KPod (applyDefaultTolerationSeconds (example_pod
     (stored_meta\<lparr>Labels := Some example_labels, ResourceVersion := rv\<rparr>)))"

lemma example_update_eq:
  "update example_env example_choices ''Pod'' ''default'' (client_pod stored_meta) example_state =
     Some (Inr (example_updated ''0''), example_state\<lparr>usedRV := {''0'', ''7''},
       st_m := (st_m example_state)(stored_key \<mapsto> example_updated ''0'')\<rparr>)"
proof -
  let ?md = "stored_meta\<lparr>Labels := Some example_labels\<rparr>"
  let ?old = "KPod (example_pod stored_meta)"
  have rv: "request_rv ''Pod'' ''p'' ''7'' ''7'' = Inr ''7''"
    by (simp add: request_rv_def parse_uint_def digit_val_def)
  have ns: "example_ensure_namespace ''default'' ?md = Inr ?md"
    by (simp add: example_ensure_namespace_def stored_meta_simps stored_meta_def example_meta_def)
  have same: "?md\<lparr>ResourceVersion := ''7''\<rparr> = ?md"
    by (simp add: stored_meta_def example_meta_def)
  have updated: "example_updated ''7'' = KPod (applyDefaultTolerationSeconds (example_pod ?md))"
    using same by (simp add: example_updated_def)
  have checks: "update_checks (applyValidationAndDefaultingOnUpdate example_env)
      ''object of kind %q must specify a name for update'' example_env ''Pod'' ''default''
      (client_pod stored_meta) True example_state = Inr (stored_key, example_updated ''7'', ?old)"
    using example_update_pipeline [of ?md stored_meta "''default''"]
    by (simp add: update_checks_def client_pod_def example_env_simps example_meta_simps ns rv same
        stored_meta_simps example_state_simps stored_key_def same_id_def updated Let_def)
  have "storage_view (example_updated ''7'') \<noteq> storage_view ?old"
  proof
    assume "storage_view (example_updated ''7'') = storage_view ?old"
    then have "Labels (metadata (storage_view (example_updated ''7''))) = Labels (metadata (storage_view ?old))"
      by simp
    then show False by (simp add: storage_view_def example_updated_def applyDefaultTolerationSeconds_def
          example_meta_simps stored_meta_simps Let_def)
  qed
  moreover have "\<not> shouldDeleteDuringUpdate (example_updated ''7'') ?old"
    by (simp add: shouldDeleteDuringUpdate_def example_meta_simps stored_meta_simps)
  moreover have "store_object example_choices stored_key (example_updated ''7'') example_state =
     Some (Inr (example_updated ''0''), example_state\<lparr>usedRV := {''0'', ''7''},
       st_m := (st_m example_state)(stored_key \<mapsto> example_updated ''0'')\<rparr>)"
    by (simp add: store_object_def example_new_rv example_state_simps Let_def)
      (simp add: example_updated_def applyDefaultTolerationSeconds_def example_pod_def Let_def)
  ultimately show ?thesis
    by (simp add: update_def updateLocked_def update_with_def checks update_commit_def storageObjectDeepEqual_def)
qed

theorem update_success_witness:
  "update_accepted example_env ''Pod'' ''default'' (client_pod stored_meta) (example_updated ''0'') example_state
     (example_state\<lparr>usedRV := {''0'', ''7''}, st_m := (st_m example_state)(stored_key \<mapsto> example_updated ''0'')\<rparr>)"
  by (rule update_success [OF example_env_laws example_state_wf example_update_eq])

text \<open>The same holds of a status update, which only differs in the strategy it runs.\<close>

theorem updateStatus_success:
  assumes "upstream_laws E" "wf_state s"
    and "updateStatus E ch kind namespace ob s = Some (Inr ob', s')"
  shows "update_accepted E kind namespace ob ob' s s'"
  using assms(3) put_status.update_with_success [OF assms(1,2)]
  by (simp add: updateStatus_def updateStatusLocked_def)

text \<open>A status update that sends the stored object back: nothing is written.\<close>

lemma example_status_eq:
  "updateStatus example_env example_choices ''Pod'' ''default'' (KPod (example_pod stored_meta)) example_state =
     Some (Inr (KPod (example_pod stored_meta)), example_state)"
proof -
  have rv: "request_rv ''Pod'' ''p'' ''7'' ''7'' = Inr ''7''"
    by (simp add: request_rv_def parse_uint_def digit_val_def)
  have ns: "example_ensure_namespace ''default'' stored_meta = Inr stored_meta"
    by (simp add: example_ensure_namespace_def stored_meta_def example_meta_def)
  have same: "stored_meta\<lparr>ResourceVersion := ''7''\<rparr> = stored_meta" "stored_meta\<lparr>UID := ''u''\<rparr> = stored_meta"
    by (simp_all add: stored_meta_def example_meta_def)
  have pipeline: "applyValidationAndDefaultingOnStatusUpdate example_env (KPod (example_pod stored_meta))
      (KPod (example_pod stored_meta)) ns = Inr (KPod (example_pod stored_meta))" for ns
    by (simp add: applyValidationAndDefaultingOnStatusUpdate_def example_env_simps example_ops_def
        convert_in_def convert_out_def typed_update_def example_before_update_def example_meta_simps
        stored_meta_simps same Let_def)
  show ?thesis
    by (simp add: updateStatus_def updateStatusLocked_def update_with_def update_checks_def
        example_env_simps example_meta_simps ns rv same stored_meta_simps example_state_simps
        stored_key_def pipeline update_commit_def shouldDeleteDuringUpdate_def storageObjectDeepEqual_def Let_def)
qed

theorem updateStatus_success_witness:
  "update_accepted example_env ''Pod'' ''default'' (KPod (example_pod stored_meta))
     (KPod (example_pod stored_meta)) example_state example_state"
  by (rule updateStatus_success [OF example_env_laws example_state_wf example_status_eq])

text \<open>Optimistic locking: an update or status update that carries a resource version other
  than the stored one is rejected with a conflict, a not-found error or, for a version that is no
  number, an internal error, and changes nothing.\<close>

theorem stale_update_rejected:
  assumes "EnsureObjectNamespaceMatchesRequestNamespace E namespace (metadata ob) = Inr md"
    and "Name md \<noteq> []" "ResourceVersion md \<noteq> []"
    and "\<And>existing. st_m s (KKey kind (Name md) namespace) = Some existing \<Longrightarrow>
      ResourceVersion (metadata existing) \<noteq> ResourceVersion md"
  shows "(\<exists>e. update E ch kind namespace ob s = Some (Inl e, s) \<and>
      (IsConflict e \<or> IsNotFound e \<or> e = InternalError (ResourceVersion md))) \<and>
    (\<exists>e. updateStatus E ch kind namespace ob s = Some (Inl e, s) \<and>
      (IsConflict e \<or> IsNotFound e \<or> e = InternalError (ResourceVersion md)))"
  using put.update_with_stale [OF assms] put_status.update_with_stale [OF assms]
  by (simp add: update_def updateLocked_def updateStatus_def updateStatusLocked_def)

theorem stale_update_rejected_witness:
  "\<exists>e. update example_env example_choices ''Pod'' ''default''
      (client_pod (stored_meta\<lparr>ResourceVersion := ''6''\<rparr>)) example_state = Some (Inl e, example_state)"
proof -
  have "\<exists>e. update example_env example_choices ''Pod'' ''default''
      (client_pod (stored_meta\<lparr>ResourceVersion := ''6''\<rparr>)) example_state = Some (Inl e, example_state) \<and>
      (IsConflict e \<or> IsNotFound e \<or> e = InternalError (ResourceVersion (metadata
        (client_pod (stored_meta\<lparr>ResourceVersion := ''6''\<rparr>)))))"
    by (rule stale_update_rejected [THEN conjunct1])
      (auto simp: example_env_simps client_pod_def example_ensure_namespace_def example_object_defs)
  then show ?thesis by blast
qed

end
