(* ===== verification/Api_Delete.thy ===== *)
theory Api_Delete
  imports Api_Write "HOL-Library.Multiset"
begin

text \<open>
  The delete path (src/kubernetes_model/apimodel/api_model.go): the finalizers of the garbage
  collector, the checks of the delete options, graceful deletion, and \<open>delete\<close> itself.
\<close>

section \<open>Garbage collection finalizers\<close>

text \<open>
  The two decisions walk the options and then the finalizers in the same way; \<open>policy\<close> is
  the answer of the \<open>PropagationPolicy\<close> switch, where an unknown policy falls through.
\<close>

fun first_gc_finalizer :: "string list \<Rightarrow> string option" where
  "first_gc_finalizer [] = None"
| "first_gc_finalizer (f # fs) =
     (if f = FinalizerOrphanDependents \<or> f = FinalizerDeleteDependents then Some f
      else first_gc_finalizer fs)"

definition shouldOrphanDependents :: "ObjectMeta \<Rightarrow> DeleteOptions \<Rightarrow> bool" where
  "shouldOrphanDependents md options =
     (case OrphanDependents options of
        Some b \<Rightarrow> b
      | None \<Rightarrow>
          (let from_finalizers = (first_gc_finalizer (elems (Finalizers md)) = Some FinalizerOrphanDependents)
           in case PropagationPolicy options of
                Some policy \<Rightarrow>
                  if policy = DeletePropagationOrphan then True
                  else if policy = DeletePropagationBackground \<or> policy = DeletePropagationForeground
                  then False else from_finalizers
              | None \<Rightarrow> from_finalizers))"

definition shouldDeleteDependents :: "ObjectMeta \<Rightarrow> DeleteOptions \<Rightarrow> bool" where
  "shouldDeleteDependents md options =
     (case OrphanDependents options of
        Some b \<Rightarrow> False
      | None \<Rightarrow>
          (let from_finalizers = (first_gc_finalizer (elems (Finalizers md)) = Some FinalizerDeleteDependents)
           in case PropagationPolicy options of
                Some policy \<Rightarrow>
                  if policy = DeletePropagationForeground then True
                  else if policy = DeletePropagationBackground \<or> policy = DeletePropagationOrphan
                  then False else from_finalizers
              | None \<Rightarrow> from_finalizers))"

definition deletionFinalizersForGarbageCollection ::
  "ObjectMeta \<Rightarrow> DeleteOptions \<Rightarrow> bool \<times> string slice" where
  "deletionFinalizersForGarbageCollection md options =
     (let shouldOrphan = shouldOrphanDependents md options;
          shouldDeleteInForeground = shouldDeleteDependents md options;
          oldFinalizers = elems (Finalizers md);
          kept = filter (\<lambda>f. \<not> (f = FinalizerOrphanDependents \<or> f = FinalizerDeleteDependents)) oldFinalizers;
          newFinalizers = kept @ (if shouldOrphan then [FinalizerOrphanDependents] else [])
                               @ (if shouldDeleteInForeground then [FinalizerDeleteDependents] else [])
      in if length oldFinalizers \<noteq> length newFinalizers then (True, Some newFinalizers)
         else if list_ex (\<lambda>f. f \<notin> set oldFinalizers) newFinalizers then (True, Some newFinalizers)
         else (False, Finalizers md))"

section \<open>Checks of the options\<close>

text \<open>
  \<open>metav1validation.ValidateDeleteOptions\<close>
  (src/src/code/k8s_io/apimachinery/pkg/apis/meta/v1/validation.v), as its list of messages.
\<close>

definition ValidateDryRun :: "string list \<Rightarrow> string list" where
  "ValidateDryRun dryRun = (if \<not> set dryRun \<subseteq> {''All''} then [''dryRun: Unsupported value''] else [])"

definition ValidateIgnoreStoreReadError :: "DeleteOptions \<Rightarrow> string list" where
  "ValidateIgnoreStoreReadError options =
     (if IgnoreStoreReadError options \<noteq> Some True then []
      else (if elems (DryRun options) \<noteq> [] then [''cannot be set together with .dryRun''] else []) @
           (if PropagationPolicy options \<noteq> None then [''cannot be set together with .propagationPolicy''] else []) @
           (if OrphanDependents options \<noteq> None then [''cannot be set together with .orphanDependents''] else []) @
           (if GracePeriodSeconds options \<noteq> None then [''cannot be set together with .gracePeriodSeconds''] else []) @
           (if do_Preconditions options \<noteq> None then [''cannot be set together with .preconditions''] else []))"

definition ValidateDeleteOptions :: "DeleteOptions \<Rightarrow> string list" where
  "ValidateDeleteOptions options =
     (if PropagationPolicy options \<noteq> None \<and> OrphanDependents options \<noteq> None
      then [''orphanDependents and deletionPropagation cannot be both set''] else []) @
     (case PropagationPolicy options of
        None \<Rightarrow> []
      | Some policy \<Rightarrow>
          if policy \<noteq> DeletePropagationForeground \<and> policy \<noteq> DeletePropagationBackground \<and>
             policy \<noteq> DeletePropagationOrphan
          then [''propagationPolicy: Unsupported value''] else []) @
     ValidateDryRun (elems (DryRun options)) @
     ValidateIgnoreStoreReadError options"

definition validateDeleteOptions :: "DeleteOptions \<Rightarrow> error option" where
  "validateDeleteOptions options =
     (let errs = ValidateDeleteOptions options
      in if errs \<noteq> [] then Some (Invalid ''DeleteOptions'' [] errs) else None)"

definition validateDeletePreconditions :: "ObjectMeta \<Rightarrow> DeleteOptions \<Rightarrow> string \<Rightarrow> error option" where
  "validateDeletePreconditions md options kind =
     (case do_Preconditions options of
        None \<Rightarrow> None
      | Some p \<Rightarrow>
          if pre_UID p \<noteq> None \<and> pre_UID p \<noteq> Some (UID md)
          then Some (Conflict kind (Name md)
                 [''the UID in the precondition (%s) does not match the UID in record (%s). The object might have been deleted and then recreated'',
                  the (pre_UID p), UID md])
          else if pre_ResourceVersion p \<noteq> None \<and> pre_ResourceVersion p \<noteq> Some (ResourceVersion md)
          then Some (Conflict kind (Name md)
                 [''the ResourceVersion in the precondition (%s) does not match the ResourceVersion in record (%s). The object might have been modified'',
                  the (pre_ResourceVersion p), ResourceVersion md])
          else None)"

section \<open>Graceful deletion\<close>

text \<open>A negative grace period means one second.\<close>

definition clamp_grace :: "int64 option \<Rightarrow> int64 option" where
  "clamp_grace g = (case g of None \<Rightarrow> None | Some p \<Rightarrow> Some (if p <s 0 then 1 else p))"

text \<open>
  The branch for an object that is already being deleted; the result is
  \<open>(graceful, pendingGraceful)\<close> with the object and the options as the code leaves them.
\<close>

definition already_deleting ::
  "choices \<Rightarrow> kobject \<Rightarrow> instant \<Rightarrow> DeleteOptions \<Rightarrow> bool \<times> bool \<times> kobject \<times> DeleteOptions" where
  "already_deleting ch ob ts options =
     (case DeletionGracePeriodSeconds (metadata ob) of
        None \<Rightarrow> (False, False, ob, options)
      | Some current \<Rightarrow>
          if current = 0 then (False, False, ob, options)
          else
          (case GracePeriodSeconds options of
             None \<Rightarrow> (False, True, ob, options\<lparr>GracePeriodSeconds := Some current\<rparr>)
           | Some period \<Rightarrow>
               if current \<le>s period then (False, True, ob, options)
               else
               (let shifted = time_add (time_add ts (- seconds current)) (seconds period);
                    passed = (shifted < o_now ch);
                    newDeletionTimestamp = (if passed then o_now ch else shifted);
                    newPeriod = (if passed \<and> period \<noteq> 0 then 1 else period)
                in (True, False,
                    set_metadata ob ((metadata ob)\<lparr>DeletionTimestamp := Some newDeletionTimestamp,
                                                  DeletionGracePeriodSeconds := Some newPeriod\<rparr>),
                    options))))"

fun strategy_graceful ::
  "env \<Rightarrow> kobject \<Rightarrow> DeleteOptions \<Rightarrow> error + bool \<times> bool \<times> kobject \<times> DeleteOptions" where
  "strategy_graceful E (KPod typed) options =
     (case to_internal (podOps E) typed of
        Inl e \<Rightarrow> Inl (UpstreamError e)
      | Inr internalPod \<Rightarrow>
          (case PodCheckGracefulDelete E internalPod options of
             (graceful, internalPod', options') \<Rightarrow>
               (case to_versioned (podOps E) internalPod' of
                  Inl e \<Rightarrow> Inl (UpstreamError e)
                | Inr typed' \<Rightarrow>
                    Inr (graceful, DeletionTimestamp (ObjectMeta internalPod') \<noteq> None, KPod typed', options'))))"
| "strategy_graceful E (KReplicaSet x) options = Inr (False, False, KReplicaSet x, options)"
| "strategy_graceful E (KPersistentVolumeClaim x) options =
     Inr (False, False, KPersistentVolumeClaim x, options)"
| "strategy_graceful E (KStatefulSet x) options = Inr (False, False, KStatefulSet x, options)"
| "strategy_graceful E (KControllerRevision x) options = Inr (False, False, KControllerRevision x, options)"
| "strategy_graceful E (KDeployment x) options = Inr (False, False, KDeployment x, options)"
| "strategy_graceful E (KNamespace x) options =
     Inl (Errorf ''unsupported object type for graceful delete: %T'' [''Namespace''])"
| "strategy_graceful E (KServiceAccount x) options =
     Inl (Errorf ''unsupported object type for graceful delete: %T'' [''ServiceAccount''])"
| "strategy_graceful E (KClusterRole x) options =
     Inl (Errorf ''unsupported object type for graceful delete: %T'' [''ClusterRole''])"

definition checkGracefulDelete ::
  "env \<Rightarrow> choices \<Rightarrow> kobject \<Rightarrow> DeleteOptions \<Rightarrow> error + bool \<times> bool \<times> kobject \<times> DeleteOptions" where
  "checkGracefulDelete E ch ob options =
     (let options1 = options\<lparr>GracePeriodSeconds := clamp_grace (GracePeriodSeconds options)\<rparr>;
          md = metadata ob;
          ob1 = set_metadata ob (md\<lparr>DeletionGracePeriodSeconds := clamp_grace (DeletionGracePeriodSeconds md)\<rparr>)
      in case DeletionTimestamp md of
           Some ts \<Rightarrow> Inr (already_deleting ch ob1 ts options1)
         | None \<Rightarrow> strategy_graceful E ob1 options1)"

section \<open>Delete\<close>

definition deletionTimestampForDelete :: "choices \<Rightarrow> bool \<Rightarrow> int64 \<Rightarrow> instant" where
  "deletionTimestampForDelete ch graceful gracePeriod =
     (if graceful then time_add (o_now ch) (seconds gracePeriod) else o_now ch)"

definition with_gc_finalizers :: "kobject \<Rightarrow> DeleteOptions \<Rightarrow> kobject" where
  "with_gc_finalizers objCopy options =
     (case deletionFinalizersForGarbageCollection (metadata objCopy) options of
        (shouldUpdateFinalizers, newFinalizers) \<Rightarrow>
          if shouldUpdateFinalizers
          then set_metadata objCopy ((metadata objCopy)\<lparr>Finalizers := newFinalizers\<rparr>) else objCopy)"

definition delete_grace :: "bool \<Rightarrow> DeleteOptions \<Rightarrow> int64" where
  "delete_grace graceful options =
     (if graceful \<and> GracePeriodSeconds options \<noteq> None then the (GracePeriodSeconds options) else 0)"

definition mark_deleted :: "choices \<Rightarrow> bool \<Rightarrow> int64 \<Rightarrow> ObjectMeta \<Rightarrow> ObjectMeta" where
  "mark_deleted ch graceful gracePeriod md =
     (let md1 = (if DeletionGracePeriodSeconds md = None \<or> DeletionGracePeriodSeconds md \<noteq> Some gracePeriod
                 then md\<lparr>DeletionGracePeriodSeconds := Some gracePeriod\<rparr> else md)
      in if DeletionTimestamp md1 = None
         then md1\<lparr>DeletionTimestamp := Some (deletionTimestampForDelete ch graceful gracePeriod),
                  Generation := (if 0 <s Generation md1 then Generation md1 + 1 else Generation md1)\<rparr>
         else md1)"

definition delete_commit ::
  "choices \<Rightarrow> KKey \<Rightarrow> kobject \<Rightarrow> bool \<Rightarrow> kobject \<Rightarrow> DeleteOptions \<Rightarrow> State \<Rightarrow> unit call" where
  "delete_commit ch key ob graceful checked options s =
     (let objCopy = with_gc_finalizers checked options;
          gracePeriod = delete_grace graceful options
      in if elems (Finalizers (metadata objCopy)) = [] \<and> gracePeriod = 0
         then Some (Inr (), s\<lparr>st_m := (st_m s)(key := None)\<rparr>)
         else
         (let marked = set_metadata objCopy (mark_deleted ch graceful gracePeriod (metadata objCopy))
          in if storageObjectDeepEqual marked ob then Some (Inr (), s)
             else map_option (\<lambda>(r, s'). (map_sum id (\<lambda>_. ()) r, s')) (store_object ch key marked s)))"

definition delete :: "env \<Rightarrow> choices \<Rightarrow> KKey \<Rightarrow> DeleteOptions \<Rightarrow> State \<Rightarrow> unit call" where
  "delete E ch key options s =
     (case st_m s key of
        None \<Rightarrow> Some (Inl (NotFound (key_Kind key) (key_Name key)), s)
      | Some ob \<Rightarrow>
          (let objCopy = deepCopy ob in
           case validateDeleteOptions options of
             Some e \<Rightarrow> Some (Inl e, s)
           | None \<Rightarrow>
               (case validateDeletePreconditions (metadata objCopy) options (key_Kind key) of
                  Some e \<Rightarrow> Some (Inl e, s)
                | None \<Rightarrow>
                    (case checkGracefulDelete E ch objCopy options of
                       Inl e \<Rightarrow> Some (Inl e, s)
                     | Inr (graceful, pendingGraceful, checked, options') \<Rightarrow>
                         if pendingGraceful then Some (Inr (), s)
                         else delete_commit ch key ob graceful checked options' s))))"


section \<open>The garbage collection decisions\<close>

definition gc_finalizer :: "string \<Rightarrow> bool" where
  "gc_finalizer f \<longleftrightarrow> f = FinalizerOrphanDependents \<or> f = FinalizerDeleteDependents"

lemma orphan_not_foreground:
  "shouldOrphanDependents md options \<Longrightarrow> \<not> shouldDeleteDependents md options"
  by (auto simp: shouldOrphanDependents_def shouldDeleteDependents_def Let_def gc_constants
      split: option.splits if_splits)

lemma gc_finalizers_of_decision:
  fixes old :: "string list"
  assumes "length old = length (filter (\<lambda>f. \<not> gc_finalizer f) old @ added)"
    and "set added \<subseteq> set old" "length added \<le> 1" "\<forall>f \<in> set added. gc_finalizer f"
  shows "mset old = mset (filter (\<lambda>f. \<not> gc_finalizer f) old @ added)"
proof -
  have split: "mset old = mset (filter (\<lambda>f. \<not> gc_finalizer f) old) + mset (filter gc_finalizer old)"
    using multiset_partition [of "mset old" "\<lambda>f. \<not> gc_finalizer f"] by simp
  with assms(1) have len: "length (filter gc_finalizer old) = length added"
    by (metis add_left_cancel length_append mset_append size_mset)
  have "filter gc_finalizer old = added"
  proof (cases added)
    case Nil
    with len show ?thesis by simp
  next
    case (Cons f rest)
    with assms(3) have "added = [f]" by (cases rest) auto
    moreover from this assms have "f \<in> set (filter gc_finalizer old)" by auto
    ultimately show ?thesis using len
      by (cases "filter gc_finalizer old") (auto simp: length_Suc_conv)
  qed
  with split show ?thesis by simp
qed

definition gc_added :: "ObjectMeta \<Rightarrow> DeleteOptions \<Rightarrow> string list" where
  "gc_added md options =
     (if shouldOrphanDependents md options then [FinalizerOrphanDependents] else []) @
     (if shouldDeleteDependents md options then [FinalizerDeleteDependents] else [])"

lemma gc_added_length: "length (gc_added md options) \<le> 1"
  using orphan_not_foreground [of md options] by (simp add: gc_added_def)

lemma gc_added_gc: "\<forall>f \<in> set (gc_added md options). gc_finalizer f"
  by (auto simp: gc_added_def gc_finalizer_def)

text \<open>
  The finalizers that \<open>delete\<close> goes on with are, up to order, those of other parties
  unchanged and the one finalizer the decision asks for.
\<close>

lemma gc_finalizers_result:
  "mset (elems (Finalizers (metadata (with_gc_finalizers ob options)))) =
     mset (filter (\<lambda>f. \<not> gc_finalizer f) (elems (Finalizers (metadata ob))) @ gc_added (metadata ob) options)"
proof -
  let ?old = "elems (Finalizers (metadata ob))"
  let ?new = "filter (\<lambda>f. \<not> gc_finalizer f) ?old @ gc_added (metadata ob) options"
  have decision: "deletionFinalizersForGarbageCollection (metadata ob) options =
      (if length ?old \<noteq> length ?new \<or> list_ex (\<lambda>f. f \<notin> set ?old) ?new then (True, Some ?new)
       else (False, Finalizers (metadata ob)))"
    by (simp add: deletionFinalizersForGarbageCollection_def Let_def gc_added_def gc_finalizer_def)
  show ?thesis
  proof (cases "length ?old \<noteq> length ?new \<or> list_ex (\<lambda>f. f \<notin> set ?old) ?new")
    case True
    then have "with_gc_finalizers ob options = set_metadata ob ((metadata ob)\<lparr>Finalizers := Some ?new\<rparr>)"
      by (simp only: with_gc_finalizers_def decision if_True split_conv)
    then show ?thesis by simp
  next
    case False
    then have "with_gc_finalizers ob options = ob"
      by (simp only: with_gc_finalizers_def decision if_False split_conv)
    moreover have "set (gc_added (metadata ob) options) \<subseteq> set ?old" using False by (auto simp: list_ex_iff)
    ultimately show ?thesis
      using gc_finalizers_of_decision [of ?old "gc_added (metadata ob) options"] False
        gc_added_length gc_added_gc by simp
  qed
qed

lemma with_gc_finalizers_frame:
  "\<exists>fs. with_gc_finalizers ob options = set_metadata ob ((metadata ob)\<lparr>Finalizers := fs\<rparr>)"
  unfolding with_gc_finalizers_def
  by (auto split: prod.splits intro: exI [of _ "Finalizers (metadata ob)"])

section \<open>Delete keeps the contract\<close>

text \<open>What the graceful deletion check may change of the metadata: its deletion fields.\<close>

definition undeleted :: "ObjectMeta \<Rightarrow> ObjectMeta" where
  "undeleted md = md\<lparr>Annotations := None, DeletionTimestamp := None, DeletionGracePeriodSeconds := None\<rparr>"

lemma undeleted_eqD:
  assumes "undeleted a = undeleted b"
  shows "same_id a b" and "Finalizers a = Finalizers b" and "ResourceVersion a = ResourceVersion b"
    and "Generation a = Generation b" and "OwnerReferences a = OwnerReferences b" and "Labels a = Labels b"
proof -
  have "f (undeleted a) = f (undeleted b)" for f :: "ObjectMeta \<Rightarrow> 'x" using assms by simp
  from this [of Name] this [of Namespace] this [of UID]
  show "same_id a b" by (simp add: undeleted_def same_id_def)
  show "Finalizers a = Finalizers b" "ResourceVersion a = ResourceVersion b" "Generation a = Generation b"
    "OwnerReferences a = OwnerReferences b" "Labels a = Labels b"
    using arg_cong [OF assms, of Finalizers] arg_cong [OF assms, of ResourceVersion]
      arg_cong [OF assms, of Generation] arg_cong [OF assms, of OwnerReferences]
      arg_cong [OF assms, of Labels]
    by (simp_all add: undeleted_def)
qed

lemma undeleted_update [simp]:
  "undeleted (md\<lparr>Annotations := x\<rparr>) = undeleted md"
  "undeleted (md\<lparr>DeletionTimestamp := y\<rparr>) = undeleted md"
  "undeleted (md\<lparr>DeletionGracePeriodSeconds := z\<rparr>) = undeleted md"
  by (simp_all add: undeleted_def)

lemma strategy_graceful_keeps:
  assumes "upstream_laws E" "strategy_graceful E ob options = Inr (g, p, ob', options')"
  shows "kind_of ob' = kind_of ob \<and> (\<exists>annotations. metadata ob' = (metadata ob)\<lparr>Annotations := annotations\<rparr>)"
proof (cases ob)
  case (KPod pod)
  with assms(2) obtain i g' i' t where steps: "to_internal (podOps E) pod = Inr i"
    "PodCheckGracefulDelete E i options = (g', i', options')"
    "to_versioned (podOps E) i' = Inr t" "ob' = KPod t"
    by (auto split: sum.splits prod.splits)
  have "ObjectMeta i' = ObjectMeta i" using assms(1) steps(2) unfolding upstream_laws_def by blast
  with steps KPod show ?thesis
    using ops_convertedD [OF upstream_opsD(1) [OF assms(1)]] by (fastforce simp: converted_def)
qed (use assms in \<open>auto intro!: exI [of _ "Annotations (metadata ob)"]\<close>)

lemma already_deleting_keeps:
  assumes "already_deleting ch ob ts options = (g, p, ob', options')"
  shows "kind_of ob' = kind_of ob" and "undeleted (metadata ob') = undeleted (metadata ob)"
  using assms by (auto simp: already_deleting_def Let_def split: option.splits if_splits)

lemma checkGracefulDelete_keeps:
  assumes laws: "upstream_laws E" and eq: "checkGracefulDelete E ch ob options = Inr (g, p, ob', options')"
  shows "kind_of ob' = kind_of ob" and "undeleted (metadata ob') = undeleted (metadata ob)"
proof -
  define ob1 where "ob1 = set_metadata ob ((metadata ob)
      \<lparr>DeletionGracePeriodSeconds := clamp_grace (DeletionGracePeriodSeconds (metadata ob))\<rparr>)"
  have ob1: "kind_of ob1 = kind_of ob" "undeleted (metadata ob1) = undeleted (metadata ob)"
    by (simp_all add: ob1_def)
  from eq have "kind_of ob' = kind_of ob1 \<and> undeleted (metadata ob') = undeleted (metadata ob1)"
    by (auto simp: checkGracefulDelete_def Let_def ob1_def [symmetric] split: option.splits
        dest: already_deleting_keeps dest!: strategy_graceful_keeps [OF laws])
  with ob1 show "kind_of ob' = kind_of ob" "undeleted (metadata ob') = undeleted (metadata ob)"
    by simp_all
qed

lemma mark_deleted_keeps: "same_id (mark_deleted ch g period md) md"
  by (simp add: mark_deleted_def Let_def same_id_def)

text \<open>
  The outcomes of \<open>delete\<close>: an error or a pending deletion or a write that would change
  nothing, all leaving the state; the removal of the key; and the marked object.
\<close>

lemma delete_outcomes:
  assumes "delete E ch key options s = Some (r, s')"
  obtains (unchanged) "s' = s"
  | (removed) ob where "st_m s key = Some ob" "r = Inr ()" "s' = s\<lparr>st_m := (st_m s)(key := None)\<rparr>"
  | (marked) ob g checked options' objCopy r' where
      "st_m s key = Some ob"
      "checkGracefulDelete E ch ob options = Inr (g, False, checked, options')"
      "objCopy = with_gc_finalizers checked options'"
      "elems (Finalizers (metadata objCopy)) \<noteq> [] \<or> delete_grace g options' \<noteq> 0"
      "store_object ch key (set_metadata objCopy
         (mark_deleted ch g (delete_grace g options') (metadata objCopy))) s = Some (r', s')"
      "r = map_sum id (\<lambda>_. ()) r'"
proof -
  consider "s' = s" | ob g checked options' where "st_m s key = Some ob"
      "checkGracefulDelete E ch ob options = Inr (g, False, checked, options')"
      "delete_commit ch key ob g checked options' s = Some (r, s')"
    using assms
    by (auto simp: delete_def Let_def split: option.splits sum.splits prod.splits if_splits)
  then show thesis
  proof cases
    case 1
    then show thesis by (rule unchanged)
  next
    case (2 ob g checked options')
    let ?copy = "with_gc_finalizers checked options'"
    let ?final = "set_metadata ?copy (mark_deleted ch g (delete_grace g options') (metadata ?copy))"
    show thesis
    proof (cases "elems (Finalizers (metadata ?copy)) = [] \<and> delete_grace g options' = 0")
      case True
      with 2(3) have "r = Inr ()" "s' = s\<lparr>st_m := (st_m s)(key := None)\<rparr>"
        by (simp_all add: delete_commit_def Let_def)
      then show thesis by (rule removed [OF 2(1)])
    next
      case False
      then have "s' = s \<or> (\<exists>r'. store_object ch key ?final s = Some (r', s') \<and> r = map_sum id (\<lambda>_. ()) r')"
        using 2(3) by (simp only: delete_commit_def Let_def if_False) (auto split: if_splits)
      then show thesis using False 2(1,2) unchanged marked by blast
    qed
  qed
qed

lemma delete_wf:
  assumes laws: "upstream_laws E" and wf: "wf_state s"
    and call: "delete E ch key options s = Some (r, s')"
  shows "wf_state s' \<and> evolves s s'"
  using call
proof (cases rule: delete_outcomes)
  case unchanged
  with wf show ?thesis by simp
next
  case (removed ob)
  have "evolves s (s\<lparr>st_m := (st_m s)(key := None)\<rparr>)" by (simp add: evolves_def)
  with removed wf_state_remove [OF wf] show ?thesis by simp
next
  case (marked ob g checked options' objCopy r')
  obtain fs where fs: "objCopy = set_metadata checked ((metadata checked)\<lparr>Finalizers := fs\<rparr>)"
    using with_gc_finalizers_frame [of checked options'] marked(3) by auto
  define final where "final = set_metadata objCopy (mark_deleted ch g (delete_grace g options') (metadata objCopy))"
  have "same_id (metadata final) (metadata objCopy)" by (simp add: final_def mark_deleted_keeps)
  moreover have "same_id (metadata objCopy) (metadata checked)" by (simp add: fs same_id_def)
  moreover have "same_id (metadata checked) (metadata ob)"
    by (rule undeleted_eqD(1) [OF checkGracefulDelete_keeps(2) [OF laws marked(2)]])
  ultimately have "same_id (metadata final) (metadata ob)" by (metis same_id_trans)
  moreover have "kind_of final = kind_of ob"
    using checkGracefulDelete_keeps(1) [OF laws marked(2)] by (simp add: final_def fs)
  ultimately have final: "kind_of final = key_Kind key" "Name (metadata final) = key_Name key"
    "Namespace (metadata final) = key_Namespace key" "UID (metadata final) = UID (metadata ob)"
    "UID (metadata final) \<in> usedUID s"
    using wf_state_stored [OF wf marked(1)] by (simp_all add: same_id_def stored_ok_def)
  have "wf_state s'"
    using store_object_ok [OF marked(5) [folded final_def] wf final(1,2,3,5)]
      wf_state_uid_unique [OF wf _ marked(1)] final(4) by metis
  moreover have "evolves (s\<lparr>usedUID := usedUID s\<rparr>) s'"
    by (rule store_object_evolves [OF marked(5) [folded final_def]]) (use final marked(1) in auto)
  ultimately show ?thesis by simp
qed

type_synonym delete_params = "env \<times> choices \<times> KKey \<times> DeleteOptions"

fun delete_request :: "delete_params \<Rightarrow> State \<Rightarrow> unit call" where
  "delete_request (E, ch, key, options) s = delete E ch key options s"

interpretation delete_op: api_operation delete_request "\<lambda>(E, ch, key, options). upstream_laws E"
  by unfold_locales (auto dest: delete_wf)

end
