(* ===== verification/Api_Delete_Spec.thy ===== *)
theory Api_Delete_Spec
  imports Api_Delete
begin

text \<open>
  The properties of the delete path: the finalizers of the garbage collector, what a
  successful delete leaves behind, finalizers of other parties, grace periods, preconditions.
\<close>

section \<open>Garbage collection finalizers\<close>

text \<open>The orphan and foreground decisions: an explicit \<open>OrphanDependents\<close> rules; otherwise a
  known propagation policy does, whatever finalizers the object has; and for every request at most
  one of the two finalizers is asked for.\<close>

theorem gc_decisions:
  "shouldOrphanDependents md (options\<lparr>OrphanDependents := Some b\<rparr>) = b \<and>
   \<not> shouldDeleteDependents md (options\<lparr>OrphanDependents := Some b\<rparr>) \<and>
   shouldOrphanDependents md (options\<lparr>OrphanDependents := None, PropagationPolicy := Some ''Orphan''\<rparr>) \<and>
   \<not> shouldOrphanDependents md (options\<lparr>OrphanDependents := None, PropagationPolicy := Some ''Background''\<rparr>) \<and>
   \<not> shouldDeleteDependents md (options\<lparr>OrphanDependents := None, PropagationPolicy := Some ''Background''\<rparr>) \<and>
   shouldDeleteDependents md (options\<lparr>OrphanDependents := None, PropagationPolicy := Some ''Foreground''\<rparr>) \<and>
   \<not> (shouldOrphanDependents md options \<and> shouldDeleteDependents md options)"
  using orphan_not_foreground [of md options]
  by (auto simp: shouldOrphanDependents_def shouldDeleteDependents_def gc_constants)

text \<open>The finalizer list of the garbage collector is, up to order, the finalizers of other
  parties plus the one the decision asks for; when it reports no change it hands back the
  object's own list.\<close>

theorem gc_finalizer_list:
  assumes "deletionFinalizersForGarbageCollection md options = (changed, fs)"
  shows "mset (elems fs) = mset (filter (\<lambda>f. \<not> gc_finalizer f) (elems (Finalizers md))) +
      mset (if shouldOrphanDependents md options then [FinalizerOrphanDependents] else []) +
      mset (if shouldDeleteDependents md options then [FinalizerDeleteDependents] else []) \<and>
    (\<not> changed \<longrightarrow> fs = Finalizers md)"
proof -
  have unchanged: "\<not> changed \<longrightarrow> fs = Finalizers md"
    using assms by (auto simp: deletionFinalizersForGarbageCollection_def Let_def split: if_splits)
  have "metadata (with_gc_finalizers (set_metadata undefined md) options) =
      (if changed then md\<lparr>Finalizers := fs\<rparr> else md)"
    by (simp add: with_gc_finalizers_def assms)
  then have "elems (Finalizers (metadata (with_gc_finalizers (set_metadata undefined md) options))) = elems fs"
    using unchanged by (cases changed) auto
  then show ?thesis using gc_finalizers_result [of "set_metadata undefined md" options] unchanged
    by (simp add: gc_added_def)
qed

definition plain_options :: DeleteOptions where
  "plain_options = \<lparr>GracePeriodSeconds = None, do_Preconditions = None, OrphanDependents = None,
     PropagationPolicy = None, DryRun = None, IgnoreStoreReadError = None\<rparr>"

theorem gc_finalizer_list_witness:
  "mset (elems (Some [''a'', ''foregroundDeletion''])) =
     mset (filter (\<lambda>f. \<not> gc_finalizer f) (elems (Some [''a'', ''orphan'']))) + {#''foregroundDeletion''#}"
  using gc_finalizer_list [of "stored_meta\<lparr>Finalizers := Some [''a'', ''orphan'']\<rparr>"
      "plain_options\<lparr>PropagationPolicy := Some ''Foreground''\<rparr>" True "Some [''a'', ''foregroundDeletion'']"]
  by (simp add: plain_options_def deletionFinalizersForGarbageCollection_def shouldOrphanDependents_def
      shouldDeleteDependents_def gc_constants Let_def)

section \<open>What a delete leaves behind\<close>

lemma checked_deletion_timestamp:
  assumes laws: "upstream_laws E" and eq: "checkGracefulDelete E ch ob options = Inr (g, p, checked, options')"
  shows "DeletionTimestamp (metadata checked) = None \<longleftrightarrow> DeletionTimestamp (metadata ob) = None"
proof (cases "DeletionTimestamp (metadata ob)")
  case None
  with eq show ?thesis unfolding checkGracefulDelete_def Let_def
    by (auto dest!: strategy_graceful_keeps [OF laws])
next
  case (Some ts)
  with eq show ?thesis by (auto simp: checkGracefulDelete_def already_deleting_def Let_def
      split: option.splits if_splits)
qed

lemma mark_deleted_fields:
  "DeletionTimestamp (mark_deleted ch g period md) \<noteq> None"
  "DeletionGracePeriodSeconds (mark_deleted ch g period md) = Some period"
  "Finalizers (mark_deleted ch g period md) = Finalizers md"
  "Generation (mark_deleted ch g period md) =
     (if DeletionTimestamp md = None \<and> 0 <s Generation md then Generation md + 1 else Generation md)"
  by (auto simp: mark_deleted_def Let_def)

lemma storage_equal_fields:
  assumes "storageObjectDeepEqual a b"
  shows "DeletionTimestamp (metadata a) = DeletionTimestamp (metadata b)"
    "DeletionGracePeriodSeconds (metadata a) = DeletionGracePeriodSeconds (metadata b)"
    "Finalizers (metadata a) = Finalizers (metadata b)" "Generation (metadata a) = Generation (metadata b)"
proof -
  from assms have "metadata (storage_view a) = metadata (storage_view b)"
    by (simp add: storageObjectDeepEqual_def)
  then have "(metadata a)\<lparr>ResourceVersion := [], SelfLink := []\<rparr> = (metadata b)\<lparr>ResourceVersion := [], SelfLink := []\<rparr>"
    by (simp add: storage_view_def)
  from arg_cong [OF this, of DeletionTimestamp] arg_cong [OF this, of DeletionGracePeriodSeconds]
    arg_cong [OF this, of Finalizers] arg_cong [OF this, of Generation]
  show "DeletionTimestamp (metadata a) = DeletionTimestamp (metadata b)"
    "DeletionGracePeriodSeconds (metadata a) = DeletionGracePeriodSeconds (metadata b)"
    "Finalizers (metadata a) = Finalizers (metadata b)" "Generation (metadata a) = Generation (metadata b)"
    by simp_all
qed

text \<open>The object as a delete that did not remove it leaves it.\<close>

definition marked_for_deletion :: "ObjectMeta \<Rightarrow> string list \<Rightarrow> int64 \<Rightarrow> ObjectMeta \<Rightarrow> bool" where
  "marked_for_deletion md added period md' \<longleftrightarrow>
     same_id md' md \<and> DeletionTimestamp md' \<noteq> None \<and> DeletionGracePeriodSeconds md' = Some period \<and>
     mset (elems (Finalizers md')) = mset (filter (\<lambda>f. \<not> gc_finalizer f) (elems (Finalizers md)) @ added) \<and>
     Generation md' = (if DeletionTimestamp md = None \<and> 0 <s Generation md then Generation md + 1 else Generation md)"

lemma final_marked:
  assumes laws: "upstream_laws E" and chk: "checkGracefulDelete E ch ob options = Inr (g, p, checked, options')"
  shows "marked_for_deletion (metadata ob) (gc_added (metadata checked) options') period
    (mark_deleted ch g period (metadata (with_gc_finalizers checked options')))"
proof -
  obtain fs where fs: "with_gc_finalizers checked options' = set_metadata checked ((metadata checked)\<lparr>Finalizers := fs\<rparr>)"
    using with_gc_finalizers_frame by blast
  note same = checkGracefulDelete_keeps(2) [OF laws chk, THEN undeleted_eqD(1)]
    checkGracefulDelete_keeps(2) [OF laws chk, THEN undeleted_eqD(2)]
    checkGracefulDelete_keeps(2) [OF laws chk, THEN undeleted_eqD(4)] checked_deletion_timestamp [OF laws chk]
  have "same_id (mark_deleted ch g period (metadata (with_gc_finalizers checked options'))) (metadata checked)"
    using mark_deleted_keeps [of ch g period "metadata (with_gc_finalizers checked options')"]
    by (simp add: fs same_id_def)
  then have "same_id (mark_deleted ch g period (metadata (with_gc_finalizers checked options'))) (metadata ob)"
    using same(1) by (rule same_id_trans)
  moreover have "mset (elems (Finalizers (metadata (with_gc_finalizers checked options')))) =
      mset (filter (\<lambda>f. \<not> gc_finalizer f) (elems (Finalizers (metadata ob))) @ gc_added (metadata checked) options')"
    using gc_finalizers_result [of checked options'] same(2) by simp
  ultimately show ?thesis using same
    by (simp add: marked_for_deletion_def mark_deleted_fields) (auto simp: fs)
qed

lemma delete_commit_success:
  assumes laws: "upstream_laws E" and chk: "checkGracefulDelete E ch ob options = Inr (g, p, checked, options')"
    and stored: "st_m s key = Some ob"
    and commit: "delete_commit ch key ob g checked options' s = Some (r, s')"
  shows "if elems (Finalizers (metadata (with_gc_finalizers checked options'))) = [] \<and> delete_grace g options' = 0
    then s' = s\<lparr>st_m := (st_m s)(key := None)\<rparr>
    else \<exists>ob'. st_m s' = (st_m s)(key \<mapsto> ob') \<and> usedUID s' = usedUID s \<and>
      marked_for_deletion (metadata ob) (gc_added (metadata checked) options') (delete_grace g options') (metadata ob') \<and>
      (s' = s \<or> ResourceVersion (metadata ob') \<notin> usedRV s)"
proof -
  let ?copy = "with_gc_finalizers checked options'" and ?period = "delete_grace g options'"
  define final where "final = set_metadata ?copy (mark_deleted ch g ?period (metadata ?copy))"
  have marked: "marked_for_deletion (metadata ob) (gc_added (metadata checked) options') ?period (metadata final)"
    using final_marked [OF laws chk] by (simp add: final_def)
  show ?thesis
  proof (cases "elems (Finalizers (metadata ?copy)) = [] \<and> ?period = 0")
    case True
    with commit show ?thesis by (simp add: delete_commit_def Let_def)
  next
    case False
    show ?thesis
    proof (cases "storageObjectDeepEqual final ob")
      case True
      with False commit have "s' = s" by (auto simp: delete_commit_def Let_def final_def)
      moreover have "marked_for_deletion (metadata ob) (gc_added (metadata checked) options') ?period (metadata ob)"
        using marked storage_equal_fields [OF True] by (simp add: marked_for_deletion_def)
      ultimately show ?thesis using False stored by (auto intro!: exI [of _ ob])
    next
      case unequal: False
      with False commit obtain r' where "store_object ch key final s = Some (r', s')"
        by (auto simp: delete_commit_def Let_def final_def simp del: metadata_set)
      then obtain rv where "s' = s\<lparr>usedRV := insert rv (usedRV s), st_m := (st_m s)(key \<mapsto>
           set_metadata final ((metadata final)\<lparr>ResourceVersion := rv\<rparr>))\<rparr>" "rv \<notin> usedRV s"
        by (rule store_object_Some)
      with False marked show ?thesis
        by (auto simp: marked_for_deletion_def same_id_def
            intro!: exI [of _ "set_metadata final ((metadata final)\<lparr>ResourceVersion := rv\<rparr>)"])
    qed
  qed
qed

text \<open>C5: After a successful delete: if the graceful deletion is already pending, nothing changed;
  if no finalizer remains and there is no grace period, exactly the key is gone; otherwise the
  object stays, with its identity, a deletion timestamp, the grace period, the finalizers of
  other parties and the garbage collector's one, and its generation counted up only when it was
  first marked, under a fresh resource version unless nothing had to be written.\<close>

theorem delete_success:
  assumes "upstream_laws E" "delete E ch key options s = Some (Inr (), s')" "st_m s key = Some ob"
    and "checkGracefulDelete E ch ob options = Inr (g, pending, checked, options')"
  shows "if pending then s' = s
    else if elems (Finalizers (metadata (with_gc_finalizers checked options'))) = [] \<and> delete_grace g options' = 0
    then s' = s\<lparr>st_m := (st_m s)(key := None)\<rparr>
    else \<exists>ob'. st_m s' = (st_m s)(key \<mapsto> ob') \<and> usedUID s' = usedUID s \<and>
      marked_for_deletion (metadata ob) (gc_added (metadata checked) options') (delete_grace g options') (metadata ob') \<and>
      (s' = s \<or> ResourceVersion (metadata ob') \<notin> usedRV s)"
proof (cases pending)
  case False
  with assms have "delete_commit ch key ob g checked options' s = Some (Inr (), s')"
    by (auto simp: delete_def split: option.splits)
  from delete_commit_success [OF assms(1,4,3) this] False show ?thesis by simp
qed (use assms in \<open>auto simp: delete_def split: option.splits\<close>)

text \<open>Deleting the example pod at once.\<close>

definition now_options :: DeleteOptions where
  "now_options = plain_options\<lparr>GracePeriodSeconds := Some 0\<rparr>"

lemma options_simps:
  "GracePeriodSeconds plain_options = None" "do_Preconditions plain_options = None"
  "OrphanDependents plain_options = None" "PropagationPolicy plain_options = None"
  "DryRun plain_options = None" "IgnoreStoreReadError plain_options = None"
  by (simp_all add: plain_options_def)

lemma now_options_simps:
  "GracePeriodSeconds now_options = Some 0" "do_Preconditions now_options = None"
  by (simp_all add: now_options_def options_simps)

lemma plain_options_valid:
  "validateDeleteOptions plain_options = None"
  "validateDeleteOptions (plain_options\<lparr>GracePeriodSeconds := g\<rparr>) = None"
  "validateDeleteOptions (plain_options\<lparr>do_Preconditions := p\<rparr>) = None"
  by (simp_all add: validateDeleteOptions_def ValidateDeleteOptions_def ValidateDryRun_def
      ValidateIgnoreStoreReadError_def options_simps)

lemma example_check_eq:
  "checkGracefulDelete example_env example_choices (KPod (example_pod stored_meta)) now_options =
     Inr (True, False, KPod (example_pod stored_meta), now_options)"
  by (simp add: checkGracefulDelete_def example_env_simps example_ops_def example_graceful_def
      example_meta_simps stored_meta_simps now_options_def options_simps clamp_grace_def Let_def)
    (simp add: stored_meta_def example_meta_def example_pod_def example_spec_def)

lemma example_no_gc: "deletionFinalizersForGarbageCollection stored_meta now_options = (False, None)"
  by (simp add: deletionFinalizersForGarbageCollection_def shouldOrphanDependents_def
      shouldDeleteDependents_def now_options_def options_simps stored_meta_simps Let_def)

lemma example_delete_eq:
  "delete example_env example_choices stored_key now_options example_state =
     Some (Inr (), example_state\<lparr>st_m := (st_m example_state)(stored_key := None)\<rparr>)"
proof -
  have "validateDeleteOptions now_options = None"
    by (simp add: now_options_def plain_options_valid)
  then show ?thesis
    by (simp add: delete_def example_state_simps example_check_eq delete_commit_def with_gc_finalizers_def
        example_no_gc example_meta_simps stored_meta_simps Let_def)
      (simp add: validateDeletePreconditions_def now_options_simps example_check_eq delete_commit_def
        with_gc_finalizers_def example_no_gc example_meta_simps stored_meta_simps delete_grace_def
        example_state_simps Let_def)
qed

theorem delete_success_witness:
  "if elems (Finalizers (metadata (with_gc_finalizers (KPod (example_pod stored_meta)) now_options))) = [] \<and>
      delete_grace True now_options = 0
   then example_state\<lparr>st_m := (st_m example_state)(stored_key := None)\<rparr> =
     example_state\<lparr>st_m := (st_m example_state)(stored_key := None)\<rparr> else False"
  using delete_success [OF example_env_laws example_delete_eq _ example_check_eq]
  by (simp add: example_state_simps with_gc_finalizers_def example_no_gc example_meta_simps stored_meta_simps
      delete_grace_def now_options_simps)

text \<open>Delete returns as soon as the random source offers an unused resource version.\<close>

theorem delete_returns:
  assumes "\<exists>i. format_nat (unat (o_int63 ch i)) \<notin> usedRV s"
  shows "\<exists>r s'. delete E ch key options s = Some (r, s')"
proof -
  have store: "store_object ch key ob s \<noteq> None" for ob
    using draw_fresh_Some_iff [of "\<lambda>i. format_nat (unat (o_int63 ch i))" "\<lambda>rv. rv \<in> usedRV s" 0] assms
    by (auto simp: store_object_def generateNewRVAndUpdate_def Let_def split: option.splits)
  have commit: "delete_commit ch key ob g checked options' s \<noteq> None" for ob g checked options'
    using store [of "set_metadata (with_gc_finalizers checked options') (mark_deleted ch g
      (delete_grace g options') (metadata (with_gc_finalizers checked options')))"]
    by (cases "elems (Finalizers (metadata (with_gc_finalizers checked options'))) = [] \<and> delete_grace g options' = 0")
      (auto simp: delete_commit_def Let_def)
  have "delete E ch key options s \<noteq> None"
    using commit by (simp add: delete_def split: option.splits sum.splits prod.splits)
  then show ?thesis by fastforce
qed

theorem delete_returns_witness:
  "\<exists>r s'. delete example_env example_choices stored_key plain_options example_state = Some (r, s')"
  by (rule delete_returns) (auto simp: example_choices_def example_state_simps format_nat_0 intro!: exI [of _ 0])

section \<open>Finalizers of other parties\<close>

text \<open>C26: A delete never removes an object on which another party holds a finalizer: whatever the
  options and the outcome, the object is still stored under its key, with that finalizer.\<close>

theorem delete_keeps_finalizer:
  assumes "upstream_laws E" "delete E ch key options s = Some (r, s')" "st_m s key = Some ob"
    and "f \<in> set (elems (Finalizers (metadata ob)))" "\<not> gc_finalizer f"
  shows "\<exists>ob'. st_m s' key = Some ob' \<and> same_id (metadata ob') (metadata ob) \<and>
    f \<in> set (elems (Finalizers (metadata ob')))"
proof -
  consider "s' = s" | g checked options' where
      "checkGracefulDelete E ch ob options = Inr (g, False, checked, options')"
      "delete_commit ch key ob g checked options' s = Some (r, s')"
    using assms(2,3)
    by (auto simp: delete_def Let_def split: option.splits sum.splits prod.splits if_splits)
  then show ?thesis
  proof cases
    case 1
    with assms show ?thesis by simp
  next
    case (2 g checked options')
    have keep: "f \<in> set (elems fs)"
      if "mset (elems fs) = mset (filter (\<lambda>f. \<not> gc_finalizer f) (elems (Finalizers (metadata ob))) @ added)"
      for fs :: "string slice" and added
    proof -
      have "f \<in># mset (filter (\<lambda>f. \<not> gc_finalizer f) (elems (Finalizers (metadata ob))) @ added)"
        using assms(4,5) by simp
      with that show ?thesis by (metis set_mset_mset)
    qed
    have "Finalizers (metadata checked) = Finalizers (metadata ob)"
      by (rule undeleted_eqD(2) [OF checkGracefulDelete_keeps(2) [OF assms(1) 2(1)]])
    then have "f \<in> set (elems (Finalizers (metadata (with_gc_finalizers checked options'))))"
      using gc_finalizers_result [of checked options'] by (intro keep) simp
    then have "elems (Finalizers (metadata (with_gc_finalizers checked options'))) \<noteq> []" by auto
    with delete_commit_success [OF assms(1) 2(1) assms(3) 2(2)] obtain ob'
      where ob': "st_m s' = (st_m s)(key \<mapsto> ob')" "marked_for_deletion (metadata ob)
        (gc_added (metadata checked) options') (delete_grace g options') (metadata ob')"
      by (auto split: if_splits)
    then show ?thesis using keep [of "Finalizers (metadata ob')"]
      by (auto simp: marked_for_deletion_def)
  qed
qed

text \<open>A claim that is still protected.\<close>

definition claim_key :: KKey where
  "claim_key = KKey ''PersistentVolumeClaim'' ''p'' ''default''"

definition protected_claim :: kobject where
  "protected_claim = KPersistentVolumeClaim \<lparr>TypeMeta = empty_TypeMeta,
     ObjectMeta = stored_meta\<lparr>Finalizers := Some [''kubernetes.io/pvc-protection'']\<rparr>,
     pvc_Spec = empty_PersistentVolumeClaimSpec, pvc_Phase = ''Bound'', pvc_Capacity = None, pvcstatus_rest = []\<rparr>"

definition claim_state :: State where
  "claim_state = example_state\<lparr>st_m := [claim_key \<mapsto> protected_claim]\<rparr>"

theorem delete_keeps_finalizer_witness:
  "\<exists>r s' ob'. delete example_env example_choices claim_key plain_options claim_state = Some (r, s') \<and>
    st_m s' claim_key = Some ob' \<and> ''kubernetes.io/pvc-protection'' \<in> set (elems (Finalizers (metadata ob')))"
proof -
  have "usedRV claim_state = {''7''}" "o_int63 example_choices 0 = 0"
    by (simp_all add: claim_state_def example_state_simps example_choices_def)
  then have "draw_fresh (\<lambda>i. format_nat (unat (o_int63 example_choices i))) (\<lambda>rv. rv \<in> usedRV claim_state) 0 = Some ''0''"
    by (simp add: draw_fresh_now format_nat_0)
  then obtain r s' where call: "delete example_env example_choices claim_key plain_options claim_state = Some (r, s')"
    by (fastforce simp: delete_def delete_commit_def store_object_def generateNewRVAndUpdate_def Let_def
        split: option.splits sum.splits prod.splits)
  have "st_m claim_state claim_key = Some protected_claim" by (simp add: claim_state_def)
  from delete_keeps_finalizer [OF example_env_laws call this, of "''kubernetes.io/pvc-protection''"] call
  show ?thesis by (auto simp: protected_claim_def gc_finalizer_def gc_constants)
qed

section \<open>Grace periods\<close>

text \<open>A repeated delete of an object that is already being deleted gracefully can only shorten
  the wait: a request without a grace period, or with one at least as long as the stored one,
  changes nothing, whatever else it asks for.\<close>

theorem delete_cannot_extend:
  assumes "delete E ch key options s = Some (r, s')" "st_m s key = Some ob"
    and "DeletionTimestamp (metadata ob) = Some ts" "DeletionGracePeriodSeconds (metadata ob) = Some current"
    and "0 <s current"
    and "GracePeriodSeconds options = None \<or> (\<exists>period. GracePeriodSeconds options = Some period \<and> current \<le>s period)"
  shows "s' = s"
proof -
  have pos: "\<not> current <s 0" "current \<noteq> 0" using assms(5) by (auto simp: word_sless_alt)
  have clamp: "clamp_grace (DeletionGracePeriodSeconds (metadata ob)) = Some current"
    using assms(4) pos(1) by (simp add: clamp_grace_def)
  have "\<exists>checked options'. checkGracefulDelete E ch ob options = Inr (False, True, checked, options')"
  proof (cases "GracePeriodSeconds options")
    case None
    then show ?thesis using assms(3) clamp pos(2)
      by (simp add: checkGracefulDelete_def already_deleting_def clamp_grace_def)
  next
    case (Some period)
    with assms(6) have "current \<le>s period" by simp
    moreover from this assms(5) have "\<not> period <s 0" by (simp add: word_sless_alt word_sle_eq)
    ultimately show ?thesis using Some assms(3) clamp pos(2)
      by (simp add: checkGracefulDelete_def already_deleting_def clamp_grace_def [of "Some period"])
  qed
  then show ?thesis using assms(1,2)
    by (auto simp: delete_def split: option.splits)
qed

definition deleting_state :: State where
  "deleting_state = example_state\<lparr>st_m := [stored_key \<mapsto> KPod (example_pod (stored_meta
     \<lparr>DeletionTimestamp := Some 50, DeletionGracePeriodSeconds := Some 30\<rparr>))]\<rparr>"

lemma deleting_state_simps:
  "st_m deleting_state stored_key = Some (KPod (example_pod (stored_meta
     \<lparr>DeletionTimestamp := Some 50, DeletionGracePeriodSeconds := Some 30\<rparr>)))"
  "usedRV deleting_state = {''7''}"
  by (simp_all add: deleting_state_def example_state_simps)

theorem delete_cannot_extend_witness:
  "\<exists>r s'. delete example_env example_choices stored_key plain_options deleting_state = Some (r, s') \<and>
    s' = deleting_state"
proof -
  have "draw_fresh (\<lambda>i. format_nat (unat (o_int63 example_choices i))) (\<lambda>rv. rv \<in> usedRV deleting_state) 0 = Some ''0''"
    by (simp add: draw_fresh_now format_nat_0 deleting_state_simps example_choices_def)
  then obtain r s' where "delete example_env example_choices stored_key plain_options deleting_state = Some (r, s')"
    by (fastforce simp: delete_def delete_commit_def store_object_def generateNewRVAndUpdate_def Let_def
        split: option.splits sum.splits prod.splits)
  with delete_cannot_extend [OF this deleting_state_simps(1), of 50 30]
  show ?thesis by (auto simp: options_simps example_meta_simps word_sless_alt)
qed

text \<open>A negative grace period is handled as one second, in every respect.\<close>

theorem negative_grace_is_one_second:
  assumes "period <s 0"
  shows "delete E ch key (options\<lparr>GracePeriodSeconds := Some period\<rparr>) s =
    delete E ch key (options\<lparr>GracePeriodSeconds := Some 1\<rparr>) s"
proof -
  have "clamp_grace (Some period) = clamp_grace (Some 1)"
    using assms by (simp add: clamp_grace_def word_sless_alt)
  then have "checkGracefulDelete E ch ob (options\<lparr>GracePeriodSeconds := Some period\<rparr>) =
      checkGracefulDelete E ch ob (options\<lparr>GracePeriodSeconds := Some 1\<rparr>)" for ob
    by (simp add: checkGracefulDelete_def Let_def)
  moreover have "validateDeleteOptions (options\<lparr>GracePeriodSeconds := Some period\<rparr>) =
      validateDeleteOptions (options\<lparr>GracePeriodSeconds := Some 1\<rparr>)"
    by (simp add: validateDeleteOptions_def ValidateDeleteOptions_def ValidateIgnoreStoreReadError_def)
  moreover have "validateDeletePreconditions md (options\<lparr>GracePeriodSeconds := Some period\<rparr>) kind =
      validateDeletePreconditions md (options\<lparr>GracePeriodSeconds := Some 1\<rparr>) kind" for md kind
    by (simp add: validateDeletePreconditions_def)
  ultimately show ?thesis by (simp add: delete_def Let_def split: option.splits)
qed

theorem negative_grace_is_one_second_witness:
  "delete example_env example_choices stored_key (plain_options\<lparr>GracePeriodSeconds := Some (- 5)\<rparr>) example_state =
    delete example_env example_choices stored_key (plain_options\<lparr>GracePeriodSeconds := Some 1\<rparr>) example_state"
  by (rule negative_grace_is_one_second) (simp add: word_sless_alt)

text \<open>C32: When the shortened deadline has already passed, the check moves it to now and clamps the
  remaining grace period to one second, but the period that ends up stored is the requested one:
  \<open>delete\<close> recomputes it from the options.\<close>

theorem clamped_period_is_overwritten:
  assumes "delete E ch key options s = Some (Inr (), s')" "st_m s key = Some ob"
    and "DeletionTimestamp (metadata ob) = Some ts" "DeletionGracePeriodSeconds (metadata ob) = Some current"
    and "GracePeriodSeconds options = Some period" "0 <s period" "period <s current"
    and "time_add (time_add ts (- seconds current)) (seconds period) < o_now ch"
  shows "\<exists>checked ob'. checkGracefulDelete E ch ob options = Inr (True, False, checked, options) \<and>
    DeletionGracePeriodSeconds (metadata checked) = Some 1 \<and>
    st_m s' key = Some ob' \<and> DeletionTimestamp (metadata ob') = Some (o_now ch) \<and>
    DeletionGracePeriodSeconds (metadata ob') = Some period"
proof -
  have pos: "\<not> period <s 0" "period \<noteq> 0" "\<not> current <s 0" "current \<noteq> 0" "\<not> current \<le>s period"
    using assms(6,7) by (auto simp: word_sless_alt word_sle_eq)
  have same: "options\<lparr>GracePeriodSeconds := Some period\<rparr> = options" using assms(5) by simp
  have clamp: "clamp_grace (DeletionGracePeriodSeconds (metadata ob)) = Some current"
    "clamp_grace (Some period) = Some period"
    using assms(4) pos by (simp_all add: clamp_grace_def)
  obtain checked where chk: "checkGracefulDelete E ch ob options = Inr (True, False, checked, options)"
    and checked: "DeletionTimestamp (metadata checked) = Some (o_now ch)"
      "DeletionGracePeriodSeconds (metadata checked) = Some 1"
    using assms(3,5,8) clamp pos same
    by (simp add: checkGracefulDelete_def already_deleting_def Let_def)
  have grace: "delete_grace True options = period" using assms(5) by (simp add: delete_grace_def)
  have "delete_commit ch key ob True checked options s = Some (Inr (), s')"
    using assms(1,2) chk by (auto simp: delete_def split: option.splits)
  moreover define final where "final = set_metadata (with_gc_finalizers checked options)
    (mark_deleted ch True period (metadata (with_gc_finalizers checked options)))"
  ultimately have commit: "storageObjectDeepEqual final ob \<and> s' = s \<or> (\<exists>r'. store_object ch key final s = Some (r', s'))"
    using pos(2) by (auto simp: delete_commit_def grace Let_def split: if_splits)
  obtain fs where "with_gc_finalizers checked options = set_metadata checked ((metadata checked)\<lparr>Finalizers := fs\<rparr>)"
    using with_gc_finalizers_frame by blast
  then have final: "DeletionTimestamp (metadata final) = Some (o_now ch)"
    "DeletionGracePeriodSeconds (metadata final) = Some period"
    by (simp_all add: final_def mark_deleted_def checked Let_def)
  have "\<exists>ob'. st_m s' key = Some ob' \<and> DeletionTimestamp (metadata ob') = Some (o_now ch) \<and>
    DeletionGracePeriodSeconds (metadata ob') = Some period"
    using commit
  proof (elim disjE conjE exE)
    assume "storageObjectDeepEqual final ob" "s' = s"
    with assms(2) storage_equal_fields(1,2) [of final ob] final show ?thesis by simp
  next
    fix r' assume "store_object ch key final s = Some (r', s')"
    then show ?thesis by (elim store_object_Some) (use final in simp)
  qed
  with chk checked show ?thesis by blast
qed

theorem clamped_period_is_overwritten_witness:
  "\<exists>s' checked ob'. delete example_env (example_choices\<lparr>o_now := 40000000000\<rparr>) stored_key
      (plain_options\<lparr>GracePeriodSeconds := Some 10\<rparr>) deleting_state = Some (Inr (), s') \<and>
    DeletionGracePeriodSeconds (metadata checked) = Some 1 \<and> st_m s' stored_key = Some ob' \<and>
    DeletionGracePeriodSeconds (metadata ob') = Some 10"
proof -
  let ?ch = "example_choices\<lparr>o_now := 40000000000\<rparr>" and ?o = "plain_options\<lparr>GracePeriodSeconds := Some 10\<rparr>"
  have rv: "draw_fresh (\<lambda>i. format_nat (unat (o_int63 ?ch i))) (\<lambda>rv. rv \<in> usedRV deleting_state) 0 = Some ''0''"
    by (simp add: draw_fresh_now format_nat_0 deleting_state_simps example_choices_def)
  then have store: "\<exists>s'. map_option (\<lambda>(r, s'). (map_sum id (\<lambda>_. ()) r, s'))
      (store_object ?ch stored_key ob deleting_state) = Some (Inr (), s')" for ob
    by (simp add: store_object_def generateNewRVAndUpdate_def Let_def)
  have commit: "\<exists>s'. delete_commit ?ch stored_key ob True checked ?o deleting_state = Some (Inr (), s')" for ob checked
    using store by (auto simp: delete_commit_def Let_def)
  have "\<exists>checked. checkGracefulDelete example_env ?ch (the (st_m deleting_state stored_key)) ?o = Inr (True, False, checked, ?o)"
    by (simp add: deleting_state_simps checkGracefulDelete_def already_deleting_def clamp_grace_def
        example_meta_simps word_sless_alt word_sle_eq Let_def)
  then obtain s' where call: "delete example_env ?ch stored_key ?o deleting_state = Some (Inr (), s')"
    using commit by (fastforce simp: delete_def deleting_state_simps plain_options_valid
        validateDeletePreconditions_def options_simps)
  show ?thesis
    using clamped_period_is_overwritten [OF call deleting_state_simps(1), of 50 30 10]
    by (auto simp: call example_meta_simps word_sless_alt time_add_def seconds_def)
qed

section \<open>Preconditions\<close>

text \<open>A delete whose UID or resource version precondition does not match the stored object
  fails with a conflict and changes nothing.\<close>

theorem delete_precondition_conflict:
  assumes "st_m s key = Some ob" "validateDeleteOptions options = None"
    and "do_Preconditions options = Some p"
    and "pre_UID p \<noteq> None \<and> pre_UID p \<noteq> Some (UID (metadata ob)) \<or>
      pre_ResourceVersion p \<noteq> None \<and> pre_ResourceVersion p \<noteq> Some (ResourceVersion (metadata ob))"
  shows "\<exists>args. delete E ch key options s = Some (Inl (Conflict (key_Kind key) (Name (metadata ob)) args), s)"
  using assms by (auto simp: delete_def validateDeletePreconditions_def)

theorem delete_precondition_conflict_witness:
  "\<exists>args. delete example_env example_choices stored_key
     (plain_options\<lparr>do_Preconditions := Some \<lparr>pre_UID = Some ''w'', pre_ResourceVersion = None\<rparr>\<rparr>) example_state =
    Some (Inl (Conflict (key_Kind stored_key) (Name (metadata (KPod (example_pod stored_meta)))) args), example_state)"
  by (rule delete_precondition_conflict [where p = "\<lparr>pre_UID = Some ''w'', pre_ResourceVersion = None\<rparr>"])
    (simp_all add: example_state_simps plain_options_valid example_meta_simps stored_meta_simps)

end
