(* ===== verification/Api_Tx.thy ===== *)
theory Api_Tx
  imports Api_Write_Spec Api_Delete_Spec
begin

text \<open>
  The transactions of src/kubernetes_model/apimodel/transaction.go: read, copy the resource
  version, write, and start again on a conflict. The lock is taken per call, so other clients
  run in between: \<open>others (2 * i)\<close> is what they do before the i-th read and
  \<open>others (2 * i + 1)\<close> what they do between the i-th read and the i-th write. The loop has
  no bound in the code; it is a partial function whose value \<open>None\<close> is "never returns".
\<close>

section \<open>The retry loop\<close>

datatype 'a attempt = Return "error + 'a" | Retry

partial_function (option) tx_loop :: "(nat \<Rightarrow> State \<Rightarrow> ('a attempt \<times> State) option) \<Rightarrow> nat \<Rightarrow> State \<Rightarrow> 'a call" where
  "tx_loop attempt i s =
     Option.bind (attempt i s) (\<lambda>(a, s'). case a of Return r \<Rightarrow> Some (r, s') | Retry \<Rightarrow> tx_loop attempt (Suc i) s')"

definition conflict_retries :: "(error + 'a) \<times> State \<Rightarrow> 'a attempt \<times> State" where
  "conflict_retries = (\<lambda>(r, s). (case r of Inl e \<Rightarrow> if IsConflict e then Retry else Return r | Inr _ \<Rightarrow> Return r, s))"

lemma conflict_retries_eq:
  "conflict_retries p = (Retry, s) \<longleftrightarrow> (\<exists>e. p = (Inl e, s) \<and> IsConflict e)"
  "conflict_retries p = (Return r, s) \<longleftrightarrow> p = (r, s) \<and> (\<forall>e. r = Inl e \<longrightarrow> \<not> IsConflict e)"
  by (cases p; cases "fst p"; auto simp: conflict_retries_def)+

section \<open>Transactional update and delete\<close>

type_synonym interference = "nat \<Rightarrow> State \<Rightarrow> State"

definition update_attempt ::
  "(env \<Rightarrow> choices \<Rightarrow> string \<Rightarrow> string \<Rightarrow> kobject \<Rightarrow> State \<Rightarrow> kobject call) \<Rightarrow> string \<Rightarrow> env \<Rightarrow>
   (nat \<Rightarrow> choices) \<Rightarrow> interference \<Rightarrow> string \<Rightarrow> string \<Rightarrow> kobject \<Rightarrow> nat \<Rightarrow> State \<Rightarrow> (kobject attempt \<times> State) option" where
  "update_attempt upd msg E chs others kind namespace ob i s =
     (let objCopy = deepCopy ob; s0 = others (2 * i) s
      in case EnsureObjectNamespaceMatchesRequestNamespace E namespace (metadata objCopy) of
           Inl e \<Rightarrow> Some (Return (Inl e), s0)
         | Inr md \<Rightarrow>
             if Name md = [] then Some (Return (Inl (BadRequest msg [kind])), s0)
             else
             (case api_get s0 (KKey kind (Name md) namespace) of
                Inl e \<Rightarrow> Some (Return (Inl e), s0)
              | Inr existingObj \<Rightarrow>
                  map_option conflict_retries
                    (upd E (chs i) kind namespace
                       (set_metadata objCopy (md\<lparr>ResourceVersion := ResourceVersion (metadata existingObj)\<rparr>))
                       (others (2 * i + 1) s0))))"

definition updateTx ::
  "env \<Rightarrow> (nat \<Rightarrow> choices) \<Rightarrow> interference \<Rightarrow> string \<Rightarrow> string \<Rightarrow> kobject \<Rightarrow> State \<Rightarrow> kobject call" where
  "updateTx E chs others kind namespace ob s =
     tx_loop (update_attempt update ''object of kind %q must specify a name for update'' E chs others kind namespace ob) 0 s"

definition updateStatusTx ::
  "env \<Rightarrow> (nat \<Rightarrow> choices) \<Rightarrow> interference \<Rightarrow> string \<Rightarrow> string \<Rightarrow> kobject \<Rightarrow> State \<Rightarrow> kobject call" where
  "updateStatusTx E chs others kind namespace ob s =
     tx_loop (update_attempt updateStatus ''object of kind %q must specify a name for status update'' E chs
       others kind namespace ob) 0 s"

definition preconditionUIDMismatch :: "DeleteOptions \<Rightarrow> ObjectMeta \<Rightarrow> bool" where
  "preconditionUIDMismatch options md =
     (case do_Preconditions options of
        None \<Rightarrow> False
      | Some p \<Rightarrow> pre_UID p \<noteq> None \<and> pre_UID p \<noteq> Some (UID md))"

definition setPreconditionResourceVersion :: "DeleteOptions \<Rightarrow> ObjectMeta \<Rightarrow> DeleteOptions" where
  "setPreconditionResourceVersion options md =
     options\<lparr>do_Preconditions :=
       Some (case do_Preconditions options of
               None \<Rightarrow> \<lparr>pre_UID = None, pre_ResourceVersion = Some (ResourceVersion md)\<rparr>
             | Some p \<Rightarrow> p\<lparr>pre_ResourceVersion := Some (ResourceVersion md)\<rparr>)\<rparr>"

definition delete_attempt ::
  "env \<Rightarrow> (nat \<Rightarrow> choices) \<Rightarrow> interference \<Rightarrow> KKey \<Rightarrow> DeleteOptions \<Rightarrow> nat \<Rightarrow> State \<Rightarrow> (unit attempt \<times> State) option" where
  "delete_attempt E chs others key options i s =
     (let s0 = others (2 * i) s
      in case api_get s0 key of
           Inl e \<Rightarrow> Some (Return (Inl e), s0)
         | Inr ob \<Rightarrow>
             if preconditionUIDMismatch options (metadata ob)
             then Some (Return (Inl (Conflict (key_Kind key) (Name (metadata ob))
                    [''the UID in the precondition (%s) does not match the UID in record (%s). The object might have been deleted and then recreated'',
                     the (pre_UID (the (do_Preconditions options))), UID (metadata ob)])), s0)
             else map_option conflict_retries
                    (delete E (chs i) key (setPreconditionResourceVersion options (metadata ob)) (others (2 * i + 1) s0)))"

definition deleteTx ::
  "env \<Rightarrow> (nat \<Rightarrow> choices) \<Rightarrow> interference \<Rightarrow> KKey \<Rightarrow> DeleteOptions \<Rightarrow> State \<Rightarrow> unit call" where
  "deleteTx E chs others key options s = tx_loop (delete_attempt E chs others key options) 0 s"

section \<open>Reasoning about the loop\<close>

lemma tx_loop_unfold:
  "attempt i s = Some (Return r, s') \<Longrightarrow> tx_loop attempt i s = Some (r, s')"
  "attempt i s = Some (Retry, s') \<Longrightarrow> tx_loop attempt i s = tx_loop attempt (Suc i) s'"
  "attempt i s = None \<Longrightarrow> tx_loop attempt i s = None"
  by (subst tx_loop.simps, simp)+

text \<open>Partial correctness: an invariant of the retries, which may count them, holds until some attempt returns.\<close>

lemma tx_loop_rule_counting:
  assumes "tx_loop attempt i s = Some (r, s')" and "I i s"
    and retry: "\<And>i s s'. I i s \<Longrightarrow> attempt i s = Some (Retry, s') \<Longrightarrow> I (Suc i) s'"
    and return: "\<And>i s r s'. I i s \<Longrightarrow> attempt i s = Some (Return r, s') \<Longrightarrow> Q r s'"
  shows "Q r s'"
proof -
  let ?P = "\<lambda>att (i::nat) s y. att = attempt \<longrightarrow> I i s \<longrightarrow> Q (fst y) (snd y)"
  have "?P attempt i s (r, s')"
  proof (rule tx_loop.raw_induct [where P = ?P, OF _ assms(1)])
    fix f :: "(nat \<Rightarrow> State \<Rightarrow> ('a attempt \<times> State) option) \<Rightarrow> nat \<Rightarrow> State \<Rightarrow> 'a call"
      and att and i :: nat and s y
    assume IH: "\<And>att i s y. f att i s = Some y \<Longrightarrow> ?P att i s y"
      and eq: "Option.bind (att i s) (\<lambda>(a, s'). case a of Return r \<Rightarrow> Some (r, s') | Retry \<Rightarrow> f att (Suc i) s') = Some y"
    then obtain a s1 where step: "att i s = Some (a, s1)"
      and rest: "(case a of Return r \<Rightarrow> Some (r, s1) | Retry \<Rightarrow> f att (Suc i) s1) = Some y"
      by (auto simp: bind_eq_Some_conv)
    show "?P att i s y"
    proof (cases a)
      case (Return r)
      with rest step return show ?thesis by auto
    next
      case Retry
      with rest IH [of att "Suc i" s1 y] step retry show ?thesis by auto
    qed
  qed
  with assms(2) show ?thesis by simp
qed

lemma tx_loop_rule:
  assumes "tx_loop attempt i s = Some (r, s')" and "I s"
    and "\<And>i s s'. I s \<Longrightarrow> attempt i s = Some (Retry, s') \<Longrightarrow> I s'"
    and "\<And>i s r s'. I s \<Longrightarrow> attempt i s = Some (Return r, s') \<Longrightarrow> Q r s'"
  shows "Q r s'"
  by (rule tx_loop_rule_counting [OF assms(1), where I = "\<lambda>_. I"]) (use assms(2-4) in blast)+

text \<open>A loop none of whose attempts returns never ends.\<close>

lemma tx_loop_diverges:
  assumes "I s" and "\<And>i s a s'. I s \<Longrightarrow> attempt i s = Some (a, s') \<Longrightarrow> a = Retry \<and> I s'"
  shows "tx_loop attempt i s = None"
proof (rule ccontr)
  assume "tx_loop attempt i s \<noteq> None"
  then obtain r s' where "tx_loop attempt i s = Some (r, s')" by fastforce
  then show False by (rule tx_loop_rule [where I = I]) (use assms in blast)+
qed

section \<open>What a write must promise to the loop\<close>

text \<open>
  The update strategies of Kubernetes reject an object as invalid or badly requested, never
  with a conflict.
\<close>

definition quiet_ops :: "'a kind_ops \<Rightarrow> bool" where
  "quiet_ops ops \<longleftrightarrow> (\<forall>ns x y e. RestBeforeUpdate ops ns x y = Inl e \<or> RestBeforeStatusUpdate ops ns x y = Inl e
     \<longrightarrow> \<not> IsConflict e)"

definition strategies_quiet :: "env \<Rightarrow> bool" where
  "strategies_quiet E \<longleftrightarrow> quiet_ops (podOps E) \<and> quiet_ops (pvcOps E) \<and> quiet_ops (saOps E) \<and>
     quiet_ops (rsOps E) \<and> quiet_ops (ssOps E) \<and> quiet_ops (deployOps E) \<and> quiet_ops (roleOps E) \<and>
     quiet_ops (revOps E)"

lemma example_ops_quiet: "quiet_ops example_ops"
  by (auto simp: quiet_ops_def example_ops_def example_before_update_def Let_def split: if_splits)

lemma example_env_quiet: "strategies_quiet example_env"
  by (simp add: strategies_quiet_def example_env_def example_ops_quiet)

lemma stage_errors_quiet:
  "convertVersionedToLegacy E ob = Inl e \<Longrightarrow> \<not> IsConflict e"
  "convertLegacyToVersioned E msg l = Inl e \<Longrightarrow> \<not> IsConflict e"
  "applySchemaDefaults E ob = Inl e \<Longrightarrow> \<not> IsConflict e"
  "applyAdmissionMutateForUpdate l old = Inl e \<Longrightarrow> \<not> IsConflict e"
  "updateStrategyForLegacyObject l = Inl e \<Longrightarrow> \<not> IsConflict e"
  "statusUpdateStrategyForLegacyObject l = Inl e \<Longrightarrow> \<not> IsConflict e"
       apply (cases ob; auto simp: convert_in_def split: sum.splits)
      apply (cases l; auto simp: convert_out_def split: sum.splits)
     apply (cases ob; auto)
    apply (cases l; auto simp: Let_def split: legacy.splits)
   apply (cases l; auto)
  apply (cases l; auto)
  done

lemma typed_update_error:
  "typed_update as C f x y = Inl e \<Longrightarrow> e = type_panic \<or> (\<exists>a b. f a b = Inl e)"
  by (auto simp: typed_update_def map_sum_def split: option.splits sum.splits)

lemma before_update_quiet:
  assumes "strategies_quiet E" and "BeforeUpdate E st ns x y = Inl e"
  shows "\<not> IsConflict e"
  using assms by (cases st)
    (auto simp: strategies_quiet_def quiet_ops_def type_panic_def dest!: typed_update_error)

locale quiet_pipeline = update_pipeline +
  assumes pipe_quiet: "strategies_quiet E \<Longrightarrow> pipe E ob old namespace = Inl e \<Longrightarrow> \<not> IsConflict e"
begin

lemma update_with_error:
  assumes "update_with (pipe E) msg E ch kind namespace ob True s = Some (Inl e, s')"
  shows "s' = s \<and> update_checks (pipe E) msg E kind namespace ob True s = Inl e"
proof (cases "update_checks (pipe E) msg E kind namespace ob True s")
  case (Inr t)
  obtain key updated existing where "t = (key, updated, existing)" by (cases t)
  with Inr assms show ?thesis
    by (auto simp: update_with_def update_commit_def store_object_def Let_def split: if_splits option.splits)
qed (use assms in \<open>simp add: update_with_def\<close>)

lemma update_with_uid_mismatch:
  assumes "EnsureObjectNamespaceMatchesRequestNamespace E namespace (metadata ob) = Inr md"
    and "Name md \<noteq> []" "st_m s (KKey kind (Name md) namespace) = Some existing"
    and "UID md \<noteq> []" "UID md \<noteq> UID (metadata existing)"
  shows "update_with (pipe E) msg E ch kind namespace ob True s =
    Some (Inl (uid_conflict kind (Name md) (UID (metadata existing)) (UID md)), s)"
  using assms by (simp add: update_with_def update_checks_def Let_def)

lemma update_with_current:
  assumes "strategies_quiet E"
    and "EnsureObjectNamespaceMatchesRequestNamespace E namespace (metadata ob) = Inr md"
    and "Name md \<noteq> []" "st_m s (KKey kind (Name md) namespace) = Some existing"
    and "UID md = [] \<or> UID md = UID (metadata existing)"
    and "ResourceVersion md = ResourceVersion (metadata existing)"
    and "update_with (pipe E) msg E ch kind namespace ob True s = Some (Inl e, s')"
  shows "\<not> IsConflict e"
proof -
  have "update_checks (pipe E) msg E kind namespace ob True s = Inl e"
    using update_with_error [OF assms(7)] by simp
  then show ?thesis using assms(2-6) pipe_quiet [OF assms(1)]
    by (auto simp: update_checks_def Let_def ebind_Inl_iff request_rv_def allowUnconditionalUpdate_def
        split: if_splits)
qed

end

interpretation put: quiet_pipeline applyValidationAndDefaultingOnUpdate
proof
  fix E ob old namespace e
  assume "strategies_quiet E" "applyValidationAndDefaultingOnUpdate E ob old namespace = Inl e"
  then show "\<not> IsConflict e"
    by (auto simp: applyValidationAndDefaultingOnUpdate_def ebind_Inl_iff stage_errors_quiet dest: before_update_quiet)
qed

interpretation put_status: quiet_pipeline applyValidationAndDefaultingOnStatusUpdate
proof
  fix E ob old namespace e
  assume "strategies_quiet E" "applyValidationAndDefaultingOnStatusUpdate E ob old namespace = Inl e"
  then show "\<not> IsConflict e"
    by (auto simp: applyValidationAndDefaultingOnStatusUpdate_def ebind_Inl_iff stage_errors_quiet dest: before_update_quiet)
qed

text \<open>The write a transaction retries, as the loop sees it.\<close>

locale optimistic_write =
  fixes upd :: "env \<Rightarrow> choices \<Rightarrow> string \<Rightarrow> string \<Rightarrow> kobject \<Rightarrow> State \<Rightarrow> kobject call"
  assumes upd_error: "upd E ch kind namespace ob s = Some (Inl e, s') \<Longrightarrow> s' = s"
    and upd_contract: "upstream_laws E \<Longrightarrow> wf_state s \<Longrightarrow> upd E ch kind namespace ob s = Some (r, s') \<Longrightarrow>
      wf_state s' \<and> evolves s s'"
    and upd_accepted: "upstream_laws E \<Longrightarrow> wf_state s \<Longrightarrow> upd E ch kind namespace ob s = Some (Inr ob', s') \<Longrightarrow>
      update_accepted E kind namespace ob ob' s s'"
    and upd_uid_mismatch: "EnsureObjectNamespaceMatchesRequestNamespace E namespace (metadata ob) = Inr md \<Longrightarrow>
      Name md \<noteq> [] \<Longrightarrow> st_m s (KKey kind (Name md) namespace) = Some existing \<Longrightarrow>
      UID md \<noteq> [] \<Longrightarrow> UID md \<noteq> UID (metadata existing) \<Longrightarrow>
      \<exists>e. upd E ch kind namespace ob s = Some (Inl e, s) \<and> IsConflict e"
    and upd_current: "strategies_quiet E \<Longrightarrow>
      EnsureObjectNamespaceMatchesRequestNamespace E namespace (metadata ob) = Inr md \<Longrightarrow>
      Name md \<noteq> [] \<Longrightarrow> st_m s (KKey kind (Name md) namespace) = Some existing \<Longrightarrow>
      UID md = [] \<or> UID md = UID (metadata existing) \<Longrightarrow>
      ResourceVersion md = ResourceVersion (metadata existing) \<Longrightarrow>
      upd E ch kind namespace ob s = Some (Inl e, s') \<Longrightarrow> \<not> IsConflict e"
begin

lemma attempt_retry:
  "update_attempt upd msg E chs others kind namespace ob i s = Some (Retry, s') \<Longrightarrow>
    s' = others (2 * i + 1) (others (2 * i) s)"
  by (auto simp: update_attempt_def conflict_retries_eq Let_def dest: upd_error split: sum.splits if_splits)

lemma attempt_diverges:
  assumes ns: "\<And>rv. EnsureObjectNamespaceMatchesRequestNamespace E namespace (metadata ob) = Inr md"
    and ns_rv: "\<And>rv. EnsureObjectNamespaceMatchesRequestNamespace E namespace (md\<lparr>ResourceVersion := rv\<rparr>)
      = Inr (md\<lparr>ResourceVersion := rv\<rparr>)"
    and md: "Name md \<noteq> []" "UID md \<noteq> []"
    and others: "\<And>i s existing. st_m s (KKey kind (Name md) namespace) = Some existing \<Longrightarrow>
      UID (metadata existing) \<noteq> UID md \<Longrightarrow>
      \<exists>existing'. st_m (others i s) (KKey kind (Name md) namespace) = Some existing' \<and>
        UID (metadata existing') \<noteq> UID md"
    and start: "st_m s (KKey kind (Name md) namespace) = Some existing" "UID (metadata existing) \<noteq> UID md"
  shows "tx_loop (update_attempt upd msg E chs others kind namespace ob) i s = None"
proof (rule tx_loop_diverges [where I = "\<lambda>s. \<exists>existing. st_m s (KKey kind (Name md) namespace) = Some existing \<and>
      UID (metadata existing) \<noteq> UID md"])
  show "\<exists>existing. st_m s (KKey kind (Name md) namespace) = Some existing \<and> UID (metadata existing) \<noteq> UID md"
    using start by blast
next
  fix i s a s'
  assume inv: "\<exists>existing. st_m s (KKey kind (Name md) namespace) = Some existing \<and> UID (metadata existing) \<noteq> UID md"
    and att: "update_attempt upd msg E chs others kind namespace ob i s = Some (a, s')"
  from inv others obtain x where x: "st_m (others (2 * i) s) (KKey kind (Name md) namespace) = Some x"
    "UID (metadata x) \<noteq> UID md" by blast
  with others obtain y where y: "st_m (others (2 * i + 1) (others (2 * i) s)) (KKey kind (Name md) namespace) = Some y"
    "UID (metadata y) \<noteq> UID md" by blast
  let ?md = "md\<lparr>ResourceVersion := ResourceVersion (metadata x)\<rparr>"
  have "\<exists>e. upd E (chs i) kind namespace (set_metadata ob ?md) (others (2 * i + 1) (others (2 * i) s)) =
      Some (Inl e, others (2 * i + 1) (others (2 * i) s)) \<and> IsConflict e"
    by (rule upd_uid_mismatch [where md = ?md and existing = y]) (use ns_rv md y in auto)
  with att ns md x show "a = Retry \<and> (\<exists>existing. st_m s' (KKey kind (Name md) namespace) = Some existing \<and>
      UID (metadata existing) \<noteq> UID md)"
    using y by (auto simp: update_attempt_def api_get_def conflict_retries_def Let_def)
qed

lemma attempt_accepted:
  assumes laws: "upstream_laws E" and wf: "wf_state s"
    and others: "\<And>i s. wf_state s \<Longrightarrow> wf_state (others i s) \<and> evolves s (others i s)"
    and loop: "tx_loop (update_attempt upd msg E chs others kind namespace ob) i s = Some (Inr ob', s')"
  shows "\<exists>s1 md rv. wf_state s1 \<and> evolves s s1 \<and> rv \<noteq> [] \<and>
    EnsureObjectNamespaceMatchesRequestNamespace E namespace (metadata ob) = Inr md \<and>
    update_accepted E kind namespace (set_metadata ob (md\<lparr>ResourceVersion := rv\<rparr>)) ob' s1 s'"
proof -
  define Q where "Q = (\<lambda>(r :: error + kobject) s'. \<forall>ob'. r = Inr ob' \<longrightarrow> (\<exists>s1 md rv. wf_state s1 \<and> evolves s s1 \<and> rv \<noteq> [] \<and>
    EnsureObjectNamespaceMatchesRequestNamespace E namespace (metadata ob) = Inr md \<and>
    update_accepted E kind namespace (set_metadata ob (md\<lparr>ResourceVersion := rv\<rparr>)) ob' s1 s'))"
  let ?att = "update_attempt upd msg E chs others kind namespace ob"
  have "Q (Inr ob') s'"
  proof (rule tx_loop_rule [OF loop, where I = "\<lambda>s1. wf_state s1 \<and> evolves s s1" and Q = Q])
    show "wf_state s \<and> evolves s s" using wf by simp
  next
    fix j s1 s2 assume inv: "wf_state s1 \<and> evolves s s1" and att: "?att j s1 = Some (Retry, s2)"
    have s0: "wf_state (others (2 * j + 1) (others (2 * j) s1)) \<and> evolves s (others (2 * j + 1) (others (2 * j) s1))"
      using inv others evolves_trans by meson
    from s0 attempt_retry [OF att] show "wf_state s2 \<and> evolves s s2" by simp
  next
    fix j s1 r s2 assume inv: "wf_state s1 \<and> evolves s s1" and att: "?att j s1 = Some (Return r, s2)"
    show "Q r s2" unfolding Q_def
    proof (intro allI impI)
      fix ob2 assume r: "r = Inr ob2"
      let ?s0 = "others (2 * j) s1" and ?s1 = "others (2 * j + 1) (others (2 * j) s1)"
      have wfs: "wf_state ?s0 \<and> wf_state ?s1 \<and> evolves s ?s1"
        using inv others evolves_trans by meson
      from att r obtain md x where md: "EnsureObjectNamespaceMatchesRequestNamespace E namespace (metadata ob) = Inr md"
        and x: "st_m ?s0 (KKey kind (Name md) namespace) = Some x"
        and upd: "upd E (chs j) kind namespace (set_metadata ob (md\<lparr>ResourceVersion := ResourceVersion (metadata x)\<rparr>)) ?s1
          = Some (Inr ob2, s2)"
        by (auto simp: update_attempt_def conflict_retries_eq api_get_def Let_def
            split: sum.splits if_splits option.splits)
      have "ResourceVersion (metadata x) \<in> usedRV ?s0"
        using wf_state_stored [OF _ x] wfs by (simp add: stored_ok_def)
      then have "ResourceVersion (metadata x) \<noteq> []" using wf_state_rv wfs by (fastforce simp: parse_uint_def)
      with upd_accepted [OF laws _ upd] wfs md
      show "\<exists>s1 md rv. wf_state s1 \<and> evolves s s1 \<and> rv \<noteq> [] \<and>
        EnsureObjectNamespaceMatchesRequestNamespace E namespace (metadata ob) = Inr md \<and>
        update_accepted E kind namespace (set_metadata ob (md\<lparr>ResourceVersion := rv\<rparr>)) ob2 s1 s2" by blast
    qed
  qed
  then show ?thesis by (simp add: Q_def)
qed

lemma attempt_returns:
  assumes quiet: "strategies_quiet E"
    and ns: "EnsureObjectNamespaceMatchesRequestNamespace E namespace (metadata ob) = Inr md"
    and ns_rv: "\<And>rv. EnsureObjectNamespaceMatchesRequestNamespace E namespace (md\<lparr>ResourceVersion := rv\<rparr>)
      = Inr (md\<lparr>ResourceVersion := rv\<rparr>)"
    and J: "J s" "\<And>i s. J s \<Longrightarrow> J (others i s)"
    and total: "\<And>i s ob. J s \<Longrightarrow> upd E (chs i) kind namespace ob s \<noteq> None"
    and uid: "\<And>s existing. J s \<Longrightarrow> st_m s (KKey kind (Name md) namespace) = Some existing \<Longrightarrow>
      UID md = [] \<or> UID md = UID (metadata existing)"
    and still: "\<And>s. J s \<Longrightarrow> others (2 * n + 1) s = s"
    and "i \<le> n"
  shows "\<exists>r s'. tx_loop (update_attempt upd msg E chs others kind namespace ob) i s = Some (r, s')"
  using J(1) \<open>i \<le> n\<close>
proof (induction "n - i" arbitrary: i s)
  case 0
  then have n: "i = n" by simp
  let ?s0 = "others (2 * n) s"
  have J0: "J ?s0" using 0 J(2) by blast
  have "\<exists>r s'. update_attempt upd msg E chs others kind namespace ob n s = Some (Return r, s')"
  proof (cases "Name md = [] \<or> st_m ?s0 (KKey kind (Name md) namespace) = None")
    case True
    with ns show ?thesis by (auto simp: update_attempt_def api_get_def Let_def)
  next
    case False
    then obtain x where x: "st_m ?s0 (KKey kind (Name md) namespace) = Some x" and name: "Name md \<noteq> []" by auto
    let ?ob = "set_metadata ob (md\<lparr>ResourceVersion := ResourceVersion (metadata x)\<rparr>)"
    obtain r s' where upd: "upd E (chs n) kind namespace ?ob ?s0 = Some (r, s')"
      using total [OF J0] by fastforce
    have "\<not> IsConflict e" if "r = Inl e" for e
      by (rule upd_current [where md = "md\<lparr>ResourceVersion := ResourceVersion (metadata x)\<rparr>" and existing = x])
        (use quiet x ns_rv name uid [OF J0 x] upd that in auto)
    then show ?thesis using ns name x upd still [OF J0]
      by (cases r) (auto simp: update_attempt_def api_get_def conflict_retries_def Let_def)
  qed
  then show ?case using n tx_loop_unfold(1) by blast
next
  case (Suc k)
  let ?att = "update_attempt upd msg E chs others kind namespace ob"
  let ?s1 = "others (2 * i + 1) (others (2 * i) s)"
  have J1: "J ?s1" using Suc J(2) by blast
  have "?att i s \<noteq> None"
    using total [OF J1] by (simp add: update_attempt_def Let_def del: not_None_eq split: sum.splits)
  then obtain a s2 where att: "?att i s = Some (a, s2)" by fastforce
  show ?case
  proof (cases a)
    case (Return r)
    then show ?thesis using att tx_loop_unfold(1) by blast
  next
    case Retry
    then have "s2 = ?s1" using att attempt_retry by blast
    with J1 Suc.hyps(1) [of "Suc i" s2] Suc.hyps(2) tx_loop_unfold(2) [of ?att i s s2] att Retry
    show ?thesis by simp
  qed
qed

end

text \<open>Both updates keep this contract, since their pipelines are quiet.\<close>

context quiet_pipeline
begin

lemma optimistic:
  "optimistic_write (\<lambda>E ch kind namespace ob s. update_with (pipe E) msg E ch kind namespace ob True s)"
proof
  fix E ch kind namespace ob s e s'
  assume "update_with (pipe E) msg E ch kind namespace ob True s = Some (Inl e, s')"
  then show "s' = s" by (auto dest: update_with_error)
next
  fix E :: env and ch kind namespace ob md existing and s :: State
  assume "EnsureObjectNamespaceMatchesRequestNamespace E namespace (metadata ob) = Inr md"
    "Name md \<noteq> []" "st_m s (KKey kind (Name md) namespace) = Some existing"
    "UID md \<noteq> []" "UID md \<noteq> UID (metadata existing)"
  from update_with_uid_mismatch [OF this]
  show "\<exists>e. update_with (pipe E) msg E ch kind namespace ob True s = Some (Inl e, s) \<and> IsConflict e"
    by (simp add: uid_conflict_def)
qed (blast intro: update_with_success dest: update_with_wf update_with_current)+

end

interpretation update_tx: optimistic_write update
  using put.optimistic [of "''object of kind %q must specify a name for update''"]
  by (simp add: update_def [abs_def] updateLocked_def)

interpretation update_status_tx: optimistic_write updateStatus
  using put_status.optimistic [of "''object of kind %q must specify a name for status update''"]
  by (simp add: updateStatus_def [abs_def] updateStatusLocked_def)

section \<open>Transactional updates\<close>

text \<open>The interference of clients that keep the API's contract.\<close>

definition fair_others :: "interference \<Rightarrow> bool" where
  "fair_others others \<longleftrightarrow> (\<forall>i s. wf_state s \<longrightarrow> wf_state (others i s) \<and> evolves s (others i s))"


lemma example_ensured:
  "EnsureObjectNamespaceMatchesRequestNamespace example_env ''default'' (stored_meta\<lparr>Labels := ls\<rparr>) =
     Inr (stored_meta\<lparr>Labels := ls\<rparr>)"
  "EnsureObjectNamespaceMatchesRequestNamespace example_env ''default''
     (stored_meta\<lparr>UID := u, ResourceVersion := rv, Labels := ls\<rparr>) =
     Inr (stored_meta\<lparr>UID := u, ResourceVersion := rv, Labels := ls\<rparr>)"
  by (simp_all add: example_env_simps example_ensure_namespace_def stored_meta_def example_meta_def)



text \<open>C29: A transactional update and status update return once nobody writes between their read and
  their write any more, provided the object they send has no UID or the stored one, the strategies
  raise no conflicts and the random sources are not exhausted. \<open>safe\<close> is any invariant of the
  states the loop meets.\<close>

theorem updateTx_returns:
  assumes "strategies_quiet E"
    and "EnsureObjectNamespaceMatchesRequestNamespace E namespace (metadata ob) = Inr md"
    and "\<And>rv. EnsureObjectNamespaceMatchesRequestNamespace E namespace (md\<lparr>ResourceVersion := rv\<rparr>)
      = Inr (md\<lparr>ResourceVersion := rv\<rparr>)"
    and "safe s" "\<And>i s. safe s \<Longrightarrow> safe (others i s)"
    and "\<And>i s ob. safe s \<Longrightarrow> update E (chs i) kind namespace ob s \<noteq> None \<and>
      updateStatus E (chs i) kind namespace ob s \<noteq> None"
    and "\<And>s existing. safe s \<Longrightarrow> st_m s (KKey kind (Name md) namespace) = Some existing \<Longrightarrow>
      UID md = [] \<or> UID md = UID (metadata existing)"
    and "\<And>s. safe s \<Longrightarrow> others (2 * n + 1) s = s"
  shows "(\<exists>r s'. updateTx E chs others kind namespace ob s = Some (r, s')) \<and>
    (\<exists>r s'. updateStatusTx E chs others kind namespace ob s = Some (r, s'))"
  unfolding updateTx_def updateStatusTx_def
  by (intro conjI update_tx.attempt_returns [where J = safe and md = md and n = n]
      update_status_tx.attempt_returns [where J = safe and md = md and n = n]) (use assms in auto)

lemma update_returns:
  assumes "\<exists>i. format_nat (unat (o_int63 ch i)) \<notin> usedRV s"
  shows "update E ch kind namespace ob s \<noteq> None" "updateStatus E ch kind namespace ob s \<noteq> None"
  using store_object_returns [OF assms]
  by (auto simp: update_def updateLocked_def updateStatus_def updateStatusLocked_def update_with_def
      update_commit_def split: sum.splits)

theorem updateTx_returns_witness:
  "(\<exists>r s'. updateTx example_env (\<lambda>_. example_choices) (\<lambda>_ s. s) ''Pod'' ''default'' (client_pod stored_meta) example_state
     = Some (r, s')) \<and>
   (\<exists>r s'. updateStatusTx example_env (\<lambda>_. example_choices) (\<lambda>_ s. s) ''Pod'' ''default'' (client_pod stored_meta) example_state
     = Some (r, s'))"
proof (rule updateTx_returns [where safe = "\<lambda>s. s = example_state" and n = 0
      and md = "stored_meta\<lparr>Labels := Some example_labels\<rparr>"])
  show "EnsureObjectNamespaceMatchesRequestNamespace example_env ''default'' (metadata (client_pod stored_meta)) =
      Inr (stored_meta\<lparr>Labels := Some example_labels\<rparr>)"
    by (simp add: client_pod_def example_meta_simps example_ensured)
  fix rv show "EnsureObjectNamespaceMatchesRequestNamespace example_env ''default''
      (stored_meta\<lparr>Labels := Some example_labels, ResourceVersion := rv\<rparr>) =
      Inr (stored_meta\<lparr>Labels := Some example_labels, ResourceVersion := rv\<rparr>)"
    by (simp add: example_env_simps example_ensure_namespace_def stored_meta_def example_meta_def)
next
  fix i s ob assume "s = example_state"
  then have "\<exists>i. format_nat (unat (o_int63 example_choices i)) \<notin> usedRV s"
    by (auto simp: example_choices_def example_state_simps format_nat_0 intro!: exI [of _ 0])
  then show "update example_env example_choices ''Pod'' ''default'' ob s \<noteq> None \<and>
      updateStatus example_env example_choices ''Pod'' ''default'' ob s \<noteq> None"
    using update_returns by blast
qed (auto simp: example_env_quiet example_state_simps stored_key_def stored_meta_simps example_meta_simps)

text \<open>C27: A transactional update or status update that carries the UID of an object that has been
  replaced never returns: the UID conflict is retried like a version conflict, forever, as long
  as the other clients leave some object with another UID under the name.\<close>

theorem updateTx_uid_mismatch_diverges:
  assumes "EnsureObjectNamespaceMatchesRequestNamespace E namespace (metadata ob) = Inr md"
    and "\<And>rv. EnsureObjectNamespaceMatchesRequestNamespace E namespace (md\<lparr>ResourceVersion := rv\<rparr>)
      = Inr (md\<lparr>ResourceVersion := rv\<rparr>)"
    and "Name md \<noteq> []" "UID md \<noteq> []"
    and "\<And>i s existing. st_m s (KKey kind (Name md) namespace) = Some existing \<Longrightarrow>
      UID (metadata existing) \<noteq> UID md \<Longrightarrow>
      \<exists>existing'. st_m (others i s) (KKey kind (Name md) namespace) = Some existing' \<and>
        UID (metadata existing') \<noteq> UID md"
    and "st_m s (KKey kind (Name md) namespace) = Some existing" "UID (metadata existing) \<noteq> UID md"
  shows "updateTx E chs others kind namespace ob s = None \<and>
    updateStatusTx E chs others kind namespace ob s = None"
  unfolding updateTx_def updateStatusTx_def
  using update_tx.attempt_diverges [OF assms(1-4) _ assms(6,7)]
    update_status_tx.attempt_diverges [OF assms(1-4) _ assms(6,7)] assms(5) by blast

theorem updateTx_uid_mismatch_diverges_witness:
  "updateTx example_env (\<lambda>_. example_choices) (\<lambda>_ s. s) ''Pod'' ''default''
      (client_pod (stored_meta\<lparr>UID := ''w''\<rparr>)) example_state = None \<and>
   updateStatusTx example_env (\<lambda>_. example_choices) (\<lambda>_ s. s) ''Pod'' ''default''
      (client_pod (stored_meta\<lparr>UID := ''w''\<rparr>)) example_state = None"
  by (rule updateTx_uid_mismatch_diverges [where md = "stored_meta\<lparr>UID := ''w'', Labels := Some example_labels\<rparr>"
        and existing = "KPod (example_pod stored_meta)"])
    (auto simp: client_pod_def example_env_simps example_ensure_namespace_def example_object_defs)

section \<open>An update of a stored object\<close>

text \<open>
  What a successful update of a live object leaves under its key: the object the pipeline made of the
  one sent, with a new version, or the stored one, when storage does not tell the two apart.
\<close>

definition written_as :: "KKey \<Rightarrow> kobject \<Rightarrow> kobject \<Rightarrow> State \<Rightarrow> State \<Rightarrow> bool" where
  "written_as key old u s s' \<longleftrightarrow> storage_view u = storage_view old \<and> st_m s' = st_m s \<or>
     (\<exists>rv. st_m s' = (st_m s)(key \<mapsto> set_metadata u ((metadata u)\<lparr>ResourceVersion := rv\<rparr>)))"

lemma update_written:
  assumes laws: "upstream_laws E" and key: "key = KKey kind (Name (metadata ob)) namespace"
    and stored: "st_m s key = Some old" and live: "DeletionTimestamp (metadata old) = None"
    and call: "update E ch kind namespace ob s = Some (Inr ob', s')"
  shows "\<exists>u rv. applyValidationAndDefaultingOnUpdate E
      (set_metadata ob ((metadata ob)\<lparr>Namespace := namespace, ResourceVersion := rv\<rparr>)) old namespace = Inr u \<and>
    written_as key old u s s'"
proof -
  from call obtain k u ex where
    checks: "update_checks (applyValidationAndDefaultingOnUpdate E) ''object of kind %q must specify a name for update'' E
      kind namespace ob True s = Inr (k, u, ex)"
    and commit: "update_commit ch k u ex s = Some (Inr ob', s')"
    by (auto simp: update_def updateLocked_def update_with_def split: sum.splits prod.splits)
  from put.checks_passed [OF checks] obtain md rv where
    md: "EnsureObjectNamespaceMatchesRequestNamespace E namespace (metadata ob) = Inr md"
    and k: "k = KKey kind (Name md) namespace" "st_m s k = Some ex"
    and pipe: "applyValidationAndDefaultingOnUpdate E (set_metadata ob (md\<lparr>ResourceVersion := rv\<rparr>)) ex namespace = Inr u"
    by metis
  have md': "md = (metadata ob)\<lparr>Namespace := namespace\<rparr>" using ensure_namespaceD [OF laws md] by simp
  then have k': "k = key" "ex = old" using k key stored by simp_all
  from commit live k'(2) consider "storageObjectDeepEqual u ex" "s' = s" | "store_object ch k u s = Some (Inr ob', s')"
    by (auto simp: update_commit_def shouldDeleteDuringUpdate_def split: if_splits)
  then have "written_as key old u s s'"
  proof cases
    case 1
    then show ?thesis using k'(2) by (simp add: written_as_def storageObjectDeepEqual_def)
  next
    case 2
    then show ?thesis unfolding written_as_def k'(1) by (elim store_object_Some) auto
  qed
  with pipe md' k'(2) show ?thesis by auto
qed

text \<open>The state after the first \<open>n\<close> turns of the other clients, the transaction having written nothing.\<close>

definition interfered :: "interference \<Rightarrow> nat \<Rightarrow> State \<Rightarrow> State" where
  "interfered others n s = fold others [0..<n] s"

lemma interfered_simps [simp]:
  "interfered others 0 s = s" "interfered others (Suc n) s = others n (interfered others n s)"
  by (simp_all add: interfered_def)

lemma interfered_fair:
  "fair_others others \<Longrightarrow> wf_state s \<Longrightarrow> wf_state (interfered others n s) \<and> evolves s (interfered others n s)"
proof (induction n)
  case (Suc n)
  then show ?case using evolves_trans by (auto simp: fair_others_def)
qed simp

lemma interfered_idle: "(\<And>i s. others i s = s) \<Longrightarrow> interfered others n s = s"
  by (induction n) simp_all

lemma updateTx_written:
  assumes laws: "upstream_laws E" and key: "key = KKey kind (Name (metadata ob)) namespace"
    and stored: "st_m s key = Some old" and live: "DeletionTimestamp (metadata old) = None"
    and others: "\<And>i s. st_m (others i s) key = st_m s key"
    and call: "updateTx E chs others kind namespace ob s = Some (Inr ob', s')"
  shows "\<exists>n u rv. applyValidationAndDefaultingOnUpdate E
      (set_metadata ob ((metadata ob)\<lparr>Namespace := namespace, ResourceVersion := rv\<rparr>)) old namespace = Inr u \<and>
    written_as key old u (interfered others n s) s'"
proof -
  let ?attempt = "update_attempt update ''object of kind %q must specify a name for update'' E chs others kind namespace ob"
  let ?done = "\<lambda>s'. \<exists>n u rv. applyValidationAndDefaultingOnUpdate E
      (set_metadata ob ((metadata ob)\<lparr>Namespace := namespace, ResourceVersion := rv\<rparr>)) old namespace = Inr u \<and>
    written_as key old u (interfered others n s) s'"
  define Q where "Q = (\<lambda>(r :: error + kobject) s'. \<forall>ob'. r = Inr ob' \<longrightarrow> ?done s')"
  have same: "st_m (interfered others n s) key = Some old" for n
    using others stored by (induction n) simp_all
  have "Q (Inr ob') s'"
  proof (rule tx_loop_rule_counting [OF call [unfolded updateTx_def], where I = "\<lambda>i s1. s1 = interfered others (2 * i) s" and Q = Q])
    fix i s1 s2 assume "s1 = interfered others (2 * i) s" "?attempt i s1 = Some (Retry, s2)"
    then show "s2 = interfered others (2 * Suc i) s" using update_tx.attempt_retry by fastforce
  next
    fix i s1 r s2 assume s1: "s1 = interfered others (2 * i) s" and att: "?attempt i s1 = Some (Return r, s2)"
    show "Q r s2" unfolding Q_def
    proof (intro allI impI)
      fix ob' assume r: "r = Inr ob'"
      let ?s2 = "interfered others (2 * i + 2) s"
      from att r s1 obtain md rv where
        md: "EnsureObjectNamespaceMatchesRequestNamespace E namespace (metadata ob) = Inr md"
        and upd: "update E (chs i) kind namespace (set_metadata ob (md\<lparr>ResourceVersion := rv\<rparr>)) ?s2 = Some (Inr ob', s2)"
        by (auto simp: update_attempt_def Let_def conflict_retries_eq split: sum.splits if_splits)
      have md': "md = (metadata ob)\<lparr>Namespace := namespace\<rparr>" using ensure_namespaceD [OF laws md] by simp
      from update_written [OF laws _ same live upd] obtain u rv' where
        "applyValidationAndDefaultingOnUpdate E (set_metadata ob ((metadata ob)\<lparr>Namespace := namespace, ResourceVersion := rv'\<rparr>))
          old namespace = Inr u" "written_as key old u ?s2 s2"
        by (auto simp: key md')
      then show "?done s2" by blast
    qed
  qed simp
  then show ?thesis unfolding Q_def by blast
qed

section \<open>Transactional deletes\<close>

lemma delete_error_state:
  assumes "delete E ch key options s = Some (Inl e, s')"
  shows "s' = s"
  using assms
proof (cases rule: delete_outcomes)
  case (marked ob g checked options' objCopy r')
  then show ?thesis by (elim store_object_Some) auto
qed simp_all

lemma delete_attempt_retry:
  "delete_attempt E chs others key options i s = Some (Retry, s') \<Longrightarrow> s' = others (2 * i + 1) (others (2 * i) s)"
  by (auto simp: delete_attempt_def conflict_retries_eq Let_def dest: delete_error_state split: sum.splits if_splits)

text \<open>C7: A transactional delete that succeeds deleted exactly the object it had read. All earlier
  attempts ended in a conflict and wrote nothing; the last attempt read \<open>ob\<close>, which passes the
  client's UID precondition; then the other clients had one more turn, after which \<open>ob\<close> is still
  stored, unchanged; and in that state the one delete that was carried out is the delete of \<open>ob\<close> with its
  resource version as a precondition.\<close>

theorem deleteTx_deletes_what_it_read:
  assumes "wf_state s" "fair_others others"
    and "deleteTx E chs others key options s = Some (Inr (), s')"
  shows "\<exists>i ob. (\<forall>j<i. delete_attempt E chs others key options j (interfered others (2 * j) s) =
      Some (Retry, interfered others (2 * j + 2) s)) \<and>
    api_get (interfered others (2 * i + 1) s) key = Inr ob \<and> \<not> preconditionUIDMismatch options (metadata ob) \<and>
    st_m (interfered others (2 * i + 2) s) key = Some ob \<and>
    delete E (chs i) key (setPreconditionResourceVersion options (metadata ob)) (interfered others (2 * i + 2) s) =
      Some (Inr (), s')"
proof -
  let ?att = "delete_attempt E chs others key options" and ?st = "\<lambda>n. interfered others n s"
  let ?retried = "\<lambda>i. \<forall>j<i. ?att j (?st (2 * j)) = Some (Retry, ?st (2 * j + 2))"
  define Q where "Q = (\<lambda>(r :: error + unit) s'. r = Inr () \<longrightarrow> (\<exists>i ob. ?retried i \<and>
    api_get (?st (2 * i + 1)) key = Inr ob \<and> \<not> preconditionUIDMismatch options (metadata ob) \<and>
    st_m (?st (2 * i + 2)) key = Some ob \<and>
    delete E (chs i) key (setPreconditionResourceVersion options (metadata ob)) (?st (2 * i + 2)) = Some (Inr (), s')))"
  have "Q (Inr ()) s'"
  proof (rule tx_loop_rule_counting [OF assms(3) [unfolded deleteTx_def],
        where I = "\<lambda>i s1. s1 = ?st (2 * i) \<and> ?retried i" and Q = Q])
    fix i s1 s2 assume "s1 = ?st (2 * i) \<and> ?retried i" "?att i s1 = Some (Retry, s2)"
    then show "s2 = ?st (2 * Suc i) \<and> ?retried (Suc i)"
      using delete_attempt_retry [of E chs others key options i s1 s2] by (auto simp: less_Suc_eq)
  next
    fix i s1 r s2 assume inv: "s1 = ?st (2 * i) \<and> ?retried i" and att: "?att i s1 = Some (Return r, s2)"
    let ?s0 = "?st (2 * i + 1)" and ?s1 = "?st (2 * i + 2)"
    have wfs: "wf_state ?s0" "evolves ?s0 ?s1"
      using interfered_fair [OF assms(2,1), of "2 * i + 1"] assms(2) by (auto simp: fair_others_def)
    show "Q r s2" unfolding Q_def
    proof
      assume "r = Inr ()"
      with att inv obtain x where x: "api_get ?s0 key = Inr x" "\<not> preconditionUIDMismatch options (metadata x)"
        and del: "delete E (chs i) key (setPreconditionResourceVersion options (metadata x)) ?s1 = Some (Inr (), s2)"
        by (auto simp: delete_attempt_def conflict_retries_eq Let_def split: sum.splits if_splits)
      then obtain ob where ob: "st_m ?s1 key = Some ob" by (auto simp: delete_def split: option.splits)
      with del have "ResourceVersion (metadata ob) = ResourceVersion (metadata x)"
        by (auto simp: delete_def validateDeletePreconditions_def setPreconditionResourceVersion_def
            split: option.splits if_splits)
      then have "ob = x" using evolves_same_version [OF wfs(2,1) _ ob] x(1) by (simp add: api_get_Inr)
      with ob x del inv show "\<exists>i ob. ?retried i \<and> api_get (?st (2 * i + 1)) key = Inr ob \<and>
          \<not> preconditionUIDMismatch options (metadata ob) \<and> st_m (?st (2 * i + 2)) key = Some ob \<and>
          delete E (chs i) key (setPreconditionResourceVersion options (metadata ob)) (?st (2 * i + 2)) = Some (Inr (), s2)"
        by blast
    qed
  qed simp
  then show ?thesis by (simp add: Q_def)
qed

lemma delete_current_quiet:
  assumes "st_m s key = Some ob" "\<not> preconditionUIDMismatch options (metadata ob)"
    and "delete E ch key (setPreconditionResourceVersion options (metadata ob)) s = Some (Inl e, s')"
  shows "\<not> IsConflict e"
proof -
  let ?o = "setPreconditionResourceVersion options (metadata ob)"
  have "validateDeletePreconditions (metadata ob) ?o kind = None" for kind
    using assms(2) by (auto simp: validateDeletePreconditions_def setPreconditionResourceVersion_def
        preconditionUIDMismatch_def split: option.splits)
  moreover have "\<not> IsConflict e'" if "validateDeleteOptions ?o = Some e'" for e'
    using that by (auto simp: validateDeleteOptions_def Let_def split: if_splits)
  moreover have "\<not> IsConflict e'" if "strategy_graceful E x o' = Inl e'" for x o' e'
    using that by (cases x) (auto split: sum.splits prod.splits)
  moreover have "delete_commit ch key x g c o' s \<noteq> Some (Inl e, s')" for x g c o'
    by (auto simp: delete_commit_def store_object_def Let_def split: option.splits)
  ultimately show ?thesis using assms(1,3)
    by (fastforce simp: delete_def checkGracefulDelete_def Let_def split: option.splits sum.splits prod.splits if_splits)
qed

text \<open>A transactional delete returns once nobody writes between its read and its write; unlike
  the update it checks the UID itself, so a replaced object makes it fail, not hang.\<close>

theorem deleteTx_returns:
  assumes "safe s" "\<And>i s. safe s \<Longrightarrow> safe (others i s)"
    and "\<And>i s. safe s \<Longrightarrow> \<exists>j. format_nat (unat (o_int63 (chs i) j)) \<notin> usedRV s"
    and "\<And>s. safe s \<Longrightarrow> others (2 * n + 1) s = s"
  shows "\<exists>r s'. deleteTx E chs others key options s = Some (r, s')"
proof -
  let ?att = "delete_attempt E chs others key options"
  have total: "delete E (chs i) key o' s \<noteq> None" if "safe s" for i s o'
    using that assms(3) store_object_returns
    by (fastforce simp: delete_def delete_commit_def Let_def split: option.splits sum.splits prod.splits)
  have "\<exists>r s'. tx_loop ?att i s = Some (r, s')" if "i \<le> n" "safe s" for i s
    using that
  proof (induction "n - i" arbitrary: i s)
    case 0
    then have n: "i = n" and inv: "safe (others (2 * n) s)" using assms(2) by auto
    have "\<exists>r s'. ?att n s = Some (Return r, s')"
    proof (cases "st_m (others (2 * n) s) key")
      case (Some ob)
      then show ?thesis
        using total [OF inv, of n "setPreconditionResourceVersion options (metadata ob)"] assms(4) [OF inv]
          delete_current_quiet [OF Some]
        by (fastforce simp: delete_attempt_def api_get_def conflict_retries_eq Let_def)
    qed (simp add: delete_attempt_def api_get_def Let_def)
    with n show ?case using tx_loop_unfold(1) by blast
  next
    case (Suc k)
    let ?s1 = "others (2 * i + 1) (others (2 * i) s)"
    have inv: "safe ?s1" using Suc assms(2) by blast
    have "?att i s \<noteq> None"
      using total [OF inv] by (simp add: delete_attempt_def Let_def del: not_None_eq split: sum.splits)
    then obtain a s2 where att: "?att i s = Some (a, s2)" by fastforce
    show ?case
    proof (cases a)
      case (Return r)
      then show ?thesis using att tx_loop_unfold(1) by blast
    next
      case Retry
      then have "s2 = ?s1" using att delete_attempt_retry by blast
      with inv Suc.hyps(1) [of "Suc i" s2] Suc.hyps(2) tx_loop_unfold(2) [of ?att i s s2] att Retry
      show ?thesis by simp
    qed
  qed
  from this [of 0 s] assms(1) show ?thesis by (simp add: deleteTx_def)
qed

theorem deleteTx_returns_witness:
  "\<exists>r s'. deleteTx example_env (\<lambda>_. example_choices) (\<lambda>_ s. s) stored_key plain_options example_state = Some (r, s')"
  by (rule deleteTx_returns [where safe = "\<lambda>s. s = example_state" and n = 0])
    (auto simp: example_choices_def example_state_simps format_nat_0 intro!: exI [of _ 0])

theorem deleteTx_deletes_what_it_read_witness:
  "\<exists>i ob. api_get (interfered (\<lambda>_ s. s) (2 * i + 1) example_state) stored_key = Inr ob \<and>
    delete example_env example_choices stored_key (setPreconditionResourceVersion now_options (metadata ob))
      (interfered (\<lambda>_ s. s) (2 * i + 2) example_state) =
      Some (Inr (), example_state\<lparr>st_m := (st_m example_state)(stored_key := None)\<rparr>)"
proof -
  have fair: "fair_others (\<lambda>_ s. s)" by (simp add: fair_others_def)
  let ?o = "setPreconditionResourceVersion now_options stored_meta"
  have o: "?o = now_options\<lparr>do_Preconditions := Some \<lparr>pre_UID = None, pre_ResourceVersion = Some ''7''\<rparr>\<rparr>"
    by (simp add: setPreconditionResourceVersion_def now_options_simps stored_meta_simps)
  have valid: "validateDeleteOptions ?o = None"
    unfolding o by (simp add: now_options_def validateDeleteOptions_def ValidateDeleteOptions_def ValidateDryRun_def
        ValidateIgnoreStoreReadError_def options_simps)
  have grace: "delete_grace True ?o = 0" by (simp add: o delete_grace_def now_options_simps)
  have chk: "checkGracefulDelete example_env example_choices (KPod (example_pod stored_meta)) ?o =
      Inr (True, False, KPod (example_pod stored_meta), ?o)"
    unfolding o by (simp add: checkGracefulDelete_def example_env_simps example_ops_def example_graceful_def
        example_meta_simps stored_meta_simps now_options_def options_simps clamp_grace_def Let_def)
      (simp add: stored_meta_def example_meta_def example_pod_def example_spec_def)
  have gc: "with_gc_finalizers (KPod (example_pod stored_meta)) ?o = KPod (example_pod stored_meta)"
    unfolding o by (simp add: with_gc_finalizers_def deletionFinalizersForGarbageCollection_def shouldOrphanDependents_def
        shouldDeleteDependents_def now_options_def options_simps stored_meta_simps example_meta_simps Let_def)
  have pre: "validateDeletePreconditions stored_meta ?o kind = None" for kind
    unfolding o by (simp add: validateDeletePreconditions_def stored_meta_simps)
  have "delete example_env example_choices stored_key ?o example_state =
      Some (Inr (), example_state\<lparr>st_m := (st_m example_state)(stored_key := None)\<rparr>)"
    by (simp add: delete_def example_state_simps valid pre chk gc delete_commit_def grace example_meta_simps
        stored_meta_simps Let_def)
  then have "delete_attempt example_env (\<lambda>_. example_choices) (\<lambda>_ s. s) stored_key now_options 0 example_state =
      Some (Return (Inr ()), example_state\<lparr>st_m := (st_m example_state)(stored_key := None)\<rparr>)"
    by (simp add: delete_attempt_def api_get_def example_state_simps example_meta_simps
        preconditionUIDMismatch_def now_options_simps conflict_retries_def)
  then have tx: "deleteTx example_env (\<lambda>_. example_choices) (\<lambda>_ s. s) stored_key now_options example_state =
      Some (Inr (), example_state\<lparr>st_m := (st_m example_state)(stored_key := None)\<rparr>)"
    by (simp add: deleteTx_def tx_loop_unfold(1))
  from deleteTx_deletes_what_it_read [OF example_state_wf fair tx] show ?thesis by blast
qed

end
