(* ===== verification/Api_Patch.thy ===== *)
theory Api_Patch
  imports Api_Write_Spec
begin

text \<open>
  PATCH requests (src/kubernetes_model/apimodel/patch.go). The codecs, the JSON patch library
  and the strategic merge are third-party code, the fields of \<open>codec\<close>; the model has the
  control flow around them, and hands the patched object to the update paths.
\<close>

section \<open>Third-party functions\<close>

datatype merge_error = ErrNoListOfLists | ErrPatchContentNotMatchRetainKeys | OtherMergeError string

text \<open>A group-version-kind is kept as one string, an encoded object and a patch as strings.
  \<open>copy_gvk\<close> is \<open>SetGroupVersionKind(x.GroupVersionKind())\<close> on the type metadata.\<close>

record codec =
  ObjectKinds :: "kobject \<Rightarrow> string + string list"
  Encode :: "string \<Rightarrow> kobject \<Rightarrow> string + string"
  DecodePatch :: "string \<Rightarrow> string + opaque list"
  ApplyPatch :: "opaque list \<Rightarrow> string \<Rightarrow> string + string"
  MergePatch :: "string \<Rightarrow> string \<Rightarrow> merge_error + string"
  StrategicMergePatch :: "string \<Rightarrow> string \<Rightarrow> kobject \<Rightarrow> merge_error + string"
  merge_message :: "merge_error \<Rightarrow> string"
  Scheme_New :: "string \<Rightarrow> string + kobject"
  Unmarshal :: "string \<Rightarrow> kobject \<Rightarrow> string + kobject"
  DecodeInto :: "string \<Rightarrow> string \<Rightarrow> kobject \<Rightarrow> string + kobject"
  copy_gvk :: "TypeMeta \<Rightarrow> TypeMeta"

definition JSONPatchType :: string where "JSONPatchType = ''application/json-patch+json''"
definition MergePatchType :: string where "MergePatchType = ''application/merge-patch+json''"
definition StrategicMergePatchType :: string where
  "StrategicMergePatchType = ''application/strategic-merge-patch+json''"

lemmas patch_types = JSONPatchType_def MergePatchType_def StrategicMergePatchType_def

fun type_meta :: "kobject \<Rightarrow> TypeMeta" where
  "type_meta (KPod x) = TypeMeta x"
| "type_meta (KPersistentVolumeClaim x) = TypeMeta x"
| "type_meta (KNamespace x) = TypeMeta x"
| "type_meta (KServiceAccount x) = TypeMeta x"
| "type_meta (KReplicaSet x) = TypeMeta x"
| "type_meta (KStatefulSet x) = TypeMeta x"
| "type_meta (KDeployment x) = TypeMeta x"
| "type_meta (KClusterRole x) = TypeMeta x"
| "type_meta (KControllerRevision x) = TypeMeta x"

fun set_type_meta :: "kobject \<Rightarrow> TypeMeta \<Rightarrow> kobject" where
  "set_type_meta (KPod x) tm = KPod (x\<lparr>TypeMeta := tm\<rparr>)"
| "set_type_meta (KPersistentVolumeClaim x) tm = KPersistentVolumeClaim (x\<lparr>TypeMeta := tm\<rparr>)"
| "set_type_meta (KNamespace x) tm = KNamespace (x\<lparr>TypeMeta := tm\<rparr>)"
| "set_type_meta (KServiceAccount x) tm = KServiceAccount (x\<lparr>TypeMeta := tm\<rparr>)"
| "set_type_meta (KReplicaSet x) tm = KReplicaSet (x\<lparr>TypeMeta := tm\<rparr>)"
| "set_type_meta (KStatefulSet x) tm = KStatefulSet (x\<lparr>TypeMeta := tm\<rparr>)"
| "set_type_meta (KDeployment x) tm = KDeployment (x\<lparr>TypeMeta := tm\<rparr>)"
| "set_type_meta (KClusterRole x) tm = KClusterRole (x\<lparr>TypeMeta := tm\<rparr>)"
| "set_type_meta (KControllerRevision x) tm = KControllerRevision (x\<lparr>TypeMeta := tm\<rparr>)"

lemma metadata_set_type_meta [simp]: "metadata (set_type_meta ob tm) = metadata ob"
  by (cases ob) simp_all

section \<open>Applying a patch\<close>

definition upstream :: "string + 'a \<Rightarrow> error + 'a" where
  "upstream = map_sum UpstreamError id"

definition merge_failed :: "codec \<Rightarrow> merge_error \<Rightarrow> error" where
  "merge_failed C e =
     (if e = ErrNoListOfLists \<or> e = ErrPatchContentNotMatchRetainKeys
      then UnprocessableEntity (merge_message C e) else BadRequest (merge_message C e) [])"

definition patched_bytes :: "codec \<Rightarrow> kobject \<Rightarrow> string \<Rightarrow> string \<Rightarrow> string \<Rightarrow> error + string" where
  "patched_bytes C existing patchType data original =
     (if patchType = JSONPatchType then
        (case DecodePatch C data of
           Inl e \<Rightarrow> Inl (BadRequest e [])
         | Inr patch \<Rightarrow>
             if 10000 < length patch then Inl (RequestEntityTooLarge ''too many JSON patch operations'')
             else (case ApplyPatch C patch original of
                     Inl e \<Rightarrow> Inl (UnprocessableEntity e)
                   | Inr patched \<Rightarrow> Inr patched))
      else if patchType = MergePatchType then map_sum (merge_failed C) id (MergePatch C original data)
      else map_sum (merge_failed C) id (StrategicMergePatch C original data existing))"

definition applyPatchToObject :: "codec \<Rightarrow> kobject \<Rightarrow> string \<Rightarrow> string \<Rightarrow> string \<Rightarrow> error + kobject" where
  "applyPatchToObject C existing patchType data name =
     ebind (upstream (ObjectKinds C existing)) (\<lambda>gvks.
     if length gvks \<noteq> 1 then Inl (Errorf ''expected one registered GVK for %T, got %v'' gvks)
     else
     ebind (upstream (Encode C (hd gvks) existing)) (\<lambda>original.
     ebind (patched_bytes C existing patchType data original) (\<lambda>patched.
     ebind (upstream (Scheme_New C (hd gvks))) (\<lambda>ob.
     case (if patchType = StrategicMergePatchType then Unmarshal C patched ob
           else DecodeInto C (hd gvks) patched ob) of
       Inl e \<Rightarrow> Inl (Invalid [] name [''patch'', patched, e])
     | Inr decoded \<Rightarrow> Inr (set_type_meta decoded (copy_gvk C (type_meta existing)))))))"

section \<open>Patch\<close>

definition is_status :: "string list \<Rightarrow> bool" where
  "is_status subresources \<longleftrightarrow> length subresources = 1 \<and> hd subresources = ''status''"

text \<open>The checks before the write, up to the object to store.\<close>

definition patch_object ::
  "env \<Rightarrow> codec \<Rightarrow> string \<Rightarrow> string \<Rightarrow> string \<Rightarrow> string \<Rightarrow> string \<Rightarrow> string list \<Rightarrow> State \<Rightarrow> error + kobject" where
  "patch_object E C kind namespace name patchType data subresources s =
     (if patchType \<noteq> JSONPatchType \<and> patchType \<noteq> MergePatchType \<and> patchType \<noteq> StrategicMergePatchType
      then Inl (UnsupportedMediaType kind name)
      else if subresources \<noteq> [] \<and> \<not> is_status subresources then Inl (NotFound kind name)
      else
      case st_m s (KKey kind name namespace) of
        None \<Rightarrow> Inl (NotFound kind name)
      | Some existing \<Rightarrow>
          ebind (if is_status subresources
                 then ebind (convertVersionedToLegacy E existing) (\<lambda>l.
                        case statusUpdateStrategyForLegacyObject l of
                          Inl _ \<Rightarrow> Inl (NotFound kind name) | Inr _ \<Rightarrow> Inr ())
                 else Inr ()) (\<lambda>_.
          ebind (applyPatchToObject C existing patchType data name) (\<lambda>ob.
          if Name (metadata ob) \<noteq> name
          then Inl (BadRequest ''the name of the object (%s) does not match the name on the URL (%s)''
                 [Name (metadata ob), name])
          else Inr ob)))"

definition patch ::
  "env \<Rightarrow> codec \<Rightarrow> choices \<Rightarrow> string \<Rightarrow> string \<Rightarrow> string \<Rightarrow> string \<Rightarrow> string \<Rightarrow> string list \<Rightarrow> State \<Rightarrow> kobject call" where
  "patch E C ch kind namespace name patchType data subresources s =
     (case patch_object E C kind namespace name patchType data subresources s of
        Inl e \<Rightarrow> Some (Inl e, s)
      | Inr ob \<Rightarrow>
          if is_status subresources then updateStatusLocked E ch kind namespace ob False s
          else updateLocked E ch kind namespace ob False s)"

section \<open>Patch keeps the contract of the API\<close>

lemma patch_wf:
  assumes "upstream_laws E" "wf_state s"
    and "patch E C ch kind namespace name patchType data subresources s = Some (r, s')"
  shows "wf_state s' \<and> evolves s s'"
  using assms updateLocked_wf [OF assms(1,2)] updateStatusLocked_wf [OF assms(1,2)]
  by (auto simp: patch_def split: sum.splits if_splits)

type_synonym patch_params =
  "env \<times> codec \<times> choices \<times> string \<times> string \<times> string \<times> string \<times> string \<times> string list"

fun patch_request :: "patch_params \<Rightarrow> State \<Rightarrow> kobject call" where
  "patch_request (E, C, ch, kind, namespace, name, patchType, data, subresources) s =
     patch E C ch kind namespace name patchType data subresources s"

interpretation patch_op: api_operation patch_request "\<lambda>(E, _). upstream_laws E"
  by unfold_locales (auto dest: patch_wf)

context update_pipeline
begin

lemma update_with_updates:
  assumes laws: "upstream_laws E" and wf: "wf_state s"
    and ns: "EnsureObjectNamespaceMatchesRequestNamespace E namespace (metadata ob) = Inr md"
    and call: "update_with (pipe E) msg E ch kind namespace ob uidPre s = Some (Inr ob', s')"
  shows "\<exists>existing. st_m s (KKey kind (Name md) namespace) = Some existing \<and>
    UID (metadata ob') = UID (metadata existing) \<and>
    updated_as (KKey kind (Name md) namespace) existing ob' s s'"
proof (cases "update_checks (pipe E) msg E kind namespace ob uidPre s")
  case (Inl e)
  with call show ?thesis by (simp add: update_with_def)
next
  case (Inr t)
  obtain key updated existing where t: "t = (key, updated, existing)" by (cases t)
  from call Inr t have "update_commit ch key updated existing s = Some (Inr ob', s')"
    by (simp add: update_with_def)
  then obtain "updated_as key existing ob' s s'" "UID (metadata ob') = UID (metadata existing)"
    using checks_identity [OF laws wf Inr [unfolded t]] by (elim update_commit_as) auto
  moreover have "key = KKey kind (Name md) namespace" "st_m s key = Some existing"
    using checks_passed [OF Inr [unfolded t]] ns by (metis Inr_inject)+
  ultimately show ?thesis by blast
qed

end

lemma update_checks_no_uid:
  "update_checks pipe msg E kind namespace ob True s = Inr t \<Longrightarrow>
    update_checks pipe msg E kind namespace ob False s = Inr t"
  by (auto simp: update_checks_def Let_def ebind_def split: sum.splits option.splits if_splits)

lemma update_without_precondition:
  "updateLocked E ch kind namespace ob True s = Some (Inr r, s') \<Longrightarrow>
    updateLocked E ch kind namespace ob False s = Some (Inr r, s')"
  by (auto simp: updateLocked_def update_with_def update_checks_no_uid split: sum.splits)

section \<open>An example\<close>

definition example_codec :: codec where
  "example_codec = \<lparr>ObjectKinds = (\<lambda>ob. Inr [kind_of ob]), Encode = (\<lambda>_ _. Inr ''{}''),
     DecodePatch = (\<lambda>_. Inl ''invalid patch''), ApplyPatch = (\<lambda>_ _. Inl ''invalid patch''),
     MergePatch = (\<lambda>_ d. Inr d), StrategicMergePatch = (\<lambda>_ d _. Inr d), merge_message = (\<lambda>_. ''merge''),
     Scheme_New = (\<lambda>_. Inr (KPod (example_pod (example_meta [] [])))), Unmarshal = (\<lambda>_ _. Inl ''no object''),
     DecodeInto = (\<lambda>_ _ _. Inr (client_pod stored_meta)), copy_gvk = id\<rparr>"

lemma example_patch_eq:
  "patch example_env example_codec example_choices ''Pod'' ''default'' ''p'' MergePatchType ''{}'' [] example_state =
     Some (Inr (example_updated ''0''), example_state\<lparr>usedRV := {''0'', ''7''},
       st_m := (st_m example_state)(stored_key \<mapsto> example_updated ''0'')\<rparr>)"
proof -
  have tm: "TypeMeta (example_pod md) = empty_TypeMeta"
    "example_pod md\<lparr>TypeMeta := empty_TypeMeta\<rparr> = example_pod md" for md
    by (simp_all add: example_pod_def)
  have "patch_object example_env example_codec ''Pod'' ''default'' ''p'' MergePatchType ''{}'' [] example_state =
      Inr (client_pod stored_meta)"
    by (simp add: patch_object_def is_status_def example_state_simps stored_key_def applyPatchToObject_def
        upstream_def patched_bytes_def example_codec_def patch_types tm client_pod_def example_meta_simps
        stored_meta_simps)
  moreover have "updateLocked example_env example_choices ''Pod'' ''default'' (client_pod stored_meta) False example_state =
      Some (Inr (example_updated ''0''), example_state\<lparr>usedRV := {''0'', ''7''},
       st_m := (st_m example_state)(stored_key \<mapsto> example_updated ''0'')\<rparr>)"
    by (rule update_without_precondition [OF example_update_eq [unfolded update_def]])
  ultimately show ?thesis by (simp add: patch_def is_status_def)
qed

section \<open>Properties\<close>

text \<open>C33: A successful patch changed exactly the object it addresses: the object was stored under
  the name of the request, keeps its UID whatever the patch says, and its key is removed (when the
  patch finishes a pending deletion), left alone (when it changes nothing) or holds the returned
  object under a resource version never used before.\<close>

theorem patch_success:
  assumes "upstream_laws E" "wf_state s"
    and "patch E C ch kind namespace name patchType data subresources s = Some (Inr ob', s')"
  shows "\<exists>existing. st_m s (KKey kind name namespace) = Some existing \<and>
    UID (metadata ob') = UID (metadata existing) \<and>
    updated_as (KKey kind name namespace) existing ob' s s'"
proof -
  from assms(3) obtain ob where ob: "patch_object E C kind namespace name patchType data subresources s = Inr ob"
    by (auto simp: patch_def split: sum.splits)
  then have name: "Name (metadata ob) = name"
    by (auto simp: patch_object_def ebind_Inr_iff split: option.splits if_splits)
  have "\<exists>md. EnsureObjectNamespaceMatchesRequestNamespace E namespace (metadata ob) = Inr md"
    using assms(3) ob by (auto simp: patch_def updateLocked_def updateStatusLocked_def update_with_def
        update_checks_def Let_def ebind_def split: sum.splits if_splits)
  then obtain md where md: "EnsureObjectNamespaceMatchesRequestNamespace E namespace (metadata ob) = Inr md" ..
  have "Name md = name" using ensure_namespaceD [OF assms(1) md] name by simp
  then show ?thesis
    using assms(3) ob put.update_with_updates [OF assms(1,2) md] put_status.update_with_updates [OF assms(1,2) md]
    by (fastforce simp: patch_def updateLocked_def updateStatusLocked_def split: if_splits)
qed

theorem patch_success_witness:
  "\<exists>existing. st_m example_state (KKey ''Pod'' ''p'' ''default'') = Some existing \<and>
    UID (metadata (example_updated ''0'')) = UID (metadata existing) \<and>
    updated_as (KKey ''Pod'' ''p'' ''default'') existing (example_updated ''0'') example_state
      (example_state\<lparr>usedRV := {''0'', ''7''}, st_m := (st_m example_state)(stored_key \<mapsto> example_updated ''0'')\<rparr>)"
  by (rule patch_success [OF example_env_laws example_state_wf example_patch_eq])

text \<open>A patch that fails changes nothing.\<close>

theorem patch_error:
  assumes "patch E C ch kind namespace name patchType data subresources s = Some (Inl e, s')"
  shows "s' = s"
  using assms
  by (auto simp: patch_def updateLocked_def updateStatusLocked_def update_with_def update_commit_def
      store_object_def Let_def split: sum.splits if_splits option.splits)

text \<open>The requests a patch refuses before it looks at the data, and how: an unknown patch type,
  an unknown subresource, a missing object, and the status of a kind that has none.\<close>

theorem patch_refusals:
  "(patchType \<notin> {JSONPatchType, MergePatchType, StrategicMergePatchType} \<longrightarrow>
      patch E C ch kind namespace name patchType data subresources s =
        Some (Inl (UnsupportedMediaType kind name), s)) \<and>
   (patchType \<in> {JSONPatchType, MergePatchType, StrategicMergePatchType} \<and>
      (subresources \<noteq> [] \<and> subresources \<noteq> [''status''] \<or> st_m s (KKey kind name namespace) = None) \<longrightarrow>
      patch E C ch kind namespace name patchType data subresources s = Some (Inl (NotFound kind name), s)) \<and>
   (patchType \<in> {JSONPatchType, MergePatchType, StrategicMergePatchType} \<and>
      st_m s (KKey kind name namespace) = Some existing \<and> convertVersionedToLegacy E existing = Inr l \<and>
      legacy_kind l \<in> {''ServiceAccount'', ''ClusterRole'', ''ControllerRevision''} \<longrightarrow>
      patch E C ch kind namespace name patchType data [''status''] s = Some (Inl (NotFound kind name), s))"
proof -
  have status: "is_status subresources \<longleftrightarrow> subresources = [''status'']"
    by (cases subresources rule: remdups_adj.cases) (auto simp: is_status_def)
  have "\<exists>e. statusUpdateStrategyForLegacyObject l = Inl e"
    if "legacy_kind l \<in> {''ServiceAccount'', ''ClusterRole'', ''ControllerRevision''}"
    using that by (cases l) auto
  then show ?thesis
    by (auto simp: patch_def patch_object_def status)
qed

text \<open>A text that is no patch type, on the example state.\<close>

theorem patch_refusals_witness:
  "patch example_env example_codec example_choices ''Pod'' ''default'' ''p'' ''text/plain'' ''{}'' [] example_state =
     Some (Inl (UnsupportedMediaType ''Pod'' ''p''), example_state)"
  using patch_refusals [of "''text/plain''" example_env example_codec example_choices "''Pod''" "''default''" "''p''"
      "''{}''" "[]" example_state "client_pod stored_meta" "LPod (example_pod stored_meta)"]
  by (simp add: patch_types)

theorem patch_error_witness:
  "\<exists>e s'. patch example_env example_codec example_choices ''Pod'' ''default'' ''q'' MergePatchType ''{}'' [] example_state =
     Some (Inl e, s') \<and> s' = example_state"
proof -
  have "patch example_env example_codec example_choices ''Pod'' ''default'' ''q'' MergePatchType ''{}'' [] example_state =
      Some (Inl (NotFound ''Pod'' ''q''), example_state)"
    by (simp add: patch_def patch_object_def patch_types is_status_def example_state_simps stored_key_def)
  with patch_error [OF this] show ?thesis by blast
qed

end
