(* ===== verification/Api_Resources.thy ===== *)
theory Api_Resources
  imports Api_Tx Api_Patch
begin

text \<open>
  The typed operations of the API model: src/kubernetes_model/apimodel/api_model.go from
  \<open>PodGet\<close> on, and the typed transactions and patches of transaction.go and patch.go. Each
  fixes the kind string, calls the untyped operation and asserts the Go type of the result.

  The interface \<open>resource\<close> says what a kind string, a Go type and the assertion have to do
  with each other; under it a type assertion cannot fail on a well-formed state.
\<close>

section \<open>Type assertions\<close>

fun to_Pod :: "kobject \<Rightarrow> Pod option" where
  "to_Pod (KPod x) = Some x"
| "to_Pod _ = None"

fun to_ReplicaSet :: "kobject \<Rightarrow> ReplicaSet option" where
  "to_ReplicaSet (KReplicaSet x) = Some x"
| "to_ReplicaSet _ = None"

fun to_PersistentVolumeClaim :: "kobject \<Rightarrow> PersistentVolumeClaim option" where
  "to_PersistentVolumeClaim (KPersistentVolumeClaim x) = Some x"
| "to_PersistentVolumeClaim _ = None"

fun to_StatefulSet :: "kobject \<Rightarrow> StatefulSet option" where
  "to_StatefulSet (KStatefulSet x) = Some x"
| "to_StatefulSet _ = None"

fun to_Deployment :: "kobject \<Rightarrow> Deployment option" where
  "to_Deployment (KDeployment x) = Some x"
| "to_Deployment _ = None"

fun to_Namespace :: "kobject \<Rightarrow> NamespaceObj option" where
  "to_Namespace (KNamespace x) = Some x"
| "to_Namespace _ = None"

fun to_ServiceAccount :: "kobject \<Rightarrow> ServiceAccount option" where
  "to_ServiceAccount (KServiceAccount x) = Some x"
| "to_ServiceAccount _ = None"

fun to_ClusterRole :: "kobject \<Rightarrow> ClusterRole option" where
  "to_ClusterRole (KClusterRole x) = Some x"
| "to_ClusterRole _ = None"

fun to_ControllerRevision :: "kobject \<Rightarrow> ControllerRevision option" where
  "to_ControllerRevision (KControllerRevision x) = Some x"
| "to_ControllerRevision _ = None"

text \<open>\<open>x, ok := obj.(T); if !ok { return nil, fmt.Errorf(msg, ...) }\<close>\<close>

definition assert_type :: "(kobject \<Rightarrow> 'a option) \<Rightarrow> string \<Rightarrow> string list \<Rightarrow> kobject \<Rightarrow> error + 'a" where
  "assert_type as msg args ob = (case as ob of Some x \<Rightarrow> Inr x | None \<Rightarrow> Inl (Errorf msg args))"

fun assert_types :: "(kobject \<Rightarrow> 'a option) \<Rightarrow> string \<Rightarrow> kobject list \<Rightarrow> error + 'a list" where
  "assert_types as msg [] = Inr []"
| "assert_types as msg (ob # obs) =
     ebind (assert_type as msg [] ob) (\<lambda>x. ebind (assert_types as msg obs) (\<lambda>xs. Inr (x # xs)))"

text \<open>The same on the result of a call that has already changed the state.\<close>

definition assert_call :: "(kobject \<Rightarrow> 'a option) \<Rightarrow> string \<Rightarrow> kobject call \<Rightarrow> 'a call" where
  "assert_call as msg = map_option (\<lambda>(r, s). (ebind r (\<lambda>ob. assert_type as msg [kind_of ob] ob), s))"

section \<open>The interface of a resource\<close>

locale resource =
  fixes kind :: string and inject :: "'a \<Rightarrow> kobject" and project :: "kobject \<Rightarrow> 'a option"
  assumes project_inject: "project ob = Some x \<longleftrightarrow> ob = inject x"
    and project_kind: "kind_of ob = kind \<Longrightarrow> project ob \<noteq> None"
    and kind_inject: "kind_of (inject x) = kind"
begin

lemma assert_inject [simp]: "assert_type project msg args (inject x) = Inr x"
  using project_inject [of "inject x" x] by (simp add: assert_type_def)

lemma of_kind: "kind_of ob = kind \<Longrightarrow> \<exists>x. ob = inject x"
  using project_kind [of ob] project_inject [of ob] by auto

lemma inject_inject [simp]: "inject x = inject y \<longleftrightarrow> x = y"
  using project_inject [of "inject x" x] project_inject [of "inject x" y] by auto

lemma get_iff:
  assumes "wf_state s"
  shows "ebind (api_get s (KKey kind name namespace)) (assert_type project msg args) = Inr x \<longleftrightarrow>
      st_m s (KKey kind name namespace) = Some (inject x)"
    and "ebind (api_get s (KKey kind name namespace)) (assert_type project msg args) = Inl e \<longleftrightarrow>
      st_m s (KKey kind name namespace) = None \<and> e = NotFound kind name"
proof -
  have "\<exists>x. ob = inject x" if "st_m s (KKey kind name namespace) = Some ob" for ob
    using wf_state_kind [OF assms that] by (intro of_kind) simp
  then show "ebind (api_get s (KKey kind name namespace)) (assert_type project msg args) = Inr x \<longleftrightarrow>
      st_m s (KKey kind name namespace) = Some (inject x)"
    "ebind (api_get s (KKey kind name namespace)) (assert_type project msg args) = Inl e \<longleftrightarrow>
      st_m s (KKey kind name namespace) = None \<and> e = NotFound kind name"
    by (cases "st_m s (KKey kind name namespace)"; force simp: api_get_def)+
qed

lemma assert_types_ok:
  "\<forall>ob \<in> set obs. kind_of ob = kind \<Longrightarrow> \<exists>xs. assert_types project msg obs = Inr xs \<and> map inject xs = obs"
proof (induction obs)
  case (Cons ob obs)
  then obtain x xs where "ob = inject x" "assert_types project msg obs = Inr xs" "map inject xs = obs"
    using of_kind [of ob] by fastforce
  then show ?case by simp
qed simp

lemma list_ok:
  assumes "range_ok ch" "wf_state s"
  shows "\<exists>xs. ebind (objListBySelector ch s kind namespace selector) (assert_types project msg) = Inr xs \<and>
    inject ` set xs = {ob. \<exists>key. st_m s key = Some ob \<and> key_Kind key = kind \<and>
      (namespace = NamespaceAll \<or> key_Namespace key = namespace) \<and> selector (Labels (metadata ob))}"
proof -
  let ?obs = "filter (\<lambda>val. selector (Labels (metadata val))) (objListLocked ch s kind namespace)"
  have set: "set ?obs = {ob. \<exists>key. st_m s key = Some ob \<and> key_Kind key = kind \<and>
      (namespace = NamespaceAll \<or> key_Namespace key = namespace) \<and> selector (Labels (metadata ob))}"
    using set_objListLocked [OF assms(1) wf_state_finite [OF assms(2)]] by auto
  have "\<forall>ob \<in> set ?obs. kind_of ob = kind"
    using wf_state_kind [OF assms(2)] unfolding set by auto
  from assert_types_ok [OF this] obtain xs where "assert_types project msg ?obs = Inr xs" "map inject xs = ?obs"
    by blast
  moreover from this(2) have "inject ` set xs = set ?obs" by (metis set_map)
  ultimately show ?thesis using set
    by (auto simp: objListBySelector_def objList_def filterByLabelSelector_def)
qed

text \<open>When the call returns an object of the kind, the assertion adds no error.\<close>

lemma call_ok:
  assumes "\<And>ob s'. c = Some (Inr ob, s') \<Longrightarrow> kind_of ob = kind"
  shows "assert_call project msg c = map_option (\<lambda>(r, s). (map_sum id (\<lambda>ob. the (project ob)) r, s)) c"
proof (cases c)
  case (Some p)
  obtain r s' where p: "p = (r, s')" by (cases p)
  show ?thesis
  proof (cases r)
    case (Inr ob)
    then obtain x where "ob = inject x" using assms Some p of_kind by blast
    then show ?thesis using Some p Inr project_inject [of ob x] by (simp add: assert_call_def)
  qed (use Some p in \<open>simp add: assert_call_def\<close>)
qed (simp add: assert_call_def)

end

interpretation pods: resource "''Pod''" KPod to_Pod
proof
  fix ob x show "to_Pod ob = Some x \<longleftrightarrow> ob = KPod x" by (cases ob) auto
  show "kind_of ob = ''Pod'' \<Longrightarrow> to_Pod ob \<noteq> None" by (cases ob) auto
qed simp

interpretation replicasets: resource "''ReplicaSet''" KReplicaSet to_ReplicaSet
proof
  fix ob x show "to_ReplicaSet ob = Some x \<longleftrightarrow> ob = KReplicaSet x" by (cases ob) auto
  show "kind_of ob = ''ReplicaSet'' \<Longrightarrow> to_ReplicaSet ob \<noteq> None" by (cases ob) auto
qed simp

interpretation claims: resource "''PersistentVolumeClaim''" KPersistentVolumeClaim to_PersistentVolumeClaim
proof
  fix ob x show "to_PersistentVolumeClaim ob = Some x \<longleftrightarrow> ob = KPersistentVolumeClaim x" by (cases ob) auto
  show "kind_of ob = ''PersistentVolumeClaim'' \<Longrightarrow> to_PersistentVolumeClaim ob \<noteq> None" by (cases ob) auto
qed simp

interpretation statefulsets: resource "''StatefulSet''" KStatefulSet to_StatefulSet
proof
  fix ob x show "to_StatefulSet ob = Some x \<longleftrightarrow> ob = KStatefulSet x" by (cases ob) auto
  show "kind_of ob = ''StatefulSet'' \<Longrightarrow> to_StatefulSet ob \<noteq> None" by (cases ob) auto
qed simp

interpretation deployments: resource "''Deployment''" KDeployment to_Deployment
proof
  fix ob x show "to_Deployment ob = Some x \<longleftrightarrow> ob = KDeployment x" by (cases ob) auto
  show "kind_of ob = ''Deployment'' \<Longrightarrow> to_Deployment ob \<noteq> None" by (cases ob) auto
qed simp

interpretation namespaces: resource "''Namespace''" KNamespace to_Namespace
proof
  fix ob x show "to_Namespace ob = Some x \<longleftrightarrow> ob = KNamespace x" by (cases ob) auto
  show "kind_of ob = ''Namespace'' \<Longrightarrow> to_Namespace ob \<noteq> None" by (cases ob) auto
qed simp

interpretation serviceaccounts: resource "''ServiceAccount''" KServiceAccount to_ServiceAccount
proof
  fix ob x show "to_ServiceAccount ob = Some x \<longleftrightarrow> ob = KServiceAccount x" by (cases ob) auto
  show "kind_of ob = ''ServiceAccount'' \<Longrightarrow> to_ServiceAccount ob \<noteq> None" by (cases ob) auto
qed simp

interpretation clusterroles: resource "''ClusterRole''" KClusterRole to_ClusterRole
proof
  fix ob x show "to_ClusterRole ob = Some x \<longleftrightarrow> ob = KClusterRole x" by (cases ob) auto
  show "kind_of ob = ''ClusterRole'' \<Longrightarrow> to_ClusterRole ob \<noteq> None" by (cases ob) auto
qed simp

interpretation revisions: resource "''ControllerRevision''" KControllerRevision to_ControllerRevision
proof
  fix ob x show "to_ControllerRevision ob = Some x \<longleftrightarrow> ob = KControllerRevision x" by (cases ob) auto
  show "kind_of ob = ''ControllerRevision'' \<Longrightarrow> to_ControllerRevision ob \<noteq> None" by (cases ob) auto
qed simp

section \<open>Reads\<close>

definition PodMutGet :: "State \<Rightarrow> string \<Rightarrow> string \<Rightarrow> error + Pod" where
  "PodMutGet s namespace name = ebind (api_get s (KKey ''Pod'' name namespace))
     (assert_type to_Pod ''state entry for pod %s/%s is not a *v1.Pod'' [namespace, name])"

definition PodGet :: "State \<Rightarrow> string \<Rightarrow> string \<Rightarrow> error + Pod" where
  "PodGet s namespace name = PodMutGet s namespace name"

definition PodMutList :: "choices \<Rightarrow> State \<Rightarrow> string \<Rightarrow> selector \<Rightarrow> error + Pod list" where
  "PodMutList ch s namespace selector = ebind (objListBySelector ch s ''Pod'' namespace selector)
     (assert_types to_Pod ''state entry is not a *v1.Pod'')"

definition PodList :: "choices \<Rightarrow> State \<Rightarrow> string \<Rightarrow> selector \<Rightarrow> error + Pod list" where
  "PodList ch s namespace selector = PodMutList ch s namespace selector"

definition ReplicaSetMutGet :: "State \<Rightarrow> string \<Rightarrow> string \<Rightarrow> error + ReplicaSet" where
  "ReplicaSetMutGet s namespace name = ebind (api_get s (KKey ''ReplicaSet'' name namespace))
     (assert_type to_ReplicaSet ''state entry for replicaset %s/%s is not a *v1.ReplicaSet'' [namespace, name])"

definition ReplicaSetGet :: "State \<Rightarrow> string \<Rightarrow> string \<Rightarrow> error + ReplicaSet" where
  "ReplicaSetGet s namespace name = ReplicaSetMutGet s namespace name"

definition ReplicaSetMutList :: "choices \<Rightarrow> State \<Rightarrow> string \<Rightarrow> selector \<Rightarrow> error + ReplicaSet list" where
  "ReplicaSetMutList ch s namespace selector = ebind (objListBySelector ch s ''ReplicaSet'' namespace selector)
     (assert_types to_ReplicaSet ''state entry is not a *v1.ReplicaSet'')"

definition ReplicaSetList :: "choices \<Rightarrow> State \<Rightarrow> string \<Rightarrow> selector \<Rightarrow> error + ReplicaSet list" where
  "ReplicaSetList ch s namespace selector = ReplicaSetMutList ch s namespace selector"

definition PersistentVolumeClaimMutGet :: "State \<Rightarrow> string \<Rightarrow> string \<Rightarrow> error + PersistentVolumeClaim" where
  "PersistentVolumeClaimMutGet s namespace name = ebind (api_get s (KKey ''PersistentVolumeClaim'' name namespace))
     (assert_type to_PersistentVolumeClaim ''state entry for persistentvolumeclaim %s/%s is not a *v1.PersistentVolumeClaim'' [namespace, name])"

definition PersistentVolumeClaimGet :: "State \<Rightarrow> string \<Rightarrow> string \<Rightarrow> error + PersistentVolumeClaim" where
  "PersistentVolumeClaimGet s namespace name = PersistentVolumeClaimMutGet s namespace name"

definition PersistentVolumeClaimMutList :: "choices \<Rightarrow> State \<Rightarrow> string \<Rightarrow> selector \<Rightarrow> error + PersistentVolumeClaim list" where
  "PersistentVolumeClaimMutList ch s namespace selector = ebind (objListBySelector ch s ''PersistentVolumeClaim'' namespace selector)
     (assert_types to_PersistentVolumeClaim ''state entry is not a *v1.PersistentVolumeClaim'')"

definition PersistentVolumeClaimList :: "choices \<Rightarrow> State \<Rightarrow> string \<Rightarrow> selector \<Rightarrow> error + PersistentVolumeClaim list" where
  "PersistentVolumeClaimList ch s namespace selector = PersistentVolumeClaimMutList ch s namespace selector"

definition StatefulSetMutGet :: "State \<Rightarrow> string \<Rightarrow> string \<Rightarrow> error + StatefulSet" where
  "StatefulSetMutGet s namespace name = ebind (api_get s (KKey ''StatefulSet'' name namespace))
     (assert_type to_StatefulSet ''state entry for statefulset %s/%s is not a *v1.StatefulSet'' [namespace, name])"

definition StatefulSetGet :: "State \<Rightarrow> string \<Rightarrow> string \<Rightarrow> error + StatefulSet" where
  "StatefulSetGet s namespace name = StatefulSetMutGet s namespace name"

definition StatefulSetMutList :: "choices \<Rightarrow> State \<Rightarrow> string \<Rightarrow> selector \<Rightarrow> error + StatefulSet list" where
  "StatefulSetMutList ch s namespace selector = ebind (objListBySelector ch s ''StatefulSet'' namespace selector)
     (assert_types to_StatefulSet ''state entry is not a *v1.StatefulSet'')"

definition StatefulSetList :: "choices \<Rightarrow> State \<Rightarrow> string \<Rightarrow> selector \<Rightarrow> error + StatefulSet list" where
  "StatefulSetList ch s namespace selector = StatefulSetMutList ch s namespace selector"

definition DeploymentMutGet :: "State \<Rightarrow> string \<Rightarrow> string \<Rightarrow> error + Deployment" where
  "DeploymentMutGet s namespace name = ebind (api_get s (KKey ''Deployment'' name namespace))
     (assert_type to_Deployment ''state entry for deployment %s/%s is not a *v1.Deployment'' [namespace, name])"

definition DeploymentGet :: "State \<Rightarrow> string \<Rightarrow> string \<Rightarrow> error + Deployment" where
  "DeploymentGet s namespace name = DeploymentMutGet s namespace name"

definition DeploymentMutList :: "choices \<Rightarrow> State \<Rightarrow> string \<Rightarrow> selector \<Rightarrow> error + Deployment list" where
  "DeploymentMutList ch s namespace selector = ebind (objListBySelector ch s ''Deployment'' namespace selector)
     (assert_types to_Deployment ''state entry is not a *v1.Deployment'')"

definition DeploymentList :: "choices \<Rightarrow> State \<Rightarrow> string \<Rightarrow> selector \<Rightarrow> error + Deployment list" where
  "DeploymentList ch s namespace selector = DeploymentMutList ch s namespace selector"

definition NamespaceGet :: "State \<Rightarrow> string \<Rightarrow> error + NamespaceObj" where
  "NamespaceGet s name = ebind (api_get s (KKey ''Namespace'' name []))
     (assert_type to_Namespace ''state entry for namespace %s is not a *v1.Namespace'' [name])"

definition ServiceAccountGet :: "State \<Rightarrow> string \<Rightarrow> string \<Rightarrow> error + ServiceAccount" where
  "ServiceAccountGet s namespace name = ebind (api_get s (KKey ''ServiceAccount'' name namespace))
     (assert_type to_ServiceAccount ''state entry for serviceaccount %s/%s is not a *v1.ServiceAccount'' [namespace, name])"

text \<open>The lookup error is replaced by a not-found error of another resource name.\<close>

definition ClusterRoleMutGet :: "State \<Rightarrow> string \<Rightarrow> error + ClusterRole" where
  "ClusterRoleMutGet s name =
     (case api_get s (KKey ''ClusterRole'' name NamespaceNone) of
        Inl _ \<Rightarrow> Inl (NotFound ''clusterrole'' name)
      | Inr ob \<Rightarrow> assert_type to_ClusterRole ''state entry for clusterrole %s is not a *v1.ClusterRole'' [name] ob)"

definition ClusterRoleGet :: "State \<Rightarrow> string \<Rightarrow> error + ClusterRole" where
  "ClusterRoleGet s name = ClusterRoleMutGet s name"

definition ClusterRoleMutList :: "choices \<Rightarrow> State \<Rightarrow> selector \<Rightarrow> error + ClusterRole list" where
  "ClusterRoleMutList ch s selector = ebind (objListBySelector ch s ''ClusterRole'' NamespaceAll selector)
     (assert_types to_ClusterRole ''state entry is not a *v1.ClusterRole'')"

definition ClusterRoleList :: "choices \<Rightarrow> State \<Rightarrow> selector \<Rightarrow> error + ClusterRole list" where
  "ClusterRoleList ch s selector = ClusterRoleMutList ch s selector"

definition ControllerRevisionMutGet :: "State \<Rightarrow> string \<Rightarrow> string \<Rightarrow> error + ControllerRevision" where
  "ControllerRevisionMutGet s namespace name = ebind (api_get s (KKey ''ControllerRevision'' name namespace))
     (assert_type to_ControllerRevision ''state entry for controllerrevision %s/%s is not a *v1.ControllerRevision'' [namespace, name])"

definition ControllerRevisionGet :: "State \<Rightarrow> string \<Rightarrow> string \<Rightarrow> error + ControllerRevision" where
  "ControllerRevisionGet s namespace name = ControllerRevisionMutGet s namespace name"

definition ControllerRevisionMutList :: "choices \<Rightarrow> State \<Rightarrow> string \<Rightarrow> selector \<Rightarrow> error + ControllerRevision list" where
  "ControllerRevisionMutList ch s namespace selector = ebind (objListBySelector ch s ''ControllerRevision'' namespace selector)
     (assert_types to_ControllerRevision ''state entry is not a *v1.ControllerRevision'')"

definition ControllerRevisionList :: "choices \<Rightarrow> State \<Rightarrow> string \<Rightarrow> selector \<Rightarrow> error + ControllerRevision list" where
  "ControllerRevisionList ch s namespace selector = ControllerRevisionMutList ch s namespace selector"

section \<open>Writes\<close>

definition PodCreate :: "env \<Rightarrow> choices \<Rightarrow> string \<Rightarrow> Pod \<Rightarrow> State \<Rightarrow> Pod call" where
  "PodCreate E ch namespace x s =
     assert_call to_Pod ''create returned unexpected type %T'' (create E ch ''Pod'' namespace (KPod x) s)"

definition PodUpdate :: "env \<Rightarrow> choices \<Rightarrow> string \<Rightarrow> Pod \<Rightarrow> State \<Rightarrow> Pod call" where
  "PodUpdate E ch namespace x s =
     assert_call to_Pod ''update returned unexpected type %T'' (update E ch ''Pod'' namespace (KPod x) s)"

definition PodUpdateStatus :: "env \<Rightarrow> choices \<Rightarrow> string \<Rightarrow> Pod \<Rightarrow> State \<Rightarrow> Pod call" where
  "PodUpdateStatus E ch namespace x s =
     assert_call to_Pod ''status update returned unexpected type %T'' (updateStatus E ch ''Pod'' namespace (KPod x) s)"

definition PodDelete :: "env \<Rightarrow> choices \<Rightarrow> string \<Rightarrow> string \<Rightarrow> DeleteOptions \<Rightarrow> State \<Rightarrow> unit call" where
  "PodDelete E ch namespace name options s = delete E ch (KKey ''Pod'' name namespace) options s"

definition ReplicaSetCreate :: "env \<Rightarrow> choices \<Rightarrow> string \<Rightarrow> ReplicaSet \<Rightarrow> State \<Rightarrow> ReplicaSet call" where
  "ReplicaSetCreate E ch namespace x s =
     assert_call to_ReplicaSet ''create returned unexpected type %T'' (create E ch ''ReplicaSet'' namespace (KReplicaSet x) s)"

definition ReplicaSetUpdate :: "env \<Rightarrow> choices \<Rightarrow> string \<Rightarrow> ReplicaSet \<Rightarrow> State \<Rightarrow> ReplicaSet call" where
  "ReplicaSetUpdate E ch namespace x s =
     assert_call to_ReplicaSet ''update returned unexpected type %T'' (update E ch ''ReplicaSet'' namespace (KReplicaSet x) s)"

definition ReplicaSetUpdateStatus :: "env \<Rightarrow> choices \<Rightarrow> string \<Rightarrow> ReplicaSet \<Rightarrow> State \<Rightarrow> ReplicaSet call" where
  "ReplicaSetUpdateStatus E ch namespace x s =
     assert_call to_ReplicaSet ''status update returned unexpected type %T'' (updateStatus E ch ''ReplicaSet'' namespace (KReplicaSet x) s)"

definition ReplicaSetDelete :: "env \<Rightarrow> choices \<Rightarrow> string \<Rightarrow> string \<Rightarrow> DeleteOptions \<Rightarrow> State \<Rightarrow> unit call" where
  "ReplicaSetDelete E ch namespace name options s = delete E ch (KKey ''ReplicaSet'' name namespace) options s"

definition PersistentVolumeClaimCreate :: "env \<Rightarrow> choices \<Rightarrow> string \<Rightarrow> PersistentVolumeClaim \<Rightarrow> State \<Rightarrow> PersistentVolumeClaim call" where
  "PersistentVolumeClaimCreate E ch namespace x s =
     assert_call to_PersistentVolumeClaim ''create returned unexpected type %T'' (create E ch ''PersistentVolumeClaim'' namespace (KPersistentVolumeClaim x) s)"

definition PersistentVolumeClaimUpdate :: "env \<Rightarrow> choices \<Rightarrow> string \<Rightarrow> PersistentVolumeClaim \<Rightarrow> State \<Rightarrow> PersistentVolumeClaim call" where
  "PersistentVolumeClaimUpdate E ch namespace x s =
     assert_call to_PersistentVolumeClaim ''update returned unexpected type %T'' (update E ch ''PersistentVolumeClaim'' namespace (KPersistentVolumeClaim x) s)"

definition PersistentVolumeClaimUpdateStatus :: "env \<Rightarrow> choices \<Rightarrow> string \<Rightarrow> PersistentVolumeClaim \<Rightarrow> State \<Rightarrow> PersistentVolumeClaim call" where
  "PersistentVolumeClaimUpdateStatus E ch namespace x s =
     assert_call to_PersistentVolumeClaim ''status update returned unexpected type %T'' (updateStatus E ch ''PersistentVolumeClaim'' namespace (KPersistentVolumeClaim x) s)"

definition PersistentVolumeClaimDelete :: "env \<Rightarrow> choices \<Rightarrow> string \<Rightarrow> string \<Rightarrow> DeleteOptions \<Rightarrow> State \<Rightarrow> unit call" where
  "PersistentVolumeClaimDelete E ch namespace name options s = delete E ch (KKey ''PersistentVolumeClaim'' name namespace) options s"

definition StatefulSetCreate :: "env \<Rightarrow> choices \<Rightarrow> string \<Rightarrow> StatefulSet \<Rightarrow> State \<Rightarrow> StatefulSet call" where
  "StatefulSetCreate E ch namespace x s =
     assert_call to_StatefulSet ''create returned unexpected type %T'' (create E ch ''StatefulSet'' namespace (KStatefulSet x) s)"

definition StatefulSetUpdate :: "env \<Rightarrow> choices \<Rightarrow> string \<Rightarrow> StatefulSet \<Rightarrow> State \<Rightarrow> StatefulSet call" where
  "StatefulSetUpdate E ch namespace x s =
     assert_call to_StatefulSet ''update returned unexpected type %T'' (update E ch ''StatefulSet'' namespace (KStatefulSet x) s)"

definition StatefulSetUpdateStatus :: "env \<Rightarrow> choices \<Rightarrow> string \<Rightarrow> StatefulSet \<Rightarrow> State \<Rightarrow> StatefulSet call" where
  "StatefulSetUpdateStatus E ch namespace x s =
     assert_call to_StatefulSet ''status update returned unexpected type %T'' (updateStatus E ch ''StatefulSet'' namespace (KStatefulSet x) s)"

definition StatefulSetDelete :: "env \<Rightarrow> choices \<Rightarrow> string \<Rightarrow> string \<Rightarrow> DeleteOptions \<Rightarrow> State \<Rightarrow> unit call" where
  "StatefulSetDelete E ch namespace name options s = delete E ch (KKey ''StatefulSet'' name namespace) options s"

definition DeploymentCreate :: "env \<Rightarrow> choices \<Rightarrow> string \<Rightarrow> Deployment \<Rightarrow> State \<Rightarrow> Deployment call" where
  "DeploymentCreate E ch namespace x s =
     assert_call to_Deployment ''create returned unexpected type %T'' (create E ch ''Deployment'' namespace (KDeployment x) s)"

definition DeploymentUpdate :: "env \<Rightarrow> choices \<Rightarrow> string \<Rightarrow> Deployment \<Rightarrow> State \<Rightarrow> Deployment call" where
  "DeploymentUpdate E ch namespace x s =
     assert_call to_Deployment ''update returned unexpected type %T'' (update E ch ''Deployment'' namespace (KDeployment x) s)"

definition DeploymentUpdateStatus :: "env \<Rightarrow> choices \<Rightarrow> string \<Rightarrow> Deployment \<Rightarrow> State \<Rightarrow> Deployment call" where
  "DeploymentUpdateStatus E ch namespace x s =
     assert_call to_Deployment ''status update returned unexpected type %T'' (updateStatus E ch ''Deployment'' namespace (KDeployment x) s)"

definition DeploymentDelete :: "env \<Rightarrow> choices \<Rightarrow> string \<Rightarrow> string \<Rightarrow> DeleteOptions \<Rightarrow> State \<Rightarrow> unit call" where
  "DeploymentDelete E ch namespace name options s = delete E ch (KKey ''Deployment'' name namespace) options s"

definition ServiceAccountCreate :: "env \<Rightarrow> choices \<Rightarrow> string \<Rightarrow> ServiceAccount \<Rightarrow> State \<Rightarrow> ServiceAccount call" where
  "ServiceAccountCreate E ch namespace x s =
     assert_call to_ServiceAccount ''create returned unexpected type %T'' (create E ch ''ServiceAccount'' namespace (KServiceAccount x) s)"

definition ClusterRoleCreate :: "env \<Rightarrow> choices \<Rightarrow> ClusterRole \<Rightarrow> State \<Rightarrow> ClusterRole call" where
  "ClusterRoleCreate E ch x s =
     assert_call to_ClusterRole ''create returned unexpected type %T'' (create E ch ''ClusterRole'' NamespaceNone (KClusterRole x) s)"

definition ClusterRoleUpdate :: "env \<Rightarrow> choices \<Rightarrow> ClusterRole \<Rightarrow> State \<Rightarrow> ClusterRole call" where
  "ClusterRoleUpdate E ch x s =
     assert_call to_ClusterRole ''update returned unexpected type %T'' (update E ch ''ClusterRole'' NamespaceNone (KClusterRole x) s)"

definition ControllerRevisionCreate :: "env \<Rightarrow> choices \<Rightarrow> string \<Rightarrow> ControllerRevision \<Rightarrow> State \<Rightarrow> ControllerRevision call" where
  "ControllerRevisionCreate E ch namespace x s =
     assert_call to_ControllerRevision ''create returned unexpected type %T'' (create E ch ''ControllerRevision'' namespace (KControllerRevision x) s)"

definition ControllerRevisionUpdate :: "env \<Rightarrow> choices \<Rightarrow> string \<Rightarrow> ControllerRevision \<Rightarrow> State \<Rightarrow> ControllerRevision call" where
  "ControllerRevisionUpdate E ch namespace x s =
     assert_call to_ControllerRevision ''update returned unexpected type %T'' (update E ch ''ControllerRevision'' namespace (KControllerRevision x) s)"

definition ControllerRevisionDelete :: "env \<Rightarrow> choices \<Rightarrow> string \<Rightarrow> string \<Rightarrow> DeleteOptions \<Rightarrow> State \<Rightarrow> unit call" where
  "ControllerRevisionDelete E ch namespace name options s = delete E ch (KKey ''ControllerRevision'' name namespace) options s"

section \<open>Transactions\<close>

definition PodUpdateTx :: "env \<Rightarrow> (nat \<Rightarrow> choices) \<Rightarrow> interference \<Rightarrow> string \<Rightarrow> Pod \<Rightarrow> State \<Rightarrow> Pod call" where
  "PodUpdateTx E chs others namespace x s =
     assert_call to_Pod ''transactional update returned unexpected type %T'' (updateTx E chs others ''Pod'' namespace (KPod x) s)"

definition ReplicaSetUpdateTx :: "env \<Rightarrow> (nat \<Rightarrow> choices) \<Rightarrow> interference \<Rightarrow> string \<Rightarrow> ReplicaSet \<Rightarrow> State \<Rightarrow> ReplicaSet call" where
  "ReplicaSetUpdateTx E chs others namespace x s =
     assert_call to_ReplicaSet ''transactional update returned unexpected type %T'' (updateTx E chs others ''ReplicaSet'' namespace (KReplicaSet x) s)"

definition ReplicaSetUpdateStatusTx :: "env \<Rightarrow> (nat \<Rightarrow> choices) \<Rightarrow> interference \<Rightarrow> string \<Rightarrow> ReplicaSet \<Rightarrow> State \<Rightarrow> ReplicaSet call" where
  "ReplicaSetUpdateStatusTx E chs others namespace x s =
     assert_call to_ReplicaSet ''transactional status update returned unexpected type %T'' (updateStatusTx E chs others ''ReplicaSet'' namespace (KReplicaSet x) s)"

definition ControllerRevisionUpdateTx :: "env \<Rightarrow> (nat \<Rightarrow> choices) \<Rightarrow> interference \<Rightarrow> string \<Rightarrow> ControllerRevision \<Rightarrow> State \<Rightarrow> ControllerRevision call" where
  "ControllerRevisionUpdateTx E chs others namespace x s =
     assert_call to_ControllerRevision ''transactional update returned unexpected type %T'' (updateTx E chs others ''ControllerRevision'' namespace (KControllerRevision x) s)"

definition StatefulSetUpdateStatusTx :: "env \<Rightarrow> (nat \<Rightarrow> choices) \<Rightarrow> interference \<Rightarrow> string \<Rightarrow> StatefulSet \<Rightarrow> State \<Rightarrow> StatefulSet call" where
  "StatefulSetUpdateStatusTx E chs others namespace x s =
     assert_call to_StatefulSet ''transactional status update returned unexpected type %T'' (updateStatusTx E chs others ''StatefulSet'' namespace (KStatefulSet x) s)"

definition ClusterRoleUpdateTx :: "env \<Rightarrow> (nat \<Rightarrow> choices) \<Rightarrow> interference \<Rightarrow> ClusterRole \<Rightarrow> State \<Rightarrow> ClusterRole call" where
  "ClusterRoleUpdateTx E chs others x s =
     assert_call to_ClusterRole ''transactional update returned unexpected type %T''
       (updateTx E chs others ''ClusterRole'' [] (KClusterRole x) s)"

section \<open>Patches\<close>

text \<open>Here the assertion is unchecked, \<open>obj.(T)\<close>: a wrong type would panic.\<close>

definition PodPatch ::
  "env \<Rightarrow> codec \<Rightarrow> choices \<Rightarrow> string \<Rightarrow> string \<Rightarrow> string \<Rightarrow> string \<Rightarrow> string list \<Rightarrow> State \<Rightarrow> Pod call" where
  "PodPatch E C ch namespace name patchType data subresources s =
     assert_call to_Pod ''panic: interface conversion''
       (patch E C ch ''Pod'' namespace name patchType data subresources s)"

definition PersistentVolumeClaimPatch ::
  "env \<Rightarrow> codec \<Rightarrow> choices \<Rightarrow> string \<Rightarrow> string \<Rightarrow> string \<Rightarrow> string \<Rightarrow> string list \<Rightarrow> State \<Rightarrow> PersistentVolumeClaim call" where
  "PersistentVolumeClaimPatch E C ch namespace name patchType data subresources s =
     assert_call to_PersistentVolumeClaim ''panic: interface conversion''
       (patch E C ch ''PersistentVolumeClaim'' namespace name patchType data subresources s)"

definition ReplicaSetPatch ::
  "env \<Rightarrow> codec \<Rightarrow> choices \<Rightarrow> string \<Rightarrow> string \<Rightarrow> string \<Rightarrow> string \<Rightarrow> string list \<Rightarrow> State \<Rightarrow> ReplicaSet call" where
  "ReplicaSetPatch E C ch namespace name patchType data subresources s =
     assert_call to_ReplicaSet ''panic: interface conversion''
       (patch E C ch ''ReplicaSet'' namespace name patchType data subresources s)"

definition StatefulSetPatch ::
  "env \<Rightarrow> codec \<Rightarrow> choices \<Rightarrow> string \<Rightarrow> string \<Rightarrow> string \<Rightarrow> string \<Rightarrow> string list \<Rightarrow> State \<Rightarrow> StatefulSet call" where
  "StatefulSetPatch E C ch namespace name patchType data subresources s =
     assert_call to_StatefulSet ''panic: interface conversion''
       (patch E C ch ''StatefulSet'' namespace name patchType data subresources s)"

definition DeploymentPatch ::
  "env \<Rightarrow> codec \<Rightarrow> choices \<Rightarrow> string \<Rightarrow> string \<Rightarrow> string \<Rightarrow> string \<Rightarrow> string list \<Rightarrow> State \<Rightarrow> Deployment call" where
  "DeploymentPatch E C ch namespace name patchType data subresources s =
     assert_call to_Deployment ''panic: interface conversion''
       (patch E C ch ''Deployment'' namespace name patchType data subresources s)"

definition ServiceAccountPatch ::
  "env \<Rightarrow> codec \<Rightarrow> choices \<Rightarrow> string \<Rightarrow> string \<Rightarrow> string \<Rightarrow> string \<Rightarrow> string list \<Rightarrow> State \<Rightarrow> ServiceAccount call" where
  "ServiceAccountPatch E C ch namespace name patchType data subresources s =
     assert_call to_ServiceAccount ''panic: interface conversion''
       (patch E C ch ''ServiceAccount'' namespace name patchType data subresources s)"

definition ControllerRevisionPatch ::
  "env \<Rightarrow> codec \<Rightarrow> choices \<Rightarrow> string \<Rightarrow> string \<Rightarrow> string \<Rightarrow> string \<Rightarrow> string list \<Rightarrow> State \<Rightarrow> ControllerRevision call" where
  "ControllerRevisionPatch E C ch namespace name patchType data subresources s =
     assert_call to_ControllerRevision ''panic: interface conversion''
       (patch E C ch ''ControllerRevision'' namespace name patchType data subresources s)"

definition ClusterRolePatch ::
  "env \<Rightarrow> codec \<Rightarrow> choices \<Rightarrow> string \<Rightarrow> string \<Rightarrow> string \<Rightarrow> string list \<Rightarrow> State \<Rightarrow> ClusterRole call" where
  "ClusterRolePatch E C ch name patchType data subresources s =
     assert_call to_ClusterRole ''panic: interface conversion''
       (patch E C ch ''ClusterRole'' [] name patchType data subresources s)"

section \<open>The type of a result\<close>

context update_pipeline
begin

lemma update_with_kind:
  assumes "wf_state s" "update_with (pipe E) msg E ch kind namespace ob uidPre s = Some (Inr ob', s')"
  shows "kind_of ob' = kind"
proof (cases "update_checks (pipe E) msg E kind namespace ob uidPre s")
  case (Inl e)
  with assms(2) show ?thesis by (simp add: update_with_def)
next
  case (Inr t)
  obtain key updated existing where t: "t = (key, updated, existing)" by (cases t)
  from Inr [unfolded t] obtain md rv where key: "key = KKey kind (Name md) namespace" "st_m s key = Some existing"
    and pipe: "pipe E (set_metadata ob (md\<lparr>ResourceVersion := rv\<rparr>)) existing namespace = Inr updated"
    by (rule checks_passed)
  have kinds: "kind_of updated = kind" "kind_of existing = kind"
    using pipe_kind [OF pipe] wf_state_kind [OF assms(1) key(2)] key(1) by simp_all
  from assms(2) Inr t have "update_commit ch key updated existing s = Some (Inr ob', s')"
    by (simp add: update_with_def)
  then show ?thesis using kinds
    by (auto simp: update_commit_def store_object_def Let_def split: if_splits option.splits)
qed

end

lemma create_kind:
  assumes "create E ch kind namespace ob s = Some (Inr ob', s')" "kind_of ob = kind"
  shows "kind_of ob' = kind"
  using assms(1)
proof (cases rule: create_outcomes)
  case (stored md uid s1 name objCopy ob2)
  from stored(6) obtain ob1 where pipe: "applyValidationAndDefaulting E objCopy name = Inr ob1"
    and "store_object ch (KKey kind name namespace) ob1 s1 = Some (Inr ob2, s')"
    by (rule create_named_stored)
  with create_pipeline_keeps(1) [OF pipe] stored(3,5) assms(2) show ?thesis
    by (auto elim!: store_object_Some)
qed simp_all

lemma update_kind:
  "wf_state s \<Longrightarrow> update E ch kind namespace ob s = Some (Inr ob', s') \<Longrightarrow> kind_of ob' = kind"
  "wf_state s \<Longrightarrow> updateStatus E ch kind namespace ob s = Some (Inr ob', s') \<Longrightarrow> kind_of ob' = kind"
  "wf_state s \<Longrightarrow> patch E C ch kind namespace name patchType data subresources s = Some (Inr ob', s') \<Longrightarrow>
    kind_of ob' = kind"
  by (auto simp: update_def updateLocked_def updateStatus_def updateStatusLocked_def patch_def
      dest: put.update_with_kind put_status.update_with_kind split: sum.splits if_splits)

section \<open>Properties\<close>

text \<open>The result of a call with its object read at its Go type, errors untouched.\<close>

definition typed_result :: "(kobject \<Rightarrow> 'a option) \<Rightarrow> kobject call \<Rightarrow> 'a call" where
  "typed_result project c = map_option (\<lambda>(r, s). (map_sum id (\<lambda>ob. the (project ob)) r, s)) c"

text \<open>On a well-formed state a typed read returns exactly the stored object of its kind, or a
  not-found error: the branch the code marks "this should never happen" cannot be taken.\<close>

theorem typed_get_spec:
  assumes "wf_state s"
  shows
    "(PodGet s ns n = Inr c1 \<longleftrightarrow> st_m s (KKey ''Pod'' n ns) = Some (KPod c1)) \<and>
     (PodGet s ns n = Inl e \<longleftrightarrow> st_m s (KKey ''Pod'' n ns) = None \<and> e = NotFound ''Pod'' n) \<and>
     (ReplicaSetGet s ns n = Inr c2 \<longleftrightarrow> st_m s (KKey ''ReplicaSet'' n ns) = Some (KReplicaSet c2)) \<and>
     (ReplicaSetGet s ns n = Inl e \<longleftrightarrow> st_m s (KKey ''ReplicaSet'' n ns) = None \<and> e = NotFound ''ReplicaSet'' n) \<and>
     (PersistentVolumeClaimGet s ns n = Inr c3 \<longleftrightarrow> st_m s (KKey ''PersistentVolumeClaim'' n ns) = Some (KPersistentVolumeClaim c3)) \<and>
     (PersistentVolumeClaimGet s ns n = Inl e \<longleftrightarrow> st_m s (KKey ''PersistentVolumeClaim'' n ns) = None \<and> e = NotFound ''PersistentVolumeClaim'' n) \<and>
     (StatefulSetGet s ns n = Inr c4 \<longleftrightarrow> st_m s (KKey ''StatefulSet'' n ns) = Some (KStatefulSet c4)) \<and>
     (StatefulSetGet s ns n = Inl e \<longleftrightarrow> st_m s (KKey ''StatefulSet'' n ns) = None \<and> e = NotFound ''StatefulSet'' n) \<and>
     (DeploymentGet s ns n = Inr c5 \<longleftrightarrow> st_m s (KKey ''Deployment'' n ns) = Some (KDeployment c5)) \<and>
     (DeploymentGet s ns n = Inl e \<longleftrightarrow> st_m s (KKey ''Deployment'' n ns) = None \<and> e = NotFound ''Deployment'' n) \<and>
     (NamespaceGet s n = Inr c6 \<longleftrightarrow> st_m s (KKey ''Namespace'' n []) = Some (KNamespace c6)) \<and>
     (NamespaceGet s n = Inl e \<longleftrightarrow> st_m s (KKey ''Namespace'' n []) = None \<and> e = NotFound ''Namespace'' n) \<and>
     (ServiceAccountGet s ns n = Inr c7 \<longleftrightarrow> st_m s (KKey ''ServiceAccount'' n ns) = Some (KServiceAccount c7)) \<and>
     (ServiceAccountGet s ns n = Inl e \<longleftrightarrow> st_m s (KKey ''ServiceAccount'' n ns) = None \<and> e = NotFound ''ServiceAccount'' n) \<and>
     (ClusterRoleGet s n = Inr c8 \<longleftrightarrow> st_m s (KKey ''ClusterRole'' n []) = Some (KClusterRole c8)) \<and>
     (ClusterRoleGet s n = Inl e \<longleftrightarrow> st_m s (KKey ''ClusterRole'' n []) = None \<and> e = NotFound ''clusterrole'' n) \<and>
     (ControllerRevisionGet s ns n = Inr c9 \<longleftrightarrow> st_m s (KKey ''ControllerRevision'' n ns) = Some (KControllerRevision c9)) \<and>
     (ControllerRevisionGet s ns n = Inl e \<longleftrightarrow> st_m s (KKey ''ControllerRevision'' n ns) = None \<and> e = NotFound ''ControllerRevision'' n)"
proof -
  have stored: "st_m s (KKey ''ClusterRole'' n []) = None \<or>
      (\<exists>y. st_m s (KKey ''ClusterRole'' n []) = Some (KClusterRole y))"
    using wf_state_kind [OF assms, of "KKey ''ClusterRole'' n []"] clusterroles.of_kind
    by (cases "st_m s (KKey ''ClusterRole'' n [])") auto
  have role: "ClusterRoleGet s n = Inr c \<longleftrightarrow> st_m s (KKey ''ClusterRole'' n []) = Some (KClusterRole c)"
    "ClusterRoleGet s n = Inl e \<longleftrightarrow> st_m s (KKey ''ClusterRole'' n []) = None \<and> e = NotFound ''clusterrole'' n" for c
    using stored by (auto simp: ClusterRoleGet_def ClusterRoleMutGet_def NamespaceNone_def api_get_def)
  show ?thesis
    unfolding PodGet_def PodMutGet_def ReplicaSetGet_def ReplicaSetMutGet_def PersistentVolumeClaimGet_def
      PersistentVolumeClaimMutGet_def StatefulSetGet_def StatefulSetMutGet_def DeploymentGet_def
      DeploymentMutGet_def NamespaceGet_def ServiceAccountGet_def ControllerRevisionGet_def
      ControllerRevisionMutGet_def role pods.get_iff [OF assms] replicasets.get_iff [OF assms]
      claims.get_iff [OF assms] statefulsets.get_iff [OF assms] deployments.get_iff [OF assms]
      namespaces.get_iff [OF assms] serviceaccounts.get_iff [OF assms] revisions.get_iff [OF assms]
    by simp
qed

theorem typed_get_spec_witness:
  "PodGet example_state ''default'' ''p'' = Inr (example_pod stored_meta) \<and>
    PodGet example_state ''default'' ''q'' = Inl (NotFound ''Pod'' ''q'')"
  using typed_get_spec [OF example_state_wf, of "''default''" "''p''" "example_pod stored_meta"]
    typed_get_spec [OF example_state_wf, of "''default''" "''q''" _ "NotFound ''Pod'' ''q''"]
  by (simp add: example_state_simps stored_key_def)

text \<open>C34: On a well-formed state the type assertion after a create, an update, a status update or a
  patch never fails, so no write reports a type error after it has taken effect, and the
  unchecked assertions of the patches never panic.\<close>

theorem typed_write_spec:
  assumes "wf_state s"
  shows
    "PodCreate E ch ns x1 s = typed_result to_Pod (create E ch ''Pod'' ns (KPod x1) s) \<and>
     PodUpdate E ch ns x1 s = typed_result to_Pod (update E ch ''Pod'' ns (KPod x1) s) \<and>
     PodUpdateStatus E ch ns x1 s = typed_result to_Pod (updateStatus E ch ''Pod'' ns (KPod x1) s) \<and>
     PodPatch E C ch ns n pt data sub s = typed_result to_Pod (patch E C ch ''Pod'' ns n pt data sub s) \<and>
     ReplicaSetCreate E ch ns x2 s = typed_result to_ReplicaSet (create E ch ''ReplicaSet'' ns (KReplicaSet x2) s) \<and>
     ReplicaSetUpdate E ch ns x2 s = typed_result to_ReplicaSet (update E ch ''ReplicaSet'' ns (KReplicaSet x2) s) \<and>
     ReplicaSetUpdateStatus E ch ns x2 s = typed_result to_ReplicaSet (updateStatus E ch ''ReplicaSet'' ns (KReplicaSet x2) s) \<and>
     ReplicaSetPatch E C ch ns n pt data sub s = typed_result to_ReplicaSet (patch E C ch ''ReplicaSet'' ns n pt data sub s) \<and>
     PersistentVolumeClaimCreate E ch ns x3 s = typed_result to_PersistentVolumeClaim (create E ch ''PersistentVolumeClaim'' ns (KPersistentVolumeClaim x3) s) \<and>
     PersistentVolumeClaimUpdate E ch ns x3 s = typed_result to_PersistentVolumeClaim (update E ch ''PersistentVolumeClaim'' ns (KPersistentVolumeClaim x3) s) \<and>
     PersistentVolumeClaimUpdateStatus E ch ns x3 s = typed_result to_PersistentVolumeClaim (updateStatus E ch ''PersistentVolumeClaim'' ns (KPersistentVolumeClaim x3) s) \<and>
     PersistentVolumeClaimPatch E C ch ns n pt data sub s = typed_result to_PersistentVolumeClaim (patch E C ch ''PersistentVolumeClaim'' ns n pt data sub s) \<and>
     StatefulSetCreate E ch ns x4 s = typed_result to_StatefulSet (create E ch ''StatefulSet'' ns (KStatefulSet x4) s) \<and>
     StatefulSetUpdate E ch ns x4 s = typed_result to_StatefulSet (update E ch ''StatefulSet'' ns (KStatefulSet x4) s) \<and>
     StatefulSetUpdateStatus E ch ns x4 s = typed_result to_StatefulSet (updateStatus E ch ''StatefulSet'' ns (KStatefulSet x4) s) \<and>
     StatefulSetPatch E C ch ns n pt data sub s = typed_result to_StatefulSet (patch E C ch ''StatefulSet'' ns n pt data sub s) \<and>
     DeploymentCreate E ch ns x5 s = typed_result to_Deployment (create E ch ''Deployment'' ns (KDeployment x5) s) \<and>
     DeploymentUpdate E ch ns x5 s = typed_result to_Deployment (update E ch ''Deployment'' ns (KDeployment x5) s) \<and>
     DeploymentUpdateStatus E ch ns x5 s = typed_result to_Deployment (updateStatus E ch ''Deployment'' ns (KDeployment x5) s) \<and>
     DeploymentPatch E C ch ns n pt data sub s = typed_result to_Deployment (patch E C ch ''Deployment'' ns n pt data sub s) \<and>
     ServiceAccountCreate E ch ns x6 s = typed_result to_ServiceAccount (create E ch ''ServiceAccount'' ns (KServiceAccount x6) s) \<and>
     ServiceAccountPatch E C ch ns n pt data sub s = typed_result to_ServiceAccount (patch E C ch ''ServiceAccount'' ns n pt data sub s) \<and>
     ClusterRoleCreate E ch x7 s = typed_result to_ClusterRole (create E ch ''ClusterRole'' [] (KClusterRole x7) s) \<and>
     ClusterRoleUpdate E ch x7 s = typed_result to_ClusterRole (update E ch ''ClusterRole'' [] (KClusterRole x7) s) \<and>
     ClusterRolePatch E C ch n pt data sub s = typed_result to_ClusterRole (patch E C ch ''ClusterRole'' [] n pt data sub s) \<and>
     ControllerRevisionCreate E ch ns x8 s = typed_result to_ControllerRevision (create E ch ''ControllerRevision'' ns (KControllerRevision x8) s) \<and>
     ControllerRevisionUpdate E ch ns x8 s = typed_result to_ControllerRevision (update E ch ''ControllerRevision'' ns (KControllerRevision x8) s) \<and>
     ControllerRevisionPatch E C ch ns n pt data sub s = typed_result to_ControllerRevision (patch E C ch ''ControllerRevision'' ns n pt data sub s)"
  unfolding typed_result_def NamespaceNone_def PodCreate_def PodUpdate_def PodUpdateStatus_def PodPatch_def ReplicaSetCreate_def
    ReplicaSetUpdate_def ReplicaSetUpdateStatus_def ReplicaSetPatch_def
    PersistentVolumeClaimCreate_def PersistentVolumeClaimUpdate_def
    PersistentVolumeClaimUpdateStatus_def PersistentVolumeClaimPatch_def StatefulSetCreate_def
    StatefulSetUpdate_def StatefulSetUpdateStatus_def StatefulSetPatch_def
    DeploymentCreate_def DeploymentUpdate_def DeploymentUpdateStatus_def DeploymentPatch_def
    ServiceAccountCreate_def ServiceAccountPatch_def ClusterRoleCreate_def
    ClusterRoleUpdate_def ClusterRolePatch_def ControllerRevisionCreate_def
    ControllerRevisionUpdate_def ControllerRevisionPatch_def
  by (intro conjI pods.call_ok replicasets.call_ok claims.call_ok statefulsets.call_ok deployments.call_ok
      serviceaccounts.call_ok clusterroles.call_ok revisions.call_ok)
    (auto dest: create_kind update_kind [OF assms])

theorem typed_write_spec_witness:
  "PodUpdate example_env example_choices ''default'' (example_pod stored_meta) example_state =
     typed_result to_Pod (update example_env example_choices ''Pod'' ''default'' (KPod (example_pod stored_meta)) example_state)"
  using typed_write_spec [OF example_state_wf, of example_env example_choices "''default''" "example_pod stored_meta"] by blast

end
