(* ===== verification/Api_System.thy ===== *)
theory Api_System
  imports Api_Resources Api_Reads
begin

text \<open>
  The API model as a system: the requests clients can make, one step per request (every
  operation holds the lock from start to end), runs, and the reachable states. The guarantees
  that hold whatever the interleaving of the clients follow from the contract
  \<open>api_operation\<close>, which is interpreted here on the whole API.
\<close>

section \<open>Requests and steps\<close>

text \<open>The kind of a written object is the one of its Go type, as in the typed operations.\<close>

datatype request =
    CreateRequest choices string kobject
  | UpdateRequest choices string kobject
  | UpdateStatusRequest choices string kobject
  | DeleteRequest choices KKey DeleteOptions
  | PatchRequest codec choices string string string string string "string list"

definition with_object :: "kobject call \<Rightarrow> kobject option call" where
  "with_object = map_option (\<lambda>(r, s). (map_sum id Some r, s))"

fun api_exec :: "env \<Rightarrow> request \<Rightarrow> State \<Rightarrow> kobject option call" where
  "api_exec E (CreateRequest ch namespace ob) s = with_object (create E ch (kind_of ob) namespace ob s)"
| "api_exec E (UpdateRequest ch namespace ob) s = with_object (update E ch (kind_of ob) namespace ob s)"
| "api_exec E (UpdateStatusRequest ch namespace ob) s = with_object (updateStatus E ch (kind_of ob) namespace ob s)"
| "api_exec E (DeleteRequest ch key options) s =
     map_option (\<lambda>(r, s). (map_sum id (\<lambda>_. None) r, s)) (delete E ch key options s)"
| "api_exec E (PatchRequest C ch kind namespace name patchType data subresources) s =
     with_object (patch E C ch kind namespace name patchType data subresources s)"

inductive api_run :: "env \<Rightarrow> State \<Rightarrow> State \<Rightarrow> bool" for E where
  run_refl: "api_run E s s"
| run_step: "api_run E s s1 \<Longrightarrow> api_exec E req s1 = Some (r, s2) \<Longrightarrow> api_run E s s2"

definition reachable :: "env \<Rightarrow> State \<Rightarrow> bool" where
  "reachable E s \<longleftrightarrow> api_run E NewState s"

inductive_cases api_runE: "api_run E s s'"

lemma api_exec_contract:
  assumes "upstream_laws E" "wf_state s" "api_exec E req s = Some (r, s')"
  shows "wf_state s' \<and> evolves s s'"
proof (cases req)
  case (CreateRequest ch namespace ob)
  with assms create_wf [OF assms(1) refl assms(2)] show ?thesis by (auto simp: with_object_def)
next
  case (UpdateRequest ch namespace ob)
  with assms updateLocked_wf [OF assms(1,2)] show ?thesis by (auto simp: with_object_def update_def)
next
  case (UpdateStatusRequest ch namespace ob)
  with assms updateStatusLocked_wf [OF assms(1,2)] show ?thesis by (auto simp: with_object_def updateStatus_def)
next
  case (DeleteRequest ch key options)
  with assms delete_wf [OF assms(1,2)] show ?thesis by auto
next
  case (PatchRequest C ch kind namespace name patchType data subresources)
  with assms patch_wf [OF assms(1,2)] show ?thesis by (auto simp: with_object_def)
qed

interpretation api: api_operation "\<lambda>(E, req). api_exec E req" "\<lambda>(E, req). upstream_laws E"
  by unfold_locales (auto dest: api_exec_contract)

lemma api_run_contract:
  "api_run E s s' \<Longrightarrow> upstream_laws E \<Longrightarrow> wf_state s \<Longrightarrow> wf_state s' \<and> evolves s s'"
proof (induction rule: api_run.induct)
  case (run_step s s1 req r s2)
  then show ?case using api_exec_contract evolves_trans by blast
qed simp

section \<open>Properties\<close>

text \<open>C2: Every reachable state is well formed: a stored object has the kind, name and namespace of
  its key, UIDs and resource versions of stored objects are recorded as used and pairwise
  different, and every resource version handed out is a number.\<close>

theorem reachable_wf:
  assumes "upstream_laws E" "reachable E s"
  shows "wf_state s"
  using api_run_contract [of E NewState s] assms wf_NewState by (simp add: reachable_def)

lemma example_reachable: "reachable example_env (NewState\<lparr>usedUID := {''0''}\<rparr>)"
proof -
  have "api_exec example_env (CreateRequest example_choices ''default'' (KPod (example_pod (example_meta [] [])))) NewState =
      Some (Inl (Errorf ''object of kind %q must specify a name or generateName'' [''Pod'']), NewState\<lparr>usedUID := {''0''}\<rparr>)"
    by (simp add: example_create_nameless with_object_def)
  then show ?thesis unfolding reachable_def by (rule run_step [OF run_refl])
qed

theorem reachable_wf_witness: "wf_state (NewState\<lparr>usedUID := {''0''}\<rparr>)"
  by (rule reachable_wf [OF example_env_laws example_reachable])

text \<open>C8: Resource versions identify contents over time: if an object stored after any run of
  requests has the resource version of an object stored before, it is stored under the same key
  and it is the same object. So comparing versions, as every optimistic client does, cannot
  miss a change that was undone and redone.\<close>

theorem version_identifies_object:
  assumes "upstream_laws E" "wf_state s" "api_run E s s'"
    and "st_m s key = Some ob" "st_m s' key' = Some ob'"
    and "ResourceVersion (metadata ob') = ResourceVersion (metadata ob)"
  shows "key' = key \<and> ob' = ob"
  using api_run_contract [OF assms(3,1,2)] evolves_same_version assms(2,4,5,6) by metis

text \<open>The example run: an update of the stored pod.\<close>

lemma example_run: "api_run example_env example_state (example_state\<lparr>usedRV := {''0'', ''7''},
    st_m := (st_m example_state)(stored_key \<mapsto> example_updated ''0'')\<rparr>)"
proof -
  have "kind_of (client_pod stored_meta) = ''Pod''" by (simp add: client_pod_def)
  then have "api_exec example_env (UpdateRequest example_choices ''default'' (client_pod stored_meta)) example_state =
      Some (Inr (Some (example_updated ''0'')), example_state\<lparr>usedRV := {''0'', ''7''},
        st_m := (st_m example_state)(stored_key \<mapsto> example_updated ''0'')\<rparr>)"
    by (simp add: example_update_eq with_object_def)
  then show ?thesis by (rule run_step [OF run_refl])
qed

theorem version_identifies_object_witness:
  "st_m (example_state\<lparr>usedUID := {''0'', ''u''}, usedRV := {''0'', ''7''},
     st_m := (st_m example_state)(KKey ''Pod'' ''q'' ''default'' \<mapsto> example_created)\<rparr>) stored_key =
   Some (KPod (example_pod stored_meta)) \<and>
   stored_key = stored_key \<and> KPod (example_pod stored_meta) = KPod (example_pod stored_meta)"
proof -
  let ?s = "example_state\<lparr>usedUID := {''0'', ''u''}, usedRV := {''0'', ''7''},
     st_m := (st_m example_state)(KKey ''Pod'' ''q'' ''default'' \<mapsto> example_created)\<rparr>"
  have "api_exec example_env (CreateRequest example_choices ''default'' (KPod (example_pod (example_meta ''q'' []))))
      example_state = Some (Inr (Some example_created), ?s)"
    by (simp add: example_create_eq with_object_def)
  then have run: "api_run example_env example_state ?s" by (rule run_step [OF run_refl])
  have stored: "st_m ?s stored_key = Some (KPod (example_pod stored_meta))"
    "st_m example_state stored_key = Some (KPod (example_pod stored_meta))"
    by (simp_all add: example_state_simps stored_key_def)
  from version_identifies_object [OF example_env_laws example_state_wf run stored(2,1) refl] stored(1)
  show ?thesis by blast
qed

text \<open>UIDs are never reused: once an object is gone, no later object has its UID, and an object
  that keeps its key over a run but was replaced has another UID.\<close>

theorem uid_never_reused:
  assumes "upstream_laws E" "wf_state s" "api_run E s s'"
    and "uid \<in> usedUID s" "\<And>key ob. st_m s key = Some ob \<Longrightarrow> UID (metadata ob) \<noteq> uid"
    and "st_m s' key = Some ob'"
  shows "UID (metadata ob') \<noteq> uid"
  using api_run_contract [OF assms(3,1,2)] evolves_uid_dead assms(4-6) by metis

theorem uid_never_reused_witness:
  "''gone'' \<in> usedUID (example_state\<lparr>usedUID := {''u'', ''gone''}\<rparr>) \<and>
    st_m (example_state\<lparr>usedUID := {''u'', ''gone''}\<rparr>) stored_key = Some (KPod (example_pod stored_meta)) \<and>
    UID (metadata (KPod (example_pod stored_meta))) \<noteq> ''gone''"
proof -
  have stored: "st_m (example_state\<lparr>usedUID := {''u'', ''gone''}\<rparr>) stored_key = Some (KPod (example_pod stored_meta))"
    by (simp add: example_state_simps)
  have wf: "wf_state (example_state\<lparr>usedUID := {''u'', ''gone''}\<rparr>)"
    by (rule wf_state_more_uids [OF example_state_wf]) (simp_all add: example_state_simps)
  have dead: "UID (metadata ob) \<noteq> ''gone''"
    if "st_m (example_state\<lparr>usedUID := {''u'', ''gone''}\<rparr>) key = Some ob" for key ob
    using that by (auto simp: example_state_simps example_meta_simps stored_meta_simps split: if_splits)
  have "UID (metadata (KPod (example_pod stored_meta))) \<noteq> ''gone''"
    by (rule uid_never_reused [OF example_env_laws wf run_refl _ dead stored]) simp_all
  with stored show ?thesis by simp
qed

text \<open>C1: No lost updates: if the object a client has read is changed, removed or replaced by any run
  of other requests, an update or status update that carries the resource version of what the
  client has read is rejected and changes nothing.\<close>

theorem no_lost_update:
  assumes "upstream_laws E" "wf_state s" "st_m s (KKey kind (Name md) namespace) = Some seen"
    and "api_run E s s1" "st_m s1 (KKey kind (Name md) namespace) \<noteq> Some seen"
    and "EnsureObjectNamespaceMatchesRequestNamespace E namespace (metadata ob) = Inr md"
    and "Name md \<noteq> []" "ResourceVersion md = ResourceVersion (metadata seen)"
  shows "(\<exists>e. update E ch kind namespace ob s1 = Some (Inl e, s1)) \<and>
    (\<exists>e. updateStatus E ch kind namespace ob s1 = Some (Inl e, s1))"
proof -
  have run: "evolves s s1" using api_run_contract [OF assms(4,1,2)] by simp
  have "ResourceVersion (metadata seen) \<in> usedRV s"
    using wf_state_stored [OF assms(2,3)] by (simp add: stored_ok_def)
  then have rv: "ResourceVersion md \<noteq> []"
    using wf_state_rv [OF assms(2)] assms(8) by (fastforce simp: parse_uint_def)
  have changed: "ResourceVersion (metadata existing) \<noteq> ResourceVersion md"
    if "st_m s1 (KKey kind (Name md) namespace) = Some existing" for existing
    using evolves_same_version [OF run assms(2,3) that] assms(5,8) that by auto
  show ?thesis
    unfolding update_def updateLocked_def updateStatus_def updateStatusLocked_def
    using put.update_with_stale [OF assms(6,7) rv changed] put_status.update_with_stale [OF assms(6,7) rv changed]
    by blast
qed

theorem no_lost_update_witness:
  "\<exists>e. update example_env example_choices ''Pod'' ''default'' (client_pod stored_meta)
     (example_state\<lparr>usedRV := {''0'', ''7''}, st_m := (st_m example_state)(stored_key \<mapsto> example_updated ''0'')\<rparr>) =
    Some (Inl e, example_state\<lparr>usedRV := {''0'', ''7''}, st_m := (st_m example_state)(stored_key \<mapsto> example_updated ''0'')\<rparr>)"
proof (rule no_lost_update [THEN conjunct1, OF example_env_laws example_state_wf _ example_run])
  let ?md = "stored_meta\<lparr>Labels := Some example_labels\<rparr>"
  show "EnsureObjectNamespaceMatchesRequestNamespace example_env ''default'' (metadata (client_pod stored_meta)) = Inr ?md"
    by (simp add: client_pod_def example_meta_simps example_ensured)
  show "st_m example_state (KKey ''Pod'' (Name ?md) ''default'') = Some (KPod (example_pod stored_meta))"
    by (simp add: example_state_simps stored_key_def stored_meta_simps)
  have "ResourceVersion (metadata (example_updated ''0'')) = ''0''"
    by (simp add: example_updated_def applyDefaultTolerationSeconds_def example_meta_simps Let_def)
  then have "example_updated ''0'' \<noteq> KPod (example_pod stored_meta)"
    by (auto simp: example_meta_simps stored_meta_simps)
  then show "st_m (example_state\<lparr>usedRV := {''0'', ''7''}, st_m := (st_m example_state)(stored_key \<mapsto> example_updated ''0'')\<rparr>)
      (KKey ''Pod'' (Name ?md) ''default'') \<noteq> Some (KPod (example_pod stored_meta))"
    by (simp add: stored_key_def stored_meta_simps)
qed (simp_all add: stored_meta_simps example_meta_simps)

end
