(* ===== verification/Api_Invariants.thy ===== *)
theory Api_Invariants
  imports Api_System
begin

text \<open>
  Invariants of the stored objects. The interface \<open>stored_invariant\<close> says what a property of
  objects needs to hold of everything the API stores: every create establishes it, and updates,
  status updates and graceful deletes keep it. It is interpreted on the admission of pods
  (src/kubernetes_model/apimodel/api_model.go, \<open>applyDefaultTolerationSeconds\<close>): whatever the
  clients send, every stored pod tolerates the two taints of a node that stopped answering.
\<close>

section \<open>From pipelines to reachable states\<close>

locale stored_invariant =
  fixes E :: env and P :: "kobject \<Rightarrow> bool"
  assumes metadata_free: "P (set_metadata ob md) = P ob"
    and created: "applyValidationAndDefaulting E ob name = Inr ob' \<Longrightarrow> P ob'"
    and updated: "applyValidationAndDefaultingOnUpdate E ob old ns = Inr ob' \<Longrightarrow> P old \<Longrightarrow> P ob'"
    and status_updated: "applyValidationAndDefaultingOnStatusUpdate E ob old ns = Inr ob' \<Longrightarrow> P old \<Longrightarrow> P ob'"
    and graceful: "strategy_graceful E ob options = Inr (g, pending, checked, options') \<Longrightarrow> P ob \<Longrightarrow> P checked"
begin

definition all_stored :: "State \<Rightarrow> bool" where
  "all_stored s \<longleftrightarrow> (\<forall>key ob. st_m s key = Some ob \<longrightarrow> P ob)"

lemma all_storedD: "all_stored s \<Longrightarrow> st_m s key = Some ob \<Longrightarrow> P ob"
  by (simp add: all_stored_def)

lemma all_stored_cong: "st_m s' = st_m s \<Longrightarrow> all_stored s' = all_stored s"
  by (simp add: all_stored_def)

lemma all_stored_removed: "all_stored s \<Longrightarrow> all_stored (s\<lparr>st_m := (st_m s)(key := None)\<rparr>)"
  by (simp add: all_stored_def)

lemma store_object_keeps:
  "store_object ch key ob s = Some (r, s') \<Longrightarrow> P ob \<Longrightarrow> all_stored s \<Longrightarrow> all_stored s'"
  by (erule store_object_Some) (simp add: all_stored_def metadata_free)

lemma create_keeps:
  assumes "create E ch kind ns ob s = Some (r, s')" "all_stored s"
  shows "all_stored s'"
  using assms(1)
proof (cases rule: create_outcomes)
  case (stored md uid s1 name objCopy ob')
  from stored(6) obtain ob1 where "applyValidationAndDefaulting E objCopy name = Inr ob1"
    and "store_object ch (KKey kind name ns) ob1 s1 = Some (Inr ob', s')" by (rule create_named_stored)
  moreover have "all_stored s1" using assms(2) generateNewUID_frame [OF stored(2)] by (simp add: all_stored_def)
  ultimately show ?thesis using store_object_keeps created by blast
qed (use assms(2) in \<open>auto simp: all_stored_def dest!: generateNewUID_frame\<close>)

lemma commit_keeps:
  "update_commit ch key ob existing s = Some (r, s') \<Longrightarrow> P ob \<Longrightarrow> all_stored s \<Longrightarrow> all_stored s'"
  by (auto simp: update_commit_def all_stored_removed split: if_splits dest: store_object_keeps)

lemma updateLocked_keeps:
  assumes "updateLocked E ch kind ns ob uidPre s = Some (r, s')" "all_stored s"
  shows "all_stored s'"
proof (cases "s' = s")
  case False
  with assms(1) obtain key u ex where
    checks: "update_checks (applyValidationAndDefaultingOnUpdate E) ''object of kind %q must specify a name for update''
      E kind ns ob uidPre s = Inr (key, u, ex)"
    and commit: "update_commit ch key u ex s = Some (r, s')"
    by (auto simp: updateLocked_def update_with_def split: sum.splits prod.splits)
  from put.checks_passed [OF checks] obtain md rv where "st_m s key = Some ex"
    "applyValidationAndDefaultingOnUpdate E (set_metadata ob (md\<lparr>ResourceVersion := rv\<rparr>)) ex ns = Inr u" by metis
  then have "P u" using updated all_storedD [OF assms(2)] by blast
  with commit assms(2) show ?thesis by (simp add: commit_keeps)
qed (use assms(2) in simp)

lemma updateStatusLocked_keeps:
  assumes "updateStatusLocked E ch kind ns ob uidPre s = Some (r, s')" "all_stored s"
  shows "all_stored s'"
proof (cases "s' = s")
  case False
  with assms(1) obtain key u ex where
    checks: "update_checks (applyValidationAndDefaultingOnStatusUpdate E)
      ''object of kind %q must specify a name for status update'' E kind ns ob uidPre s = Inr (key, u, ex)"
    and commit: "update_commit ch key u ex s = Some (r, s')"
    by (auto simp: updateStatusLocked_def update_with_def split: sum.splits prod.splits)
  from put_status.checks_passed [OF checks] obtain md rv where "st_m s key = Some ex"
    "applyValidationAndDefaultingOnStatusUpdate E (set_metadata ob (md\<lparr>ResourceVersion := rv\<rparr>)) ex ns = Inr u" by metis
  then have "P u" using status_updated all_storedD [OF assms(2)] by blast
  with commit assms(2) show ?thesis by (simp add: commit_keeps)
qed (use assms(2) in simp)

lemma checked_keeps:
  assumes "checkGracefulDelete E ch ob options = Inr (g, pending, checked, options')" "P ob"
  shows "P checked"
proof (cases "DeletionTimestamp (metadata ob)")
  case None
  with assms show ?thesis
    by (auto simp: checkGracefulDelete_def Let_def metadata_free simp del: strategy_graceful.simps dest: graceful)
next
  case (Some ts)
  with assms show ?thesis
    by (auto simp: checkGracefulDelete_def already_deleting_def Let_def metadata_free split: option.splits if_splits)
qed

lemma delete_keeps:
  assumes "delete E ch key options s = Some (r, s')" "all_stored s"
  shows "all_stored s'"
proof (cases "s' = s")
  case False
  with assms(1) obtain ob g checked options' where ob: "st_m s key = Some ob"
    and check: "checkGracefulDelete E ch ob options = Inr (g, False, checked, options')"
    and commit: "delete_commit ch key ob g checked options' s = Some (r, s')"
    by (auto simp: delete_def Let_def split: option.splits sum.splits prod.splits if_splits)
  obtain fs where "with_gc_finalizers checked options' = set_metadata checked ((metadata checked)\<lparr>Finalizers := fs\<rparr>)"
    using with_gc_finalizers_frame [of checked options'] by auto
  then have "P (with_gc_finalizers checked options')"
    using checked_keeps [OF check] all_storedD [OF assms(2) ob] by (simp add: metadata_free)
  with commit False assms(2) show ?thesis
    by (auto simp: delete_commit_def Let_def metadata_free all_stored_removed split: if_splits dest!: store_object_keeps)
qed (use assms(2) in simp)

lemma api_exec_keeps:
  assumes "api_exec E req s = Some (r, s')" "all_stored s"
  shows "all_stored s'"
  using assms
  by (cases req) (auto simp: with_object_def update_def updateStatus_def patch_def split: sum.splits if_splits
      dest: create_keeps updateLocked_keeps updateStatusLocked_keeps delete_keeps)

lemma api_run_keeps: "api_run E s s' \<Longrightarrow> all_stored s \<Longrightarrow> all_stored s'"
  by (induction rule: api_run.induct) (auto dest: api_exec_keeps)

lemma reachable_stored: "reachable E s \<Longrightarrow> st_m s key = Some ob \<Longrightarrow> P ob"
  using api_run_keeps [of NewState s] by (auto simp: reachable_def all_stored_def NewState_def)

end

section \<open>Stored pods tolerate a failing node\<close>

definition tolerates :: "PodSpec \<Rightarrow> bool" where
  "tolerates spec \<longleftrightarrow> list_ex (tolerates_taint TaintNodeNotReady) (elems (Tolerations spec)) \<and>
     list_ex (tolerates_taint TaintNodeUnreachable) (elems (Tolerations spec))"

text \<open>
  What the code relies on: converting a pod, preparing and canonicalizing it for a create and
  checking it for a graceful delete leave its tolerations alone; an update takes them from the new
  pod, a status update from the stored one.
\<close>

definition same_tolerations :: "Pod \<Rightarrow> Pod \<Rightarrow> bool" where
  "same_tolerations p q \<longleftrightarrow> Tolerations (pod_Spec p) = Tolerations (pod_Spec q)"

definition hooks_keep_tolerations :: "env \<Rightarrow> bool" where
  "hooks_keep_tolerations E \<longleftrightarrow>
     (\<forall>p q. to_internal (podOps E) p = Inr q \<longrightarrow> same_tolerations q p) \<and>
     (\<forall>p q. to_versioned (podOps E) p = Inr q \<longrightarrow> same_tolerations q p) \<and>
     (\<forall>p. same_tolerations (PrepareForCreate (podOps E) p) p) \<and>
     (\<forall>p. same_tolerations (Canonicalize (podOps E) p) p) \<and>
     (\<forall>ns p old q. RestBeforeUpdate (podOps E) ns p old = Inr q \<longrightarrow> same_tolerations q p) \<and>
     (\<forall>ns p old q. RestBeforeStatusUpdate (podOps E) ns p old = Inr q \<longrightarrow> same_tolerations q old) \<and>
     (\<forall>p options g q options'. PodCheckGracefulDelete E p options = (g, q, options') \<longrightarrow> same_tolerations q p)"

fun pod_tolerates :: "kobject \<Rightarrow> bool" where
  "pod_tolerates (KPod p) = tolerates (pod_Spec p)"
| "pod_tolerates _ = True"

lemma tolerates_cong: "same_tolerations p q \<Longrightarrow> tolerates (pod_Spec p) = tolerates (pod_Spec q)"
  by (simp add: same_tolerations_def tolerates_def)

lemma default_tolerations: "tolerates (pod_Spec (applyDefaultTolerationSeconds p))"
  by (simp add: tolerates_def applyDefaultTolerationSeconds_def Let_def default_toleration_def tolerates_taint_def)

lemma not_pod_tolerates: "kind_of ob \<noteq> ''Pod'' \<Longrightarrow> pod_tolerates ob"
  by (cases ob) auto

lemma applyPriorityAdmission_tolerations: "same_tolerations (applyPriorityAdmission p) p"
  by (simp add: same_tolerations_def applyPriorityAdmission_def)

lemma create_pipeline_tolerates:
  assumes laws: "hooks_keep_tolerations E" and pipe: "applyValidationAndDefaulting E ob name = Inr ob'"
  shows "pod_tolerates ob'"
proof (cases ob)
  case (KPod p)
  from pipe obtain i t where out: "to_versioned (podOps E) (Canonicalize (podOps E)
      (PrepareForCreate (podOps E) (applyPriorityAdmission (applyDefaultTolerationSeconds i)))) = Inr t"
    and ob': "ob' = KPod t"
    unfolding KPod
    by (auto simp: applyValidationAndDefaulting_def convert_in_def convert_out_def ebind_Inr_iff check_Inr_iff
        split: sum.splits)
  have "same_tolerations t (applyDefaultTolerationSeconds i)"
    using laws out applyPriorityAdmission_tolerations unfolding hooks_keep_tolerations_def same_tolerations_def by metis
  then show ?thesis using default_tolerations by (simp add: ob' tolerates_cong)
qed (use pipe in \<open>auto simp: applyValidationAndDefaulting_def convert_in_def convert_out_def ebind_Inr_iff check_Inr_iff
       split: sum.splits\<close>)

lemma admission_update_tolerates:
  assumes "applyAdmissionMutateForUpdate (LPod p) old = Inr l"
  shows "\<exists>q oldp. l = LPod q \<and> old = LPod oldp \<and> same_tolerations q (applyDefaultTolerationSeconds p)"
  using assms by (cases old) (auto simp: Let_def same_tolerations_def split: if_splits)

lemma update_pipeline_tolerates:
  assumes laws: "hooks_keep_tolerations E" and pipe: "applyValidationAndDefaultingOnUpdate E ob old ns = Inr ob'"
  shows "pod_tolerates ob'"
proof (cases ob)
  case (KPod p)
  from pipe obtain i oldl m where admit: "applyAdmissionMutateForUpdate (LPod i) oldl = Inr m"
    and rest: "ebind (updateStrategyForLegacyObject m) (\<lambda>strategy. ebind (BeforeUpdate E strategy ns m oldl) (\<lambda>updated.
      check (applyAdmissionValidate updated) (ebind (convertLegacyToVersioned E
        ''failed to convert internal updated object back to versioned object: %v'' updated)
          (\<lambda>new2. Inr (normalizeVersionedObject new2))))) = Inr ob'"
    unfolding KPod applyValidationAndDefaultingOnUpdate_def
    by (auto simp: convert_in_def ebind_Inr_iff simp del: applyAdmissionMutateForUpdate.simps split: sum.splits)
  from admission_update_tolerates [OF admit] obtain q oldp where q: "m = LPod q" "oldl = LPod oldp"
    "same_tolerations q (applyDefaultTolerationSeconds i)" by blast
  from rest obtain t u where u: "RestBeforeUpdate (podOps E) ns q oldp = Inr t" "to_versioned (podOps E) t = Inr u" "ob' = KPod u"
    unfolding q by (auto simp: convert_out_def ebind_Inr_iff check_Inr_iff typed_update_def map_sum_Inr split: sum.splits)
  have "same_tolerations u (applyDefaultTolerationSeconds i)"
    using laws u(1,2) q(3) unfolding hooks_keep_tolerations_def same_tolerations_def by metis
  then show ?thesis using default_tolerations by (simp add: u(3) tolerates_cong)
qed (use pipe in \<open>auto simp: applyValidationAndDefaultingOnUpdate_def convert_in_def convert_out_def ebind_Inr_iff check_Inr_iff
       typed_update_def map_sum_Inr split: sum.splits option.splits\<close>)

lemma status_pipeline_tolerates:
  assumes laws: "hooks_keep_tolerations E" and pipe: "applyValidationAndDefaultingOnStatusUpdate E ob old ns = Inr ob'"
    and old: "pod_tolerates old"
  shows "pod_tolerates ob'"
proof (cases ob)
  case (KPod p)
  from pipe obtain i oldp oldi t u where in': "to_internal (podOps E) oldp = Inr oldi" "old = KPod oldp"
    and before: "RestBeforeStatusUpdate (podOps E) ns i oldi = Inr t"
    and out: "to_versioned (podOps E) t = Inr u" "ob' = KPod u"
    unfolding KPod
    by (cases old) (auto simp: applyValidationAndDefaultingOnStatusUpdate_def convert_in_def convert_out_def ebind_Inr_iff
        check_Inr_iff typed_update_def map_sum_Inr split: sum.splits)
  have "same_tolerations u oldp"
    using laws in'(1) before out(1) unfolding hooks_keep_tolerations_def same_tolerations_def by metis
  then show ?thesis using old by (simp add: in'(2) out(2) tolerates_cong)
qed (use pipe in \<open>auto simp: applyValidationAndDefaultingOnStatusUpdate_def convert_in_def convert_out_def ebind_Inr_iff
       check_Inr_iff typed_update_def map_sum_Inr split: sum.splits option.splits\<close>)

lemma graceful_tolerates:
  assumes "hooks_keep_tolerations E" "strategy_graceful E ob options = Inr (g, pending, checked, options')" "pod_tolerates ob"
  shows "pod_tolerates checked"
proof (cases ob)
  case (KPod p)
  with assms(2) obtain i i' t where steps: "to_internal (podOps E) p = Inr i"
    "PodCheckGracefulDelete E i options = (g, i', options')" "to_versioned (podOps E) i' = Inr t" "checked = KPod t"
    by (auto split: sum.splits prod.splits)
  have "same_tolerations t p"
    using assms(1) steps(1-3) unfolding hooks_keep_tolerations_def same_tolerations_def by metis
  then show ?thesis using assms(3) by (simp add: KPod steps(4) tolerates_cong)
qed (use assms(2) in auto)

interpretation admitted: stored_invariant E "\<lambda>ob. hooks_keep_tolerations E \<longrightarrow> pod_tolerates ob"
proof unfold_locales
  show "(hooks_keep_tolerations E \<longrightarrow> pod_tolerates (set_metadata ob md)) = (hooks_keep_tolerations E \<longrightarrow> pod_tolerates ob)" for ob md
    by (cases ob) simp_all
qed (auto dest: create_pipeline_tolerates update_pipeline_tolerates status_pipeline_tolerates graceful_tolerates
      simp del: strategy_graceful.simps)

section \<open>Stored claim templates are normal\<close>

text \<open>
  The pipelines end with \<open>normalizeVersionedObject\<close>, so no stored stateful set has a claim template
  with a kind or an API version, whatever the conversions do.
\<close>

fun templates_normal :: "kobject \<Rightarrow> bool" where
  "templates_normal (KStatefulSet x) =
     list_all (\<lambda>t. TypeMeta t = empty_TypeMeta) (elems (VolumeClaimTemplates (ss_Spec x)))"
| "templates_normal _ = True"

lemma normalized: "templates_normal (normalizeVersionedObject ob)"
proof (cases ob)
  case (KStatefulSet x)
  then show ?thesis by (cases "VolumeClaimTemplates (ss_Spec x)") (simp_all add: list_all_iff)
qed simp_all

interpretation normal: stored_invariant E templates_normal
proof unfold_locales
  show "templates_normal (set_metadata ob md) = templates_normal ob" for ob md by (cases ob) simp_all
  show "templates_normal checked" if "strategy_graceful E ob options = Inr (g, pending, checked, options')" "templates_normal ob"
    for ob options g pending checked options' using that by (cases ob) (auto split: sum.splits prod.splits)
qed (auto simp: applyValidationAndDefaulting_def applyValidationAndDefaultingOnUpdate_def
      applyValidationAndDefaultingOnStatusUpdate_def ebind_Inr_iff check_Inr_iff normalized)

lemma stored_templates_normal:
  "reachable E s \<Longrightarrow> st_m s key = Some (KStatefulSet ss) \<Longrightarrow> t \<in> set (elems (VolumeClaimTemplates (ss_Spec ss))) \<Longrightarrow>
    TypeMeta t = empty_TypeMeta"
  using normal.reachable_stored [of E s key "KStatefulSet ss"] by (simp add: list_all_iff)

section \<open>Property\<close>

text \<open>C9: Admission leaves no gap: after any requests of any clients, patches and status updates included,
  every stored pod tolerates the taints of a node that is not ready and of one that is unreachable.\<close>

theorem stored_pods_tolerate:
  assumes "hooks_keep_tolerations E" "reachable E s" "st_m s key = Some (KPod pod)"
  shows "tolerates (pod_Spec pod)"
  using admitted.reachable_stored [OF assms(2,3)] assms(1) by simp

text \<open>An environment whose status strategy takes everything but the status from the stored pod, and the pod
  a client creates in it.\<close>

definition admission_env :: env where
  "admission_env = example_env\<lparr>podOps := example_ops
     \<lparr>RestBeforeStatusUpdate := (\<lambda>ns p old. Inr (old\<lparr>pod_Status := pod_Status p\<rparr>))\<rparr>\<rparr>"

lemma admission_env_keeps: "hooks_keep_tolerations admission_env"
  by (auto simp: hooks_keep_tolerations_def admission_env_def example_ops_def example_env_def same_tolerations_def
      example_before_update_def example_graceful_def Let_def split: if_splits)

lemma admission_create:
  "\<exists>pod s. reachable admission_env s \<and> st_m s (KKey ''Pod'' ''q'' ''default'') = Some (KPod pod)"
proof -
  let ?req = "CreateRequest example_choices ''default'' (KPod (example_pod (example_meta ''q'' [])))"
  have pipe: "applyValidationAndDefaulting admission_env (KPod p) name =
      Inr (KPod (applyPriorityAdmission (applyDefaultTolerationSeconds p)))" for p name
    by (simp add: applyValidationAndDefaulting_def admission_env_def example_env_def example_ops_def convert_in_def
        convert_out_def validate_with_def)
  have env: "WipeObjectMetaSystemFields admission_env = example_wipe"
    "EnsureObjectNamespaceMatchesRequestNamespace admission_env = example_ensure_namespace"
    "validateObjectMeta admission_env md kind = None" for md kind
    by (simp_all add: admission_env_def example_env_def validateObjectMeta_def)
  have "\<exists>ob s. api_exec admission_env ?req NewState = Some (Inr (Some ob), s) \<and> kind_of ob = ''Pod'' \<and>
      st_m s (KKey ''Pod'' ''q'' ''default'') = Some ob"
    by (simp add: with_object_def create_def env example_wiped example_meta_simps example_new_uid NewState_def
        create_named_def pipe store_object_def example_new_rv example_now Let_def)
  then obtain ob s where run: "api_exec admission_env ?req NewState = Some (Inr (Some ob), s)" and "kind_of ob = ''Pod''"
    and stored: "st_m s (KKey ''Pod'' ''q'' ''default'') = Some ob" by blast
  from this(2) obtain pod where "ob = KPod pod" by (cases ob) auto
  moreover have "reachable admission_env s" unfolding reachable_def by (rule run_step [OF run_refl run])
  ultimately show ?thesis using stored by blast
qed

theorem stored_pods_tolerate_witness:
  "\<exists>(s :: State) pod. st_m s (KKey ''Pod'' ''q'' ''default'') = Some (KPod pod) \<and> tolerates (pod_Spec pod)"
proof -
  from admission_create obtain s pod where "reachable admission_env s"
    and stored: "st_m s (KKey ''Pod'' ''q'' ''default'') = Some (KPod pod)" by blast
  from stored_pods_tolerate [OF admission_env_keeps this] stored show ?thesis by blast
qed

end
