(* ===== verification/Iam_Model.thy ===== *)
theory Iam_Model
  imports K8s_Prelude
begin

text \<open>
  The IAM model (src/iam_model/state.go): identities, allow policies for one resource each, and
  the attachments between them. Every method holds the lock from start to end, so it is one
  function from a state to a result and a new state. A Go set \<open>map[PolicyID]struct{}\<close> is a
  set; the inner maps belong to one identity each, so copying them is the identity on values.
\<close>

section \<open>State\<close>

record IdentityPolicy =
  pol_ID :: string
  pol_Resource :: string

record IamState =
  identities :: "string \<Rightarrow> string set option"
  policies :: "string \<Rightarrow> IdentityPolicy option"
  usedPolicyIds :: "string set"

datatype iam_error = ErrInvalidID string | ErrAlreadyExists string "string list" | ErrNotFound string "string list"

definition iam_NewState :: IamState where
  "iam_NewState = \<lparr>identities = Map.empty, policies = Map.empty, usedPolicyIds = {}\<rparr>"

text \<open>\<open>rand.Int63()\<close>, and the order of each \<open>range\<close> loop, named by the loop and its key.\<close>

record iam_choices =
  i_int63 :: "nat \<Rightarrow> 63 word"
  i_range :: "string \<Rightarrow> string \<Rightarrow> string set \<Rightarrow> string list"

definition iam_range_ok :: "iam_choices \<Rightarrow> bool" where
  "iam_range_ok ch \<longleftrightarrow> (\<forall>loop key A. finite A \<longrightarrow> distinct (i_range ch loop key A) \<and> set (i_range ch loop key A) = A)"

section \<open>Operations\<close>

definition CreateIdentity :: "string \<Rightarrow> IamState \<Rightarrow> (iam_error + unit) \<times> IamState" where
  "CreateIdentity i s =
     (if i = [] then (Inl (ErrInvalidID ''empty identity id''), s)
      else if identities s i \<noteq> None then (Inl (ErrAlreadyExists ''identity %q'' [i]), s)
      else (Inr (), s\<lparr>identities := (identities s)(i \<mapsto> {})\<rparr>))"

definition copyIdentities :: "(string \<Rightarrow> string set option) \<Rightarrow> string \<Rightarrow> string set option" where
  "copyIdentities src = (\<lambda>i. case src i of None \<Rightarrow> None | Some policyIDs \<Rightarrow> Some {p. p \<in> policyIDs})"

definition copyPolicies :: "(string \<Rightarrow> IdentityPolicy option) \<Rightarrow> string \<Rightarrow> IdentityPolicy option" where
  "copyPolicies src = (\<lambda>p. case src p of None \<Rightarrow> None | Some policy \<Rightarrow> Some policy)"

definition Snapshot :: "IamState \<Rightarrow> (string \<Rightarrow> string set option) \<times> (string \<Rightarrow> IdentityPolicy option)" where
  "Snapshot s = (copyIdentities (identities s), copyPolicies (policies s))"

lemma Snapshot_eq [simp]: "Snapshot s = (identities s, policies s)"
  by (auto simp: Snapshot_def copyIdentities_def copyPolicies_def split: option.splits)

definition generatePolicyID :: "63 word \<Rightarrow> string" where
  "generatePolicyID n = ''policy-'' @ format_nat (unat n)"

definition generateNewPolicyIDAndUpdate :: "iam_choices \<Rightarrow> IamState \<Rightarrow> (string \<times> IamState) option" where
  "generateNewPolicyIDAndUpdate ch s =
     (case draw_fresh (\<lambda>i. generatePolicyID (i_int63 ch i)) (\<lambda>p. p \<in> usedPolicyIds s) 0 of
        None \<Rightarrow> None
      | Some p \<Rightarrow> Some (p, s\<lparr>usedPolicyIds := insert p (usedPolicyIds s)\<rparr>))"

definition CreatePolicy :: "iam_choices \<Rightarrow> string \<Rightarrow> IamState \<Rightarrow> ((iam_error + string) \<times> IamState) option" where
  "CreatePolicy ch resource s =
     (if resource = [] then Some (Inl (ErrInvalidID ''empty resource name''), s)
      else case generateNewPolicyIDAndUpdate ch s of
             None \<Rightarrow> None
           | Some (p, s') \<Rightarrow>
               Some (Inr p, s'\<lparr>policies := (policies s')(p \<mapsto> \<lparr>pol_ID = p, pol_Resource = resource\<rparr>)\<rparr>))"

definition AttachIdentityPolicy :: "string \<Rightarrow> string \<Rightarrow> IamState \<Rightarrow> (iam_error + unit) \<times> IamState" where
  "AttachIdentityPolicy i p s =
     (case identities s i of
        None \<Rightarrow> (Inl (ErrNotFound ''identity %q'' [i]), s)
      | Some policyIDs \<Rightarrow>
          if policies s p = None then (Inl (ErrNotFound ''policy %q'' [p]), s)
          else if p \<in> policyIDs then (Inr (), s)
          else (Inr (), s\<lparr>identities := (identities s)(i \<mapsto> insert p policyIDs)\<rparr>))"

definition DetachIdentityPolicy :: "string \<Rightarrow> string \<Rightarrow> IamState \<Rightarrow> (iam_error + unit) \<times> IamState" where
  "DetachIdentityPolicy i p s =
     (case identities s i of
        None \<Rightarrow> (Inl (ErrNotFound ''identity %q'' [i]), s)
      | Some policyIDs \<Rightarrow>
          if policies s p = None then (Inl (ErrNotFound ''policy %q'' [p]), s)
          else if p \<notin> policyIDs then (Inl (ErrNotFound ''identity policy attachment %q -> %q'' [i, p]), s)
          else (Inr (), s\<lparr>identities := (identities s)(i \<mapsto> policyIDs - {p})\<rparr>))"

interpretation policy_ids: id_allocator generateNewPolicyIDAndUpdate usedPolicyIds
  by unfold_locales (auto simp: generateNewPolicyIDAndUpdate_def split: option.splits dest: draw_fresh_Some)

lemma generateNewPolicyID_frame:
  "generateNewPolicyIDAndUpdate ch s = Some (p, s') \<Longrightarrow> s' = s\<lparr>usedPolicyIds := insert p (usedPolicyIds s)\<rparr>"
  by (auto simp: generateNewPolicyIDAndUpdate_def split: option.splits)

section \<open>Invariant\<close>

text \<open>Only existing policies are attached; a policy carries its own id, which is recorded as used.\<close>

definition iam_wf :: "IamState \<Rightarrow> bool" where
  "iam_wf s \<longleftrightarrow>
     finite (dom (identities s)) \<and>
     (\<forall>i ids. identities s i = Some ids \<longrightarrow> finite ids \<and> (\<forall>p \<in> ids. policies s p \<noteq> None)) \<and>
     (\<forall>p pol. policies s p = Some pol \<longrightarrow> pol_ID pol = p \<and> pol_Resource pol \<noteq> [] \<and> p \<in> usedPolicyIds s)"

lemma iam_wf_NewState: "iam_wf iam_NewState"
  by (simp add: iam_wf_def iam_NewState_def)

lemma iam_wf_attached: "iam_wf s \<Longrightarrow> identities s i = Some ids \<Longrightarrow> finite ids \<and> (\<forall>p \<in> ids. policies s p \<noteq> None)"
  by (simp add: iam_wf_def)

lemma CreateIdentity_wf: "iam_wf s \<Longrightarrow> CreateIdentity i s = (r, s') \<Longrightarrow> iam_wf s'"
  by (auto simp: CreateIdentity_def iam_wf_def split: if_splits)

lemma CreatePolicy_wf: "iam_wf s \<Longrightarrow> CreatePolicy ch resource s = Some (r, s') \<Longrightarrow> iam_wf s'"
  by (auto simp: CreatePolicy_def iam_wf_def dest!: generateNewPolicyID_frame split: if_splits option.splits)

lemma Attach_wf: "iam_wf s \<Longrightarrow> AttachIdentityPolicy i p s = (r, s') \<Longrightarrow> iam_wf s'"
  by (auto simp: AttachIdentityPolicy_def iam_wf_def split: if_splits option.splits)

lemma Detach_wf: "iam_wf s \<Longrightarrow> DetachIdentityPolicy i p s = (r, s') \<Longrightarrow> iam_wf s'"
  by (auto simp: DetachIdentityPolicy_def iam_wf_def split: if_splits option.splits)

text \<open>The reachable states of the model, one step per method call.\<close>

inductive iam_step :: "IamState \<Rightarrow> IamState \<Rightarrow> bool" where
  create_identity: "CreateIdentity i s = (r, s') \<Longrightarrow> iam_step s s'"
| create_policy: "CreatePolicy ch resource s = Some (r', s') \<Longrightarrow> iam_step s s'"
| attach: "AttachIdentityPolicy i p s = (r, s') \<Longrightarrow> iam_step s s'"
| detach: "DetachIdentityPolicy i p s = (r, s') \<Longrightarrow> iam_step s s'"

inductive_cases iam_stepE: "iam_step s s'"

inductive iam_reachable :: "IamState \<Rightarrow> bool" where
  iam_start: "iam_reachable iam_NewState"
| iam_next: "iam_reachable s \<Longrightarrow> iam_step s s' \<Longrightarrow> iam_reachable s'"

lemma iam_step_wf: "iam_wf s \<Longrightarrow> iam_step s s' \<Longrightarrow> iam_wf s'"
  by (elim iam_stepE) (blast dest: CreateIdentity_wf CreatePolicy_wf Attach_wf Detach_wf)+

section \<open>Properties\<close>

text \<open>In every reachable state of the IAM model only existing policies are attached to
  identities, a policy carries its own id and a resource, and its id is recorded as used.\<close>

theorem iam_reachable_wf:
  assumes "iam_reachable s"
  shows "iam_wf s"
  using assms by (induction rule: iam_reachable.induct) (auto intro: iam_wf_NewState iam_step_wf)

theorem iam_reachable_wf_witness: "iam_wf (iam_NewState\<lparr>identities := [''alice'' \<mapsto> {}]\<rparr>)"
proof (rule iam_reachable_wf)
  have "CreateIdentity ''alice'' iam_NewState = (Inr (), iam_NewState\<lparr>identities := [''alice'' \<mapsto> {}]\<rparr>)"
    by (simp add: CreateIdentity_def iam_NewState_def)
  then show "iam_reachable (iam_NewState\<lparr>identities := [''alice'' \<mapsto> {}]\<rparr>)"
    by (rule iam_next [OF iam_start create_identity])
qed

text \<open>A new policy has an id never used before, in the printed form, and nothing else of the
  state changes; an empty resource name is rejected without drawing an id.\<close>

theorem CreatePolicy_spec:
  assumes "CreatePolicy ch resource s = Some (r, s')"
  shows "case r of
      Inl e \<Rightarrow> resource = [] \<and> s' = s \<and> e = ErrInvalidID ''empty resource name''
    | Inr p \<Rightarrow> resource \<noteq> [] \<and> p \<notin> usedPolicyIds s \<and> (\<exists>n. p = generatePolicyID n) \<and>
        s' = s\<lparr>usedPolicyIds := insert p (usedPolicyIds s),
              policies := (policies s)(p \<mapsto> \<lparr>pol_ID = p, pol_Resource = resource\<rparr>)\<rparr>"
proof (cases "resource = []")
  case False
  with assms obtain p s1 where gen: "generateNewPolicyIDAndUpdate ch s = Some (p, s1)"
    by (auto simp: CreatePolicy_def split: option.splits)
  have "\<exists>n. p = generatePolicyID n"
    using gen by (auto simp: generateNewPolicyIDAndUpdate_def split: option.splits dest!: draw_fresh_Some)
  then show ?thesis
    using assms False gen policy_ids.alloc_fresh [OF gen] generateNewPolicyID_frame [OF gen]
    by (auto simp: CreatePolicy_def)
qed (use assms in \<open>auto simp: CreatePolicy_def\<close>)

definition iam_example_choices :: iam_choices where
  "iam_example_choices = \<lparr>i_int63 = (\<lambda>i. of_nat i), i_range = (\<lambda>_ _. sorted_list_of_set)\<rparr>"

lemma iam_example_range_ok: "iam_range_ok iam_example_choices"
  by (simp add: iam_range_ok_def iam_example_choices_def)

lemma iam_example_policy:
  "generatePolicyID 0 \<notin> usedPolicyIds s \<Longrightarrow> resource \<noteq> [] \<Longrightarrow>
    CreatePolicy iam_example_choices resource s = Some (Inr (generatePolicyID 0),
      s\<lparr>usedPolicyIds := insert (generatePolicyID 0) (usedPolicyIds s),
        policies := (policies s)(generatePolicyID 0 \<mapsto> \<lparr>pol_ID = generatePolicyID 0, pol_Resource = resource\<rparr>)\<rparr>)"
  by (simp add: CreatePolicy_def generateNewPolicyIDAndUpdate_def draw_fresh_now iam_example_choices_def)

theorem CreatePolicy_spec_witness:
  "generatePolicyID 0 \<notin> usedPolicyIds iam_NewState \<and>
    CreatePolicy iam_example_choices ''bucket'' iam_NewState = Some (Inr (generatePolicyID 0),
      iam_NewState\<lparr>usedPolicyIds := insert (generatePolicyID 0) (usedPolicyIds iam_NewState),
        policies := (policies iam_NewState)(generatePolicyID 0 \<mapsto>
          \<lparr>pol_ID = generatePolicyID 0, pol_Resource = ''bucket''\<rparr>)\<rparr>)"
proof -
  have call: "CreatePolicy iam_example_choices ''bucket'' iam_NewState = Some (Inr (generatePolicyID 0),
      iam_NewState\<lparr>usedPolicyIds := insert (generatePolicyID 0) (usedPolicyIds iam_NewState),
        policies := (policies iam_NewState)(generatePolicyID 0 \<mapsto>
          \<lparr>pol_ID = generatePolicyID 0, pol_Resource = ''bucket''\<rparr>)\<rparr>)"
    by (rule iam_example_policy) (simp_all add: iam_NewState_def)
  from CreatePolicy_spec [OF call] call show ?thesis by simp
qed

end
