(* ===== verification/Iam_Example.thy ===== *)
theory Iam_Example
  imports Iam_Model
begin

text \<open>
  The reconciler on top of the IAM model (src/iam_model/example/example.go). It works on a
  snapshot of the shared state and changes that state through the model's methods; it is
  modelled as the one client of the state while it runs.
\<close>

section \<open>Reading the snapshot\<close>

definition matches_resource :: "(string \<Rightarrow> IdentityPolicy option) \<Rightarrow> string \<Rightarrow> string \<Rightarrow> bool" where
  "matches_resource pols resource p \<longleftrightarrow> (case pols p of None \<Rightarrow> False | Some policy \<Rightarrow> pol_Resource policy = resource)"

definition policy_set :: "(string \<Rightarrow> string set option) \<Rightarrow> string \<Rightarrow> string set" where
  "policy_set idents i = (case idents i of None \<Rightarrow> {} | Some policyIDs \<Rightarrow> policyIDs)"

definition hasPolicyForResource ::
  "iam_choices \<Rightarrow> string \<Rightarrow> string set \<Rightarrow> (string \<Rightarrow> IdentityPolicy option) \<Rightarrow> string \<Rightarrow> bool" where
  "hasPolicyForResource ch i policyIDs pols resource =
     list_ex (matches_resource pols resource) (i_range ch ''hasPolicyForResource'' i policyIDs)"

definition identitiesWithPolicyForResource ::
  "iam_choices \<Rightarrow> (string \<Rightarrow> string set option) \<Rightarrow> (string \<Rightarrow> IdentityPolicy option) \<Rightarrow> string \<Rightarrow> string list" where
  "identitiesWithPolicyForResource ch idents pols resource =
     filter (\<lambda>i. hasPolicyForResource ch i (policy_set idents i) pols resource)
       (i_range ch ''identities'' [] (dom idents))"

definition policiesForResource ::
  "iam_choices \<Rightarrow> (string \<Rightarrow> string set option) \<Rightarrow> (string \<Rightarrow> IdentityPolicy option) \<Rightarrow> string \<Rightarrow> string \<Rightarrow> string list" where
  "policiesForResource ch idents pols i resource =
     filter (matches_resource pols resource) (i_range ch ''policiesForResource'' i (policy_set idents i))"

definition containsIdentity :: "string list \<Rightarrow> string \<Rightarrow> bool" where
  "containsIdentity idents target = list_ex (\<lambda>i. i = target) idents"

definition missingIdentities :: "iam_choices \<Rightarrow> string set \<Rightarrow> string list \<Rightarrow> string list" where
  "missingIdentities ch desired current =
     filter (\<lambda>i. \<not> containsIdentity current i) (i_range ch ''desired'' [] desired)"

section \<open>Reconciling\<close>

fun detach_all :: "string \<Rightarrow> string list \<Rightarrow> IamState \<Rightarrow> (iam_error + unit) \<times> IamState" where
  "detach_all i [] s = (Inr (), s)"
| "detach_all i (p # ps) s =
     (case DetachIdentityPolicy i p s of
        (Inl e, s1) \<Rightarrow> (Inl e, s1)
      | (Inr _, s1) \<Rightarrow> detach_all i ps s1)"

fun revoke_undesired ::
  "iam_choices \<Rightarrow> string set \<Rightarrow> (string \<Rightarrow> string set option) \<Rightarrow> (string \<Rightarrow> IdentityPolicy option) \<Rightarrow> string \<Rightarrow>
   string list \<Rightarrow> IamState \<Rightarrow> (iam_error + unit) \<times> IamState" where
  "revoke_undesired ch desired idents pols resource [] s = (Inr (), s)"
| "revoke_undesired ch desired idents pols resource (i # is) s =
     (if i \<in> desired then revoke_undesired ch desired idents pols resource is s
      else case detach_all i (policiesForResource ch idents pols i resource) s of
             (Inl e, s1) \<Rightarrow> (Inl e, s1)
           | (Inr _, s1) \<Rightarrow> revoke_undesired ch desired idents pols resource is s1)"

fun attach_all :: "string \<Rightarrow> string list \<Rightarrow> IamState \<Rightarrow> (iam_error + unit) \<times> IamState" where
  "attach_all p [] s = (Inr (), s)"
| "attach_all p (i # is) s =
     (case AttachIdentityPolicy i p s of
        (Inl e, s1) \<Rightarrow> (Inl e, s1)
      | (Inr _, s1) \<Rightarrow> attach_all p is s1)"

definition ReconcileIdentityAccess ::
  "iam_choices \<Rightarrow> string set \<Rightarrow> string \<Rightarrow> IamState \<Rightarrow> ((iam_error + unit) \<times> IamState) option" where
  "ReconcileIdentityAccess ch desired resource s =
     (case Snapshot s of
        (idents, pols) \<Rightarrow>
          (let current = identitiesWithPolicyForResource ch idents pols resource
           in case revoke_undesired ch desired idents pols resource current s of
                (Inl e, s1) \<Rightarrow> Some (Inl e, s1)
              | (Inr _, s1) \<Rightarrow>
                  (let missing = missingIdentities ch desired current
                   in if missing = [] then Some (Inr (), s1)
                      else case CreatePolicy ch resource s1 of
                             None \<Rightarrow> None
                           | Some (Inl e, s2) \<Rightarrow> Some (Inl e, s2)
                           | Some (Inr p, s2) \<Rightarrow> Some (attach_all p missing s2))))"

section \<open>Who has access\<close>

definition allowed :: "IamState \<Rightarrow> string \<Rightarrow> string set" where
  "allowed s resource = {i. \<exists>p \<in> policy_set (identities s) i. matches_resource (policies s) resource p}"

lemma allowed_dom: "allowed s resource \<subseteq> dom (identities s)"
  by (auto simp: allowed_def policy_set_def split: option.splits)

lemma range_set: "iam_range_ok ch \<Longrightarrow> finite A \<Longrightarrow> set (i_range ch loop key A) = A"
  by (simp add: iam_range_ok_def)

lemma policy_set_finite: "iam_wf s \<Longrightarrow> finite (policy_set (identities s) i)"
  by (auto simp: policy_set_def iam_wf_def split: option.splits)

lemma set_current:
  assumes "iam_range_ok ch" "iam_wf s"
  shows "set (identitiesWithPolicyForResource ch (identities s) (policies s) resource) = allowed s resource"
    and "distinct (identitiesWithPolicyForResource ch (identities s) (policies s) resource)"
proof -
  have "finite (dom (identities s))" using assms(2) by (simp add: iam_wf_def)
  with assms show "set (identitiesWithPolicyForResource ch (identities s) (policies s) resource) = allowed s resource"
    using allowed_dom [of s resource] policy_set_finite [OF assms(2)]
    by (auto simp: identitiesWithPolicyForResource_def hasPolicyForResource_def allowed_def range_set list_ex_iff)
  show "distinct (identitiesWithPolicyForResource ch (identities s) (policies s) resource)"
    using assms(1) \<open>finite (dom (identities s))\<close>
    by (simp add: identitiesWithPolicyForResource_def iam_range_ok_def)
qed

lemma set_missing:
  assumes "iam_range_ok ch" "finite desired"
  shows "set (missingIdentities ch desired current) = desired - set current"
  using assms by (auto simp: missingIdentities_def containsIdentity_def range_set list_ex_iff)

lemma set_policies:
  assumes "iam_range_ok ch" "iam_wf s"
  shows "set (policiesForResource ch (identities s) (policies s) i resource) =
      {p \<in> policy_set (identities s) i. matches_resource (policies s) resource p}"
    and "distinct (policiesForResource ch (identities s) (policies s) i resource)"
  using assms policy_set_finite [OF assms(2)]
  by (auto simp: policiesForResource_def range_set) (simp add: iam_range_ok_def)

section \<open>The three loops\<close>

lemma detach_all_eq:
  assumes "identities s i = Some ids" "set ps \<subseteq> ids" "distinct ps" "\<forall>p \<in> set ps. policies s p \<noteq> None"
  shows "detach_all i ps s = (Inr (), s\<lparr>identities := (identities s)(i \<mapsto> ids - set ps)\<rparr>)"
  using assms
proof (induction ps arbitrary: s ids)
  case (Cons p ps)
  let ?s = "s\<lparr>identities := (identities s)(i \<mapsto> ids - {p})\<rparr>"
  have step: "DetachIdentityPolicy i p s = (Inr (), ?s)"
    using Cons.prems by (auto simp: DetachIdentityPolicy_def)
  have "detach_all i ps ?s = (Inr (), ?s\<lparr>identities := (identities ?s)(i \<mapsto> ids - {p} - set ps)\<rparr>)"
    by (rule Cons.IH) (use Cons.prems in auto)
  moreover have "ids - {p} - set ps = ids - set (p # ps)" by auto
  ultimately show ?case by (simp add: step fun_upd_def if_distrib cong: if_cong)
qed (simp add: fun_upd_idem)

definition without_access :: "(string \<Rightarrow> string set option) \<Rightarrow> (string \<Rightarrow> IdentityPolicy option) \<Rightarrow> string \<Rightarrow> string set \<Rightarrow> string \<Rightarrow> string set option" where
  "without_access idents pols resource R = (\<lambda>i. if i \<in> R then
     map_option (\<lambda>ids. {p \<in> ids. \<not> matches_resource pols resource p}) (idents i) else idents i)"

lemma revoke_eq:
  assumes "iam_range_ok ch" "iam_wf s0" "distinct is" "set is \<subseteq> dom (identities s0)"
    and "policies s = policies s0" "\<forall>i \<in> set is. identities s i = identities s0 i"
  shows "revoke_undesired ch desired (identities s0) (policies s0) resource is s =
    (Inr (), s\<lparr>identities := without_access (identities s) (policies s) resource (set is - desired)\<rparr>)"
  using assms(3-6)
proof (induction "is" arbitrary: s)
  case Nil
  then show ?case by (simp add: without_access_def)
next
  case (Cons i "is")
  show ?case
  proof (cases "i \<in> desired")
    case True
    then have "set (i # is) - desired = set is - desired" by auto
    with True Cons show ?thesis by simp
  next
    case False
    have pols: "policies s = policies s0" using Cons.prems by simp
    obtain ids where ids: "identities s i = Some ids" "identities s0 i = Some ids" using Cons.prems by auto
    let ?ps = "policiesForResource ch (identities s0) (policies s0) i resource"
    have ps: "set ?ps = {p \<in> ids. matches_resource (policies s0) resource p}" "distinct ?ps"
      using set_policies [OF assms(1,2), of i resource] ids by (simp_all add: policy_set_def)
    let ?s = "s\<lparr>identities := (identities s)(i \<mapsto> ids - set ?ps)\<rparr>"
    have step: "detach_all i ?ps s = (Inr (), ?s)"
      by (rule detach_all_eq) (use ids ps iam_wf_attached [OF assms(2) ids(2)] Cons.prems in auto)
    have "revoke_undesired ch desired (identities s0) (policies s0) resource is ?s =
        (Inr (), ?s\<lparr>identities := without_access (identities ?s) (policies ?s) resource (set is - desired)\<rparr>)"
      by (rule Cons.IH) (use Cons.prems in auto)
    moreover have "without_access (identities ?s) (policies ?s) resource (set is - desired) =
        without_access (identities s) (policies s) resource (set (i # is) - desired)"
    proof
      fix j
      show "without_access (identities ?s) (policies ?s) resource (set is - desired) j =
          without_access (identities s) (policies s) resource (set (i # is) - desired) j"
        using False Cons.prems(1) ids(1) ps(1) by (cases "j = i") (auto simp: without_access_def pols)
    qed
    ultimately show ?thesis using False by (simp add: step)
  qed
qed

definition with_policy :: "(string \<Rightarrow> string set option) \<Rightarrow> string \<Rightarrow> string set \<Rightarrow> string \<Rightarrow> string set option" where
  "with_policy idents p A = (\<lambda>i. if i \<in> A then map_option (insert p) (idents i) else idents i)"

lemma attach_one:
  assumes "policies s p \<noteq> None" "identities s i \<noteq> None"
  shows "AttachIdentityPolicy i p s = (Inr (), s\<lparr>identities := with_policy (identities s) p {i}\<rparr>)"
proof -
  obtain ids where ids: "identities s i = Some ids" using assms(2) by blast
  have "with_policy (identities s) p {i} = (identities s)(i \<mapsto> insert p ids)"
    using ids by (auto simp: with_policy_def fun_eq_iff)
  moreover have "p \<in> ids \<Longrightarrow> (identities s)(i \<mapsto> insert p ids) = identities s"
    using ids by (simp add: insert_absorb fun_upd_idem)
  ultimately show ?thesis using assms ids by (auto simp: AttachIdentityPolicy_def)
qed

lemma with_policy_compose: "with_policy (with_policy idents p {i}) p A = with_policy idents p (insert i A)"
  by (auto simp: with_policy_def fun_eq_iff option.map_comp comp_def)

text \<open>Attaching stops at the first identity that does not exist, and has then attached the ones before.\<close>

lemma attach_all_eq:
  assumes "policies s p \<noteq> None"
  shows "\<exists>A. A \<subseteq> set is \<and> snd (attach_all p is s) = s\<lparr>identities := with_policy (identities s) p A\<rparr> \<and>
    (if set is \<subseteq> dom (identities s) then fst (attach_all p is s) = Inr () \<and> A = set is
     else \<exists>i \<in> set is. identities s i = None \<and> fst (attach_all p is s) = Inl (ErrNotFound ''identity %q'' [i]))"
  using assms
proof (induction "is" arbitrary: s)
  case Nil
  show ?case by (simp add: with_policy_def)
next
  case (Cons i "is")
  show ?case
  proof (cases "identities s i = None")
    case True
    then have "AttachIdentityPolicy i p s = (Inl (ErrNotFound ''identity %q'' [i]), s)"
      by (simp add: AttachIdentityPolicy_def)
    moreover have "s = s\<lparr>identities := with_policy (identities s) p {}\<rparr>" by (simp add: with_policy_def)
    ultimately show ?thesis using True by (intro exI [of _ "{}"]) auto
  next
    case False
    let ?s = "s\<lparr>identities := with_policy (identities s) p {i}\<rparr>"
    have step: "attach_all p (i # is) s = attach_all p is ?s"
      using attach_one [OF Cons.prems False] by simp
    have dom: "identities ?s j = None \<longleftrightarrow> identities s j = None" for j by (simp add: with_policy_def)
    have subset: "set is \<subseteq> dom (identities ?s) \<longleftrightarrow> set (i # is) \<subseteq> dom (identities s)"
      using False dom by (auto simp: dom_def)
    from Cons.IH [of ?s] Cons.prems obtain A where A: "A \<subseteq> set is"
      "snd (attach_all p is ?s) = ?s\<lparr>identities := with_policy (identities ?s) p A\<rparr>"
      "if set is \<subseteq> dom (identities ?s) then fst (attach_all p is ?s) = Inr () \<and> A = set is
       else \<exists>i \<in> set is. identities ?s i = None \<and> fst (attach_all p is ?s) = Inl (ErrNotFound ''identity %q'' [i])"
      by auto
    have outcome: "snd (attach_all p is ?s) = s\<lparr>identities := with_policy (identities s) p (insert i A)\<rparr>"
      using A(2) by (simp add: with_policy_compose)
    show ?thesis unfolding step
    proof (intro exI [of _ "insert i A"] conjI)
      show "insert i A \<subseteq> set (i # is)" using A(1) by auto
      show "if set (i # is) \<subseteq> dom (identities s) then fst (attach_all p is ?s) = Inr () \<and> insert i A = set (i # is)
         else \<exists>j \<in> set (i # is). identities s j = None \<and> fst (attach_all p is ?s) = Inl (ErrNotFound ''identity %q'' [j])"
        using A(3) unfolding subset dom by auto
    qed (rule outcome)
  qed
qed

section \<open>Access after each part\<close>

lemma dom_without [simp]: "dom (without_access idents pols resource R) = dom idents"
  by (auto simp: without_access_def split: if_splits)

lemma dom_with [simp]: "dom (with_policy idents p A) = dom idents"
  by (auto simp: with_policy_def split: if_splits)

lemma allowed_without:
  "allowed (s\<lparr>identities := without_access (identities s) (policies s) resource R\<rparr>) r =
    (if r = resource then allowed s resource - R else allowed s r)"
proof -
  have set: "policy_set (without_access (identities s) (policies s) resource R) i =
      (if i \<in> R then {p \<in> policy_set (identities s) i. \<not> matches_resource (policies s) resource p}
       else policy_set (identities s) i)" for i
    by (auto simp: policy_set_def without_access_def split: option.splits)
  have one: "matches_resource pols r p \<Longrightarrow> matches_resource pols r' p \<Longrightarrow> r' = r" for pols r r' p
    by (auto simp: matches_resource_def split: option.splits)
  show ?thesis
    by (auto simp: allowed_def set split: if_splits dest: one)
qed

lemma iam_wf_identities:
  "iam_wf s \<Longrightarrow> dom idents = dom (identities s) \<Longrightarrow>
    (\<And>i ids. idents i = Some ids \<Longrightarrow> finite ids \<and> (\<forall>p \<in> ids. policies s p \<noteq> None)) \<Longrightarrow>
    iam_wf (s\<lparr>identities := idents\<rparr>)"
  by (simp add: iam_wf_def)

lemma iam_wf_without:
  "iam_wf s \<Longrightarrow> iam_wf (s\<lparr>identities := without_access (identities s) (policies s) resource R\<rparr>)"
proof (rule iam_wf_identities)
  fix i ids
  assume "iam_wf s" and i: "without_access (identities s) (policies s) resource R i = Some ids"
  from i obtain ids0 where ids: "identities s i = Some ids0" "ids \<subseteq> ids0"
    by (auto simp: without_access_def split: if_splits)
  with iam_wf_attached [OF \<open>iam_wf s\<close> ids(1)]
  show "finite ids \<and> (\<forall>p \<in> ids. policies s p \<noteq> None)" by (auto intro: finite_subset)
qed simp_all

lemma without_access_none: "R = {} \<Longrightarrow> without_access idents pols resource R = idents"
  by (simp add: without_access_def)

definition granted :: "IamState \<Rightarrow> string \<Rightarrow> string \<Rightarrow> string set \<Rightarrow> IamState" where
  "granted s p resource A =
     s\<lparr>usedPolicyIds := insert p (usedPolicyIds s),
       policies := (policies s)(p \<mapsto> \<lparr>pol_ID = p, pol_Resource = resource\<rparr>),
       identities := with_policy (identities s) p A\<rparr>"

lemma unused_not_attached: "iam_wf s \<Longrightarrow> p \<notin> usedPolicyIds s \<Longrightarrow> p \<notin> policy_set (identities s) i"
  by (force simp: iam_wf_def policy_set_def split: option.splits)

lemma policy_set_with:
  "policy_set (with_policy idents p A) i =
    (if i \<in> A \<and> i \<in> dom idents then insert p (policy_set idents i) else policy_set idents i)"
  by (auto simp: policy_set_def with_policy_def split: option.splits)

lemma allowed_granted:
  assumes "iam_wf s" "p \<notin> usedPolicyIds s"
  shows "allowed (granted s p resource A) r =
    (if r = resource then allowed s r \<union> (A \<inter> dom (identities s)) else allowed s r)"
proof -
  have other: "q \<in> policy_set (identities s) i \<Longrightarrow>
      matches_resource ((policies s)(p \<mapsto> \<lparr>pol_ID = p, pol_Resource = resource\<rparr>)) r q = matches_resource (policies s) r q" for q i r
    using unused_not_attached [OF assms] by (auto simp: matches_resource_def)
  have new: "matches_resource ((policies s)(p \<mapsto> \<lparr>pol_ID = p, pol_Resource = resource\<rparr>)) r p \<longleftrightarrow> r = resource" for r
    by (auto simp: matches_resource_def)
  show ?thesis
    by (auto simp: allowed_def granted_def policy_set_with other new split: if_splits)
qed

lemma iam_wf_granted:
  assumes "iam_wf s" "resource \<noteq> []"
  shows "iam_wf (granted s p resource A)"
proof -
  let ?s = "s\<lparr>usedPolicyIds := insert p (usedPolicyIds s),
       policies := (policies s)(p \<mapsto> \<lparr>pol_ID = p, pol_Resource = resource\<rparr>)\<rparr>"
  have wf: "iam_wf ?s" using assms by (auto simp: iam_wf_def)
  have "iam_wf (?s\<lparr>identities := with_policy (identities s) p A\<rparr>)"
  proof (rule iam_wf_identities [OF wf])
    fix i ids
    assume "with_policy (identities s) p A i = Some ids"
    then obtain ids0 where ids: "identities s i = Some ids0" "ids = ids0 \<or> ids = insert p ids0"
      by (auto simp: with_policy_def split: if_splits)
    with iam_wf_attached [OF wf, of i ids0]
    show "finite ids \<and> (\<forall>q \<in> ids. policies ?s q \<noteq> None)" by auto
  qed simp
  then show ?thesis by (simp add: granted_def)
qed

section \<open>The reconciler, in one equation\<close>

definition revoked :: "IamState \<Rightarrow> string set \<Rightarrow> string \<Rightarrow> IamState" where
  "revoked s desired resource =
     s\<lparr>identities := without_access (identities s) (policies s) resource (allowed s resource - desired)\<rparr>"

lemma reconcile_unfold:
  assumes "iam_range_ok ch" "iam_wf s"
  obtains missing where
    "iam_wf (revoked s desired resource)" and "finite desired \<Longrightarrow> set missing = desired - allowed s resource" and
    "ReconcileIdentityAccess ch desired resource s =
       (if missing = [] then Some (Inr (), revoked s desired resource)
        else case CreatePolicy ch resource (revoked s desired resource) of
               None \<Rightarrow> None
             | Some (Inl e, s2) \<Rightarrow> Some (Inl e, s2)
             | Some (Inr p, s2) \<Rightarrow> Some (attach_all p missing s2))"
proof -
  let ?current = "identitiesWithPolicyForResource ch (identities s) (policies s) resource"
  note current = set_current [OF assms, of resource]
  have revoke: "revoke_undesired ch desired (identities s) (policies s) resource ?current s =
      (Inr (), revoked s desired resource)"
    using revoke_eq [OF assms current(2), of s desired resource] allowed_dom [of s resource]
    by (simp add: current(1) revoked_def)
  show thesis
  proof (rule that [of "missingIdentities ch desired ?current"])
    show "iam_wf (revoked s desired resource)" unfolding revoked_def by (rule iam_wf_without [OF assms(2)])
    show "set (missingIdentities ch desired ?current) = desired - allowed s resource" if "finite desired"
      using set_missing [OF assms(1) that] by (simp add: current(1))
  qed (simp add: ReconcileIdentityAccess_def revoke Let_def)
qed

lemma reconcile_result:
  assumes "iam_range_ok ch" "iam_wf s" "finite desired"
    and "ReconcileIdentityAccess ch desired resource s = Some (r, s')"
  shows "(r = Inr () \<and> desired \<subseteq> allowed s resource \<and> s' = revoked s desired resource) \<or>
    (r = Inl (ErrInvalidID ''empty resource name'') \<and> resource = [] \<and> s' = revoked s desired resource) \<or>
    (\<exists>p A. resource \<noteq> [] \<and> p \<notin> usedPolicyIds s \<and> A \<subseteq> desired - allowed s resource \<and>
      s' = granted (revoked s desired resource) p resource A \<and>
      (if desired \<subseteq> dom (identities s) then r = Inr () \<and> A = desired - allowed s resource
       else \<exists>i \<in> desired. identities s i = None \<and> r = Inl (ErrNotFound ''identity %q'' [i])))"
proof -
  let ?s1 = "revoked s desired resource"
  obtain missing where
    missing: "set missing = desired - allowed s resource" and
    run: "ReconcileIdentityAccess ch desired resource s =
       (if missing = [] then Some (Inr (), ?s1)
        else case CreatePolicy ch resource ?s1 of
               None \<Rightarrow> None
             | Some (Inl e, s2) \<Rightarrow> Some (Inl e, s2)
             | Some (Inr p, s2) \<Rightarrow> Some (attach_all p missing s2))"
    by (rule reconcile_unfold [OF assms(1,2), of desired resource], rule that) (use assms(3) in simp_all)
  consider (none) "missing = []" | (empty) "missing \<noteq> []" "resource = []" | (grant) "missing \<noteq> []" "resource \<noteq> []" by blast
  then show ?thesis
  proof cases
    case none
    then show ?thesis using missing run assms(4) by auto
  next
    case empty
    then show ?thesis using run assms(4) by (auto simp: CreatePolicy_def)
  next
    case grant
    from grant run assms(4) obtain p s2 where gen: "generateNewPolicyIDAndUpdate ch ?s1 = Some (p, s2)"
      by (auto simp: CreatePolicy_def split: option.splits)
    let ?s2 = "?s1\<lparr>usedPolicyIds := insert p (usedPolicyIds ?s1),
       policies := (policies ?s1)(p \<mapsto> \<lparr>pol_ID = p, pol_Resource = resource\<rparr>)\<rparr>"
    have out: "(r, s') = attach_all p missing ?s2"
      using grant run assms(4) gen generateNewPolicyID_frame [OF gen] by (auto simp: CreatePolicy_def)
    have parts: "fst (attach_all p missing ?s2) = r" "snd (attach_all p missing ?s2) = s'"
      using out by (metis fst_conv) (use out in \<open>metis snd_conv\<close>)
    have defined: "policies ?s2 p \<noteq> None" by simp
    from attach_all_eq [OF defined, of missing] obtain A where A: "A \<subseteq> set missing"
      "s' = ?s2\<lparr>identities := with_policy (identities ?s2) p A\<rparr>"
      "if set missing \<subseteq> dom (identities ?s2) then r = Inr () \<and> A = set missing
       else \<exists>i \<in> set missing. identities ?s2 i = None \<and> r = Inl (ErrNotFound ''identity %q'' [i])"
      unfolding parts by (elim exE conjE)
    have dom: "dom (identities ?s2) = dom (identities s)" by (simp add: revoked_def)
    have sub: "set missing \<subseteq> dom (identities s) \<longleftrightarrow> desired \<subseteq> dom (identities s)"
      using allowed_dom [of s resource] missing by auto
    have none: "identities ?s2 i = None \<longleftrightarrow> identities s i = None" for i
      by (simp add: revoked_def without_access_def)
    have "p \<notin> usedPolicyIds s" using policy_ids.alloc_fresh [OF gen] by (simp add: revoked_def)
    moreover have "s' = granted ?s1 p resource A" using A(2) by (simp add: granted_def)
    moreover have "if desired \<subseteq> dom (identities s) then r = Inr () \<and> A = desired - allowed s resource
       else \<exists>i \<in> desired. identities s i = None \<and> r = Inl (ErrNotFound ''identity %q'' [i])"
      using A(3) unfolding dom none sub by (auto simp: missing split: if_splits)
    moreover have "A \<subseteq> desired - allowed s resource" using A(1) missing by simp
    ultimately show ?thesis using grant(2) by blast
  qed
qed

section \<open>Properties\<close>

lemma revoked_simps [simp]:
  "dom (identities (revoked s desired resource)) = dom (identities s)"
  "policies (revoked s desired resource) = policies s"
  "usedPolicyIds (revoked s desired resource) = usedPolicyIds s"
  by (simp_all add: revoked_def)

lemma revoked_identity: "identities (revoked s desired resource) i = None \<longleftrightarrow> identities s i = None"
  by (simp add: revoked_def without_access_def)

lemma granted_dom [simp]: "dom (identities (granted s p resource A)) = dom (identities s)"
  by (simp add: granted_def)

lemma revoked_wf: "iam_wf s \<Longrightarrow> iam_wf (revoked s desired resource)"
  by (simp add: revoked_def iam_wf_without)

lemma allowed_revoked:
  "allowed (revoked s desired resource) r = (if r = resource then allowed s resource \<inter> desired else allowed s r)"
  by (auto simp: revoked_def allowed_without)

lemma reconcile_access:
  assumes "iam_range_ok ch" "iam_wf s" "finite desired"
    and "ReconcileIdentityAccess ch desired resource s = Some (r, s')"
  shows "iam_wf s'" "dom (identities s') = dom (identities s)"
    "\<forall>other. other \<noteq> resource \<longrightarrow> allowed s' other = allowed s other"
    "allowed s resource \<inter> desired \<subseteq> allowed s' resource" "allowed s' resource \<subseteq> desired"
    "r = Inr () \<Longrightarrow> allowed s' resource = desired"
    "\<And>e. r = Inl e \<Longrightarrow> (resource = [] \<and> e = ErrInvalidID ''empty resource name'') \<or>
        (\<exists>i \<in> desired. identities s i = None \<and> e = ErrNotFound ''identity %q'' [i])"
proof -
  note wf = revoked_wf [OF assms(2), of desired resource]
  note [simp] = allowed_revoked
  have granted: "allowed (granted (revoked s desired resource) p resource A) other =
      (if other = resource then (allowed s resource \<inter> desired) \<union> (A \<inter> dom (identities s)) else allowed s other)"
    if "p \<notin> usedPolicyIds s" for p A other
    using allowed_granted [OF wf, of p resource A other] that by simp
  from reconcile_result [OF assms] consider
      (revoked) "r = Inr ()" "desired \<subseteq> allowed s resource" "s' = revoked s desired resource"
    | (empty) "r = Inl (ErrInvalidID ''empty resource name'')" "resource = []" "s' = revoked s desired resource"
    | (granted) p A where "resource \<noteq> []" "p \<notin> usedPolicyIds s" "A \<subseteq> desired - allowed s resource"
      "s' = granted (revoked s desired resource) p resource A"
      "if desired \<subseteq> dom (identities s) then r = Inr () \<and> A = desired - allowed s resource
       else \<exists>i \<in> desired. identities s i = None \<and> r = Inl (ErrNotFound ''identity %q'' [i])"
    by blast
  note cases = this
  show "iam_wf s'" by (rule cases) (simp_all add: revoked_wf [OF assms(2)] iam_wf_granted)
  show "dom (identities s') = dom (identities s)" by (rule cases) simp_all
  show "\<forall>other. other \<noteq> resource \<longrightarrow> allowed s' other = allowed s other" by (rule cases) (simp_all add: granted)
  show "allowed s resource \<inter> desired \<subseteq> allowed s' resource" by (rule cases) (auto simp: granted)
  show "allowed s' resource \<subseteq> desired" by (rule cases) (auto simp: granted)
  show "allowed s' resource = desired" if "r = Inr ()"
    by (rule cases) (use that in \<open>auto simp: granted split: if_splits\<close>)
  show "(resource = [] \<and> e = ErrInvalidID ''empty resource name'') \<or>
      (\<exists>i \<in> desired. identities s i = None \<and> e = ErrNotFound ''identity %q'' [i])" if "r = Inl e" for e
    by (rule cases) (use that in \<open>auto split: if_splits\<close>)
qed

definition iam_example_state :: IamState where
  "iam_example_state =
     \<lparr>identities = [''alice'' \<mapsto> {''policy-7''}, ''bob'' \<mapsto> {}],
      policies = [''policy-7'' \<mapsto> \<lparr>pol_ID = ''policy-7'', pol_Resource = ''bucket''\<rparr>],
      usedPolicyIds = {''policy-7''}\<rparr>"

lemma iam_example_wf: "iam_wf iam_example_state"
  by (simp add: iam_wf_def iam_example_state_def)

text \<open>The example takes access to the bucket from alice and gives it to bob.\<close>

definition iam_example_after :: IamState where
  "iam_example_after =
     \<lparr>identities = [''alice'' \<mapsto> {}, ''bob'' \<mapsto> {''policy-0''}],
      policies = [''policy-7'' \<mapsto> \<lparr>pol_ID = ''policy-7'', pol_Resource = ''bucket''\<rparr>,
                  ''policy-0'' \<mapsto> \<lparr>pol_ID = ''policy-0'', pol_Resource = ''bucket''\<rparr>],
      usedPolicyIds = {''policy-7'', ''policy-0''}\<rparr>"

text \<open>C30: Reconciling gives the resource to exactly the desired identities: when it succeeds, the
  identities with access to the resource are the desired ones and a second run changes nothing.\<close>

theorem reconcile_success:
  assumes "iam_range_ok ch" "iam_wf s" "finite desired"
    and "ReconcileIdentityAccess ch desired resource s = Some (Inr (), s')"
  shows "allowed s' resource = desired \<and>
    ReconcileIdentityAccess ch desired resource s' = Some (Inr (), s')"
proof -
  note access = reconcile_access [OF assms]
  have reached: "allowed s' resource = desired" using access(6) by simp
  obtain missing where "iam_wf (revoked s' desired resource)" "set missing = desired - allowed s' resource"
    and again: "ReconcileIdentityAccess ch desired resource s' =
       (if missing = [] then Some (Inr (), revoked s' desired resource)
        else case CreatePolicy ch resource (revoked s' desired resource) of
               None \<Rightarrow> None
             | Some (Inl e, s2) \<Rightarrow> Some (Inl e, s2)
             | Some (Inr p, s2) \<Rightarrow> Some (attach_all p missing s2))"
    by (rule reconcile_unfold [OF assms(1) access(1), of desired resource], rule that) (use assms(3) in simp_all)
  moreover have "revoked s' desired resource = s'" by (simp add: revoked_def reached without_access_none)
  ultimately show ?thesis using reached by simp
qed

text \<open>Whatever the outcome, reconciling never leaves access with an identity that is not
  desired, never takes it from one that is, and changes no other resource's access; it fails only
  for an empty resource name or a desired identity that does not exist.\<close>

theorem reconcile_any_outcome:
  assumes "iam_range_ok ch" "iam_wf s" "finite desired"
    and "ReconcileIdentityAccess ch desired resource s = Some (r, s')"
  shows "iam_wf s' \<and> dom (identities s') = dom (identities s) \<and>
    allowed s resource \<inter> desired \<subseteq> allowed s' resource \<and> allowed s' resource \<subseteq> desired \<and>
    (\<forall>other. other \<noteq> resource \<longrightarrow> allowed s' other = allowed s other) \<and>
    (case r of Inr _ \<Rightarrow> desired \<subseteq> dom (identities s)
     | Inl e \<Rightarrow> (resource = [] \<and> e = ErrInvalidID ''empty resource name'') \<or>
         (\<exists>i \<in> desired. identities s i = None \<and> e = ErrNotFound ''identity %q'' [i]))"
proof -
  note access = reconcile_access [OF assms]
  have "desired \<subseteq> dom (identities s)" if "r = Inr ()"
    using access(2) access(6) [OF that] allowed_dom [of s' resource] by simp
  then show ?thesis using access(1-5) access(7) by (cases r) auto
qed

text \<open>C31: Reconciling returns as soon as the random source offers an unused policy id, and it
  succeeds when the resource has a name and every desired identity exists.\<close>

theorem reconcile_returns:
  assumes "iam_range_ok ch" "iam_wf s" "finite desired"
    and "generatePolicyID (i_int63 ch n) \<notin> usedPolicyIds s"
  shows "\<exists>r s'. ReconcileIdentityAccess ch desired resource s = Some (r, s') \<and>
    (resource \<noteq> [] \<and> desired \<subseteq> dom (identities s) \<longrightarrow> r = Inr ())"
proof -
  obtain missing where "iam_wf (revoked s desired resource)"
    and run: "ReconcileIdentityAccess ch desired resource s =
       (if missing = [] then Some (Inr (), revoked s desired resource)
        else case CreatePolicy ch resource (revoked s desired resource) of
               None \<Rightarrow> None
             | Some (Inl e, s2) \<Rightarrow> Some (Inl e, s2)
             | Some (Inr p, s2) \<Rightarrow> Some (attach_all p missing s2))"
    by (rule reconcile_unfold [OF assms(1,2), of desired resource], rule that) simp_all
  have "draw_fresh (\<lambda>i. generatePolicyID (i_int63 ch i)) (\<lambda>p. p \<in> usedPolicyIds s) 0 \<noteq> None"
    using assms(4) draw_fresh_returns [of 0 n "\<lambda>p. p \<in> usedPolicyIds s" "\<lambda>i. generatePolicyID (i_int63 ch i)"] by auto
  then have "CreatePolicy ch resource (revoked s desired resource) \<noteq> None"
    by (auto simp: CreatePolicy_def generateNewPolicyIDAndUpdate_def split: option.splits)
  then have "ReconcileIdentityAccess ch desired resource s \<noteq> None"
    by (auto simp: run split: option.splits sum.splits)
  then obtain r s' where result: "ReconcileIdentityAccess ch desired resource s = Some (r, s')" by auto
  then show ?thesis
    using reconcile_access(7) [OF assms(1-3) result] by (cases r) auto
qed

lemma iam_example_order [simp]:
  "sorted_list_of_set {''policy-7''} = [''policy-7'']" "sorted_list_of_set {''bob''} = [''bob'']"
  "sorted_list_of_set {''bob'', ''alice''} = [''alice'', ''bob'']"
  by simp_all

lemmas iam_example_defs = identitiesWithPolicyForResource_def hasPolicyForResource_def policiesForResource_def
  missingIdentities_def containsIdentity_def policy_set_def matches_resource_def iam_example_choices_def

lemma iam_example_current:
  "identitiesWithPolicyForResource iam_example_choices (identities iam_example_state) (policies iam_example_state) ''bucket''
    = [''alice'']"
  by (simp add: iam_example_defs iam_example_state_def)

lemma iam_example_revoke:
  "revoke_undesired iam_example_choices {''bob''} (identities iam_example_state) (policies iam_example_state) ''bucket''
      [''alice''] iam_example_state =
    (Inr (), iam_example_state\<lparr>identities := [''alice'' \<mapsto> {}, ''bob'' \<mapsto> {}]\<rparr>)"
  by (simp add: iam_example_defs iam_example_state_def DetachIdentityPolicy_def fun_upd_twist)

lemma iam_example_missing: "missingIdentities iam_example_choices {''bob''} [''alice''] = [''bob'']"
  by (simp add: iam_example_defs)

lemma iam_example_policy_0: "generatePolicyID 0 = ''policy-0''"
  by (simp add: generatePolicyID_def) (subst format_nat.simps, simp add: digit_char_def char_of_def bit_iff_odd)

lemma iam_example_run:
  "ReconcileIdentityAccess iam_example_choices {''bob''} ''bucket'' iam_example_state = Some (Inr (), iam_example_after)"
proof -
  let ?s = "iam_example_state\<lparr>identities := [''alice'' \<mapsto> {}, ''bob'' \<mapsto> {}]\<rparr>"
  have "generatePolicyID 0 \<notin> usedPolicyIds ?s" by (simp add: iam_example_policy_0 iam_example_state_def)
  from iam_example_policy [OF this, of "''bucket''"]
  have create: "CreatePolicy iam_example_choices ''bucket'' ?s = Some (Inr ''policy-0'',
      ?s\<lparr>usedPolicyIds := insert ''policy-0'' (usedPolicyIds ?s),
        policies := (policies ?s)(''policy-0'' \<mapsto> \<lparr>pol_ID = ''policy-0'', pol_Resource = ''bucket''\<rparr>)\<rparr>)"
    by (simp add: iam_example_policy_0)
  show ?thesis
    by (simp add: ReconcileIdentityAccess_def iam_example_current iam_example_revoke iam_example_missing create
        del: revoke_undesired.simps attach_all.simps)
      (simp add: AttachIdentityPolicy_def iam_example_state_def iam_example_after_def insert_commute)
qed

lemma iam_example_new_id: "generatePolicyID (i_int63 iam_example_choices 0) \<notin> usedPolicyIds iam_example_state"
  using iam_example_policy_0 by (simp add: iam_example_choices_def iam_example_state_def)

theorem reconcile_success_witness:
  "ReconcileIdentityAccess iam_example_choices {''bob''} ''bucket'' iam_example_state = Some (Inr (), iam_example_after) \<and>
    allowed iam_example_after ''bucket'' = {''bob''} \<and>
    ReconcileIdentityAccess iam_example_choices {''bob''} ''bucket'' iam_example_after = Some (Inr (), iam_example_after)"
  using reconcile_success [OF iam_example_range_ok iam_example_wf _ iam_example_run] iam_example_run by simp

theorem reconcile_any_outcome_witness:
  "ReconcileIdentityAccess iam_example_choices {''bob''} ''bucket'' iam_example_state = Some (Inr (), iam_example_after) \<and>
    allowed iam_example_after ''bucket'' \<subseteq> {''bob''} \<and> iam_wf iam_example_after"
  using reconcile_any_outcome [OF iam_example_range_ok iam_example_wf _ iam_example_run] iam_example_run by simp

theorem reconcile_returns_witness:
  "\<exists>s'. ReconcileIdentityAccess iam_example_choices {''bob''} ''bucket'' iam_example_state = Some (Inr (), s')"
  using reconcile_returns [OF iam_example_range_ok iam_example_wf _ iam_example_new_id, of "{''bob''}" "''bucket''"]
  by (auto simp: iam_example_state_def)

end
