(* ===== verification/Ctl_Client.thy ===== *)
theory Ctl_Client
  imports Api_System
begin

text \<open>
  What the controllers of src/controllers see of the cluster: the client, the listers and the
  indexers, wired to the API model as src/src/trusted_code/k8s_io/client_go does it (client
  \<open>Update\<close> is the transactional update, listers and indexers read the model itself), and the
  helper functions of k8s.io/kubernetes the controllers call, as src/src/code translates them.

  A controller step is a function on a \<open>World\<close>: the state of the API model, the number of calls
  made so far, and the history of the write requests sent. The n-th call takes its random choices
  and the actions of the other clients from the cluster, so any interleaving is covered.
\<close>

section \<open>Worlds and steps\<close>

datatype client_write =
    WPodCreate string Pod
  | WPodUpdate string Pod
  | WPodDelete string string DeleteOptions
  | WClaimCreate string PersistentVolumeClaim
  | WReplicaSetCreate string ReplicaSet
  | WReplicaSetUpdate string ReplicaSet
  | WReplicaSetUpdateStatus string ReplicaSet
  | WServiceAccountCreate string ServiceAccount
  | WClusterRoleUpdate ClusterRole

record World =
  w_state :: State
  w_calls :: nat
  w_log :: "client_write list"

record cluster =
  cl_env :: env
  cl_choices :: "nat \<Rightarrow> nat \<Rightarrow> choices"
  cl_others :: "nat \<Rightarrow> interference"

type_synonym 'a step = "World \<Rightarrow> ((error + 'a) \<times> World) option"

definition done_with :: "'a \<Rightarrow> 'a step" where "done_with x w = Some (Inr x, w)"
definition fail_with :: "error \<Rightarrow> 'a step" where "fail_with e w = Some (Inl e, w)"

text \<open>\<open>x, err := m; k\<close> with the error in hand, and \<open>x, err := m; if err != nil { return err }; k\<close>.\<close>

definition with_result :: "'a step \<Rightarrow> (error + 'a \<Rightarrow> 'b step) \<Rightarrow> 'b step" where
  "with_result m k w = (case m w of None \<Rightarrow> None | Some (r, w') \<Rightarrow> k r w')"

definition and_then :: "'a step \<Rightarrow> ('a \<Rightarrow> 'b step) \<Rightarrow> 'b step" where
  "and_then m k = with_result m (\<lambda>r. case r of Inl e \<Rightarrow> fail_with e | Inr x \<Rightarrow> k x)"

definition lift_result :: "error + 'a \<Rightarrow> 'a step" where
  "lift_result r w = Some (r, w)"

lemma with_result_cong [fundef_cong]:
  "w = w' \<Longrightarrow> m w' = m' w' \<Longrightarrow> (\<And>r w1. m' w' = Some (r, w1) \<Longrightarrow> k r w1 = k' r w1) \<Longrightarrow>
    with_result m k w = with_result m' k' w'"
  by (simp add: with_result_def split: option.split)

section \<open>The client, the listers and the indexers\<close>

definition kube_call ::
  "cluster \<Rightarrow> client_write list \<Rightarrow> (env \<Rightarrow> (nat \<Rightarrow> choices) \<Rightarrow> interference \<Rightarrow> State \<Rightarrow> 'a call) \<Rightarrow> 'a step" where
  "kube_call C ws f w =
     (case f (cl_env C) (cl_choices C (w_calls w)) (cl_others C (w_calls w)) (w_state w) of
        None \<Rightarrow> None
      | Some (r, s') \<Rightarrow> Some (r, \<lparr>w_state = s', w_calls = Suc (w_calls w), w_log = w_log w @ ws\<rparr>))"

text \<open>A single request happens after whatever the other clients do before it.\<close>

definition single ::
  "(env \<Rightarrow> choices \<Rightarrow> State \<Rightarrow> 'a call) \<Rightarrow> env \<Rightarrow> (nat \<Rightarrow> choices) \<Rightarrow> interference \<Rightarrow> State \<Rightarrow> 'a call" where
  "single f = (\<lambda>E chs others s. f E (chs 0) (others 0 s))"

definition kube_read :: "cluster \<Rightarrow> (choices \<Rightarrow> State \<Rightarrow> error + 'a) \<Rightarrow> 'a step" where
  "kube_read C f = kube_call C [] (single (\<lambda>E ch s. Some (f ch s, s)))"

definition pods_create :: "cluster \<Rightarrow> string \<Rightarrow> Pod \<Rightarrow> Pod step" where
  "pods_create C ns pod = kube_call C [WPodCreate ns pod] (single (\<lambda>E ch. PodCreate E ch ns pod))"

definition pods_update :: "cluster \<Rightarrow> string \<Rightarrow> Pod \<Rightarrow> Pod step" where
  "pods_update C ns pod = kube_call C [WPodUpdate ns pod] (\<lambda>E chs others. PodUpdateTx E chs others ns pod)"

definition pods_delete :: "cluster \<Rightarrow> string \<Rightarrow> string \<Rightarrow> DeleteOptions \<Rightarrow> unit step" where
  "pods_delete C ns name options =
     kube_call C [WPodDelete ns name options] (single (\<lambda>E ch. PodDelete E ch ns name options))"

definition claims_create :: "cluster \<Rightarrow> string \<Rightarrow> PersistentVolumeClaim \<Rightarrow> PersistentVolumeClaim step" where
  "claims_create C ns pvc =
     kube_call C [WClaimCreate ns pvc] (single (\<lambda>E ch. PersistentVolumeClaimCreate E ch ns pvc))"

definition replicasets_create :: "cluster \<Rightarrow> string \<Rightarrow> ReplicaSet \<Rightarrow> ReplicaSet step" where
  "replicasets_create C ns rs =
     kube_call C [WReplicaSetCreate ns rs] (single (\<lambda>E ch. ReplicaSetCreate E ch ns rs))"

definition replicasets_update :: "cluster \<Rightarrow> string \<Rightarrow> ReplicaSet \<Rightarrow> ReplicaSet step" where
  "replicasets_update C ns rs =
     kube_call C [WReplicaSetUpdate ns rs] (\<lambda>E chs others. ReplicaSetUpdateTx E chs others ns rs)"

definition replicasets_update_status :: "cluster \<Rightarrow> string \<Rightarrow> ReplicaSet \<Rightarrow> ReplicaSet step" where
  "replicasets_update_status C ns rs =
     kube_call C [WReplicaSetUpdateStatus ns rs] (\<lambda>E chs others. ReplicaSetUpdateStatusTx E chs others ns rs)"

definition serviceaccounts_create :: "cluster \<Rightarrow> string \<Rightarrow> ServiceAccount \<Rightarrow> ServiceAccount step" where
  "serviceaccounts_create C ns sa =
     kube_call C [WServiceAccountCreate ns sa] (single (\<lambda>E ch. ServiceAccountCreate E ch ns sa))"

definition clusterroles_update :: "cluster \<Rightarrow> ClusterRole \<Rightarrow> ClusterRole step" where
  "clusterroles_update C cr =
     kube_call C [WClusterRoleUpdate cr] (\<lambda>E chs others. ClusterRoleUpdateTx E chs others cr)"

section \<open>What every step keeps\<close>

definition cluster_ok :: "cluster \<Rightarrow> bool" where
  "cluster_ok C \<longleftrightarrow> upstream_laws (cl_env C) \<and> (\<forall>n. fair_others (cl_others C n)) \<and>
     (\<forall>n i. range_ok (cl_choices C n i))"

definition advances :: "(client_write \<Rightarrow> bool) \<Rightarrow> World \<Rightarrow> World \<Rightarrow> bool" where
  "advances P w w' \<longleftrightarrow>
     (\<exists>ws. w_log w' = w_log w @ ws \<and> list_all P ws) \<and> w_calls w \<le> w_calls w' \<and>
     wf_state (w_state w') \<and> evolves (w_state w) (w_state w')"

text \<open>
  \<open>sends C P m Q\<close>: run on a well-formed state, in a cluster whose other clients keep the API's
  contract, \<open>m\<close> keeps that contract, sends only requests that satisfy \<open>P\<close>, and ends with a
  result and a state related by \<open>Q\<close>.
\<close>

definition sends :: "cluster \<Rightarrow> (client_write \<Rightarrow> bool) \<Rightarrow> 'a step \<Rightarrow> (error + 'a \<Rightarrow> State \<Rightarrow> bool) \<Rightarrow> bool" where
  "sends C P m Q \<longleftrightarrow> (\<forall>w r w'. cluster_ok C \<longrightarrow> wf_state (w_state w) \<longrightarrow> m w = Some (r, w') \<longrightarrow>
     advances P w w' \<and> Q r (w_state w'))"

abbreviation sends_only :: "cluster \<Rightarrow> (client_write \<Rightarrow> bool) \<Rightarrow> 'a step \<Rightarrow> bool" where
  "sends_only C P m \<equiv> sends C P m (\<lambda>_ _. True)"

named_theorems sends_intros

lemma advances_refl [simp]: "wf_state (w_state w) \<Longrightarrow> advances P w w"
  by (simp add: advances_def)

lemma advances_trans:
  assumes "advances P w w1" "advances P w1 w2"
  shows "advances P w w2"
proof -
  obtain ws1 where 1: "w_log w1 = w_log w @ ws1" "list_all P ws1" using assms(1) unfolding advances_def by blast
  obtain ws2 where 2: "w_log w2 = w_log w1 @ ws2" "list_all P ws2" using assms(2) unfolding advances_def by blast
  have "w_log w2 = w_log w @ (ws1 @ ws2)" "list_all P (ws1 @ ws2)" using 1 2 by simp_all
  moreover have "evolves (w_state w) (w_state w2)" using assms evolves_trans unfolding advances_def by blast
  ultimately show ?thesis using assms unfolding advances_def by (meson le_trans)
qed

lemma advances_mono: "advances P w w' \<Longrightarrow> (\<And>x. P x \<Longrightarrow> Q x) \<Longrightarrow> advances Q w w'"
  unfolding advances_def by (metis (mono_tags, lifting) list.pred_mono_strong)

lemma sendsI:
  "(\<And>w r w'. cluster_ok C \<Longrightarrow> wf_state (w_state w) \<Longrightarrow> m w = Some (r, w') \<Longrightarrow> advances P w w' \<and> Q r (w_state w')) \<Longrightarrow>
    sends C P m Q"
  by (simp add: sends_def)

lemma sendsD:
  "sends C P m Q \<Longrightarrow> cluster_ok C \<Longrightarrow> wf_state (w_state w) \<Longrightarrow> m w = Some (r, w') \<Longrightarrow> advances P w w' \<and> Q r (w_state w')"
  by (simp add: sends_def)

lemma sends_mono:
  "sends C P m Q \<Longrightarrow> (\<And>x. P x \<Longrightarrow> P' x) \<Longrightarrow> (\<And>r s. Q r s \<Longrightarrow> Q' r s) \<Longrightarrow> sends C P' m Q'"
  unfolding sends_def using advances_mono by blast

lemma sends_only_mono: "sends_only C P m \<Longrightarrow> (\<And>x. P x \<Longrightarrow> P' x) \<Longrightarrow> sends_only C P' m"
  by (erule sends_mono) simp_all

lemma sends_weaken: "sends C P m Q \<Longrightarrow> sends_only C P m"
  by (erule sends_mono) simp_all

lemma sends_done: "(\<And>s. Q (Inr x) s) \<Longrightarrow> sends C P (done_with x) Q"
  by (simp add: sends_def done_with_def)

lemma sends_fail: "(\<And>s. Q (Inl e) s) \<Longrightarrow> sends C P (fail_with e) Q"
  by (simp add: sends_def fail_with_def)

lemma sends_lift: "(\<And>s. Q r s) \<Longrightarrow> sends C P (lift_result r) Q"
  by (simp add: sends_def lift_result_def)

lemma sends_then:
  assumes "sends C P m R" "\<And>r s. wf_state s \<Longrightarrow> R r s \<Longrightarrow> sends C P (k r) Q"
  shows "sends C P (with_result m k) Q"
proof (rule sendsI)
  fix w r w'
  assume ok: "cluster_ok C" "wf_state (w_state w)" and run: "with_result m k w = Some (r, w')"
  from run obtain r1 w1 where "m w = Some (r1, w1)" and rest: "k r1 w1 = Some (r, w')"
    by (auto simp: with_result_def split: option.splits)
  with sendsD [OF assms(1) ok] have 1: "advances P w w1" "R r1 (w_state w1)" by auto
  then have wf: "wf_state (w_state w1)" by (simp add: advances_def)
  from sendsD [OF assms(2) [OF wf 1(2)] ok(1) wf rest] 1(1) advances_trans
  show "advances P w w' \<and> Q r (w_state w')" by blast
qed

lemma sends_case_sum:
  "(\<And>e. r = Inl e \<Longrightarrow> sends C P (f e) Q) \<Longrightarrow> (\<And>x. r = Inr x \<Longrightarrow> sends C P (g x) Q) \<Longrightarrow>
    sends C P (case r of Inl e \<Rightarrow> f e | Inr x \<Rightarrow> g x) Q"
  by (cases r) simp_all

lemma sends_and_then:
  "sends C P m R \<Longrightarrow> (\<And>x s. wf_state s \<Longrightarrow> R (Inr x) s \<Longrightarrow> sends C P (k x) Q) \<Longrightarrow>
    (\<And>e s s'. wf_state s \<Longrightarrow> R (Inl e) s \<Longrightarrow> Q (Inl e) s') \<Longrightarrow> sends C P (and_then m k) Q"
  unfolding and_then_def by (erule sends_then) (rule sends_case_sum, auto intro: sends_fail)

lemma sends_if:
  "(b \<Longrightarrow> sends C P m Q) \<Longrightarrow> (\<not> b \<Longrightarrow> sends C P m' Q) \<Longrightarrow> sends C P (if b then m else m') Q"
  by simp

lemma sends_only_then:
  "sends_only C P m \<Longrightarrow> (\<And>r. sends_only C P (k r)) \<Longrightarrow> sends_only C P (with_result m k)"
  by (erule sends_then)

lemma sends_only_and_then:
  "sends_only C P m \<Longrightarrow> (\<And>x. sends_only C P (k x)) \<Longrightarrow> sends_only C P (and_then m k)"
  by (erule sends_and_then)

lemma sends_only_done: "sends_only C P (done_with x)" by (rule sends_done) simp
lemma sends_only_fail: "sends_only C P (fail_with e)" by (rule sends_fail) simp
lemma sends_only_lift: "sends_only C P (lift_result r)" by (rule sends_lift) simp

declare sends_only_done [sends_intros] and sends_only_fail [sends_intros] and sends_only_lift [sends_intros]
  and sends_if [sends_intros] and sends_only_then [sends_intros] and sends_only_and_then [sends_intros]

section \<open>The requests keep the contract of the API\<close>

context optimistic_write
begin

lemma attempt_contract:
  assumes "upstream_laws E" "fair_others others" "wf_state s"
    and "update_attempt upd msg E chs others kind namespace ob i s = Some (a, s')"
  shows "wf_state s' \<and> evolves s s'"
proof -
  let ?s0 = "others (2 * i) s" and ?s1 = "others (2 * i + 1) (others (2 * i) s)"
  have s0: "wf_state ?s0" "evolves s ?s0" using assms(2,3) by (simp_all add: fair_others_def)
  then have s1: "wf_state ?s1" "evolves s ?s1" using assms(2) evolves_trans unfolding fair_others_def by blast+
  have conflict: "conflict_retries p = (a, s') \<Longrightarrow> s' = snd p" for p :: "(error + kobject) \<times> State"
    by (cases p) (simp add: conflict_retries_def)
  show ?thesis
  proof (cases "s' = ?s0")
    case False
    with assms(4) obtain ob1 p where "upd E (chs i) kind namespace ob1 ?s1 = Some p" "conflict_retries p = (a, s')"
      by (auto simp: update_attempt_def Let_def split: sum.splits if_splits)
    with conflict upd_contract [OF assms(1) s1(1)] have "wf_state s' \<and> evolves ?s1 s'"
      by (metis prod.collapse)
    with s1 evolves_trans show ?thesis by blast
  qed (use s0 in simp)
qed

lemma tx_contract:
  assumes "upstream_laws E" "fair_others others" "wf_state s"
    and "tx_loop (update_attempt upd msg E chs others kind namespace ob) 0 s = Some (r, s')"
  shows "wf_state s' \<and> evolves s s'"
proof (rule tx_loop_rule [OF assms(4), where I = "\<lambda>s1. wf_state s1 \<and> evolves s s1" and Q = "\<lambda>r s1. wf_state s1 \<and> evolves s s1"])
  fix i s1 s2
  assume "wf_state s1 \<and> evolves s s1" "update_attempt upd msg E chs others kind namespace ob i s1 = Some (Retry, s2)"
  then show "wf_state s2 \<and> evolves s s2" using attempt_contract [OF assms(1,2)] evolves_trans by blast
next
  fix i s1 r s2
  assume "wf_state s1 \<and> evolves s s1" "update_attempt upd msg E chs others kind namespace ob i s1 = Some (Return r, s2)"
  then show "wf_state s2 \<and> evolves s s2" using attempt_contract [OF assms(1,2)] evolves_trans by blast
qed (use assms(3) in simp)

end

definition keeps_contract :: "(env \<Rightarrow> (nat \<Rightarrow> choices) \<Rightarrow> interference \<Rightarrow> State \<Rightarrow> 'a call) \<Rightarrow> bool" where
  "keeps_contract f \<longleftrightarrow> (\<forall>E chs others s r s'. upstream_laws E \<longrightarrow> fair_others others \<longrightarrow> wf_state s \<longrightarrow>
     f E chs others s = Some (r, s') \<longrightarrow> wf_state s' \<and> evolves s s')"

lemma keeps_assert: "keeps_contract f \<Longrightarrow> keeps_contract (\<lambda>E chs others s. assert_call as msg (f E chs others s))"
  unfolding keeps_contract_def assert_call_def by fastforce

lemma keeps_updateTx: "keeps_contract (\<lambda>E chs others. updateTx E chs others kind ns ob)"
  using update_tx.tx_contract by (auto simp: keeps_contract_def updateTx_def)

lemma keeps_updateStatusTx: "keeps_contract (\<lambda>E chs others. updateStatusTx E chs others kind ns ob)"
  using update_status_tx.tx_contract by (auto simp: keeps_contract_def updateStatusTx_def)

lemma keeps_single:
  assumes "\<And>E ch s r s'. upstream_laws E \<Longrightarrow> wf_state s \<Longrightarrow> f E ch s = Some (r, s') \<Longrightarrow> wf_state s' \<and> evolves s s'"
  shows "keeps_contract (single f)"
  using assms evolves_trans unfolding keeps_contract_def single_def fair_others_def by blast

lemma keeps_create: "kind_of ob = kind \<Longrightarrow> keeps_contract (single (\<lambda>E ch. create E ch kind ns ob))"
  by (rule keeps_single) (auto dest: create_wf)

lemma keeps_delete: "keeps_contract (single (\<lambda>E ch. delete E ch key options))"
  by (rule keeps_single) (auto dest: delete_wf)

lemma single_assert:
  "single (\<lambda>E ch s. assert_call as msg (f E ch s)) = (\<lambda>E chs others s. assert_call as msg (single f E chs others s))"
  by (simp add: single_def)

lemma sends_kube_call:
  assumes "keeps_contract f" "list_all P ws"
  shows "sends_only C P (kube_call C ws f)"
proof (rule sendsI)
  fix w r w'
  assume ok: "cluster_ok C" "wf_state (w_state w)" and run: "kube_call C ws f w = Some (r, w')"
  from run obtain s' where "f (cl_env C) (cl_choices C (w_calls w)) (cl_others C (w_calls w)) (w_state w) = Some (r, s')"
    and w': "w' = \<lparr>w_state = s', w_calls = Suc (w_calls w), w_log = w_log w @ ws\<rparr>"
    by (auto simp: kube_call_def split: option.splits)
  with assms(1) ok have "wf_state s' \<and> evolves (w_state w) s'"
    unfolding keeps_contract_def cluster_ok_def by blast
  with assms(2) w' show "advances P w w' \<and> True" unfolding advances_def by simp
qed

text \<open>A read returns what the read function gives on the state the read leaves.\<close>

lemma sends_read: "sends C P (kube_read C f) (\<lambda>r s. \<exists>ch. range_ok ch \<and> r = f ch s)"
proof (rule sendsI)
  fix w r w'
  assume ok: "cluster_ok C" "wf_state (w_state w)" and run: "kube_read C f w = Some (r, w')"
  let ?s = "cl_others C (w_calls w) 0 (w_state w)" and ?ch = "cl_choices C (w_calls w) 0"
  have w': "w' = \<lparr>w_state = ?s, w_calls = Suc (w_calls w), w_log = w_log w\<rparr>" and r: "r = f ?ch ?s"
    using run by (auto simp: kube_read_def kube_call_def single_def)
  have "wf_state ?s" "evolves (w_state w) ?s" "range_ok ?ch"
    using ok by (simp_all add: cluster_ok_def fair_others_def)
  with w' r show "advances P w w' \<and> (\<exists>ch. range_ok ch \<and> r = f ch (w_state w'))"
    by (auto simp: advances_def)
qed

lemma sends_only_read [sends_intros]: "sends_only C P (kube_read C f)"
  by (rule sends_weaken [OF sends_read])

lemmas client_defs = pods_create_def pods_update_def pods_delete_def claims_create_def replicasets_create_def
  replicasets_update_def replicasets_update_status_def serviceaccounts_create_def clusterroles_update_def

lemma sends_client [sends_intros]:
  "P (WPodCreate ns pod) \<Longrightarrow> sends_only C P (pods_create C ns pod)"
  "P (WPodUpdate ns pod) \<Longrightarrow> sends_only C P (pods_update C ns pod)"
  "P (WPodDelete ns n options) \<Longrightarrow> sends_only C P (pods_delete C ns n options)"
  "P (WClaimCreate ns pvc) \<Longrightarrow> sends_only C P (claims_create C ns pvc)"
  "P (WReplicaSetCreate ns rs) \<Longrightarrow> sends_only C P (replicasets_create C ns rs)"
  "P (WReplicaSetUpdate ns rs) \<Longrightarrow> sends_only C P (replicasets_update C ns rs)"
  "P (WReplicaSetUpdateStatus ns rs) \<Longrightarrow> sends_only C P (replicasets_update_status C ns rs)"
  "P (WServiceAccountCreate ns sa) \<Longrightarrow> sends_only C P (serviceaccounts_create C ns sa)"
  "P (WClusterRoleUpdate cr) \<Longrightarrow> sends_only C P (clusterroles_update C cr)"
  unfolding client_defs PodCreate_def PodUpdateTx_def PodDelete_def PersistentVolumeClaimCreate_def
    ReplicaSetCreate_def ReplicaSetUpdateTx_def ReplicaSetUpdateStatusTx_def ServiceAccountCreate_def
    ClusterRoleUpdateTx_def single_assert
  by (rule sends_kube_call, intro keeps_assert keeps_create keeps_delete keeps_updateTx keeps_updateStatusTx, simp_all)+

section \<open>What a create leaves behind\<close>

lemma create_keeps_keys:
  assumes "create E ch kind namespace ob s = Some (r, s')" "st_m s key \<noteq> None"
  shows "st_m s' key \<noteq> None"
  using assms(1)
proof (cases rule: create_outcomes)
  case (stored md uid s1 name objCopy ob')
  then show ?thesis using assms(2) generateNewUID_frame [OF stored(2)]
    by (elim create_named_stored store_object_Some) auto
qed (use assms(2) in \<open>auto dest!: generateNewUID_frame\<close>)

lemma create_present:
  assumes "upstream_laws E" "Name (metadata ob) \<noteq> []"
    and "create E ch kind namespace ob s = Some (Inr ob', s')"
  shows "st_m s' (KKey kind (Name (metadata ob)) namespace) \<noteq> None"
  using assms(3)
proof (cases rule: create_outcomes)
  case (stored md uid s1 name objCopy ob2)
  have "Name md = Name (metadata ob)"
    using ensure_namespaceD [OF assms(1) stored(1)] assms(1) by (simp add: upstream_laws_def)
  then have "name = Name (metadata ob)" using stored(4) assms(2) by auto
  then show ?thesis using stored(6) by (elim create_named_stored store_object_Some) auto
qed simp_all

text \<open>The functions of k8s.io/kubernetes reject an object as invalid, never as already existing.\<close>

definition answers_no_taken :: "env \<Rightarrow> bool" where
  "answers_no_taken E \<longleftrightarrow>
     (\<forall>ns md e. EnsureObjectNamespaceMatchesRequestNamespace E ns md = Inl e \<longrightarrow> \<not> IsAlreadyExists e) \<and>
     (\<forall>ob name e. applyValidationAndDefaulting E ob name = Inl e \<longrightarrow> \<not> IsAlreadyExists e) \<and>
     (\<forall>md kind e. validateObjectMeta E md kind = Some e \<longrightarrow> \<not> IsAlreadyExists e)"

lemma create_named_taken:
  "answers_no_taken E \<Longrightarrow> create_named E ch kind namespace name ob s = Some (Inl e, s') \<Longrightarrow> IsAlreadyExists e \<Longrightarrow>
    st_m s (KKey kind name namespace) \<noteq> None"
  by (auto simp: create_named_def answers_no_taken_def store_object_def Let_def
      split: sum.splits option.splits if_splits)

lemma create_taken_key:
  assumes "upstream_laws E" "answers_no_taken E" "Name (metadata ob) \<noteq> []"
    and "create E ch kind namespace ob s = Some (Inl e, s')" "IsAlreadyExists e"
  shows "st_m s' (KKey kind (Name (metadata ob)) namespace) \<noteq> None"
proof -
  let ?md = "WipeObjectMetaSystemFields E (metadata ob)"
  obtain md where md: "EnsureObjectNamespaceMatchesRequestNamespace E namespace ?md = Inr md"
    using assms(2,4,5) by (cases "EnsureObjectNamespaceMatchesRequestNamespace E namespace ?md")
      (auto simp: create_def answers_no_taken_def)
  have name: "Name md = Name (metadata ob)"
    using ensure_namespaceD [OF assms(1) md] assms(1) by (simp add: upstream_laws_def)
  obtain uid s1 where uid: "generateNewUIDAndUpdate ch s = Some (uid, s1)"
    using assms(4) md by (auto simp: create_def split: option.splits)
  have named: "create_named E ch kind namespace (Name md)
      (set_metadata ob (md\<lparr>CreationTimestamp := o_now ch, UID := uid\<rparr>)) s1 = Some (Inl e, s')"
    using assms(3,4) md uid name by (simp add: create_def Let_def)
  from create_named_taken [OF assms(2) named assms(5)] create_named_error [OF named] name
  show ?thesis by simp
qed

end
