(* ===== verification/Ctl_Wiring.thy ===== *)
theory Ctl_Wiring
  imports Ctl_Client
begin

text \<open>
  The trusted client and listers of src/src/trusted_code/k8s_io/client_go (gentype.v, listers.v): one
  function per verb, which picks the typed operation of the API model by the Go type of the client
  and panics (\<open>None\<close>) on a type it does not support. The steps of \<open>Ctl_Client\<close> that the controllers
  use are these functions at their types (\<open>wired\<close>), and whatever a client of any type does keeps the
  contract of the API (\<open>client_contract\<close>).
\<close>

section \<open>The client\<close>

datatype client_type = PodType | ReplicaSetType | PersistentVolumeClaimType | StatefulSetType | ServiceAccountType
  | DeploymentType | NamespaceType | ClusterRoleType | OtherType

text \<open>The conversion \<open>any(x).(T)\<close> of a typed result.\<close>

definition returned :: "('a \<Rightarrow> 'b) \<Rightarrow> 'a call \<Rightarrow> 'b call" where
  "returned C c = map_option (\<lambda>(r, s). (map_sum id C r, s)) c"

fun Client_Get :: "client_type \<Rightarrow> State \<Rightarrow> string \<Rightarrow> string \<Rightarrow> (error + kobject) option" where
  "Client_Get PodType s ns name = Some (map_sum id KPod (PodGet s ns name))"
| "Client_Get ReplicaSetType s ns name = Some (map_sum id KReplicaSet (ReplicaSetGet s ns name))"
| "Client_Get PersistentVolumeClaimType s ns name =
     Some (map_sum id KPersistentVolumeClaim (PersistentVolumeClaimGet s ns name))"
| "Client_Get StatefulSetType s ns name = Some (map_sum id KStatefulSet (StatefulSetGet s ns name))"
| "Client_Get _ s ns name = None"

fun Client_Create :: "client_type \<Rightarrow> env \<Rightarrow> choices \<Rightarrow> string \<Rightarrow> kobject \<Rightarrow> State \<Rightarrow> kobject call" where
  "Client_Create PodType E ch ns (KPod typed) =
     (\<lambda>s. returned KPod (PodCreate E ch ns typed s))"
| "Client_Create ReplicaSetType E ch ns (KReplicaSet typed) =
     (\<lambda>s. returned KReplicaSet (ReplicaSetCreate E ch ns typed s))"
| "Client_Create PersistentVolumeClaimType E ch ns (KPersistentVolumeClaim typed) =
     (\<lambda>s. returned KPersistentVolumeClaim (PersistentVolumeClaimCreate E ch ns typed s))"
| "Client_Create StatefulSetType E ch ns (KStatefulSet typed) =
     (\<lambda>s. returned KStatefulSet (StatefulSetCreate E ch ns typed s))"
| "Client_Create ServiceAccountType E ch ns (KServiceAccount typed) =
     (\<lambda>s. returned KServiceAccount (ServiceAccountCreate E ch ns typed s))"
| "Client_Create _ E ch ns _ =
     (\<lambda>s. None)"

fun Client_Delete :: "client_type \<Rightarrow> env \<Rightarrow> choices \<Rightarrow> string \<Rightarrow> string \<Rightarrow> DeleteOptions \<Rightarrow> State \<Rightarrow> unit call" where
  "Client_Delete PodType E ch ns name opts =
     (\<lambda>s. PodDelete E ch ns name opts s)"
| "Client_Delete ReplicaSetType E ch ns name opts =
     (\<lambda>s. ReplicaSetDelete E ch ns name opts s)"
| "Client_Delete PersistentVolumeClaimType E ch ns name opts =
     (\<lambda>s. PersistentVolumeClaimDelete E ch ns name opts s)"
| "Client_Delete StatefulSetType E ch ns name opts =
     (\<lambda>s. StatefulSetDelete E ch ns name opts s)"
| "Client_Delete _ E ch ns name opts =
     (\<lambda>s. None)"

text \<open>\<open>Update\<close> and \<open>UpdateStatus\<close> are the transactional updates; cluster roles have no namespace.\<close>

fun Client_Update :: "client_type \<Rightarrow> env \<Rightarrow> (nat \<Rightarrow> choices) \<Rightarrow> interference \<Rightarrow> string \<Rightarrow> kobject \<Rightarrow> State \<Rightarrow> kobject call" where
  "Client_Update PodType E chs others ns (KPod typed) =
     (\<lambda>s. returned KPod (PodUpdateTx E chs others ns typed s))"
| "Client_Update ReplicaSetType E chs others ns (KReplicaSet typed) =
     (\<lambda>s. returned KReplicaSet (ReplicaSetUpdateTx E chs others ns typed s))"
| "Client_Update ClusterRoleType E chs others ns (KClusterRole typed) =
     (\<lambda>s. returned KClusterRole (ClusterRoleUpdateTx E chs others typed s))"
| "Client_Update _ E chs others ns _ =
     (\<lambda>s. None)"

fun Client_UpdateStatus :: "client_type \<Rightarrow> env \<Rightarrow> (nat \<Rightarrow> choices) \<Rightarrow> interference \<Rightarrow> string \<Rightarrow> kobject \<Rightarrow> State \<Rightarrow> kobject call" where
  "Client_UpdateStatus ReplicaSetType E chs others ns (KReplicaSet typed) =
     (\<lambda>s. returned KReplicaSet (ReplicaSetUpdateStatusTx E chs others ns typed s))"
| "Client_UpdateStatus _ E chs others ns _ =
     (\<lambda>s. None)"

fun Client_Patch :: "client_type \<Rightarrow> env \<Rightarrow> codec \<Rightarrow> choices \<Rightarrow> string \<Rightarrow> string \<Rightarrow> string \<Rightarrow> string \<Rightarrow> string list \<Rightarrow> State \<Rightarrow>
    kobject call" where
  "Client_Patch PodType E C ch ns name pt data subresources =
     (\<lambda>s. returned KPod (PodPatch E C ch ns name pt data subresources s))"
| "Client_Patch _ E C ch ns name pt data subresources =
     (\<lambda>s. None)"

section \<open>The listers\<close>

fun ResourceIndexer_Get :: "client_type \<Rightarrow> State \<Rightarrow> string \<Rightarrow> string \<Rightarrow> (error + kobject) option" where
  "ResourceIndexer_Get ReplicaSetType s ns name = Some (map_sum id KReplicaSet (ReplicaSetGet s ns name))"
| "ResourceIndexer_Get PodType s ns name = Some (map_sum id KPod (PodGet s ns name))"
| "ResourceIndexer_Get PersistentVolumeClaimType s ns name =
     Some (map_sum id KPersistentVolumeClaim (PersistentVolumeClaimGet s ns name))"
| "ResourceIndexer_Get StatefulSetType s ns name = Some (map_sum id KStatefulSet (StatefulSetGet s ns name))"
| "ResourceIndexer_Get DeploymentType s ns name = Some (map_sum id KDeployment (DeploymentGet s ns name))"
| "ResourceIndexer_Get ServiceAccountType s ns name = Some (map_sum id KServiceAccount (ServiceAccountGet s ns name))"
| "ResourceIndexer_Get NamespaceType s ns name = Some (map_sum id KNamespace (NamespaceGet s name))"
| "ResourceIndexer_Get ClusterRoleType s ns name = Some (map_sum id KClusterRole (ClusterRoleGet s name))"
| "ResourceIndexer_Get OtherType s ns name = None"

fun ResourceIndexer_List :: "client_type \<Rightarrow> choices \<Rightarrow> State \<Rightarrow> string \<Rightarrow> selector \<Rightarrow> (error + kobject list) option" where
  "ResourceIndexer_List PodType ch s ns selector = Some (map_sum id (map KPod) (PodList ch s ns selector))"
| "ResourceIndexer_List ReplicaSetType ch s ns selector = Some (map_sum id (map KReplicaSet) (ReplicaSetList ch s ns selector))"
| "ResourceIndexer_List ClusterRoleType ch s ns selector = Some (map_sum id (map KClusterRole) (ClusterRoleList ch s selector))"
| "ResourceIndexer_List _ ch s ns selector = None"

section \<open>The controllers use this client\<close>

definition result_as :: "('a \<Rightarrow> 'b) \<Rightarrow> 'a step \<Rightarrow> 'b step" where
  "result_as C m w = map_option (\<lambda>(r, w'). (map_sum id C r, w')) (m w)"

lemma kube_call_returned:
  "kube_call C ws (\<lambda>E chs others s. returned F (f E chs others s)) = result_as F (kube_call C ws f)"
  by (rule ext) (simp add: kube_call_def returned_def result_as_def option.map_comp comp_def split: option.split prod.split)

lemma single_returned: "single (\<lambda>E ch s. returned F (f E ch s)) = (\<lambda>E chs others s. returned F (single f E chs others s))"
  by (simp add: single_def)

lemma wired:
  "kube_call C [WPodCreate ns pod] (single (\<lambda>E ch. Client_Create PodType E ch ns (KPod pod))) = result_as KPod (pods_create C ns pod)"
  "kube_call C [WClaimCreate ns pvc] (single (\<lambda>E ch. Client_Create PersistentVolumeClaimType E ch ns (KPersistentVolumeClaim pvc))) =
     result_as KPersistentVolumeClaim (claims_create C ns pvc)"
  "kube_call C [WReplicaSetCreate ns rs] (single (\<lambda>E ch. Client_Create ReplicaSetType E ch ns (KReplicaSet rs))) =
     result_as KReplicaSet (replicasets_create C ns rs)"
  "kube_call C [WServiceAccountCreate ns sa] (single (\<lambda>E ch. Client_Create ServiceAccountType E ch ns (KServiceAccount sa))) =
     result_as KServiceAccount (serviceaccounts_create C ns sa)"
  "kube_call C [WPodDelete ns name options] (single (\<lambda>E ch. Client_Delete PodType E ch ns name options)) = pods_delete C ns name options"
  "kube_call C [WPodUpdate ns pod] (\<lambda>E chs others. Client_Update PodType E chs others ns (KPod pod)) = result_as KPod (pods_update C ns pod)"
  "kube_call C [WReplicaSetUpdate ns rs] (\<lambda>E chs others. Client_Update ReplicaSetType E chs others ns (KReplicaSet rs)) =
     result_as KReplicaSet (replicasets_update C ns rs)"
  "kube_call C [WClusterRoleUpdate cr] (\<lambda>E chs others. Client_Update ClusterRoleType E chs others [] (KClusterRole cr)) =
     result_as KClusterRole (clusterroles_update C cr)"
  "kube_call C [WReplicaSetUpdateStatus ns rs] (\<lambda>E chs others. Client_UpdateStatus ReplicaSetType E chs others ns (KReplicaSet rs)) =
     result_as KReplicaSet (replicasets_update_status C ns rs)"
  by (simp_all add: client_defs single_returned kube_call_returned)

text \<open>Client and lister read the same.\<close>

lemma lister_agrees: "Client_Get T s ns name = Some r \<Longrightarrow> ResourceIndexer_Get T s ns name = Some r"
  by (cases T) simp_all

section \<open>Any client keeps the contract\<close>

lemma keeps_returned: "keeps_contract f \<Longrightarrow> keeps_contract (\<lambda>E chs others s. returned F (f E chs others s))"
  by (fastforce simp: keeps_contract_def returned_def)

lemma keeps_panic: "keeps_contract (\<lambda>E chs others s. None)"
  by (simp add: keeps_contract_def)

lemma keeps_panic_single: "keeps_contract (single (\<lambda>E ch s. None))"
  by (simp add: keeps_contract_def single_def)

lemmas typed_call_defs = PodCreate_def ReplicaSetCreate_def PersistentVolumeClaimCreate_def StatefulSetCreate_def
  ServiceAccountCreate_def PodDelete_def ReplicaSetDelete_def PersistentVolumeClaimDelete_def StatefulSetDelete_def
  PodUpdateTx_def ReplicaSetUpdateTx_def ClusterRoleUpdateTx_def ReplicaSetUpdateStatusTx_def

lemma client_contract:
  "keeps_contract (single (\<lambda>E ch. Client_Create T E ch ns ob))"
  "keeps_contract (single (\<lambda>E ch. Client_Delete T E ch ns name options))"
  "keeps_contract (\<lambda>E chs others. Client_Update T E chs others ns ob)"
  "keeps_contract (\<lambda>E chs others. Client_UpdateStatus T E chs others ns ob)"
proof -
  note keeps = keeps_returned keeps_assert keeps_create keeps_delete keeps_updateTx keeps_updateStatusTx keeps_panic
    keeps_panic_single
  show "keeps_contract (single (\<lambda>E ch. Client_Create T E ch ns ob))"
    by (cases T; cases ob) (simp_all add: single_returned single_assert typed_call_defs keeps)
  show "keeps_contract (single (\<lambda>E ch. Client_Delete T E ch ns name options))"
    by (cases T) (simp_all add: typed_call_defs [abs_def] keeps)
  show "keeps_contract (\<lambda>E chs others. Client_Update T E chs others ns ob)"
    by (cases T; cases ob) (simp_all add: typed_call_defs keeps)
  show "keeps_contract (\<lambda>E chs others. Client_UpdateStatus T E chs others ns ob)"
    by (cases T; cases ob) (simp_all add: typed_call_defs keeps)
qed

end
