(* ===== verification/Ctl_Common.thy ===== *)
theory Ctl_Common
  imports Ctl_Client
begin

text \<open>
  What the controllers share: src/controllers/common/common.go, and the helper functions of
  k8s.io/kubernetes and k8s.io/apimachinery they call, as src/src/code translates them
  (pkg/controller.v, pkg/api/v1/pod.v, pkg/util/labels.v). A function of the library that is not
  under src/ is a field of \<open>kube_lib\<close>. The interface \<open>controller\<close> is what a work queue relies
  on: a sync sends only requests its key allows and keeps the state of the API well formed.
\<close>

section \<open>The library\<close>

text \<open>
  \<open>sort_ranked\<close> is \<open>sort.Sort\<close> on pods with their ranks, for the order
  \<open>ActivePodsWithRanks.Less\<close> of k8s.io/kubernetes; \<open>error_text\<close> is \<open>err.Error()\<close>.
\<close>

record kube_lib =
  getPodsPrefix :: "string \<Rightarrow> string"
  LabelSelectorAsSelector :: "LabelSelector option \<Rightarrow> error + selector"
  ComputeHash :: "PodTemplateSpec \<Rightarrow> string"
  templates_DeepEqual :: "PodTemplateSpec \<Rightarrow> PodTemplateSpec \<Rightarrow> bool"
  sort_ranked :: "instant \<Rightarrow> (Pod \<times> nat) list \<Rightarrow> (Pod \<times> nat) list"
  error_text :: "error \<Rightarrow> string"
  HasStatusCause :: "error \<Rightarrow> string \<Rightarrow> bool"

text \<open>A copy of a Go map made by a \<open>range\<close> loop into a new map is never nil.\<close>

definition copy_map :: "str_map option \<Rightarrow> str_map" where
  "copy_map mp = (case mp of None \<Rightarrow> fmempty | Some f \<Rightarrow> f)"

definition GetPodFromTemplate :: "kube_lib \<Rightarrow> PodTemplateSpec \<Rightarrow> ObjectMeta \<Rightarrow> OwnerReference option \<Rightarrow> Pod" where
  "GetPodFromTemplate L template parent controllerRef =
     \<lparr>TypeMeta = empty_TypeMeta,
      ObjectMeta = empty_ObjectMeta
        \<lparr>Labels := Some (copy_map (Labels (tmpl_ObjectMeta template))),
         Annotations := Some (copy_map (Annotations (tmpl_ObjectMeta template))),
         GenerateName := getPodsPrefix L (Name parent),
         Finalizers := Some (elems (Finalizers (tmpl_ObjectMeta template))),
         OwnerReferences := map_option (\<lambda>r. [r]) controllerRef\<rparr>,
      pod_Spec = tmpl_Spec template, pod_Status = empty_PodStatus\<rparr>"

definition IsPodActive :: "Pod \<Rightarrow> bool" where
  "IsPodActive p \<longleftrightarrow> pod_Phase (pod_Status p) \<noteq> ''Succeeded'' \<and> pod_Phase (pod_Status p) \<noteq> ''Failed'' \<and>
     DeletionTimestamp (ObjectMeta p) = None"

definition IsPodTerminal :: "Pod \<Rightarrow> bool" where
  "IsPodTerminal p \<longleftrightarrow> pod_Phase (pod_Status p) = ''Failed'' \<or> pod_Phase (pod_Status p) = ''Succeeded''"

definition IsPodTerminating :: "Pod \<Rightarrow> bool" where
  "IsPodTerminating p \<longleftrightarrow> \<not> IsPodTerminal p \<and> DeletionTimestamp (ObjectMeta p) \<noteq> None"

definition FilterTerminatingPods :: "Pod list \<Rightarrow> Pod list" where
  "FilterTerminatingPods pods = filter IsPodTerminating pods"

section \<open>The common package\<close>

definition NewDeleteOptionsWithUID :: "string \<Rightarrow> DeleteOptions" where
  "NewDeleteOptionsWithUID uid =
     \<lparr>GracePeriodSeconds = None, do_Preconditions = Some \<lparr>pre_UID = Some uid, pre_ResourceVersion = None\<rparr>,
      OrphanDependents = None, PropagationPolicy = None, DryRun = None, IgnoreStoreReadError = None\<rparr>"

definition FilterActivePods :: "Pod list \<Rightarrow> Pod list" where
  "FilterActivePods pods = filter (\<lambda>p. DeletionTimestamp (ObjectMeta p) = None) pods"

definition owner_ref :: "ObjectMeta \<Rightarrow> string \<Rightarrow> OwnerReference" where
  "owner_ref owner ownerKind = \<lparr>or_APIVersion = [], or_Kind = ownerKind, or_Name = Name owner, or_UID = UID owner,
     or_Controller = None, or_BlockOwnerDeletion = None\<rparr>"

definition FilterPodsByOwner :: "cluster \<Rightarrow> ObjectMeta \<Rightarrow> string \<Rightarrow> Pod list step" where
  "FilterPodsByOwner C owner ownerKind =
     and_then (kube_read C (\<lambda>ch s. ByIndex ch s ''Pod'' ''podController''
         (PodControllerIndexKey (Namespace owner) (Some (owner_ref owner ownerKind)))))
       (\<lambda>obs. done_with (List.map_filter to_Pod obs))"

lemma to_Pod_Some: "to_Pod ob = Some pod \<longleftrightarrow> ob = KPod pod"
  by (cases ob) auto

lemma set_map_filter: "set (List.map_filter f xs) = {y. \<exists>x \<in> set xs. f x = Some y}"
  by (force simp: List.map_filter_def)

definition pods_of_owner :: "State \<Rightarrow> ObjectMeta \<Rightarrow> string \<Rightarrow> Pod set" where
  "pods_of_owner s owner ownerKind = {pod. (\<exists>key. st_m s key = Some (KPod pod)) \<and>
     PodControllerIndexKey (Namespace (ObjectMeta pod)) (GetControllerOf (ObjectMeta pod)) =
     PodControllerIndexKey (Namespace owner) (Some (owner_ref owner ownerKind))}"

text \<open>On a well-formed state the index finds exactly the pods with the searched value, each once.\<close>

lemma sends_FilterPodsByOwner:
  "sends C P (FilterPodsByOwner C owner ownerKind)
    (\<lambda>r s. \<exists>pods. r = Inr pods \<and> distinct pods \<and> set pods = pods_of_owner s owner ownerKind)"
proof -
  let ?key = "PodControllerIndexKey (Namespace owner) (Some (owner_ref owner ownerKind))"
  let ?hit = "\<lambda>ob. \<exists>vs. index_of ''podController'' ob = Inr vs \<and> list_ex (\<lambda>v. v = ?key) vs"
  let ?items = "\<lambda>ch s. filter ?hit (objListLocked ch s ''Pod'' NamespaceAll)"
  have found: "distinct (List.map_filter to_Pod (?items ch s)) \<and>
      set (List.map_filter to_Pod (?items ch s)) = pods_of_owner s owner ownerKind"
    if "range_ok ch" "wf_state s" for ch s
  proof
    have "distinct (objListLocked ch s ''Pod'' NamespaceAll)" by (rule objListLocked_distinct [OF that])
    then show "distinct (List.map_filter to_Pod (?items ch s))"
      by (auto simp: List.map_filter_def distinct_map inj_on_def to_Pod_Some)
    have "set (objListLocked ch s ''Pod'' NamespaceAll) = {ob. \<exists>key. st_m s key = Some ob \<and> key_Kind key = ''Pod''}"
      using set_objListLocked [OF that(1) wf_state_finite [OF that(2)]] by auto
    then show "set (List.map_filter to_Pod (?items ch s)) = pods_of_owner s owner ownerKind"
      using wf_state_kind [OF that(2)]
      by (fastforce simp: set_map_filter to_Pod_Some pods_of_owner_def index_of_def)
  qed
  show ?thesis
    unfolding sends_def FilterPodsByOwner_def
  proof (intro allI impI)
    fix w r w'
    let ?read = "kube_read C (\<lambda>ch s. ByIndex ch s ''Pod'' ''podController'' ?key)"
    assume ok: "cluster_ok C" "wf_state (w_state w)"
      and run: "and_then ?read (\<lambda>obs. done_with (List.map_filter to_Pod obs)) w = Some (r, w')"
    from run obtain r1 w1 where read: "?read w = Some (r1, w1)"
      by (auto simp: and_then_def with_result_def split: option.splits)
    from sendsD [OF sends_read ok read] obtain ch where adv: "advances P w w1" and ch: "range_ok ch"
      and "r1 = ByIndex ch (w_state w1) ''Pod'' ''podController'' ?key" by blast
    then have "r1 = Inr (?items ch (w_state w1))" by (simp add: ByIndex_def index_scan_known)
    with run read have "r = Inr (List.map_filter to_Pod (?items ch (w_state w1)))" "w' = w1"
      by (auto simp: and_then_def with_result_def done_with_def)
    with adv found [OF ch, of "w_state w1"]
    show "advances P w w' \<and> (\<exists>pods. r = Inr pods \<and> distinct pods \<and> set pods = pods_of_owner (w_state w') owner ownerKind)"
      by (simp add: advances_def)
  qed
qed

section \<open>Work queues\<close>

locale controller =
  fixes sync :: "'k \<Rightarrow> cluster \<Rightarrow> unit step"
    and allowed :: "'k \<Rightarrow> client_write \<Rightarrow> bool"
  assumes sync_sends: "sends_only C (allowed k) (sync k C)"
begin

text \<open>A worker syncs one key after the other; a failed sync is only put back into the queue.\<close>

fun work :: "'k list \<Rightarrow> cluster \<Rightarrow> unit step" where
  "work [] C = done_with ()"
| "work (k # ks) C = with_result (sync k C) (\<lambda>_. work ks C)"

lemma work_sends: "sends_only C (\<lambda>x. \<exists>k \<in> set ks. allowed k x) (work ks C)"
proof (induction ks)
  case (Cons k ks)
  have "sends_only C (\<lambda>x. \<exists>k' \<in> set (k # ks). allowed k' x) (sync k C)"
    by (rule sends_only_mono [OF sync_sends]) auto
  moreover have "sends_only C (\<lambda>x. \<exists>k' \<in> set (k # ks). allowed k' x) (work ks C)"
    by (rule sends_only_mono [OF Cons.IH]) auto
  ultimately show ?case by (simp add: sends_only_then)
qed (simp add: sends_intros)

end

end
