(* ===== verification/Ctl_Example.thy ===== *)
theory Ctl_Example
  imports Ctl_Common
begin

text \<open>A concrete cluster and library, at which the theorems on the controllers are applied.\<close>

definition example_cluster :: cluster where
  "example_cluster = \<lparr>cl_env = example_env, cl_choices = (\<lambda>_ _. example_choices), cl_others = (\<lambda>_ _ s. s)\<rparr>"

lemma example_cluster_simps [simp]:
  "cl_env example_cluster = example_env" "cl_choices example_cluster n i = example_choices"
  "cl_others example_cluster n i s = s"
  by (simp_all add: example_cluster_def)

lemma example_cluster_ok: "cluster_ok example_cluster"
  by (simp add: cluster_ok_def example_env_laws example_range_ok fair_others_def)

definition world :: "State \<Rightarrow> World" where
  "world s = \<lparr>w_state = s, w_calls = 0, w_log = []\<rparr>"

lemma world_simps [simp]: "w_state (world s) = s" "w_calls (world s) = 0" "w_log (world s) = []"
  by (simp_all add: world_def)

lemma example_read:
  "kube_read example_cluster f w = Some (f example_choices (w_state w), w\<lparr>w_calls := Suc (w_calls w)\<rparr>)"
  by (simp add: kube_read_def kube_call_def single_def)

lemma example_ops_simps:
  "podOps example_env = example_ops" "pvcOps example_env = example_ops" "saOps example_env = example_ops"
  "rsOps example_env = example_ops" "ssOps example_env = example_ops" "deployOps example_env = example_ops"
  "roleOps example_env = example_ops" "revOps example_env = example_ops"
  by (simp_all add: example_env_def)

lemma example_answers: "answers_no_taken example_env"
proof -
  have "\<not> IsAlreadyExists e" if "applyValidationAndDefaulting example_env ob name = Inl e" for ob name e
    using that by (cases ob) (auto simp: applyValidationAndDefaulting_def example_ops_simps example_ops_def
        convert_in_def convert_out_def validate_with_def)
  moreover have "\<not> IsAlreadyExists e" if "validateObjectMeta example_env md kind = Some e" for md kind e
    using that by (auto simp: validateObjectMeta_def example_env_simps split: if_splits)
  moreover have "\<not> IsAlreadyExists e" if "EnsureObjectNamespaceMatchesRequestNamespace example_env ns md = Inl e" for ns md e
    using that by (auto simp: example_env_simps example_ensure_namespace_def split: if_splits)
  ultimately show ?thesis unfolding answers_no_taken_def by blast
qed

text \<open>A state with one active namespace, \<open>shop\<close>.\<close>

definition shop :: NamespaceObj where
  "shop = \<lparr>TypeMeta = empty_TypeMeta, ObjectMeta = (example_meta ''shop'' [])\<lparr>UID := ''n'', ResourceVersion := ''3''\<rparr>,
     ns_Phase = ''Active'', ns_rest = []\<rparr>"

definition shop_state :: State where
  "shop_state = \<lparr>st_m = [KKey ''Namespace'' ''shop'' [] \<mapsto> KNamespace shop], usedUID = {''n''}, usedRV = {''3''},
     resourceVersionCounter = 0\<rparr>"

lemma shop_state_wf: "wf_state shop_state"
  by (auto simp: wf_state_def stored_ok_def shop_state_def shop_def example_meta_def parse_uint_def digit_val_def)

lemma shop_get: "NamespaceGet shop_state ''shop'' = Inr shop"
  by (simp add: NamespaceGet_def api_get_def shop_state_def assert_type_def)

text \<open>A library whose selectors look at \<open>MatchLabels\<close> only.\<close>

definition example_selector :: "LabelSelector option \<Rightarrow> error + selector" where
  "example_selector ls = Inr (\<lambda>labels. case ls of None \<Rightarrow> False
     | Some l \<Rightarrow> fmpred (\<lambda>k v. map_get labels k = Some v) (copy_map (MatchLabels l)))"

definition example_lib :: kube_lib where
  "example_lib = \<lparr>getPodsPrefix = (\<lambda>name. name @ ''-''), LabelSelectorAsSelector = example_selector,
     ComputeHash = (\<lambda>t. ''5d9''), templates_DeepEqual = (=), sort_ranked = (\<lambda>now ps. rev (sort_key snd ps)),
     error_text = (\<lambda>e. ''error''), HasStatusCause = (\<lambda>e cause. False)\<rparr>"

end
