(* ===== verification/Ctl_ServiceAccount.thy ===== *)
theory Ctl_ServiceAccount
  imports Ctl_Example
begin

text \<open>
  The service account controller (src/controllers/serviceaccount/service_account.go): an active
  namespace gets each configured account.
\<close>

section \<open>The controller\<close>

definition serviceAccountsToEnsure :: "ServiceAccount list" where
  "serviceAccountsToEnsure =
     [\<lparr>TypeMeta = empty_TypeMeta, ObjectMeta = empty_ObjectMeta\<lparr>Name := ''default''\<rparr>, sa_rest = []\<rparr>]"

definition in_namespace :: "string \<Rightarrow> ServiceAccount \<Rightarrow> ServiceAccount" where
  "in_namespace ns sa = sa\<lparr>ObjectMeta := (ObjectMeta sa)\<lparr>Namespace := ns\<rparr>\<rparr>"

fun ensure_accounts :: "cluster \<Rightarrow> string \<Rightarrow> ServiceAccount list \<Rightarrow> unit step" where
  "ensure_accounts C ns [] = done_with ()"
| "ensure_accounts C ns (sa # sas) =
     with_result (kube_read C (\<lambda>ch s. ServiceAccountGet s ns (Name (ObjectMeta sa)))) (\<lambda>r.
       case r of
         Inr _ \<Rightarrow> ensure_accounts C ns sas
       | Inl e \<Rightarrow>
           if \<not> IsNotFound e then fail_with e
           else with_result (serviceaccounts_create C ns (in_namespace ns sa)) (\<lambda>r1.
             case r1 of
               Inr _ \<Rightarrow> ensure_accounts C ns sas
             | Inl e1 \<Rightarrow> if IsAlreadyExists e1 then ensure_accounts C ns sas else fail_with e1))"

definition syncNamespace :: "cluster \<Rightarrow> string \<Rightarrow> unit step" where
  "syncNamespace C key =
     with_result (kube_read C (\<lambda>ch s. NamespaceGet s key)) (\<lambda>r.
       case r of
         Inl e \<Rightarrow> if IsNotFound e then done_with () else fail_with e
       | Inr namespace \<Rightarrow>
           if ns_Phase namespace \<noteq> ''Active'' then done_with ()
           else ensure_accounts C (Name (ObjectMeta namespace)) serviceAccountsToEnsure)"

section \<open>What it sends\<close>

definition account_create :: "string \<Rightarrow> client_write \<Rightarrow> bool" where
  "account_create ns x \<longleftrightarrow> (\<exists>sa \<in> set serviceAccountsToEnsure. x = WServiceAccountCreate ns (in_namespace ns sa))"

lemma ensure_accounts_sends:
  "set sas \<subseteq> set serviceAccountsToEnsure \<Longrightarrow> sends_only C (account_create ns) (ensure_accounts C ns sas)"
proof (induction sas)
  case (Cons sa sas)
  then have "account_create ns (WServiceAccountCreate ns (in_namespace ns sa))" by (auto simp: account_create_def)
  then show ?case using Cons by (auto intro!: sends_intros sends_client sends_case_sum)
qed (simp add: sends_intros)

lemma NamespaceGet_name: "NamespaceGet s key = Inr ns \<Longrightarrow> wf_state s \<Longrightarrow> Name (ObjectMeta ns) = key"
  by (auto simp: NamespaceGet_def ebind_Inr_iff assert_type_def api_get_Inr stored_ok_def
      dest!: wf_state_stored split: option.splits elim!: to_Namespace.elims)

lemma syncNamespace_sends: "sends_only C (account_create key) (syncNamespace C key)"
  unfolding syncNamespace_def
proof (rule sends_then [OF sends_read])
  fix r s
  assume wf: "wf_state s" and "\<exists>ch. range_ok ch \<and> r = NamespaceGet s key"
  then have "Name (ObjectMeta ns) = key" if "r = Inr ns" for ns
    using NamespaceGet_name [of s key ns] that by auto
  then show "sends_only C (account_create key) (case r of
      Inl e \<Rightarrow> if IsNotFound e then done_with () else fail_with e
    | Inr namespace \<Rightarrow>
        if ns_Phase namespace \<noteq> ''Active'' then done_with ()
        else ensure_accounts C (Name (ObjectMeta namespace)) serviceAccountsToEnsure)"
    by (intro sends_case_sum sends_intros) (simp_all add: ensure_accounts_sends)
qed

interpretation serviceaccount: controller "\<lambda>key C. syncNamespace C key" account_create
  by unfold_locales (rule syncNamespace_sends)

section \<open>What it achieves\<close>

text \<open>Other clients that never remove a service account.\<close>

definition keeps_accounts :: "cluster \<Rightarrow> bool" where
  "keeps_accounts C \<longleftrightarrow> (\<forall>n i s name ns. st_m s (KKey ''ServiceAccount'' name ns) \<noteq> None \<longrightarrow>
     st_m (cl_others C n i s) (KKey ''ServiceAccount'' name ns) \<noteq> None)"

definition has_account :: "State \<Rightarrow> string \<Rightarrow> ServiceAccount \<Rightarrow> bool" where
  "has_account s ns sa \<longleftrightarrow> st_m s (KKey ''ServiceAccount'' (Name (ObjectMeta sa)) ns) \<noteq> None"

lemma read_keeps_account:
  "keeps_accounts C \<Longrightarrow> kube_read C f w = Some (r, w') \<Longrightarrow> has_account (w_state w) ns sa \<Longrightarrow> has_account (w_state w') ns sa"
  unfolding keeps_accounts_def has_account_def by (auto simp: kube_read_def kube_call_def single_def)

lemma ServiceAccountGet_has: "ServiceAccountGet s ns (Name (ObjectMeta sa)) = Inr x \<Longrightarrow> has_account s ns sa"
  by (auto simp: ServiceAccountGet_def ebind_Inr_iff has_account_def api_get_Inr)

lemma serviceaccounts_create_result:
  assumes "cluster_ok C" "answers_no_taken (cl_env C)" "keeps_accounts C"
    and "serviceaccounts_create C ns (in_namespace ns sa) w = Some (r, w')" "Name (ObjectMeta sa) \<noteq> []"
  shows "has_account (w_state w) ns sa' \<Longrightarrow> has_account (w_state w') ns sa'"
    and "(\<And>e. r = Inl e \<Longrightarrow> IsAlreadyExists e) \<Longrightarrow> has_account (w_state w') ns sa"
proof -
  let ?s = "cl_others C (w_calls w) 0 (w_state w)"
  let ?ob = "KServiceAccount (in_namespace ns sa)"
  from assms(4) obtain p where run: "create (cl_env C) (cl_choices C (w_calls w) 0) ''ServiceAccount'' ns ?ob ?s = Some p"
    and w': "w_state w' = snd p" and r: "r = ebind (fst p) (\<lambda>ob. assert_type to_ServiceAccount ''create returned unexpected type %T'' [kind_of ob] ob)"
    by (auto simp: serviceaccounts_create_def kube_call_def single_def ServiceAccountCreate_def assert_call_def split: option.splits)
  obtain q s' where p: "p = (q, s')" by (cases p)
  show "has_account (w_state w) ns sa' \<Longrightarrow> has_account (w_state w') ns sa'"
    using create_keeps_keys [OF run [unfolded p]] assms(3) w' p
    unfolding keeps_accounts_def has_account_def by simp
  assume taken: "\<And>e. r = Inl e \<Longrightarrow> IsAlreadyExists e"
  have laws: "upstream_laws (cl_env C)" using assms(1) by (simp add: cluster_ok_def)
  have name: "Name (metadata ?ob) = Name (ObjectMeta sa)" by (simp add: in_namespace_def)
  show "has_account (w_state w') ns sa"
  proof (cases q)
    case (Inl e)
    with create_taken_key [OF laws assms(2) _ run [unfolded p Inl]] taken r p w' assms(5) name
    show ?thesis by (simp add: has_account_def)
  next
    case (Inr ob')
    with create_present [OF laws _ run [unfolded p Inr]] p w' assms(5) name
    show ?thesis by (simp add: has_account_def)
  qed
qed

lemma ensure_accounts_complete:
  assumes "cluster_ok C" "answers_no_taken (cl_env C)" "keeps_accounts C"
    and "list_all (\<lambda>sa. Name (ObjectMeta sa) \<noteq> []) sas"
    and "ensure_accounts C ns sas w = Some (Inr (), w')"
  shows "(\<forall>sa. has_account (w_state w) ns sa \<longrightarrow> has_account (w_state w') ns sa) \<and>
    (\<forall>sa \<in> set sas. has_account (w_state w') ns sa)"
  using assms(4,5)
proof (induction sas arbitrary: w)
  case Nil
  then show ?case by (simp add: done_with_def)
next
  case (Cons sa sas)
  let ?get = "kube_read C (\<lambda>ch s. ServiceAccountGet s ns (Name (ObjectMeta sa)))"
  from Cons.prems(2) obtain r1 w1 where get: "?get w = Some (r1, w1)"
    by (auto simp: with_result_def split: option.splits)
  note kept = read_keeps_account [OF assms(3) get]
  have names: "list_all (\<lambda>sa. Name (ObjectMeta sa) \<noteq> []) sas" using Cons.prems(1) by simp
  note IH = Cons.IH [OF names]
  show ?case
  proof (cases r1)
    case (Inr x)
    with get have "has_account (w_state w1) ns sa"
      by (auto simp: kube_read_def kube_call_def single_def intro: ServiceAccountGet_has)
    moreover have "ensure_accounts C ns sas w1 = Some (Inr (), w')"
      using Cons.prems(2) get Inr by (simp add: with_result_def)
    ultimately show ?thesis using IH kept by auto
  next
    case (Inl e)
    let ?make = "serviceaccounts_create C ns (in_namespace ns sa)"
    from Cons.prems(2) get Inl obtain r2 w2 where make: "?make w1 = Some (r2, w2)"
      and rest: "ensure_accounts C ns sas w2 = Some (Inr (), w')"
      and taken: "\<And>e. r2 = Inl e \<Longrightarrow> IsAlreadyExists e"
      by (auto simp: with_result_def fail_with_def split: option.splits if_splits sum.splits)
    have "Name (ObjectMeta sa) \<noteq> []" using Cons.prems(1) by simp
    note made = serviceaccounts_create_result [OF assms(1-3) make this]
    show ?thesis using IH [OF rest] made(1) made(2) [OF taken] kept by auto
  qed
qed

text \<open>C25: A successful sync of an active namespace leaves every configured service account in it,
  whatever the other clients do meanwhile, as long as they remove no account; it sends nothing
  but creates of those accounts in that namespace.\<close>

theorem syncNamespace_ensures:
  assumes "cluster_ok C" "wf_state (w_state w)" "answers_no_taken (cl_env C)" "keeps_accounts C"
    and "syncNamespace C key w = Some (Inr (), w')"
    and "NamespaceGet (cl_others C (w_calls w) 0 (w_state w)) key = Inr namespace" "ns_Phase namespace = ''Active''"
  shows "(\<forall>sa \<in> set serviceAccountsToEnsure. has_account (w_state w') key sa) \<and>
    (\<exists>ws. w_log w' = w_log w @ ws \<and> list_all (account_create key) ws)"
proof
  let ?s = "cl_others C (w_calls w) 0 (w_state w)"
  have wf: "wf_state ?s" using assms(1,2) by (simp add: cluster_ok_def fair_others_def)
  have name: "Name (ObjectMeta namespace) = key" by (rule NamespaceGet_name [OF assms(6) wf])
  from assms(5-7) name obtain w1 where "ensure_accounts C key serviceAccountsToEnsure w1 = Some (Inr (), w')"
    by (auto simp: syncNamespace_def with_result_def kube_read_def kube_call_def single_def)
  moreover have "list_all (\<lambda>sa. Name (ObjectMeta sa) \<noteq> []) serviceAccountsToEnsure"
    by (simp add: serviceAccountsToEnsure_def)
  ultimately show "\<forall>sa \<in> set serviceAccountsToEnsure. has_account (w_state w') key sa"
    using ensure_accounts_complete [OF assms(1,3,4)] by blast
  show "\<exists>ws. w_log w' = w_log w @ ws \<and> list_all (account_create key) ws"
    using sendsD [OF syncNamespace_sends assms(1,2,5)] by (auto simp: advances_def)
qed

lemma shop_no_account: "ServiceAccountGet shop_state ''shop'' ''default'' = Inl (NotFound ''ServiceAccount'' ''default'')"
  by (simp add: ServiceAccountGet_def api_get_def shop_state_def)

definition default_account :: ServiceAccount where
  "default_account = \<lparr>TypeMeta = empty_TypeMeta, ObjectMeta = empty_ObjectMeta\<lparr>Name := ''default''\<rparr>, sa_rest = []\<rparr>"

definition shop_account :: ServiceAccount where
  "shop_account = default_account\<lparr>ObjectMeta := (ObjectMeta default_account)
     \<lparr>Namespace := ''shop'', UID := ''0'', ResourceVersion := ''0'', CreationTimestamp := 100\<rparr>\<rparr>"

definition shop_after :: State where
  "shop_after = shop_state\<lparr>st_m := (st_m shop_state)(KKey ''ServiceAccount'' ''default'' ''shop'' \<mapsto> KServiceAccount shop_account),
     usedUID := {''0'', ''n''}, usedRV := {''0'', ''3''}\<rparr>"

lemma shop_create:
  "create example_env example_choices ''ServiceAccount'' ''shop'' (KServiceAccount (in_namespace ''shop'' default_account)) shop_state =
    Some (Inr (KServiceAccount shop_account), shop_after)"
  by (simp add: create_def create_named_def store_object_def Let_def example_new_uid example_new_rv example_now
      example_env_simps example_wipe_def example_ensure_namespace_def applyValidationAndDefaulting_def example_ops_simps
      example_ops_def convert_in_def convert_out_def validate_with_def validateObjectMeta_def
      in_namespace_def default_account_def shop_account_def shop_after_def shop_state_def empty_ObjectMeta_def)

lemma accounts: "serviceAccountsToEnsure = [default_account]"
  by (simp add: serviceAccountsToEnsure_def default_account_def)

lemma shop_sync:
  "syncNamespace example_cluster ''shop'' (world shop_state) = Some (Inr (), \<lparr>w_state = shop_after, w_calls = 3,
     w_log = [WServiceAccountCreate ''shop'' (in_namespace ''shop'' default_account)]\<rparr>)"
proof -
  have name: "Name (ObjectMeta default_account) = ''default''" "Name (ObjectMeta shop) = ''shop''" "ns_Phase shop = ''Active''"
    by (simp_all add: default_account_def shop_def example_meta_def)
  show ?thesis
    by (simp add: syncNamespace_def with_result_def example_read shop_get name accounts shop_no_account
        serviceaccounts_create_def kube_call_def single_def ServiceAccountCreate_def shop_create assert_call_def
        assert_type_def done_with_def)
qed

theorem syncNamespace_ensures_witness:
  "w_log (world shop_state) = [] \<and> has_account shop_after ''shop'' default_account \<and>
    syncNamespace example_cluster ''shop'' (world shop_state) = Some (Inr (), \<lparr>w_state = shop_after, w_calls = 3,
      w_log = [WServiceAccountCreate ''shop'' (in_namespace ''shop'' default_account)]\<rparr>)"
proof -
  have "keeps_accounts example_cluster" by (simp add: keeps_accounts_def)
  moreover have "NamespaceGet (cl_others example_cluster (w_calls (world shop_state)) 0 (w_state (world shop_state))) ''shop'' = Inr shop"
    by (simp add: shop_get)
  moreover have "ns_Phase shop = ''Active''" by (simp add: shop_def)
  ultimately show ?thesis
    using syncNamespace_ensures [OF example_cluster_ok _ _ _ shop_sync] shop_state_wf example_answers
    by (simp add: shop_sync accounts)
qed

end
