(* ===== verification/Ctl_ClusterRole.thy ===== *)
theory Ctl_ClusterRole
  imports Ctl_Example
begin

text \<open>
  The aggregation controller of cluster roles
  (src/controllers/clusterroleaggregation/clusterroleaggregation.go): the rules of a role with an
  aggregation rule become the rules of the other roles its selectors match, each once.
\<close>

section \<open>Rules\<close>

text \<open>\<open>equality.Semantic.DeepEqual\<close> does not tell a nil slice from an empty one.\<close>

definition rule_content :: "PolicyRule \<Rightarrow> string list list" where
  "rule_content r = [elems (pr_Verbs r), elems (pr_APIGroups r), elems (pr_Resources r),
     elems (pr_ResourceNames r), elems (pr_NonResourceURLs r)]"

definition rule_DeepEqual :: "PolicyRule \<Rightarrow> PolicyRule \<Rightarrow> bool" where
  "rule_DeepEqual a b \<longleftrightarrow> rule_content a = rule_content b"

definition rules_DeepEqual :: "PolicyRule slice \<Rightarrow> PolicyRule slice \<Rightarrow> bool" where
  "rules_DeepEqual a b \<longleftrightarrow> list_all2 rule_DeepEqual (elems a) (elems b)"

fun ruleExists :: "PolicyRule list \<Rightarrow> PolicyRule \<Rightarrow> bool" where
  "ruleExists [] rule = False"
| "ruleExists (r # rs) rule = (if rule_DeepEqual r rule then True else ruleExists rs rule)"

fun add_rules :: "PolicyRule list \<Rightarrow> PolicyRule list \<Rightarrow> PolicyRule list" where
  "add_rules newPolicyRules [] = newPolicyRules"
| "add_rules newPolicyRules (currRule # rs) =
     add_rules (if \<not> ruleExists newPolicyRules currRule then newPolicyRules @ [currRule] else newPolicyRules) rs"

fun add_roles :: "string \<Rightarrow> PolicyRule list \<Rightarrow> ClusterRole list \<Rightarrow> PolicyRule list" where
  "add_roles self newPolicyRules [] = newPolicyRules"
| "add_roles self newPolicyRules (cr # crs) =
     (if Name (ObjectMeta cr) = self then add_roles self newPolicyRules crs
      else add_roles self (add_rules newPolicyRules (elems (cr_Rules cr))) crs)"

text \<open>\<open>sort.Sort(byName(...))\<close>; names of cluster roles are unique, so the order is determined.\<close>

definition byName :: "ClusterRole list \<Rightarrow> ClusterRole list" where
  "byName crs = sort_key (\<lambda>cr. Name (ObjectMeta cr)) crs"

section \<open>The controller\<close>

fun aggregate_rules :: "cluster \<Rightarrow> kube_lib \<Rightarrow> string \<Rightarrow> LabelSelector list \<Rightarrow> PolicyRule list \<Rightarrow> PolicyRule list step" where
  "aggregate_rules C L self [] newPolicyRules = done_with newPolicyRules"
| "aggregate_rules C L self (selector # selectors) newPolicyRules =
     (case LabelSelectorAsSelector L (Some selector) of
        Inl e \<Rightarrow> fail_with e
      | Inr runtimeLabelSelector \<Rightarrow>
          and_then (kube_read C (\<lambda>ch s. ClusterRoleList ch s runtimeLabelSelector)) (\<lambda>clusterRoles.
            aggregate_rules C L self selectors (add_roles self newPolicyRules (byName clusterRoles))))"

definition replace_rules :: "cluster \<Rightarrow> ClusterRole \<Rightarrow> PolicyRule list \<Rightarrow> unit step" where
  "replace_rules C sharedClusterRole newPolicyRules =
     (if rules_DeepEqual (Some newPolicyRules) (cr_Rules sharedClusterRole) then done_with ()
      else and_then (clusterroles_update C (sharedClusterRole\<lparr>cr_Rules := Some newPolicyRules\<rparr>)) (\<lambda>_. done_with ()))"

definition syncClusterRole :: "cluster \<Rightarrow> kube_lib \<Rightarrow> string \<Rightarrow> unit step" where
  "syncClusterRole C L name =
     with_result (kube_read C (\<lambda>ch s. ClusterRoleGet s name)) (\<lambda>r.
       case r of
         Inl e \<Rightarrow> if IsNotFound e then done_with () else fail_with e
       | Inr sharedClusterRole \<Rightarrow>
           (case cr_AggregationRule sharedClusterRole of
              None \<Rightarrow> done_with ()
            | Some clusterRoleSelectors \<Rightarrow>
                and_then (aggregate_rules C L (Name (ObjectMeta sharedClusterRole)) (elems clusterRoleSelectors) [])
                  (replace_rules C sharedClusterRole)))"

section \<open>The aggregation\<close>

lemma ruleExists_iff: "ruleExists rules rule \<longleftrightarrow> rule_content rule \<in> rule_content ` set rules"
  by (induction rules) (auto simp: rule_DeepEqual_def)

lemma add_rules_content:
  "rule_content ` set (add_rules acc rs) = rule_content ` set acc \<union> rule_content ` set rs"
  by (induction acc rs rule: add_rules.induct) (auto simp: ruleExists_iff)

lemma add_rules_distinct: "distinct (map rule_content acc) \<Longrightarrow> distinct (map rule_content (add_rules acc rs))"
  by (induction acc rs rule: add_rules.induct) (auto simp: ruleExists_iff)

lemma add_roles_content:
  "rule_content ` set (add_roles self acc crs) = rule_content ` set acc \<union>
    (\<Union>cr \<in> {cr \<in> set crs. Name (ObjectMeta cr) \<noteq> self}. rule_content ` set (elems (cr_Rules cr)))"
  by (induction self acc crs rule: add_roles.induct) (auto simp: add_rules_content)

lemma add_roles_distinct: "distinct (map rule_content acc) \<Longrightarrow> distinct (map rule_content (add_roles self acc crs))"
  by (induction self acc crs rule: add_roles.induct) (auto simp: add_rules_distinct)

text \<open>What the roles of a state contribute to a role called \<open>self\<close>, one selector at a time.\<close>

definition matched_rules :: "State \<Rightarrow> string \<Rightarrow> selector \<Rightarrow> string list list set" where
  "matched_rules s self sel = {rule_content rule | rule key cr. st_m s key = Some (KClusterRole cr) \<and>
     Name (ObjectMeta cr) \<noteq> self \<and> sel (Labels (ObjectMeta cr)) \<and> rule \<in> set (elems (cr_Rules cr))}"

definition wanted_rules :: "kube_lib \<Rightarrow> State \<Rightarrow> string \<Rightarrow> LabelSelector list \<Rightarrow> string list list set" where
  "wanted_rules L s self selectors =
     (\<Union>selector \<in> set selectors. case LabelSelectorAsSelector L (Some selector) of
        Inl e \<Rightarrow> {} | Inr sel \<Rightarrow> matched_rules s self sel)"

text \<open>Other clients that leave the cluster roles alone.\<close>

definition same_roles :: "State \<Rightarrow> State \<Rightarrow> bool" where
  "same_roles s s' \<longleftrightarrow> (\<forall>name ns. st_m s' (KKey ''ClusterRole'' name ns) = st_m s (KKey ''ClusterRole'' name ns))"

definition quiet_roles :: "cluster \<Rightarrow> bool" where
  "quiet_roles C \<longleftrightarrow> (\<forall>n i s. same_roles s (cl_others C n i s))"

lemma matched_rules_same:
  assumes "same_roles s s'" "wf_state s" "wf_state s'"
  shows "matched_rules s' self sel = matched_rules s self sel"
proof -
  have "st_m s' key = Some (KClusterRole cr) \<longleftrightarrow> st_m s key = Some (KClusterRole cr)" for key cr
  proof (cases key)
    case (KKey kind n ns)
    have "kind = ''ClusterRole''" if "st_m t key = Some (KClusterRole cr)" "wf_state t" for t
      using wf_state_kind [OF that(2,1)] KKey by simp
    then show ?thesis using assms KKey unfolding same_roles_def by metis
  qed
  then show ?thesis by (simp add: matched_rules_def)
qed

lemma wanted_rules_same:
  assumes "same_roles s s'" "wf_state s" "wf_state s'"
  shows "wanted_rules L s' self selectors = wanted_rules L s self selectors"
  unfolding wanted_rules_def
  by (rule SUP_cong) (auto simp: matched_rules_same [OF assms] split: sum.splits)

lemma ClusterRoleList_rules:
  assumes "range_ok ch" "wf_state s"
  obtains crs where "ClusterRoleList ch s sel = Inr crs"
    "rule_content ` set (add_roles self acc (byName crs)) = rule_content ` set acc \<union> matched_rules s self sel"
proof -
  from clusterroles.list_ok [OF assms, of NamespaceAll sel "''state entry is not a *v1.ClusterRole''"] obtain crs
    where list: "ClusterRoleList ch s sel = Inr crs" and
      set: "KClusterRole ` set crs = {ob. \<exists>key. st_m s key = Some ob \<and> key_Kind key = ''ClusterRole'' \<and>
        (NamespaceAll = NamespaceAll \<or> key_Namespace key = NamespaceAll) \<and> sel (Labels (metadata ob))}"
    by (auto simp: ClusterRoleList_def ClusterRoleMutList_def)
  have "cr \<in> set crs \<longleftrightarrow> (\<exists>key. st_m s key = Some (KClusterRole cr)) \<and> sel (Labels (ObjectMeta cr))" for cr
  proof -
    have "cr \<in> set crs \<longleftrightarrow> KClusterRole cr \<in> KClusterRole ` set crs" by auto
    then show ?thesis unfolding set using wf_state_kind [OF assms(2)] by fastforce
  qed
  then have "(\<Union>cr \<in> {cr \<in> set (byName crs). Name (ObjectMeta cr) \<noteq> self}. rule_content ` set (elems (cr_Rules cr))) =
      matched_rules s self sel"
    by (auto simp: byName_def matched_rules_def)
  with list that show thesis by (simp add: add_roles_content)
qed

lemma read_quiet:
  assumes "cluster_ok C" "quiet_roles C" "wf_state (w_state w)" "kube_read C f w = Some (r, w1)"
  obtains ch where "range_ok ch" "r = f ch (w_state w1)" "wf_state (w_state w1)" "same_roles (w_state w) (w_state w1)"
    "w_log w1 = w_log w"
proof -
  let ?s = "cl_others C (w_calls w) 0 (w_state w)"
  have "w_state w1 = ?s" "w_log w1 = w_log w" "r = f (cl_choices C (w_calls w) 0) ?s"
    using assms(4) by (auto simp: kube_read_def kube_call_def single_def)
  moreover have "wf_state ?s" "range_ok (cl_choices C (w_calls w) 0)" "same_roles (w_state w) ?s"
    using assms(1-3) by (simp_all add: cluster_ok_def fair_others_def quiet_roles_def)
  ultimately show thesis using that by simp
qed

lemma same_roles_trans: "same_roles s s1 \<Longrightarrow> same_roles s1 s2 \<Longrightarrow> same_roles s s2"
  by (simp add: same_roles_def)

lemma aggregate_rules_run:
  assumes "cluster_ok C" "quiet_roles C"
  shows "wf_state (w_state w) \<Longrightarrow> aggregate_rules C L self selectors acc w = Some (r, w') \<Longrightarrow>
    distinct (map rule_content acc) \<Longrightarrow>
    wf_state (w_state w') \<and> same_roles (w_state w) (w_state w') \<and> w_log w' = w_log w \<and>
    (case r of
       Inl e \<Rightarrow> \<exists>selector \<in> set selectors. LabelSelectorAsSelector L (Some selector) = Inl e
     | Inr rules \<Rightarrow> distinct (map rule_content rules) \<and>
         (\<forall>selector \<in> set selectors. \<exists>sel. LabelSelectorAsSelector L (Some selector) = Inr sel) \<and>
         rule_content ` set rules = rule_content ` set acc \<union> wanted_rules L (w_state w) self selectors)"
proof (induction selectors arbitrary: acc w)
  case Nil
  then show ?case by (auto simp: done_with_def same_roles_def wanted_rules_def)
next
  case (Cons selector selectors)
  show ?case
  proof (cases "LabelSelectorAsSelector L (Some selector)")
    case (Inl e)
    with Cons.prems show ?thesis by (auto simp: fail_with_def same_roles_def)
  next
    case (Inr sel)
    let ?read = "kube_read C (\<lambda>ch s. ClusterRoleList ch s sel)"
    from Cons.prems(2) Inr obtain r1 w1 where read: "?read w = Some (r1, w1)"
      by (auto simp: and_then_def with_result_def split: option.splits)
    from read_quiet [OF assms Cons.prems(1) read] obtain ch where ch: "range_ok ch" "r1 = ClusterRoleList ch (w_state w1) sel"
      and wf: "wf_state (w_state w1)" and same: "same_roles (w_state w) (w_state w1)" and log: "w_log w1 = w_log w" .
    from ClusterRoleList_rules [OF ch(1) wf] obtain crs where crs: "ClusterRoleList ch (w_state w1) sel = Inr crs"
      and content: "rule_content ` set (add_roles self acc (byName crs)) = rule_content ` set acc \<union> matched_rules (w_state w1) self sel"
      by blast
    have rest: "aggregate_rules C L self selectors (add_roles self acc (byName crs)) w1 = Some (r, w')"
      using Cons.prems(2) Inr read ch(2) crs by (simp add: and_then_def with_result_def)
    have "wanted_rules L (w_state w1) self selectors = wanted_rules L (w_state w) self selectors"
      by (rule wanted_rules_same [OF same Cons.prems(1) wf])
    moreover have "wanted_rules L (w_state w) self (selector # selectors) =
        matched_rules (w_state w) self sel \<union> wanted_rules L (w_state w) self selectors"
      using Inr by (simp add: wanted_rules_def)
    ultimately show ?thesis
      using Cons.IH [OF wf rest add_roles_distinct [OF Cons.prems(3)]] same_roles_trans [OF same] log Inr content
        matched_rules_same [OF same Cons.prems(1) wf]
      by (auto split: sum.splits)
  qed
qed

lemma ClusterRoleGet_iff:
  assumes "wf_state s"
  shows "ClusterRoleGet s name = Inr cr \<longleftrightarrow> st_m s (KKey ''ClusterRole'' name []) = Some (KClusterRole cr)"
    and "ClusterRoleGet s name = Inl e \<longleftrightarrow> st_m s (KKey ''ClusterRole'' name []) = None \<and> e = NotFound ''clusterrole'' name"
proof -
  have "\<exists>cr. ob = KClusterRole cr" if "st_m s (KKey ''ClusterRole'' name []) = Some ob" for ob
    using wf_state_kind [OF assms that] by (intro clusterroles.of_kind) simp
  then show "ClusterRoleGet s name = Inr cr \<longleftrightarrow> st_m s (KKey ''ClusterRole'' name []) = Some (KClusterRole cr)"
    "ClusterRoleGet s name = Inl e \<longleftrightarrow> st_m s (KKey ''ClusterRole'' name []) = None \<and> e = NotFound ''clusterrole'' name"
    by (cases "st_m s (KKey ''ClusterRole'' name [])";
        force simp: ClusterRoleGet_def ClusterRoleMutGet_def api_get_def NamespaceNone_def)+
qed

section \<open>Writing the rules back\<close>

definition aggregated :: "kube_lib \<Rightarrow> State \<Rightarrow> string \<Rightarrow> LabelSelector list \<Rightarrow> PolicyRule list \<Rightarrow> bool" where
  "aggregated L s name selectors rules \<longleftrightarrow>
     distinct (map rule_content rules) \<and> rule_content ` set rules = wanted_rules L s name selectors"

lemma aggregated_cong:
  "map rule_content rules = map rule_content rules' \<Longrightarrow> aggregated L s name selectors rules = aggregated L s name selectors rules'"
  unfolding aggregated_def by (metis set_map)

text \<open>
  Kubernetes does not touch the rules of a cluster role on an update: the conversions copy them, and the
  strategy leaves them alone.
\<close>

definition same_rules :: "ClusterRole \<Rightarrow> ClusterRole \<Rightarrow> bool" where
  "same_rules x y \<longleftrightarrow> map rule_content (elems (cr_Rules x)) = map rule_content (elems (cr_Rules y))"

definition role_hooks_keep :: "ClusterRole kind_ops \<Rightarrow> bool" where
  "role_hooks_keep ops \<longleftrightarrow>
     (\<forall>x y. to_internal ops x = Inr y \<longrightarrow> same_rules y x) \<and> (\<forall>x y. to_versioned ops x = Inr y \<longrightarrow> same_rules y x) \<and>
     (\<forall>ns x old y. RestBeforeUpdate ops ns x old = Inr y \<longrightarrow> same_rules y x)"

abbreviation role_key :: "string \<Rightarrow> KKey" where "role_key name \<equiv> KKey ''ClusterRole'' name []"

lemma role_pipeline:
  assumes "role_hooks_keep (roleOps E)"
    and pipe: "applyValidationAndDefaultingOnUpdate E (KClusterRole x) (KClusterRole old) ns = Inr ob"
  shows "\<exists>u. ob = KClusterRole u \<and> same_rules u x"
proof -
  from pipe obtain i oldi z u where "to_internal (roleOps E) x = Inr i" "RestBeforeUpdate (roleOps E) ns i oldi = Inr z"
    "to_versioned (roleOps E) z = Inr u" and ob: "ob = KClusterRole u"
    by (auto simp: applyValidationAndDefaultingOnUpdate_def convert_in_def convert_out_def ebind_Inr_iff check_Inr_iff
        typed_update_def map_sum_Inr split: sum.splits)
  with assms(1) have "same_rules i x" "same_rules z i" "same_rules u z"
    unfolding role_hooks_keep_def by blast+
  with ob show ?thesis by (simp add: same_rules_def)
qed

lemma quiet_roles_interfered: "quiet_roles C \<Longrightarrow> same_roles s (interfered (cl_others C n) m s)"
  by (induction m) (simp_all add: quiet_roles_def same_roles_def)

lemma clusterroles_update_stores:
  assumes "cluster_ok C" "quiet_roles C" "role_hooks_keep (roleOps (cl_env C))"
    and cr: "st_m (w_state w) (role_key name) = Some (KClusterRole cr)" "Name (ObjectMeta cr) = name"
      "DeletionTimestamp (ObjectMeta cr) = None"
    and call: "clusterroles_update C (cr\<lparr>cr_Rules := Some rules\<rparr>) w = Some (Inr x, w')"
  shows "\<exists>cr'. st_m (w_state w') (role_key name) = Some (KClusterRole cr') \<and>
      map rule_content (elems (cr_Rules cr')) = map rule_content rules"
    and "n \<noteq> name \<Longrightarrow> st_m (w_state w') (KKey ''ClusterRole'' n ns) = st_m (w_state w) (KKey ''ClusterRole'' n ns)"
proof -
  let ?cr = "cr\<lparr>cr_Rules := Some rules\<rparr>" and ?key = "role_key name" and ?others = "cl_others C (w_calls w)"
  from call obtain ob where "updateTx (cl_env C) (cl_choices C (w_calls w)) ?others ''ClusterRole'' [] (KClusterRole ?cr)
      (w_state w) = Some (Inr ob, w_state w')"
    by (auto simp: clusterroles_update_def kube_call_def ClusterRoleUpdateTx_def assert_call_def ebind_Inr_iff
        split: option.splits)
  moreover have "st_m (?others i s) ?key = st_m s ?key" for i s using assms(2) by (simp add: quiet_roles_def same_roles_def)
  ultimately have "\<exists>m u rv. applyValidationAndDefaultingOnUpdate (cl_env C)
      (set_metadata (KClusterRole ?cr) ((metadata (KClusterRole ?cr))\<lparr>Namespace := [], ResourceVersion := rv\<rparr>)) (KClusterRole cr) [] = Inr u \<and>
    written_as ?key (KClusterRole cr) u (interfered ?others m (w_state w)) (w_state w')"
    by (intro updateTx_written) (use assms(1) cr in \<open>simp_all add: cluster_ok_def\<close>)
  then obtain m u rv where
    pipe: "applyValidationAndDefaultingOnUpdate (cl_env C)
      (KClusterRole (?cr\<lparr>ObjectMeta := (ObjectMeta cr)\<lparr>Namespace := [], ResourceVersion := rv\<rparr>\<rparr>)) (KClusterRole cr) [] = Inr u"
    and written: "written_as ?key (KClusterRole cr) u (interfered ?others m (w_state w)) (w_state w')" by auto
  have same: "same_roles (w_state w) (interfered ?others m (w_state w))" by (rule quiet_roles_interfered [OF assms(2)])
  from role_pipeline [OF assms(3) pipe] obtain v where v: "u = KClusterRole v" "map rule_content (elems (cr_Rules v)) = map rule_content rules"
    by (auto simp: same_rules_def)
  have "cr_Rules v = cr_Rules cr" if "storage_view u = storage_view (KClusterRole cr)"
    using that v(1) by (auto simp: storage_view_def dest: arg_cong [of _ _ cr_Rules])
  then show "\<exists>cr'. st_m (w_state w') ?key = Some (KClusterRole cr') \<and> map rule_content (elems (cr_Rules cr')) = map rule_content rules"
    using written same cr(1) v unfolding written_as_def same_roles_def by auto
  show "st_m (w_state w') (KKey ''ClusterRole'' n ns) = st_m (w_state w) (KKey ''ClusterRole'' n ns)" if "n \<noteq> name"
    using written same that unfolding written_as_def same_roles_def by auto
qed

text \<open>The outcome of a sync of a role with these selectors.\<close>

definition role_outcome :: "cluster \<Rightarrow> kube_lib \<Rightarrow> State \<Rightarrow> string \<Rightarrow> ClusterRole \<Rightarrow> LabelSelector list \<Rightarrow> client_write list \<Rightarrow>
    error + unit \<Rightarrow> World \<Rightarrow> bool" where
  "role_outcome C L s name cr selectors log r w' \<longleftrightarrow>
     (case r of
        Inr _ \<Rightarrow>
          (\<exists>cr'. st_m (w_state w') (role_key name) = Some (KClusterRole cr') \<and>
             aggregated L s name selectors (elems (cr_Rules cr'))) \<and>
          (\<forall>n ns. n \<noteq> name \<longrightarrow> st_m (w_state w') (KKey ''ClusterRole'' n ns) = st_m s (KKey ''ClusterRole'' n ns)) \<and>
          (w_log w' = log \<and> aggregated L s name selectors (elems (cr_Rules cr)) \<or>
           (\<exists>rules. w_log w' = log @ [WClusterRoleUpdate (cr\<lparr>cr_Rules := Some rules\<rparr>)] \<and>
              aggregated L s name selectors rules \<and> \<not> rules_DeepEqual (Some rules) (cr_Rules cr)))
      | Inl e \<Rightarrow>
          w_log w' = log \<and> same_roles s (w_state w') \<and>
            (\<exists>selector \<in> set selectors. LabelSelectorAsSelector L (Some selector) = Inl e) \<or>
          (\<exists>rules w1. aggregated L s name selectors rules \<and> \<not> rules_DeepEqual (Some rules) (cr_Rules cr) \<and>
             w_log w1 = log \<and> same_roles s (w_state w1) \<and>
             clusterroles_update C (cr\<lparr>cr_Rules := Some rules\<rparr>) w1 = Some (Inl e, w')))"

lemma replace_rules_outcome:
  assumes quiet: "cluster_ok C" "quiet_roles C" "role_hooks_keep (roleOps (cl_env C))" and same: "same_roles s (w_state w)"
    and cr: "st_m s (role_key name) = Some (KClusterRole cr)" "Name (ObjectMeta cr) = name" "DeletionTimestamp (ObjectMeta cr) = None"
    and rules: "aggregated L s name selectors rules"
    and run: "replace_rules C cr rules w = Some (r, w')"
  shows "role_outcome C L s name cr selectors (w_log w) r w'"
proof (cases "rules_DeepEqual (Some rules) (cr_Rules cr)")
  case True
  then have "map rule_content rules = map rule_content (elems (cr_Rules cr))"
    by (simp add: rules_DeepEqual_def rule_DeepEqual_def list_all2_conv_all_nth list_eq_iff_nth_eq)
  with rules have "aggregated L s name selectors (elems (cr_Rules cr))" using aggregated_cong by blast
  moreover have "r = Inr ()" "w' = w" using run True by (simp_all add: replace_rules_def done_with_def)
  ultimately show ?thesis using cr(1) same by (simp add: role_outcome_def same_roles_def)
next
  case False
  with run obtain r1 w1 where call: "clusterroles_update C (cr\<lparr>cr_Rules := Some rules\<rparr>) w = Some (r1, w1)"
    and w1: "w1 = w'" "r = map_sum id (\<lambda>_. ()) r1"
    by (auto simp: replace_rules_def and_then_def with_result_def done_with_def fail_with_def split: option.splits sum.splits)
  show ?thesis
  proof (cases r1)
    case (Inl e)
    then show ?thesis using call w1 rules False same unfolding role_outcome_def by auto
  next
    case (Inr x)
    have stored: "st_m (w_state w) (role_key name) = Some (KClusterRole cr)" using cr(1) same by (simp add: same_roles_def)
    note stores = clusterroles_update_stores [OF quiet stored cr(2,3) call [unfolded Inr w1]]
    have "w_log w' = w_log w @ [WClusterRoleUpdate (cr\<lparr>cr_Rules := Some rules\<rparr>)]"
      using call w1 by (auto simp: clusterroles_update_def kube_call_def split: option.splits)
    moreover obtain cr' where "st_m (w_state w') (role_key name) = Some (KClusterRole cr')"
      "aggregated L s name selectors (elems (cr_Rules cr'))"
      using stores(1) rules aggregated_cong by blast
    ultimately show ?thesis using stores(2) same rules False Inr w1(2) unfolding role_outcome_def same_roles_def by auto
  qed
qed

lemma aggregate_outcome:
  assumes quiet: "cluster_ok C" "quiet_roles C" "role_hooks_keep (roleOps (cl_env C))"
    and wf: "wf_state s" "wf_state (w_state w)" and same: "same_roles s (w_state w)"
    and cr: "st_m s (role_key name) = Some (KClusterRole cr)" "Name (ObjectMeta cr) = name" "DeletionTimestamp (ObjectMeta cr) = None"
    and run: "and_then (aggregate_rules C L name selectors []) (replace_rules C cr) w = Some (r, w')"
  shows "role_outcome C L s name cr selectors (w_log w) r w'"
proof -
  from run obtain r2 w2 where agg: "aggregate_rules C L name selectors [] w = Some (r2, w2)"
    by (auto simp: and_then_def with_result_def split: option.splits)
  note agg_run = aggregate_rules_run [OF quiet(1,2) wf(2) agg]
  show ?thesis
  proof (cases r2)
    case (Inl e)
    then have "w' = w2" "r = Inl e" using run agg by (simp_all add: and_then_def with_result_def fail_with_def)
    then show ?thesis using agg_run Inl same_roles_trans [OF same] by (simp add: role_outcome_def)
  next
    case (Inr rules)
    then have rest: "replace_rules C cr rules w2 = Some (r, w')" using run agg by (simp add: and_then_def with_result_def)
    from agg_run Inr wanted_rules_same [OF same wf]
    have "aggregated L s name selectors rules" "w_log w2 = w_log w" "same_roles s (w_state w2)"
      using same_roles_trans [OF same] by (simp_all add: aggregated_def)
    with replace_rules_outcome [OF quiet _ cr _ rest] show ?thesis by simp
  qed
qed

section \<open>What it sends\<close>

definition role_update :: "string \<Rightarrow> client_write \<Rightarrow> bool" where
  "role_update name x \<longleftrightarrow> (\<exists>cr. x = WClusterRoleUpdate cr \<and> Name (ObjectMeta cr) = name)"

lemma aggregate_rules_sends: "sends_only C P (aggregate_rules C L self selectors acc)"
  by (induction selectors arbitrary: acc) (auto intro!: sends_intros sends_case_sum)

lemma replace_rules_sends: "P (WClusterRoleUpdate (cr\<lparr>cr_Rules := Some rules\<rparr>)) \<Longrightarrow> sends_only C P (replace_rules C cr rules)"
  unfolding replace_rules_def by (intro sends_intros sends_client)

lemma syncClusterRole_sends: "sends_only C (role_update name) (syncClusterRole C L name)"
  unfolding syncClusterRole_def
proof (rule sends_then [OF sends_read], rule sends_case_sum)
  fix r s cr
  assume wf: "wf_state s" and "\<exists>ch. range_ok ch \<and> r = ClusterRoleGet s name" "r = Inr cr"
  then have "st_m s (KKey ''ClusterRole'' name []) = Some (KClusterRole cr)" using ClusterRoleGet_iff(1) [OF wf, of name cr] by auto
  then have "Name (ObjectMeta cr) = name" using wf_state_stored [OF wf] by (fastforce simp: stored_ok_def)
  then show "sends_only C (role_update name) (case cr_AggregationRule cr of
      None \<Rightarrow> done_with ()
    | Some clusterRoleSelectors \<Rightarrow>
        and_then (aggregate_rules C L (Name (ObjectMeta cr)) (elems clusterRoleSelectors) []) (replace_rules C cr))"
    by (auto intro!: sends_intros aggregate_rules_sends replace_rules_sends simp: role_update_def split: option.split)
qed (intro sends_intros)

interpretation clusterrole: controller "\<lambda>name C. syncClusterRole C L name" role_update
  by unfold_locales (rule syncClusterRole_sends)

section \<open>Properties\<close>

text \<open>C24: The sync of a stored role with an aggregation rule that is not being deleted, while the other
  clients leave the cluster roles alone. If it succeeds, the stored role has exactly the rules of the other roles its
  selectors match, each once and up to nil and empty slices, no other role has changed, and the only
  request was one update of the role when its rules were not these already. It fails only when a
  selector is invalid, and then nothing was sent and no role has changed, or when that one update,
  of the role with the wanted rules and with all roles as they were, failed with the same error.\<close>

theorem syncClusterRole_aggregates:
  assumes "cluster_ok C" "quiet_roles C" "role_hooks_keep (roleOps (cl_env C))" "wf_state (w_state w)"
    and "st_m (w_state w) (role_key name) = Some (KClusterRole cr)" "DeletionTimestamp (ObjectMeta cr) = None"
      "cr_AggregationRule cr = Some selectors"
    and "syncClusterRole C L name w = Some (r, w')"
  shows "role_outcome C L (w_state w) name cr (elems selectors) (w_log w) r w'"
proof -
  from assms(8) obtain r1 w1 where get: "kube_read C (\<lambda>ch s. ClusterRoleGet s name) w = Some (r1, w1)"
    by (auto simp: syncClusterRole_def with_result_def split: option.splits)
  from read_quiet [OF assms(1,2,4) get] have r1: "r1 = ClusterRoleGet (w_state w1) name"
    and wf: "wf_state (w_state w1)" and same: "same_roles (w_state w) (w_state w1)" and log: "w_log w1 = w_log w"
    by metis+
  have "st_m (w_state w1) (role_key name) = Some (KClusterRole cr)" using same assms(5) by (simp add: same_roles_def)
  then have "r1 = Inr cr" using r1 ClusterRoleGet_iff(1) [OF wf, of name cr] by simp
  moreover have self: "Name (ObjectMeta cr) = name"
    using wf_state_stored [OF assms(4,5)] by (simp add: stored_ok_def)
  ultimately have "and_then (aggregate_rules C L name (elems selectors) []) (replace_rules C cr) w1 = Some (r, w')"
    using assms(7,8) get by (simp add: syncClusterRole_def with_result_def)
  from aggregate_outcome [OF assms(1-4) wf same assms(5) self assms(6) this] log show ?thesis by simp
qed

definition view_rule :: PolicyRule where
  "view_rule = \<lparr>pr_Verbs = Some [''get''], pr_APIGroups = None, pr_Resources = Some [''pods''], pr_ResourceNames = None,
     pr_NonResourceURLs = None\<rparr>"

definition example_role :: "string \<Rightarrow> string \<Rightarrow> string \<Rightarrow> PolicyRule slice \<Rightarrow> LabelSelector slice option \<Rightarrow> ClusterRole" where
  "example_role name uid rv rules agg = \<lparr>TypeMeta = empty_TypeMeta,
     ObjectMeta = (example_meta name [])\<lparr>UID := uid, ResourceVersion := rv\<rparr>, cr_Rules = rules, cr_AggregationRule = agg\<rparr>"

definition any_role :: LabelSelector where
  "any_role = \<lparr>MatchLabels = None, MatchExpressions = None\<rparr>"

definition admin :: ClusterRole where "admin = example_role ''admin'' ''a'' ''1'' None (Some (Some [any_role]))"
definition view :: ClusterRole where "view = example_role ''view'' ''v'' ''2'' (Some [view_rule]) None"

definition role_state :: State where
  "role_state = \<lparr>st_m = [KKey ''ClusterRole'' ''admin'' [] \<mapsto> KClusterRole admin,
       KKey ''ClusterRole'' ''view'' [] \<mapsto> KClusterRole view],
     usedUID = {''a'', ''v''}, usedRV = {''1'', ''2''}, resourceVersionCounter = 0\<rparr>"

lemma role_state_wf: "wf_state role_state"
  by (auto simp: wf_state_def stored_ok_def role_state_def admin_def view_def example_role_def example_meta_def
      parse_uint_def digit_val_def split: if_splits)

definition admin_after :: ClusterRole where
  "admin_after = example_role ''admin'' ''a'' ''0'' (Some [view_rule]) (Some (Some [any_role]))"

lemma admin_update:
  "update example_env example_choices ''ClusterRole'' [] (KClusterRole (admin\<lparr>cr_Rules := Some [view_rule]\<rparr>)) role_state =
    Some (Inr (KClusterRole admin_after), role_state\<lparr>usedRV := {''0'', ''1'', ''2''},
      st_m := (st_m role_state)(KKey ''ClusterRole'' ''admin'' [] \<mapsto> KClusterRole admin_after)\<rparr>)"
  by (simp add: update_def updateLocked_def update_with_def update_checks_def update_commit_def request_rv_def
      parse_uint_def digit_val_def store_object_def Let_def example_new_rv example_env_simps example_ensure_namespace_def
      applyValidationAndDefaultingOnUpdate_def example_ops_simps example_ops_def convert_in_def convert_out_def
      typed_update_def example_before_update_def storageObjectDeepEqual_def storage_view_def shouldDeleteDuringUpdate_def
      role_state_def admin_def admin_after_def example_role_def example_meta_def view_rule_def insert_commute)

lemma role_list: "ClusterRoleList example_choices role_state (\<lambda>_. True) = Inr [admin, view]"
proof -
  have "dom (st_m role_state) = {KKey ''ClusterRole'' ''admin'' [], KKey ''ClusterRole'' ''view'' []}"
    by (auto simp: role_state_def)
  then have "o_range example_choices (dom (st_m role_state)) = [KKey ''ClusterRole'' ''admin'' [], KKey ''ClusterRole'' ''view'' []]"
    by (simp add: example_choices_def less_eq_KKey_def)
  then show ?thesis
    by (simp add: ClusterRoleList_def ClusterRoleMutList_def objListBySelector_def objList_def objListLocked_def
        filterByLabelSelector_def list_entry_def NamespaceAll_def assert_type_def)
      (simp add: role_state_def assert_type_def)
qed

lemma admin_tx:
  "updateTx example_env (\<lambda>_. example_choices) (\<lambda>_ s. s) ''ClusterRole'' [] (KClusterRole (admin\<lparr>cr_Rules := Some [view_rule]\<rparr>))
     role_state = Some (Inr (KClusterRole admin_after), role_state\<lparr>usedRV := {''0'', ''1'', ''2''},
      st_m := (st_m role_state)(KKey ''ClusterRole'' ''admin'' [] \<mapsto> KClusterRole admin_after)\<rparr>)"
proof -
  let ?cr = "admin\<lparr>cr_Rules := Some [view_rule]\<rparr>"
  have ns: "example_ensure_namespace [] (ObjectMeta admin) = Inr (ObjectMeta admin)" "Name (ObjectMeta admin) = ''admin''"
    by (simp_all add: example_ensure_namespace_def admin_def example_role_def example_meta_def)
  have rv: "set_metadata (KClusterRole ?cr) (ObjectMeta admin) = KClusterRole ?cr"
    by (simp add: admin_def example_role_def example_meta_def)
  have get: "api_get role_state (KKey ''ClusterRole'' ''admin'' []) = Inr (KClusterRole admin)"
    by (simp add: api_get_def role_state_def)
  show ?thesis
    unfolding updateTx_def
    by (rule tx_loop_unfold) (simp add: update_attempt_def Let_def example_env_simps ns get rv admin_update
        conflict_retries_def del: set_metadata.simps)
qed

lemma admin_sync:
  "syncClusterRole example_cluster example_lib ''admin'' (world role_state) = Some (Inr (), \<lparr>w_state =
      role_state\<lparr>usedRV := {''0'', ''1'', ''2''}, st_m := (st_m role_state)(KKey ''ClusterRole'' ''admin'' [] \<mapsto> KClusterRole admin_after)\<rparr>,
     w_calls = 3, w_log = [WClusterRoleUpdate (admin\<lparr>cr_Rules := Some [view_rule]\<rparr>)]\<rparr>)"
proof -
  have get: "ClusterRoleGet role_state ''admin'' = Inr admin"
    by (simp add: ClusterRoleGet_def ClusterRoleMutGet_def api_get_def role_state_def NamespaceNone_def assert_type_def)
  have any: "LabelSelectorAsSelector example_lib (Some any_role) = Inr (\<lambda>_. True)"
    by (simp add: example_lib_def example_selector_def any_role_def copy_map_def)
  have roles: "add_roles ''admin'' [] (byName [admin, view]) = [view_rule]"
    by (simp add: byName_def admin_def view_def example_role_def example_meta_def)
  have agg: "cr_AggregationRule admin = Some (Some [any_role])" "Name (ObjectMeta admin) = ''admin''" "cr_Rules admin = None"
    by (simp_all add: admin_def example_role_def example_meta_def)
  have "clusterroles_update example_cluster (admin\<lparr>cr_Rules := Some [view_rule]\<rparr>) \<lparr>w_state = role_state, w_calls = 2, w_log = []\<rparr> =
      Some (Inr admin_after, \<lparr>w_state = role_state\<lparr>usedRV := {''0'', ''1'', ''2''},
        st_m := (st_m role_state)(KKey ''ClusterRole'' ''admin'' [] \<mapsto> KClusterRole admin_after)\<rparr>,
       w_calls = 3, w_log = [WClusterRoleUpdate (admin\<lparr>cr_Rules := Some [view_rule]\<rparr>)]\<rparr>)"
    by (simp add: clusterroles_update_def kube_call_def ClusterRoleUpdateTx_def example_cluster_def admin_tx assert_call_def
        assert_type_def)
  then show ?thesis
    by (simp add: syncClusterRole_def with_result_def and_then_def example_read get agg any role_list roles world_def
        replace_rules_def rules_DeepEqual_def done_with_def numeral_2_eq_2)
qed

theorem syncClusterRole_aggregates_witness:
  "\<exists>w'. syncClusterRole example_cluster example_lib ''admin'' (world role_state) = Some (Inr (), w') \<and>
    role_outcome example_cluster example_lib role_state ''admin'' admin [any_role] [] (Inr ()) w'"
proof -
  have "quiet_roles example_cluster" by (simp add: quiet_roles_def same_roles_def)
  moreover have "role_hooks_keep (roleOps (cl_env example_cluster))"
    by (auto simp: role_hooks_keep_def same_rules_def example_cluster_def example_env_def example_ops_def
        example_before_update_def Let_def split: if_splits)
  moreover have "st_m role_state (role_key ''admin'') = Some (KClusterRole admin)" "DeletionTimestamp (ObjectMeta admin) = None"
    "cr_AggregationRule admin = Some (Some [any_role])"
    by (simp_all add: role_state_def admin_def example_role_def example_meta_def)
  ultimately show ?thesis
    using syncClusterRole_aggregates [OF example_cluster_ok _ _ _ _ _ _ admin_sync, of admin "Some [any_role]"]
      role_state_wf admin_sync by simp
qed

end
