(* ===== verification/Ctl_StatefulSet.thy ===== *)
theory Ctl_StatefulSet
  imports Ctl_Example
begin

text \<open>
  The stateful set controller (src/controllers/statefulset/stateful_set.go). A Go \<open>int\<close> has
  64 bits and every ordinal fits in 32, so ordinals are integers. The loops over the map of claim
  templates visit it in the order \<open>rg loop pod names\<close>, any enumeration of its keys.
\<close>

section \<open>Names and ordinals\<close>

definition replicasOf :: "StatefulSet \<Rightarrow> int" where
  "replicasOf ss = (case ss_Replicas (ss_Spec ss) of None \<Rightarrow> 1 | Some r \<Rightarrow> sint r)"

definition endOrdinalOf :: "StatefulSet \<Rightarrow> int" where
  "endOrdinalOf ss = replicasOf ss - 1"

definition podName :: "string \<Rightarrow> int \<Rightarrow> string" where
  "podName setName ordinal = setName @ ''-'' @ format_int ordinal"

definition claimName :: "string \<Rightarrow> string \<Rightarrow> int \<Rightarrow> string" where
  "claimName setName claimTemplateName ordinal = claimTemplateName @ ''-'' @ setName @ ''-'' @ format_int ordinal"

text \<open>\<open>strings.LastIndex(s, "-")\<close>.\<close>

definition LastIndex :: "string \<Rightarrow> char \<Rightarrow> nat option" where
  "LastIndex s c =
     (if c \<in> set s then Some (length s - 1 - length (takeWhile (\<lambda>x. x \<noteq> c) (rev s))) else None)"

definition parentNameAndOrdinal :: "string \<Rightarrow> string \<times> int" where
  "parentNameAndOrdinal name =
     (case LastIndex name (CHR ''-'') of
        None \<Rightarrow> ([], -1)
      | Some idx \<Rightarrow>
          (case parse_int (drop (idx + 1) name) 32 of
             None \<Rightarrow> ([], -1)
           | Some ordinal \<Rightarrow> (take idx name, ordinal)))"

definition ordinalOf :: "string \<Rightarrow> int" where
  "ordinalOf name = (case parentNameAndOrdinal name of (_, ordinal) \<Rightarrow> ordinal)"

definition isMemberOf :: "string \<Rightarrow> string \<Rightarrow> bool" where
  "isMemberOf setName name =
     (case parentNameAndOrdinal name of (parent, ordinal) \<Rightarrow>
        parent = setName \<and> ordinal \<ge> 0 \<and> name = podName setName ordinal)"

definition filterPodsForStatefulSet :: "StatefulSet \<Rightarrow> Pod list \<Rightarrow> Pod list" where
  "filterPodsForStatefulSet ss pods =
     filter (\<lambda>pod. isMemberOf (Name (ObjectMeta ss)) (Name (ObjectMeta pod))) pods"

definition podInOrdinalRange :: "StatefulSet \<Rightarrow> string \<Rightarrow> bool" where
  "podInOrdinalRange ss name \<longleftrightarrow> (let ordinal = ordinalOf name in ordinal \<ge> 0 \<and> ordinal \<le> endOrdinalOf ss)"

definition isTerminating :: "Pod \<Rightarrow> bool" where
  "isTerminating pod \<longleftrightarrow> DeletionTimestamp (ObjectMeta pod) \<noteq> None"

section \<open>Releasing pods\<close>

definition releasePod :: "cluster \<Rightarrow> StatefulSet \<Rightarrow> Pod \<Rightarrow> unit step" where
  "releasePod C ss pod =
     (let owners = elems (OwnerReferences (ObjectMeta pod));
          kept = filter (\<lambda>r. or_UID r \<noteq> UID (ObjectMeta ss)) owners;
          released = list_ex (\<lambda>r. or_UID r = UID (ObjectMeta ss)) owners
      in if \<not> released then done_with ()
         else with_result (pods_update C (Namespace (ObjectMeta pod))
                (pod\<lparr>ObjectMeta := (ObjectMeta pod)\<lparr>OwnerReferences := Some kept\<rparr>\<rparr>)) (\<lambda>r.
           case r of
             Inl e \<Rightarrow> if IsNotFound e then done_with () else fail_with e
           | Inr _ \<Rightarrow> done_with ()))"

fun releasePodsWithBadNames :: "cluster \<Rightarrow> StatefulSet \<Rightarrow> Pod list \<Rightarrow> unit step" where
  "releasePodsWithBadNames C ss [] = done_with ()"
| "releasePodsWithBadNames C ss (pod # pods) =
     (if isMemberOf (Name (ObjectMeta ss)) (Name (ObjectMeta pod)) then releasePodsWithBadNames C ss pods
      else and_then (releasePod C ss pod) (\<lambda>_. releasePodsWithBadNames C ss pods))"

section \<open>Identity and storage\<close>

definition StatefulSetPodNameLabel :: string where "StatefulSetPodNameLabel = ''statefulset.kubernetes.io/pod-name''"
definition PodIndexLabel :: string where "PodIndexLabel = ''apps.kubernetes.io/pod-index''"

definition updateIdentity :: "StatefulSet \<Rightarrow> Pod \<Rightarrow> Pod" where
  "updateIdentity ss pod =
     (let ordinal = ordinalOf (Name (ObjectMeta pod));
          name = podName (Name (ObjectMeta ss)) ordinal;
          labels = copy_map (Labels (ObjectMeta pod))
      in pod\<lparr>ObjectMeta := (ObjectMeta pod)
           \<lparr>Name := name, Namespace := Namespace (ObjectMeta ss),
            Labels := Some (fmupd PodIndexLabel (format_int ordinal) (fmupd StatefulSetPodNameLabel name labels))\<rparr>\<rparr>)"

definition initIdentity :: "StatefulSet \<Rightarrow> Pod \<Rightarrow> Pod" where
  "initIdentity ss pod =
     (let pod1 = updateIdentity ss pod
      in pod1\<lparr>pod_Spec := (pod_Spec pod1)
           \<lparr>Hostname := Name (ObjectMeta pod1), Subdomain := ServiceName (ss_Spec ss)\<rparr>\<rparr>)"

definition identityMatches :: "StatefulSet \<Rightarrow> Pod \<Rightarrow> bool" where
  "identityMatches ss pod =
     (let md = ObjectMeta pod; setName = Name (ObjectMeta ss) in
      case parentNameAndOrdinal (Name md) of (parent, ordinal) \<Rightarrow>
        ordinal \<ge> 0 \<and> parent = setName \<and> Name md = podName setName ordinal \<and>
        Namespace md = Namespace (ObjectMeta ss) \<and>
        map_index (Labels md) StatefulSetPodNameLabel = Name md \<and>
        map_index (Labels md) PodIndexLabel = format_int ordinal)"

text \<open>A map filled by a loop: the last entry with a key wins.\<close>

definition map_by :: "('a \<Rightarrow> string) \<Rightarrow> 'a list \<Rightarrow> string \<Rightarrow> 'a option" where
  "map_by key xs = map_of (rev (map (\<lambda>x. (key x, x)) xs))"

definition claim_templates :: "StatefulSet \<Rightarrow> PersistentVolumeClaim list" where
  "claim_templates ss = elems (VolumeClaimTemplates (ss_Spec ss))"

definition volumeClaimTemplatesByName :: "StatefulSet \<Rightarrow> string \<Rightarrow> PersistentVolumeClaim option" where
  "volumeClaimTemplatesByName ss = map_by (\<lambda>c. Name (ObjectMeta c)) (claim_templates ss)"

definition claim_names :: "StatefulSet \<Rightarrow> string set" where
  "claim_names ss = (\<lambda>c. Name (ObjectMeta c)) ` set (claim_templates ss)"

type_synonym key_order = "string \<Rightarrow> string \<Rightarrow> string set \<Rightarrow> string list"

definition key_order_ok :: "key_order \<Rightarrow> bool" where
  "key_order_ok rg \<longleftrightarrow> (\<forall>loop key A. finite A \<longrightarrow> distinct (rg loop key A) \<and> set (rg loop key A) = A)"

definition claim_volume :: "StatefulSet \<Rightarrow> int \<Rightarrow> string \<Rightarrow> Volume" where
  "claim_volume ss ordinal name =
     \<lparr>vol_Name = name,
      vol_PersistentVolumeClaim = map_option (\<lambda>claim.
        \<lparr>pvs_ClaimName = claimName (Name (ObjectMeta ss)) (Name (ObjectMeta claim)) ordinal, pvs_rest = []\<rparr>)
        (volumeClaimTemplatesByName ss name),
      vol_EmptyDir = None, vol_rest = []\<rparr>"

definition initStorage :: "key_order \<Rightarrow> StatefulSet \<Rightarrow> Pod \<Rightarrow> Pod" where
  "initStorage rg ss pod =
     (let ordinal = ordinalOf (Name (ObjectMeta pod));
          currentVolumes = elems (Volumes (pod_Spec pod));
          claimTemplates = volumeClaimTemplatesByName ss;
          newVolumes = map (claim_volume ss ordinal) (rg ''initStorage'' (Name (ObjectMeta pod)) (claim_names ss)) @
            filter (\<lambda>volume. claimTemplates (vol_Name volume) = None) currentVolumes
      in pod\<lparr>pod_Spec := (pod_Spec pod)\<lparr>Volumes := Some newVolumes\<rparr>\<rparr>)"

definition volume_matches :: "StatefulSet \<Rightarrow> int \<Rightarrow> (string \<Rightarrow> Volume option) \<Rightarrow> string \<Rightarrow> bool" where
  "volume_matches ss ordinal volumes name =
     (case (volumes name, volumeClaimTemplatesByName ss name) of
        (Some volume, Some claim) \<Rightarrow>
          (case vol_PersistentVolumeClaim volume of
             None \<Rightarrow> False
           | Some pvc \<Rightarrow> pvs_ClaimName pvc = claimName (Name (ObjectMeta ss)) (Name (ObjectMeta claim)) ordinal)
      | _ \<Rightarrow> False)"

definition storageMatches :: "StatefulSet \<Rightarrow> Pod \<Rightarrow> bool" where
  "storageMatches ss pod =
     (let ordinal = ordinalOf (Name (ObjectMeta pod)) in
      if ordinal < 0 then False
      else list_all (volume_matches ss ordinal (map_by vol_Name (elems (Volumes (pod_Spec pod)))))
             (map (\<lambda>c. Name (ObjectMeta c)) (claim_templates ss)))"

definition newStatefulSetPod :: "kube_lib \<Rightarrow> key_order \<Rightarrow> StatefulSet \<Rightarrow> int \<Rightarrow> Pod" where
  "newStatefulSetPod L rg ss ordinal =
     (let pod = GetPodFromTemplate L (ss_Template (ss_Spec ss)) (ObjectMeta ss)
                  (Some (NewControllerRef (ObjectMeta ss) ''apps/v1'' ''StatefulSet''));
          pod1 = pod\<lparr>ObjectMeta := (ObjectMeta pod)\<lparr>Name := podName (Name (ObjectMeta ss)) ordinal\<rparr>\<rparr>
      in initStorage rg ss (initIdentity ss pod1))"

definition withoutStatefulSetFields :: "PodSpec \<Rightarrow> PodSpec" where
  "withoutStatefulSetFields spec = spec\<lparr>Volumes := None, Hostname := [], Subdomain := []\<rparr>"

definition podSpecMatches :: "StatefulSet \<Rightarrow> Pod \<Rightarrow> bool" where
  "podSpecMatches ss pod \<longleftrightarrow>
     (if Hostname (pod_Spec pod) \<noteq> Name (ObjectMeta pod) \<or>
         Subdomain (pod_Spec pod) \<noteq> ServiceName (ss_Spec ss) \<or> \<not> storageMatches ss pod
      then False
      else withoutStatefulSetFields (pod_Spec pod) = withoutStatefulSetFields (tmpl_Spec (ss_Template (ss_Spec ss))))"

section \<open>Claims\<close>

definition newPersistentVolumeClaim :: "StatefulSet \<Rightarrow> Pod \<Rightarrow> PersistentVolumeClaim \<Rightarrow> PersistentVolumeClaim" where
  "newPersistentVolumeClaim ss pod claimTemplate =
     (let md = ObjectMeta claimTemplate;
          labels = copy_map (Labels md);
          selected = (case ss_Selector (ss_Spec ss) of None \<Rightarrow> fmempty | Some sel \<Rightarrow> copy_map (MatchLabels sel))
      in claimTemplate\<lparr>ObjectMeta := md
           \<lparr>Name := claimName (Name (ObjectMeta ss)) (Name md) (ordinalOf (Name (ObjectMeta pod))),
            Namespace := Namespace (ObjectMeta ss), OwnerReferences := None,
            Labels := Some (labels ++\<^sub>f selected)\<rparr>\<rparr>)"

definition createPersistentVolumeClaim :: "cluster \<Rightarrow> StatefulSet \<Rightarrow> Pod \<Rightarrow> PersistentVolumeClaim \<Rightarrow> unit step" where
  "createPersistentVolumeClaim C ss pod claimTemplate =
     (let claim = newPersistentVolumeClaim ss pod claimTemplate; md = ObjectMeta claim
      in with_result (kube_read C (\<lambda>ch s. PersistentVolumeClaimGet s (Namespace md) (Name md))) (\<lambda>r.
           case r of
             Inr _ \<Rightarrow> done_with ()
           | Inl e \<Rightarrow>
               if IsNotFound e
               then with_result (claims_create C (Namespace md) claim) (\<lambda>r1.
                 case r1 of
                   Inr _ \<Rightarrow> done_with ()
                 | Inl e1 \<Rightarrow> if \<not> IsAlreadyExists e1 then fail_with e1 else done_with ())
               else fail_with e))"

fun create_claims :: "cluster \<Rightarrow> StatefulSet \<Rightarrow> Pod \<Rightarrow> PersistentVolumeClaim list \<Rightarrow> unit step" where
  "create_claims C ss pod [] = done_with ()"
| "create_claims C ss pod (claimTemplate # rest) =
     and_then (createPersistentVolumeClaim C ss pod claimTemplate) (\<lambda>_. create_claims C ss pod rest)"

definition createPersistentVolumeClaims :: "cluster \<Rightarrow> key_order \<Rightarrow> StatefulSet \<Rightarrow> Pod \<Rightarrow> unit step" where
  "createPersistentVolumeClaims C rg ss pod =
     create_claims C ss pod
       (List.map_filter (volumeClaimTemplatesByName ss)
          (rg ''createPersistentVolumeClaims'' (Name (ObjectMeta pod)) (claim_names ss)))"

section \<open>Pods\<close>

definition createStatefulPod :: "cluster \<Rightarrow> key_order \<Rightarrow> StatefulSet \<Rightarrow> Pod \<Rightarrow> unit step" where
  "createStatefulPod C rg ss pod =
     and_then (createPersistentVolumeClaims C rg ss pod) (\<lambda>_.
       with_result (pods_create C (Namespace (ObjectMeta ss)) pod) (\<lambda>r.
         case r of
           Inr _ \<Rightarrow> done_with ()
         | Inl e \<Rightarrow> if IsAlreadyExists e then done_with () else fail_with e))"

definition updateStatefulPod :: "cluster \<Rightarrow> StatefulSet \<Rightarrow> Pod \<Rightarrow> unit step" where
  "updateStatefulPod C ss pod =
     (if identityMatches ss pod then done_with ()
      else let updatedPod = updateIdentity ss pod
           in and_then (pods_update C (Namespace (ObjectMeta updatedPod)) updatedPod) (\<lambda>_. done_with ()))"

definition deletePod :: "cluster \<Rightarrow> Pod \<Rightarrow> unit step" where
  "deletePod C pod =
     with_result (pods_delete C (Namespace (ObjectMeta pod)) (Name (ObjectMeta pod)) empty_DeleteOptions) (\<lambda>r.
       case r of
         Inr _ \<Rightarrow> done_with ()
       | Inl e \<Rightarrow> if \<not> IsNotFound e then fail_with e else done_with ())"

definition findPodByOrdinal :: "StatefulSet \<Rightarrow> Pod list \<Rightarrow> int \<Rightarrow> Pod option" where
  "findPodByOrdinal ss pods ordinal =
     List.find (\<lambda>pod. case parentNameAndOrdinal (Name (ObjectMeta pod)) of (parent, podOrdinal) \<Rightarrow>
       parent = Name (ObjectMeta ss) \<and> podOrdinal = ordinal) pods"

fun condemned_from :: "StatefulSet \<Rightarrow> Pod option \<Rightarrow> Pod list \<Rightarrow> Pod option" where
  "condemned_from ss condemned [] = condemned"
| "condemned_from ss condemned (pod # pods) =
     (let ordinal = ordinalOf (Name (ObjectMeta pod)) in
      if ordinal < 0 \<or> podInOrdinalRange ss (Name (ObjectMeta pod)) then condemned_from ss condemned pods
      else condemned_from ss
        (case condemned of
           None \<Rightarrow> Some pod
         | Some c \<Rightarrow> if ordinal > ordinalOf (Name (ObjectMeta c)) then Some pod else Some c) pods)"

definition firstCondemnedPod :: "StatefulSet \<Rightarrow> Pod list \<Rightarrow> Pod option" where
  "firstCondemnedPod ss pods = condemned_from ss None pods"

fun outdated_from :: "StatefulSet \<Rightarrow> Pod list \<Rightarrow> int list \<Rightarrow> Pod option" where
  "outdated_from ss pods [] = None"
| "outdated_from ss pods (ordinal # ordinals) =
     (case findPodByOrdinal ss pods ordinal of
        None \<Rightarrow> outdated_from ss pods ordinals
      | Some pod \<Rightarrow> if \<not> podSpecMatches ss pod then Some pod else outdated_from ss pods ordinals)"

definition largestOutdatedPod :: "StatefulSet \<Rightarrow> Pod list \<Rightarrow> Pod option" where
  "largestOutdatedPod ss pods = outdated_from ss pods (rev [0..endOrdinalOf ss])"

section \<open>Reconciliation\<close>

fun reconcile_ordinals :: "cluster \<Rightarrow> kube_lib \<Rightarrow> key_order \<Rightarrow> StatefulSet \<Rightarrow> Pod list \<Rightarrow> int list \<Rightarrow> bool step" where
  "reconcile_ordinals C L rg ss pods [] = done_with True"
| "reconcile_ordinals C L rg ss pods (ordinal # ordinals) =
     (case findPodByOrdinal ss pods ordinal of
        None \<Rightarrow> and_then (createStatefulPod C rg ss (newStatefulSetPod L rg ss ordinal)) (\<lambda>_. done_with False)
      | Some pod \<Rightarrow>
          if isTerminating pod then done_with False
          else and_then (createPersistentVolumeClaims C rg ss pod) (\<lambda>_.
               and_then (updateStatefulPod C ss pod) (\<lambda>_.
               reconcile_ordinals C L rg ss pods ordinals)))"

definition reconcileDesiredPods :: "cluster \<Rightarrow> kube_lib \<Rightarrow> key_order \<Rightarrow> StatefulSet \<Rightarrow> Pod list \<Rightarrow> bool step" where
  "reconcileDesiredPods C L rg ss pods = reconcile_ordinals C L rg ss pods [0..endOrdinalOf ss]"

definition reconcileCondemnedPod :: "cluster \<Rightarrow> StatefulSet \<Rightarrow> Pod list \<Rightarrow> bool step" where
  "reconcileCondemnedPod C ss pods =
     (case firstCondemnedPod ss pods of
        None \<Rightarrow> done_with True
      | Some condemned \<Rightarrow>
          if isTerminating condemned then done_with False
          else and_then (deletePod C condemned) (\<lambda>_. done_with False))"

definition reconcileOutdatedPod :: "cluster \<Rightarrow> StatefulSet \<Rightarrow> Pod list \<Rightarrow> unit step" where
  "reconcileOutdatedPod C ss pods =
     (case largestOutdatedPod ss pods of
        None \<Rightarrow> done_with ()
      | Some outdated \<Rightarrow> if isTerminating outdated then done_with () else deletePod C outdated)"

definition reconcileReplicas :: "cluster \<Rightarrow> kube_lib \<Rightarrow> key_order \<Rightarrow> StatefulSet \<Rightarrow> Pod list \<Rightarrow> unit step" where
  "reconcileReplicas C L rg ss pods =
     and_then (reconcileDesiredPods C L rg ss pods) (\<lambda>continue1.
       if \<not> continue1 then done_with ()
       else and_then (reconcileCondemnedPod C ss pods) (\<lambda>continue2.
         if \<not> continue2 then done_with () else reconcileOutdatedPod C ss pods))"

definition syncStatefulSet :: "cluster \<Rightarrow> kube_lib \<Rightarrow> key_order \<Rightarrow> string \<Rightarrow> string \<Rightarrow> unit step" where
  "syncStatefulSet C L rg namespace name =
     with_result (kube_read C (\<lambda>ch s. StatefulSetGet s namespace name)) (\<lambda>r.
       case r of
         Inl e \<Rightarrow> if IsNotFound e then done_with () else fail_with e
       | Inr ss \<Rightarrow>
           and_then (FilterPodsByOwner C (ObjectMeta ss) ''StatefulSet'') (\<lambda>allPods.
             if DeletionTimestamp (ObjectMeta ss) \<noteq> None then done_with ()
             else and_then (releasePodsWithBadNames C ss allPods) (\<lambda>_.
                  reconcileReplicas C L rg ss (filterPodsForStatefulSet ss allPods))))"

section \<open>Names\<close>

lemma LastIndex_append:
  assumes "c \<notin> set b"
  shows "LastIndex (a @ c # b) c = Some (length a)"
proof -
  have "takeWhile (\<lambda>x. x \<noteq> c) (rev b @ c # rev a) = rev b"
    using assms by (subst takeWhile_append2) auto
  then show ?thesis by (simp add: LastIndex_def)
qed

lemma format_int_no_dash: "0 \<le> i \<Longrightarrow> CHR ''-'' \<notin> set (format_int i)"
  by (simp add: format_int_def format_nat_no_sign)

lemma parentNameAndOrdinal_podName:
  assumes "0 \<le> ordinal" "ordinal < 2 ^ 31"
  shows "parentNameAndOrdinal (podName setName ordinal) = (setName, ordinal)"
proof -
  have "LastIndex (podName setName ordinal) (CHR ''-'') = Some (length setName)"
    using LastIndex_append [OF format_int_no_dash [OF assms(1)]] by (simp add: podName_def)
  then show ?thesis using assms parse_int_format [of ordinal 32] by (simp add: parentNameAndOrdinal_def podName_def)
qed

lemma parse_int_range: "parse_int s 32 = Some n \<Longrightarrow> n < 2 ^ 31"
  by (auto simp: parse_int_def Let_def split: if_splits option.splits)

lemma ordinal_range: "parentNameAndOrdinal name = (parent, ordinal) \<Longrightarrow> ordinal < 2 ^ 31"
  by (auto simp: parentNameAndOrdinal_def dest: parse_int_range split: option.splits)

lemma isMemberOf_iff: "isMemberOf setName name \<longleftrightarrow> (\<exists>ordinal. 0 \<le> ordinal \<and> ordinal < 2 ^ 31 \<and> name = podName setName ordinal)"
  using ordinal_range [of name] parentNameAndOrdinal_podName [of _ setName]
  by (auto simp: isMemberOf_def split: prod.splits)

lemma podName_inject: "0 \<le> a \<Longrightarrow> a < 2 ^ 31 \<Longrightarrow> 0 \<le> b \<Longrightarrow> b < 2 ^ 31 \<Longrightarrow>
    podName s a = podName t b \<longleftrightarrow> s = t \<and> a = b"
  by (metis parentNameAndOrdinal_podName prod.inject)

lemma member_ordinal: "isMemberOf setName name \<Longrightarrow> parentNameAndOrdinal name = (setName, ordinalOf name) \<and>
    0 \<le> ordinalOf name \<and> name = podName setName (ordinalOf name)"
  by (auto simp: isMemberOf_def ordinalOf_def split: prod.splits)

lemma ordinalOf_podName: "0 \<le> ordinal \<Longrightarrow> ordinal < 2 ^ 31 \<Longrightarrow> ordinalOf (podName setName ordinal) = ordinal"
  by (simp add: ordinalOf_def parentNameAndOrdinal_podName)

lemma replicas_range: "replicasOf ss < 2 ^ 31" "replicasOf ss \<ge> - (2 ^ 31)"
  using sint_lt [of "the (ss_Replicas (ss_Spec ss))"] sint_ge [of "the (ss_Replicas (ss_Spec ss))"]
  by (auto simp: replicasOf_def split: option.splits)

section \<open>A new pod is in place\<close>

lemma map_by_unique:
  assumes "x \<in> set xs" "\<And>y. y \<in> set xs \<Longrightarrow> key y = key x \<Longrightarrow> y = x"
  shows "map_by key xs (key x) = Some x"
proof -
  let ?ps = "rev (map (\<lambda>x. (key x, x)) xs)"
  have "map_of ?ps (key x) \<noteq> None" using assms(1) by (simp add: map_of_eq_None_iff image_image)
  then obtain y where y: "map_of ?ps (key x) = Some y" by blast
  then have "y \<in> set xs" "key y = key x" by (auto dest!: map_of_SomeD)
  with assms(2) y show ?thesis by (simp add: map_by_def)
qed

lemma map_by_Some: "map_by key xs k = Some x \<Longrightarrow> x \<in> set xs \<and> key x = k"
  by (auto simp: map_by_def dest!: map_of_SomeD)

lemma map_by_None: "map_by key xs k = None \<longleftrightarrow> k \<notin> key ` set xs"
  by (auto simp: map_by_def map_of_eq_None_iff image_image)

lemma claim_template_name: "volumeClaimTemplatesByName ss n = Some claim \<Longrightarrow> Name (ObjectMeta claim) = n"
  by (auto simp: volumeClaimTemplatesByName_def dest: map_by_Some)

lemma claim_template_None: "volumeClaimTemplatesByName ss n = None \<longleftrightarrow> n \<notin> claim_names ss"
  by (simp add: volumeClaimTemplatesByName_def map_by_None claim_names_def)

lemma finite_claim_names [simp]: "finite (claim_names ss)"
  by (simp add: claim_names_def)

lemma initStorage_simps [simp]:
  "ObjectMeta (initStorage rg ss pod) = ObjectMeta pod"
  "Hostname (pod_Spec (initStorage rg ss pod)) = Hostname (pod_Spec pod)"
  "Subdomain (pod_Spec (initStorage rg ss pod)) = Subdomain (pod_Spec pod)"
  "withoutStatefulSetFields (pod_Spec (initStorage rg ss pod)) = withoutStatefulSetFields (pod_Spec pod)"
  by (simp_all add: initStorage_def Let_def withoutStatefulSetFields_def)

lemma initStorage_matches:
  assumes "key_order_ok rg" "0 \<le> ordinalOf (Name (ObjectMeta pod))"
  shows "storageMatches ss (initStorage rg ss pod)"
proof -
  let ?o = "ordinalOf (Name (ObjectMeta pod))"
  let ?vols = "elems (Volumes (pod_Spec (initStorage rg ss pod)))"
  let ?names = "rg ''initStorage'' (Name (ObjectMeta pod)) (claim_names ss)"
  have names: "set ?names = claim_names ss" using assms(1) by (simp add: key_order_ok_def)
  have vols: "?vols = map (claim_volume ss ?o) ?names @
      filter (\<lambda>volume. volumeClaimTemplatesByName ss (vol_Name volume) = None) (elems (Volumes (pod_Spec pod)))"
    by (simp add: initStorage_def Let_def)
  have "volume_matches ss ?o (map_by vol_Name ?vols) n" if n: "n \<in> claim_names ss" for n
  proof -
    let ?v = "claim_volume ss ?o n"
    have key: "vol_Name ?v = n" by (simp add: claim_volume_def)
    have "map_by vol_Name ?vols (vol_Name ?v) = Some ?v"
    proof (rule map_by_unique)
      show "?v \<in> set ?vols" using n by (simp add: vols names)
      fix y assume "y \<in> set ?vols" "vol_Name y = vol_Name ?v"
      then show "y = ?v" using n names claim_template_None [of ss n]
        by (auto simp: vols claim_volume_def)
    qed
    moreover obtain claim where "volumeClaimTemplatesByName ss n = Some claim"
      using n claim_template_None [of ss n] by blast
    ultimately show ?thesis by (simp add: volume_matches_def claim_volume_def)
  qed
  then show ?thesis using assms(2) by (auto simp: storageMatches_def Let_def list_all_iff claim_names_def)
qed

lemma updateIdentity_simps:
  assumes "0 \<le> ordinalOf (Name (ObjectMeta pod))"
  shows "Name (ObjectMeta (updateIdentity ss pod)) = podName (Name (ObjectMeta ss)) (ordinalOf (Name (ObjectMeta pod)))"
    and "Namespace (ObjectMeta (updateIdentity ss pod)) = Namespace (ObjectMeta ss)"
    and "OwnerReferences (ObjectMeta (updateIdentity ss pod)) = OwnerReferences (ObjectMeta pod)"
    and "pod_Spec (updateIdentity ss pod) = pod_Spec pod"
    and "identityMatches ss (updateIdentity ss pod)"
proof -
  have "ordinalOf (Name (ObjectMeta pod)) < 2 ^ 31" using ordinal_range by (simp add: ordinalOf_def split: prod.split)
  note again = parentNameAndOrdinal_podName [OF assms this, of "Name (ObjectMeta ss)"]
  have labels: "StatefulSetPodNameLabel \<noteq> PodIndexLabel" by (simp add: StatefulSetPodNameLabel_def PodIndexLabel_def)
  show "Name (ObjectMeta (updateIdentity ss pod)) = podName (Name (ObjectMeta ss)) (ordinalOf (Name (ObjectMeta pod)))"
    "Namespace (ObjectMeta (updateIdentity ss pod)) = Namespace (ObjectMeta ss)"
    "OwnerReferences (ObjectMeta (updateIdentity ss pod)) = OwnerReferences (ObjectMeta pod)"
    "pod_Spec (updateIdentity ss pod) = pod_Spec pod"
    by (simp_all add: updateIdentity_def Let_def)
  show "identityMatches ss (updateIdentity ss pod)"
    using again assms labels by (simp add: identityMatches_def updateIdentity_def Let_def map_index_def)
qed

lemma newStatefulSetPod_meta:
  assumes "0 \<le> ordinal" "ordinal < 2 ^ 31"
  shows "Name (ObjectMeta (newStatefulSetPod L rg ss ordinal)) = podName (Name (ObjectMeta ss)) ordinal"
    and "Namespace (ObjectMeta (newStatefulSetPod L rg ss ordinal)) = Namespace (ObjectMeta ss)"
    and "identityMatches ss (newStatefulSetPod L rg ss ordinal)"
    and "GetControllerOf (ObjectMeta (newStatefulSetPod L rg ss ordinal)) =
      Some (NewControllerRef (ObjectMeta ss) ''apps/v1'' ''StatefulSet'')"
    and "key_order_ok rg \<Longrightarrow> podSpecMatches ss (newStatefulSetPod L rg ss ordinal)"
proof -
  let ?base = "GetPodFromTemplate L (ss_Template (ss_Spec ss)) (ObjectMeta ss)
      (Some (NewControllerRef (ObjectMeta ss) ''apps/v1'' ''StatefulSet''))"
  let ?pod = "?base\<lparr>ObjectMeta := (ObjectMeta ?base)\<lparr>Name := podName (Name (ObjectMeta ss)) ordinal\<rparr>\<rparr>"
  have o1: "ordinalOf (Name (ObjectMeta ?pod)) = ordinal" using ordinalOf_podName [OF assms] by simp
  then have o2: "0 \<le> ordinalOf (Name (ObjectMeta ?pod))" using assms(1) by simp
  note ids = updateIdentity_simps [OF o2, of ss]
  have init: "ObjectMeta (initIdentity ss ?pod) = ObjectMeta (updateIdentity ss ?pod)"
    "Hostname (pod_Spec (initIdentity ss ?pod)) = podName (Name (ObjectMeta ss)) ordinal"
    "Subdomain (pod_Spec (initIdentity ss ?pod)) = ServiceName (ss_Spec ss)"
    "withoutStatefulSetFields (pod_Spec (initIdentity ss ?pod)) = withoutStatefulSetFields (tmpl_Spec (ss_Template (ss_Spec ss)))"
    using ids(1,4) o1 by (simp_all add: initIdentity_def Let_def withoutStatefulSetFields_def GetPodFromTemplate_def)
  have new: "newStatefulSetPod L rg ss ordinal = initStorage rg ss (initIdentity ss ?pod)"
    by (simp add: newStatefulSetPod_def Let_def)
  have same: "identityMatches ss p = identityMatches ss q" if "ObjectMeta p = ObjectMeta q" for p q
    using that by (simp add: identityMatches_def)
  show name: "Name (ObjectMeta (newStatefulSetPod L rg ss ordinal)) = podName (Name (ObjectMeta ss)) ordinal"
    using ids(1) o1 by (simp add: new init)
  show "Namespace (ObjectMeta (newStatefulSetPod L rg ss ordinal)) = Namespace (ObjectMeta ss)"
    using ids(2) by (simp add: new init)
  show "identityMatches ss (newStatefulSetPod L rg ss ordinal)"
    using ids(5) same [of "newStatefulSetPod L rg ss ordinal" "updateIdentity ss ?pod"] by (simp add: new init)
  have "storageMatches ss (newStatefulSetPod L rg ss ordinal)" if "key_order_ok rg"
    unfolding new using ids(1) o1 assms by (intro initStorage_matches [OF that]) (simp add: init ordinalOf_podName)
  then show "podSpecMatches ss (newStatefulSetPod L rg ss ordinal)" if "key_order_ok rg"
    using name that by (simp add: podSpecMatches_def new init)
  have "OwnerReferences (ObjectMeta ?pod) = Some [NewControllerRef (ObjectMeta ss) ''apps/v1'' ''StatefulSet'']"
    by (simp add: GetPodFromTemplate_def)
  then have "OwnerReferences (ObjectMeta (newStatefulSetPod L rg ss ordinal)) =
      Some [NewControllerRef (ObjectMeta ss) ''apps/v1'' ''StatefulSet'']"
    using ids(3) by (simp add: new init)
  moreover have "or_Controller (NewControllerRef (ObjectMeta ss) ''apps/v1'' ''StatefulSet'') = Some True"
    by (simp add: NewControllerRef_def)
  ultimately show "GetControllerOf (ObjectMeta (newStatefulSetPod L rg ss ordinal)) =
      Some (NewControllerRef (ObjectMeta ss) ''apps/v1'' ''StatefulSet'')"
    by (simp add: GetControllerOf_def)
qed

end
