(* ===== verification/Ctl_Log.thy ===== *)
theory Ctl_Log
  imports Ctl_Common "HOL-Library.Sublist"
begin

text \<open>
  Proving which requests a controller step sends. \<open>logs m Q\<close>: a run of \<open>m\<close> sends requests
  related by \<open>Q\<close> to its result. \<open>attempts keep plan X m\<close>: of the requests that
  satisfy \<open>keep\<close>, a run of \<open>m\<close> that succeeds sends exactly \<open>plan\<close> and returns a value of
  \<open>X\<close>, and a run that fails sends a prefix of \<open>plan\<close>. It holds for every behaviour of the API
  and of the other clients.
\<close>

text \<open>A panic stops the program: the step has no result.\<close>

definition panic_step :: "'a step" where "panic_step w = None"

lemma with_resultE:
  assumes "with_result m k w = Some (r, w')"
  obtains r1 w1 where "m w = Some (r1, w1)" "k r1 w1 = Some (r, w')"
  using assms by (auto simp: with_result_def split: option.splits)

lemma and_thenE:
  assumes "and_then m k w = Some (r, w')"
  obtains (failed) e where "m w = Some (Inl e, w')" "r = Inl e"
    | (passed) x w1 where "m w = Some (Inr x, w1)" "k x w1 = Some (r, w')"
proof -
  from assms obtain r1 w1 where "m w = Some (r1, w1)" "(case r1 of Inl e \<Rightarrow> fail_with e | Inr x \<Rightarrow> k x) w1 = Some (r, w')"
    unfolding and_then_def by (rule with_resultE)
  then show ?thesis using that by (cases r1) (auto simp: fail_with_def)
qed

definition logs :: "'a step \<Rightarrow> (error + 'a \<Rightarrow> client_write list \<Rightarrow> bool) \<Rightarrow> bool" where
  "logs m Q \<longleftrightarrow> (\<forall>w r w'. m w = Some (r, w') \<longrightarrow> (\<exists>ws. w_log w' = w_log w @ ws \<and> Q r ws))"

lemma logsI: "(\<And>w r w'. m w = Some (r, w') \<Longrightarrow> \<exists>ws. w_log w' = w_log w @ ws \<and> Q r ws) \<Longrightarrow> logs m Q"
  by (simp add: logs_def)

lemma logsD:
  assumes "logs m Q" "m w = Some (r, w')"
  obtains ws where "w_log w' = w_log w @ ws" "Q r ws"
  using assms unfolding logs_def by blast

lemma logs_done: "Q (Inr x) [] \<Longrightarrow> logs (done_with x) Q"
  by (simp add: logs_def done_with_def)

lemma logs_fail: "Q (Inl e) [] \<Longrightarrow> logs (fail_with e) Q"
  by (simp add: logs_def fail_with_def)

lemma logs_call: "(\<And>r. Q r ws) \<Longrightarrow> logs (kube_call C ws f) Q"
  by (auto simp: logs_def kube_call_def split: option.splits)

lemma logs_mono: "logs m Q \<Longrightarrow> (\<And>r ws. Q r ws \<Longrightarrow> Q' r ws) \<Longrightarrow> logs m Q'"
  unfolding logs_def by blast

lemma logs_then:
  assumes "logs m R" "\<And>r ws. R r ws \<Longrightarrow> logs (k r) (\<lambda>r' ws'. Q r' (ws @ ws'))"
  shows "logs (with_result m k) Q"
proof (rule logsI)
  fix w r w'
  assume "with_result m k w = Some (r, w')"
  then obtain r1 w1 where run: "m w = Some (r1, w1)" and rest: "k r1 w1 = Some (r, w')"
    by (auto simp: with_result_def split: option.splits)
  from logsD [OF assms(1) run] obtain ws where 1: "w_log w1 = w_log w @ ws" "R r1 ws" .
  from logsD [OF assms(2) [OF 1(2)] rest] obtain ws' where "w_log w' = w_log w1 @ ws'" "Q r (ws @ ws')" .
  with 1(1) show "\<exists>ws. w_log w' = w_log w @ ws \<and> Q r ws" by auto
qed

lemma logs_and_then:
  assumes "logs m R" "\<And>x ws. R (Inr x) ws \<Longrightarrow> logs (k x) (\<lambda>r' ws'. Q r' (ws @ ws'))"
    and "\<And>e ws. R (Inl e) ws \<Longrightarrow> Q (Inl e) ws"
  shows "logs (and_then m k) Q"
  unfolding and_then_def using assms by (auto intro!: logs_then logs_fail split: sum.split)

definition attempts :: "(client_write \<Rightarrow> bool) \<Rightarrow> client_write list \<Rightarrow> 'a set \<Rightarrow> 'a step \<Rightarrow> bool" where
  "attempts keep plan X m \<longleftrightarrow> logs m (\<lambda>r ws.
     case r of Inl _ \<Rightarrow> prefix (filter keep ws) plan | Inr x \<Rightarrow> x \<in> X \<and> filter keep ws = plan)"

lemma attemptsI:
  "(\<And>w r w'. m w = Some (r, w') \<Longrightarrow> \<exists>ws. w_log w' = w_log w @ ws \<and>
     (case r of Inl _ \<Rightarrow> prefix (filter keep ws) plan | Inr x \<Rightarrow> x \<in> X \<and> filter keep ws = plan)) \<Longrightarrow>
    attempts keep plan X m"
  by (simp add: attempts_def logs_def)

lemma attemptsD:
  assumes "attempts keep plan X m" "m w = Some (r, w')"
  obtains ws where "w_log w' = w_log w @ ws" "\<And>e. r = Inl e \<Longrightarrow> prefix (filter keep ws) plan"
    "\<And>x. r = Inr x \<Longrightarrow> x \<in> X \<and> filter keep ws = plan"
proof -
  from assms obtain ws where "w_log w' = w_log w @ ws"
    "case r of Inl _ \<Rightarrow> prefix (filter keep ws) plan | Inr x \<Rightarrow> x \<in> X \<and> filter keep ws = plan"
    unfolding attempts_def logs_def by blast
  then show ?thesis using that by (cases r) auto
qed

lemma attempts_done: "x \<in> X \<Longrightarrow> attempts keep [] X (done_with x)"
  by (auto simp: attempts_def logs_def done_with_def)

lemma attempts_fail: "attempts keep plan X (fail_with e)"
  by (auto simp: attempts_def logs_def fail_with_def)

lemma attempts_lift: "(\<And>x. r = Inr x \<Longrightarrow> x \<in> X) \<Longrightarrow> attempts keep [] X (lift_result r)"
  by (auto simp: attempts_def logs_def lift_result_def split: sum.split)

lemma attempts_call:
  assumes "\<And>r. attempts keep plan X (k r)"
  shows "attempts keep (filter keep ws @ plan) X (with_result (kube_call C ws f) k)"
proof (rule attemptsI)
  fix w r w'
  assume run: "with_result (kube_call C ws f) k w = Some (r, w')"
  then obtain r1 w1 where call: "kube_call C ws f w = Some (r1, w1)" and rest: "k r1 w1 = Some (r, w')"
    by (auto simp: with_result_def split: option.splits)
  from call have log: "w_log w1 = w_log w @ ws" by (auto simp: kube_call_def split: option.splits)
  from attemptsD [OF assms rest] obtain ws1 where "w_log w' = w_log w1 @ ws1"
    "\<And>e. r = Inl e \<Longrightarrow> prefix (filter keep ws1) plan" "\<And>x. r = Inr x \<Longrightarrow> x \<in> X \<and> filter keep ws1 = plan" by blast
  with log show "\<exists>ws1. w_log w' = w_log w @ ws1 \<and>
      (case r of Inl _ \<Rightarrow> prefix (filter keep ws1) (filter keep ws @ plan)
       | Inr x \<Rightarrow> x \<in> X \<and> filter keep ws1 = filter keep ws @ plan)"
    by (intro exI [of _ "ws @ ws1"]) (auto split: sum.split)
qed

lemma attempts_and_then:
  assumes "attempts keep p1 X m" "\<And>x. x \<in> X \<Longrightarrow> attempts keep p2 Y (k x)"
  shows "attempts keep (p1 @ p2) Y (and_then m k)"
proof (rule attemptsI)
  fix w r w'
  assume "and_then m k w = Some (r, w')"
  then obtain r1 w1 where run: "m w = Some (r1, w1)"
    and rest: "(case r1 of Inl e \<Rightarrow> fail_with e | Inr x \<Rightarrow> k x) w1 = Some (r, w')"
    by (auto simp: and_then_def with_result_def split: option.splits)
  from attemptsD [OF assms(1) run] obtain ws1 where log: "w_log w1 = w_log w @ ws1"
    and 1: "\<And>e. r1 = Inl e \<Longrightarrow> prefix (filter keep ws1) p1" "\<And>x. r1 = Inr x \<Longrightarrow> x \<in> X \<and> filter keep ws1 = p1" by blast
  show "\<exists>ws. w_log w' = w_log w @ ws \<and>
      (case r of Inl _ \<Rightarrow> prefix (filter keep ws) (p1 @ p2) | Inr x \<Rightarrow> x \<in> Y \<and> filter keep ws = p1 @ p2)"
  proof (cases r1)
    case (Inl e)
    with rest 1(1) log show ?thesis by (auto simp: fail_with_def intro: prefix_prefix)
  next
    case (Inr x)
    with rest 1(2) have "x \<in> X" "k x w1 = Some (r, w')" "filter keep ws1 = p1" by auto
    moreover from attemptsD [OF assms(2) this(2)] this(1) obtain ws2 where "w_log w' = w_log w1 @ ws2"
      "\<And>e. r = Inl e \<Longrightarrow> prefix (filter keep ws2) p2" "\<And>x. r = Inr x \<Longrightarrow> x \<in> Y \<and> filter keep ws2 = p2" by blast
    ultimately show ?thesis using log by (intro exI [of _ "ws1 @ ws2"]) (auto split: sum.split)
  qed
qed

lemma attempts_call_then:
  "(\<And>x. attempts keep plan X (k x)) \<Longrightarrow> attempts keep (filter keep ws @ plan) X (and_then (kube_call C ws f) k)"
  unfolding and_then_def by (rule attempts_call) (auto intro: attempts_fail split: sum.split)

lemma attempts_mono:
  assumes "attempts keep plan X m" "X \<subseteq> Y"
  shows "attempts keep plan Y m"
proof (rule attemptsI)
  fix w r w'
  assume "m w = Some (r, w')"
  from attemptsD [OF assms(1) this] obtain ws where "w_log w' = w_log w @ ws"
    "\<And>e. r = Inl e \<Longrightarrow> prefix (filter keep ws) plan" "\<And>x. r = Inr x \<Longrightarrow> x \<in> X \<and> filter keep ws = plan" by blast
  with assms(2) show "\<exists>ws. w_log w' = w_log w @ ws \<and>
      (case r of Inl _ \<Rightarrow> prefix (filter keep ws) plan | Inr x \<Rightarrow> x \<in> Y \<and> filter keep ws = plan)"
    by (intro exI [of _ ws]) (auto split: sum.split)
qed

lemma attempts_case_sum:
  "(\<And>e. attempts keep plan X (f e)) \<Longrightarrow> (\<And>x. attempts keep plan X (g x)) \<Longrightarrow>
    attempts keep plan X (case r of Inl e \<Rightarrow> f e | Inr x \<Rightarrow> g x)"
  by (cases r) simp_all

lemma attempts_if:
  "(b \<Longrightarrow> attempts keep plan X m) \<Longrightarrow> (\<not> b \<Longrightarrow> attempts keep plan X m') \<Longrightarrow> attempts keep plan X (if b then m else m')"
  by simp

text \<open>A step none of whose requests is kept.\<close>

lemma attempts_none_call:
  "filter keep ws = [] \<Longrightarrow> (\<And>r. attempts keep plan X (k r)) \<Longrightarrow> attempts keep plan X (with_result (kube_call C ws f) k)"
  using attempts_call [of keep plan X k ws C f] by simp

lemma attempts_none_then:
  "attempts keep [] X m \<Longrightarrow> (\<And>x. x \<in> X \<Longrightarrow> attempts keep plan Y (k x)) \<Longrightarrow> attempts keep plan Y (and_then m k)"
  using attempts_and_then [of keep "[]" X m plan Y k] by simp

lemma attempts_last_then:
  "attempts keep plan X m \<Longrightarrow> (\<And>x. x \<in> X \<Longrightarrow> attempts keep [] Y (k x)) \<Longrightarrow> attempts keep plan Y (and_then m k)"
  using attempts_and_then [of keep plan X m "[]" Y k] by simp

end
