(* ===== verification/Ctl_StatefulSet_Spec.thy ===== *)
theory Ctl_StatefulSet_Spec
  imports Ctl_StatefulSet Ctl_Log
begin

text \<open>
  What the stateful set controller promises. The abstract specification \<open>planned\<close> says which pod
  the controller creates or deletes in one round, from the pods alone; the controller refines it,
  and the plan changes one pod at a time and in order.
\<close>

section \<open>The plan of a round\<close>

definition blocks :: "StatefulSet \<Rightarrow> Pod list \<Rightarrow> int \<Rightarrow> bool" where
  "blocks ss pods ordinal \<longleftrightarrow>
     (case findPodByOrdinal ss pods ordinal of None \<Rightarrow> True | Some pod \<Rightarrow> isTerminating pod)"

definition excess_pod :: "StatefulSet \<Rightarrow> Pod list \<Rightarrow> Pod option" where
  "excess_pod ss pods =
     (case firstCondemnedPod ss pods of None \<Rightarrow> largestOutdatedPod ss pods | Some pod \<Rightarrow> Some pod)"

definition delete_of :: "Pod \<Rightarrow> client_write" where
  "delete_of pod = WPodDelete (Namespace (ObjectMeta pod)) (Name (ObjectMeta pod)) empty_DeleteOptions"

definition create_of :: "kube_lib \<Rightarrow> key_order \<Rightarrow> StatefulSet \<Rightarrow> int \<Rightarrow> client_write" where
  "create_of L rg ss ordinal = WPodCreate (Namespace (ObjectMeta ss)) (newStatefulSetPod L rg ss ordinal)"

definition planned_create :: "kube_lib \<Rightarrow> key_order \<Rightarrow> StatefulSet \<Rightarrow> Pod list \<Rightarrow> int list \<Rightarrow> client_write list" where
  "planned_create L rg ss pods ordinals =
     (case List.find (blocks ss pods) ordinals of
        None \<Rightarrow> []
      | Some k \<Rightarrow> if findPodByOrdinal ss pods k = None then [create_of L rg ss k] else [])"

definition planned :: "kube_lib \<Rightarrow> key_order \<Rightarrow> StatefulSet \<Rightarrow> Pod list \<Rightarrow> client_write list" where
  "planned L rg ss pods =
     (if list_ex (blocks ss pods) [0..endOrdinalOf ss]
      then planned_create L rg ss pods [0..endOrdinalOf ss]
      else case excess_pod ss pods of
          None \<Rightarrow> []
        | Some pod \<Rightarrow> if isTerminating pod then [] else [delete_of pod])"

fun pod_change :: "client_write \<Rightarrow> bool" where
  "pod_change (WPodCreate ns pod) = True"
| "pod_change (WPodDelete ns name options) = True"
| "pod_change _ = False"

section \<open>The controller refines the plan\<close>

lemma createPersistentVolumeClaim_quiet: "attempts pod_change [] UNIV (createPersistentVolumeClaim C ss pod tmpl)"
  unfolding createPersistentVolumeClaim_def kube_read_def claims_create_def Let_def
  by (intro attempts_none_call attempts_case_sum attempts_if attempts_done attempts_fail) simp_all

lemma create_claims_quiet: "attempts pod_change [] UNIV (create_claims C ss pod tmpls)"
  by (induction tmpls) (auto intro: attempts_done attempts_none_then [OF createPersistentVolumeClaim_quiet])

lemma claims_quiet: "attempts pod_change [] UNIV (createPersistentVolumeClaims C rg ss pod)"
  unfolding createPersistentVolumeClaims_def by (rule create_claims_quiet)

lemma updateStatefulPod_quiet: "attempts pod_change [] UNIV (updateStatefulPod C ss pod)"
  unfolding updateStatefulPod_def pods_update_def Let_def and_then_def
  by (intro attempts_if attempts_none_call attempts_case_sum attempts_done attempts_fail) simp_all

lemma createStatefulPod_sends:
  "attempts pod_change [WPodCreate (Namespace (ObjectMeta ss)) pod] UNIV (createStatefulPod C rg ss pod)"
proof -
  have "attempts pod_change (filter pod_change [WPodCreate (Namespace (ObjectMeta ss)) pod] @ []) UNIV
      (with_result (pods_create C (Namespace (ObjectMeta ss)) pod) (\<lambda>r. case r of
         Inr _ \<Rightarrow> done_with () | Inl e \<Rightarrow> if IsAlreadyExists e then done_with () else fail_with e))"
    unfolding pods_create_def
    by (intro attempts_call attempts_case_sum attempts_if attempts_done attempts_fail) simp_all
  then show ?thesis unfolding createStatefulPod_def
    by (intro attempts_none_then [OF claims_quiet]) simp
qed

lemma deletePod_sends: "attempts pod_change [delete_of pod] UNIV (deletePod C pod)"
proof -
  have "attempts pod_change (filter pod_change [delete_of pod] @ []) UNIV (deletePod C pod)"
    unfolding deletePod_def pods_delete_def delete_of_def
    by (intro attempts_call attempts_case_sum attempts_if attempts_done attempts_fail) simp_all
  then show ?thesis by (simp add: delete_of_def)
qed

lemma reconcile_ordinals_sends:
  "attempts pod_change (planned_create L rg ss pods ordinals) {\<not> list_ex (blocks ss pods) ordinals}
    (reconcile_ordinals C L rg ss pods ordinals)"
proof (induction ordinals)
  case Nil
  then show ?case by (simp add: planned_create_def attempts_done)
next
  case (Cons k ks)
  show ?case
  proof (cases "findPodByOrdinal ss pods k")
    case None
    then show ?thesis
      by (auto simp: planned_create_def blocks_def create_of_def intro!: attempts_last_then [OF createStatefulPod_sends] attempts_done)
  next
    case (Some pod)
    then have blocked: "blocks ss pods k = isTerminating pod" by (simp add: blocks_def)
    have "attempts pod_change (planned_create L rg ss pods (k # ks)) {\<not> list_ex (blocks ss pods) (k # ks)}
        (and_then (createPersistentVolumeClaims C rg ss pod) (\<lambda>_. and_then (updateStatefulPod C ss pod) (\<lambda>_.
           reconcile_ordinals C L rg ss pods ks)))" if "\<not> isTerminating pod"
      using Cons.IH Some that
      by (intro attempts_none_then [OF claims_quiet] attempts_none_then [OF updateStatefulPod_quiet])
        (simp add: planned_create_def blocked)
    then show ?thesis using Some by (auto simp: planned_create_def blocked intro!: attempts_done)
  qed
qed

lemma reconcileReplicas_sends: "attempts pod_change (planned L rg ss pods) UNIV (reconcileReplicas C L rg ss pods)"
proof (cases "list_ex (blocks ss pods) [0..endOrdinalOf ss]")
  case True
  then have plan: "planned L rg ss pods = planned_create L rg ss pods [0..endOrdinalOf ss]" by (simp add: planned_def)
  show ?thesis unfolding reconcileReplicas_def reconcileDesiredPods_def plan
    using True by (intro attempts_last_then [OF reconcile_ordinals_sends]) (auto intro: attempts_done)
next
  case False
  then have none: "planned_create L rg ss pods [0..endOrdinalOf ss] = []"
    by (auto simp: planned_create_def find_Some_iff list_ex_iff split: option.split)
  let ?rest = "and_then (reconcileCondemnedPod C ss pods) (\<lambda>continue2.
      if \<not> continue2 then done_with () else reconcileOutdatedPod C ss pods)"
  have "attempts pod_change (planned L rg ss pods) UNIV ?rest"
  proof (cases "firstCondemnedPod ss pods")
    case None
    have "attempts pod_change (planned L rg ss pods) UNIV (reconcileOutdatedPod C ss pods)"
      using False None deletePod_sends
      by (auto simp: planned_def excess_pod_def reconcileOutdatedPod_def attempts_done split: option.split)
    moreover have "attempts pod_change [] {True} (reconcileCondemnedPod C ss pods)"
      using None by (simp add: reconcileCondemnedPod_def attempts_done)
    ultimately show ?thesis by (auto intro: attempts_none_then)
  next
    case (Some pod)
    have "attempts pod_change (planned L rg ss pods) {False} (reconcileCondemnedPod C ss pods)"
      using False Some
      by (auto simp: planned_def excess_pod_def reconcileCondemnedPod_def
          intro: attempts_done attempts_last_then [OF deletePod_sends])
    then show ?thesis by (rule attempts_last_then) (auto intro: attempts_done)
  qed
  then show ?thesis unfolding reconcileReplicas_def reconcileDesiredPods_def
    using reconcile_ordinals_sends [of L rg ss pods "[0..endOrdinalOf ss]" C] False
    by (intro attempts_none_then [where X = "{True}"]) (auto simp: none)
qed

section \<open>The order of the plan\<close>

definition condemned_pod :: "StatefulSet \<Rightarrow> Pod \<Rightarrow> bool" where
  "condemned_pod ss pod \<longleftrightarrow> ordinalOf (Name (ObjectMeta pod)) \<ge> 0 \<and> ordinalOf (Name (ObjectMeta pod)) \<ge> replicasOf ss"

lemma condemned_step:
  "condemned_pod ss pod \<longleftrightarrow>
     \<not> (ordinalOf (Name (ObjectMeta pod)) < 0 \<or> podInOrdinalRange ss (Name (ObjectMeta pod)))"
  by (auto simp: condemned_pod_def podInOrdinalRange_def endOrdinalOf_def Let_def)

lemma condemned_from_spec:
  assumes "\<And>c. acc = Some c \<Longrightarrow> condemned_pod ss c"
  shows "case condemned_from ss acc pods of
      None \<Rightarrow> acc = None \<and> (\<forall>p \<in> set pods. \<not> condemned_pod ss p)
    | Some c \<Rightarrow> condemned_pod ss c \<and> c \<in> set pods \<union> set_option acc \<and>
        (\<forall>p \<in> set pods \<union> set_option acc. condemned_pod ss p \<longrightarrow>
           ordinalOf (Name (ObjectMeta p)) \<le> ordinalOf (Name (ObjectMeta c)))"
  using assms
proof (induction pods arbitrary: acc)
  case Nil
  then show ?case by (auto split: option.split)
next
  case (Cons pod pods)
  let ?o = "\<lambda>p. ordinalOf (Name (ObjectMeta p))"
  show ?case
  proof (cases "condemned_pod ss pod")
    case False
    then have "condemned_from ss acc (pod # pods) = condemned_from ss acc pods"
      using condemned_step [of ss pod] by (simp add: Let_def)
    with Cons.IH [of acc] Cons.prems False show ?thesis by (auto split: option.splits)
  next
    case True
    define acc1 where "acc1 = (case acc of None \<Rightarrow> Some pod | Some c \<Rightarrow> if ?o pod > ?o c then Some pod else Some c)"
    have eq: "condemned_from ss acc (pod # pods) = condemned_from ss acc1 pods"
      using condemned_step [of ss pod] True by (simp add: Let_def acc1_def)
    define c1 where "c1 = (case acc of None \<Rightarrow> pod | Some c \<Rightarrow> if ?o pod > ?o c then pod else c)"
    have c1: "acc1 = Some c1" "condemned_pod ss c1" "c1 \<in> insert pod (set_option acc)"
      and most: "\<And>q. q \<in> insert pod (set_option acc) \<Longrightarrow> ?o q \<le> ?o c1"
      using True Cons.prems by (auto simp: acc1_def c1_def split: option.splits if_splits)
    have IH: "case condemned_from ss acc1 pods of
        None \<Rightarrow> acc1 = None \<and> (\<forall>p \<in> set pods. \<not> condemned_pod ss p)
      | Some c \<Rightarrow> condemned_pod ss c \<and> c \<in> set pods \<union> set_option acc1 \<and>
          (\<forall>p \<in> set pods \<union> set_option acc1. condemned_pod ss p \<longrightarrow> ?o p \<le> ?o c)"
      by (rule Cons.IH) (simp add: c1(1,2))
    then obtain c where some: "condemned_from ss acc1 pods = Some c" using c1(1) by (auto split: option.splits)
    with IH c1(1,2) have c: "condemned_pod ss c" "c \<in> set pods \<union> {c1}" "?o c1 \<le> ?o c"
      "\<And>p. p \<in> set pods \<Longrightarrow> condemned_pod ss p \<Longrightarrow> ?o p \<le> ?o c" by simp_all
    have "?o p \<le> ?o c" if "p \<in> set (pod # pods) \<union> set_option acc" "condemned_pod ss p" for p
      using that c(4) [of p] most [of p] c(3) by auto
    then show ?thesis using c(1,2) c1(3) unfolding eq some option.case by auto
  qed
qed

lemma firstCondemnedPod_None: "firstCondemnedPod ss pods = None \<longleftrightarrow> (\<forall>p \<in> set pods. \<not> condemned_pod ss p)"
  using condemned_from_spec [of None ss pods] by (auto simp: firstCondemnedPod_def split: option.splits)

lemma firstCondemnedPod_Some:
  assumes "firstCondemnedPod ss pods = Some c"
  shows "c \<in> set pods" "condemned_pod ss c"
    "p \<in> set pods \<Longrightarrow> condemned_pod ss p \<Longrightarrow> ordinalOf (Name (ObjectMeta p)) \<le> ordinalOf (Name (ObjectMeta c))"
  using condemned_from_spec [of None ss pods] assms by (auto simp: firstCondemnedPod_def split: option.splits)

lemma find_SomeD: "List.find P xs = Some x \<Longrightarrow> x \<in> set xs \<and> P x"
  by (induction xs) (auto split: if_splits)

lemma findPodByOrdinal_Some:
  assumes "findPodByOrdinal ss pods k = Some p"
  shows "p \<in> set pods" "ordinalOf (Name (ObjectMeta p)) = k"
  using find_SomeD [OF assms [unfolded findPodByOrdinal_def]] by (simp_all add: ordinalOf_def split: prod.splits)

lemma outdated_from_Some:
  assumes "outdated_from ss pods ks = Some p"
  obtains i where "i < length ks" "findPodByOrdinal ss pods (ks ! i) = Some p" "\<not> podSpecMatches ss p"
    "\<And>j q. j < i \<Longrightarrow> findPodByOrdinal ss pods (ks ! j) = Some q \<Longrightarrow> podSpecMatches ss q"
  using assms
proof (induction ks arbitrary: thesis)
  case (Cons k ks)
  show ?case
  proof (cases "\<exists>q. findPodByOrdinal ss pods k = Some q \<and> \<not> podSpecMatches ss q")
    case True
    with Cons.prems show ?thesis by (intro Cons.prems(1) [of 0]) auto
  next
    case False
    with Cons.prems(2) have "outdated_from ss pods ks = Some p" by (auto split: option.splits if_splits)
    then obtain i where i: "i < length ks" "findPodByOrdinal ss pods (ks ! i) = Some p" "\<not> podSpecMatches ss p"
      "\<And>j q. j < i \<Longrightarrow> findPodByOrdinal ss pods (ks ! j) = Some q \<Longrightarrow> podSpecMatches ss q" using Cons.IH by blast
    show ?thesis
    proof (rule Cons.prems(1) [of "Suc i"])
      fix j q
      assume "j < Suc i" "findPodByOrdinal ss pods ((k # ks) ! j) = Some q"
      with i(4) False show "podSpecMatches ss q" by (cases j) auto
    qed (use i in simp_all)
  qed
qed simp

lemma largestOutdatedPod_Some:
  assumes "largestOutdatedPod ss pods = Some p"
  shows "p \<in> set pods" "\<not> podSpecMatches ss p"
    and "\<And>k q. ordinalOf (Name (ObjectMeta p)) < k \<Longrightarrow> k < replicasOf ss \<Longrightarrow>
      findPodByOrdinal ss pods k = Some q \<Longrightarrow> podSpecMatches ss q"
proof -
  let ?ks = "[0..endOrdinalOf ss]"
  from assms obtain i where i: "i < length ?ks" "findPodByOrdinal ss pods (rev ?ks ! i) = Some p" "\<not> podSpecMatches ss p"
    and later: "\<And>j q. j < i \<Longrightarrow> findPodByOrdinal ss pods (rev ?ks ! j) = Some q \<Longrightarrow> podSpecMatches ss q"
    unfolding largestOutdatedPod_def by (elim outdated_from_Some) simp
  have at: "rev ?ks ! j = endOrdinalOf ss - int j" if "j < length ?ks" for j
    using that by (simp add: rev_nth)
  show "p \<in> set pods" "\<not> podSpecMatches ss p" using findPodByOrdinal_Some(1) [OF i(2)] i(3) by simp_all
  fix k q
  assume k: "ordinalOf (Name (ObjectMeta p)) < k" "k < replicasOf ss" "findPodByOrdinal ss pods k = Some q"
  have "ordinalOf (Name (ObjectMeta p)) = endOrdinalOf ss - int i"
    using findPodByOrdinal_Some(2) [OF i(2)] at [OF i(1)] by simp
  moreover have "int i \<le> endOrdinalOf ss" using i(1) by simp
  ultimately have j: "nat (endOrdinalOf ss - k) < i" "int (nat (endOrdinalOf ss - k)) = endOrdinalOf ss - k"
    using k by (simp_all add: endOrdinalOf_def)
  then have "nat (endOrdinalOf ss - k) < length ?ks" using i(1) by (meson less_trans)
  from at [OF this] j(2) have "rev ?ks ! nat (endOrdinalOf ss - k) = k" by linarith
  with later [OF j(1)] k(3) show "podSpecMatches ss q" by simp
qed

lemma planned_create_first:
  assumes "x \<in> set (planned_create L rg ss pods [0..endOrdinalOf ss])"
  shows "\<exists>k. x = create_of L rg ss k \<and> 0 \<le> k \<and> k < replicasOf ss \<and> findPodByOrdinal ss pods k = None \<and>
    (\<forall>j. 0 \<le> j \<and> j < k \<longrightarrow> \<not> blocks ss pods j)"
proof -
  let ?ks = "[0..endOrdinalOf ss]"
  from assms obtain k where find: "List.find (blocks ss pods) ?ks = Some k"
    and k: "findPodByOrdinal ss pods k = None" "x = create_of L rg ss k"
    by (auto simp: planned_create_def split: option.splits if_splits elim: that [OF sym])
  from find obtain i where i: "i < length ?ks" "k = ?ks ! i" "\<And>j. j < i \<Longrightarrow> \<not> blocks ss pods (?ks ! j)"
    by (auto simp: find_Some_iff)
  then have at: "k = int i" "int i \<le> endOrdinalOf ss" by simp_all
  have "\<not> blocks ss pods j" if "0 \<le> j" "j < k" for j
    using i(1) i(3) [of "nat j"] that at by simp
  with k at show ?thesis by (intro exI [of _ k]) (simp add: endOrdinalOf_def)
qed

lemma excess_pod_order:
  assumes "excess_pod ss pods = Some pod"
  shows "pod \<in> set pods \<and>
    (if \<exists>q \<in> set pods. condemned_pod ss q
     then condemned_pod ss pod \<and> (\<forall>q \<in> set pods. condemned_pod ss q \<longrightarrow>
       ordinalOf (Name (ObjectMeta q)) \<le> ordinalOf (Name (ObjectMeta pod)))
     else \<not> podSpecMatches ss pod \<and> (\<forall>k q. ordinalOf (Name (ObjectMeta pod)) < k \<and> k < replicasOf ss \<and>
       findPodByOrdinal ss pods k = Some q \<longrightarrow> podSpecMatches ss q))"
proof (cases "firstCondemnedPod ss pods")
  case None
  with assms have "largestOutdatedPod ss pods = Some pod" by (simp add: excess_pod_def)
  from largestOutdatedPod_Some [OF this] None [unfolded firstCondemnedPod_None] show ?thesis by auto
next
  case (Some c)
  with assms have "firstCondemnedPod ss pods = Some pod" by (simp add: excess_pod_def)
  from firstCondemnedPod_Some [OF this] show ?thesis by auto
qed

section \<open>What a sync may send\<close>

text \<open>
  A sync of the set \<open>name\<close> of \<open>ns\<close>: it creates pods that are members of the set, controlled by
  it, and claims without owners, both in the namespace of the set; it deletes members of the set
  only; it updates pods in their own namespace.
\<close>

fun set_request :: "string \<times> string \<Rightarrow> client_write \<Rightarrow> bool" where
  "set_request (ns, name) (WPodCreate n pod) = (n = ns \<and> Namespace (ObjectMeta pod) = ns \<and>
     isMemberOf name (Name (ObjectMeta pod)) \<and>
     (case GetControllerOf (ObjectMeta pod) of
        None \<Rightarrow> False | Some r \<Rightarrow> or_Kind r = ''StatefulSet'' \<and> or_Name r = name))"
| "set_request (ns, name) (WPodUpdate n pod) = (n = Namespace (ObjectMeta pod))"
| "set_request (ns, name) (WPodDelete n pod options) = (isMemberOf name pod \<and> options = empty_DeleteOptions)"
| "set_request (ns, name) (WClaimCreate n claim) = (n = ns \<and> Namespace (ObjectMeta claim) = ns \<and>
     OwnerReferences (ObjectMeta claim) = None)"
| "set_request (ns, name) _ = False"

definition request_of :: "StatefulSet \<Rightarrow> client_write \<Rightarrow> bool" where
  "request_of ss = set_request (Namespace (ObjectMeta ss), Name (ObjectMeta ss))"

lemma request_of_simps [simp]:
  "request_of ss (WPodUpdate n pod) = (n = Namespace (ObjectMeta pod))"
  "request_of ss (WPodDelete n p options) = (isMemberOf (Name (ObjectMeta ss)) p \<and> options = empty_DeleteOptions)"
  by (simp_all add: request_of_def)

lemma create_claims_scope: "sends_only C (request_of ss) (create_claims C ss pod tmpls)"
proof (induction tmpls)
  case (Cons t ts)
  have "sends_only C (request_of ss) (createPersistentVolumeClaim C ss pod t)"
    unfolding createPersistentVolumeClaim_def Let_def
    by (intro sends_only_then sends_case_sum sends_if sends_intros)
      (simp_all add: request_of_def newPersistentVolumeClaim_def Let_def)
  with Cons show ?case by (simp add: sends_only_and_then)
qed (simp add: sends_intros)

lemma claims_scope: "sends_only C (request_of ss) (createPersistentVolumeClaims C rg ss pod)"
  unfolding createPersistentVolumeClaims_def by (rule create_claims_scope)

lemma updateStatefulPod_scope: "sends_only C (request_of ss) (updateStatefulPod C ss pod)"
  unfolding updateStatefulPod_def Let_def by (intro sends_intros) simp

lemma deletePod_scope:
  "isMemberOf (Name (ObjectMeta ss)) (Name (ObjectMeta pod)) \<Longrightarrow> sends_only C (request_of ss) (deletePod C pod)"
  unfolding deletePod_def by (intro sends_only_then sends_case_sum sends_intros) simp_all

lemma releasePods_scope: "sends_only C (request_of ss) (releasePodsWithBadNames C ss pods)"
proof (induction pods)
  case (Cons pod pods)
  have "sends_only C (request_of ss) (releasePod C ss pod)"
    unfolding releasePod_def Let_def by (intro sends_if sends_only_then sends_case_sum sends_intros) simp_all
  with Cons show ?case by (simp add: sends_only_and_then)
qed (simp add: sends_intros)

lemma createStatefulPod_scope:
  assumes "0 \<le> k" "k < 2 ^ 31"
  shows "sends_only C (request_of ss) (createStatefulPod C rg ss (newStatefulSetPod L rg ss k))"
proof -
  note facts = newStatefulSetPod_meta [OF assms, where L = L and rg = rg and ss = ss]
  have "isMemberOf (Name (ObjectMeta ss)) (podName (Name (ObjectMeta ss)) k)" using assms isMemberOf_iff by blast
  then have "request_of ss (WPodCreate (Namespace (ObjectMeta ss)) (newStatefulSetPod L rg ss k))"
    using facts by (simp add: request_of_def NewControllerRef_def)
  then show ?thesis unfolding createStatefulPod_def
    by (intro sends_only_and_then [OF claims_scope] sends_only_then sends_case_sum sends_intros)
qed

lemma reconcile_ordinals_scope:
  "(\<And>k. k \<in> set ks \<Longrightarrow> 0 \<le> k \<and> k < 2 ^ 31) \<Longrightarrow> sends_only C (request_of ss) (reconcile_ordinals C L rg ss pods ks)"
proof (induction ks)
  case (Cons k ks)
  then show ?case
    by (auto intro!: sends_only_and_then createStatefulPod_scope claims_scope updateStatefulPod_scope
        intro: sends_intros split: option.split)
qed (simp add: sends_intros)

lemma reconcileReplicas_scope:
  assumes "\<And>p. p \<in> set pods \<Longrightarrow> isMemberOf (Name (ObjectMeta ss)) (Name (ObjectMeta p))"
  shows "sends_only C (request_of ss) (reconcileReplicas C L rg ss pods)"
proof -
  have "sends_only C (request_of ss) (reconcileDesiredPods C L rg ss pods)"
    unfolding reconcileDesiredPods_def using replicas_range(1) [of ss]
    by (intro reconcile_ordinals_scope) (auto simp: endOrdinalOf_def)
  moreover have "sends_only C (request_of ss) (reconcileCondemnedPod C ss pods)"
    unfolding reconcileCondemnedPod_def using assms firstCondemnedPod_Some(1)
    by (auto intro!: sends_only_and_then deletePod_scope intro: sends_intros split: option.split)
  moreover have "sends_only C (request_of ss) (reconcileOutdatedPod C ss pods)"
    unfolding reconcileOutdatedPod_def using assms largestOutdatedPod_Some(1)
    by (auto intro!: deletePod_scope intro: sends_intros split: option.split)
  ultimately show ?thesis unfolding reconcileReplicas_def
    by (intro sends_only_and_then sends_if sends_only_done)
qed

lemma StatefulSetGet_found:
  "StatefulSetGet s ns n = Inr ss \<Longrightarrow> wf_state s \<Longrightarrow> Name (ObjectMeta ss) = n \<and> Namespace (ObjectMeta ss) = ns"
  by (auto simp: StatefulSetGet_def StatefulSetMutGet_def ebind_Inr_iff assert_type_def api_get_Inr stored_ok_def
      dest!: wf_state_stored split: option.splits elim!: to_StatefulSet.elims)

lemma syncStatefulSet_scope: "sends_only C (set_request (ns, name)) (syncStatefulSet C L rg ns name)"
  unfolding syncStatefulSet_def
proof (rule sends_then [OF sends_read])
  fix r s
  assume wf: "wf_state s" and read: "\<exists>ch. range_ok ch \<and> r = StatefulSetGet s ns name"
  show "sends_only C (set_request (ns, name)) (case r of
      Inl e \<Rightarrow> if IsNotFound e then done_with () else fail_with e
    | Inr ss \<Rightarrow> and_then (FilterPodsByOwner C (ObjectMeta ss) ''StatefulSet'') (\<lambda>allPods.
        if DeletionTimestamp (ObjectMeta ss) \<noteq> None then done_with ()
        else and_then (releasePodsWithBadNames C ss allPods) (\<lambda>_.
             reconcileReplicas C L rg ss (filterPodsForStatefulSet ss allPods))))"
  proof (rule sends_case_sum)
    fix ss
    assume "r = Inr ss"
    have "sends_only C (request_of ss) (reconcileReplicas C L rg ss (filterPodsForStatefulSet ss pods))" for pods
      by (rule reconcileReplicas_scope) (simp add: filterPodsForStatefulSet_def)
    moreover from \<open>r = Inr ss\<close> have "request_of ss = set_request (ns, name)" using StatefulSetGet_found [of s ns name ss] read wf
      by (simp add: request_of_def)
    ultimately show "sends_only C (set_request (ns, name)) (and_then (FilterPodsByOwner C (ObjectMeta ss) ''StatefulSet'') (\<lambda>allPods.
        if DeletionTimestamp (ObjectMeta ss) \<noteq> None then done_with ()
        else and_then (releasePodsWithBadNames C ss allPods) (\<lambda>_.
             reconcileReplicas C L rg ss (filterPodsForStatefulSet ss allPods))))"
      using releasePods_scope [of C ss]
      by (intro sends_only_and_then [OF sends_weaken [OF sends_FilterPodsByOwner]] sends_if sends_only_and_then sends_only_done)
        simp_all
  qed (intro sends_intros)
qed

interpretation statefulset: controller "\<lambda>(ns, name) C. syncStatefulSet C L rg ns name" set_request
  by unfold_locales (clarsimp simp: syncStatefulSet_scope)

section \<open>An example\<close>

definition example_key_order :: key_order where
  "example_key_order = (\<lambda>loop key A. sorted_list_of_set A)"

lemma example_key_order_ok: "key_order_ok example_key_order"
  by (simp add: key_order_ok_def example_key_order_def)

definition data_claim :: PersistentVolumeClaim where
  "data_claim = \<lparr>TypeMeta = empty_TypeMeta, ObjectMeta = empty_ObjectMeta\<lparr>Name := ''data''\<rparr>, 
     pvc_Spec = empty_PersistentVolumeClaimSpec, pvc_Phase = [], pvc_Capacity = None, pvcstatus_rest = []\<rparr>"

definition web_spec :: PodSpec where
  "web_spec = empty_PodSpec"

text \<open>A stateful set \<open>web\<close> with \<open>replicas\<close> replicas and the claim templates \<open>tmpls\<close>.\<close>

definition web :: "int32 \<Rightarrow> PersistentVolumeClaim list \<Rightarrow> StatefulSet" where
  "web replicas tmpls = \<lparr>TypeMeta = empty_TypeMeta,
     ObjectMeta = empty_ObjectMeta\<lparr>Name := ''web'', Namespace := ''shop'', UID := ''w''\<rparr>,
     ss_Spec = \<lparr>ss_Replicas = Some replicas, ss_Selector = None,
       ss_Template = \<lparr>tmpl_ObjectMeta = empty_ObjectMeta, tmpl_Spec = web_spec\<rparr>,
       VolumeClaimTemplates = Some tmpls, ServiceName = ''web'', ss_MinReadySeconds = 0, ssspec_rest = []\<rparr>,
     ss_Status = empty_StatefulSetStatus\<rparr>"

definition web_pod :: "int \<Rightarrow> Pod" where
  "web_pod k = newStatefulSetPod example_lib example_key_order (web 1 []) k"

lemma web_simps [simp]:
  "ObjectMeta (web n ts) = empty_ObjectMeta\<lparr>Name := ''web'', Namespace := ''shop'', UID := ''w''\<rparr>"
  "replicasOf (web n ts) = sint n" "endOrdinalOf (web n ts) = sint n - 1"
  "claim_templates (web n ts) = ts" "claim_names (web n []) = {}"
  by (simp_all add: web_def replicasOf_def endOrdinalOf_def claim_templates_def claim_names_def)

lemma web_pod_simps:
  assumes "0 \<le> k" "k < 2 ^ 31"
  shows "Name (ObjectMeta (web_pod k)) = podName ''web'' k" "Namespace (ObjectMeta (web_pod k)) = ''shop''"
    "identityMatches (web 1 []) (web_pod k)" "podSpecMatches (web 1 []) (web_pod k)"
    "parentNameAndOrdinal (Name (ObjectMeta (web_pod k))) = (''web'', k)" "ordinalOf (Name (ObjectMeta (web_pod k))) = k"
    "\<not> isTerminating (web_pod k)"
proof -
  note facts = newStatefulSetPod_meta [OF assms, where L = example_lib and rg = example_key_order and ss = "web 1 []"]
  show "Name (ObjectMeta (web_pod k)) = podName ''web'' k" "Namespace (ObjectMeta (web_pod k)) = ''shop''"
    "identityMatches (web 1 []) (web_pod k)" "podSpecMatches (web 1 []) (web_pod k)"
    using facts example_key_order_ok by (simp_all add: web_pod_def empty_ObjectMeta_def)
  then show "parentNameAndOrdinal (Name (ObjectMeta (web_pod k))) = (''web'', k)" "ordinalOf (Name (ObjectMeta (web_pod k))) = k"
    using assms by (simp_all add: parentNameAndOrdinal_podName ordinalOf_podName)
  show "\<not> isTerminating (web_pod k)"
    by (simp add: isTerminating_def web_pod_def newStatefulSetPod_def initIdentity_def updateIdentity_def Let_def
        GetPodFromTemplate_def empty_ObjectMeta_def)
qed

lemma web_find:
  "findPodByOrdinal (web 1 []) [web_pod 0, web_pod 1] 0 = Some (web_pod 0)"
  using web_pod_simps(5) [of 0] by (simp add: findPodByOrdinal_def empty_ObjectMeta_def)

lemma web_condemned: "firstCondemnedPod (web 1 []) [web_pod 0, web_pod 1] = Some (web_pod 1)"
  using web_pod_simps(6) [of 0] web_pod_simps(6) [of 1]
  by (simp add: firstCondemnedPod_def podInOrdinalRange_def)

text \<open>The round that scales \<open>web\<close> down to one replica, on a state from which pod 1 has just gone.\<close>

lemma web_round:
  "reconcileReplicas example_cluster example_lib example_key_order (web 1 []) [web_pod 0, web_pod 1] (world shop_state) =
    Some (Inr (), \<lparr>w_state = shop_state, w_calls = 1, w_log = [delete_of (web_pod 1)]\<rparr>)"
proof -
  have "reconcileDesiredPods example_cluster example_lib example_key_order (web 1 []) [web_pod 0, web_pod 1] (world shop_state) =
      Some (Inr True, world shop_state)"
    using web_pod_simps(3,7) [of 0] web_find
    by (simp add: reconcileDesiredPods_def createPersistentVolumeClaims_def example_key_order_def List.map_filter_def
        updateStatefulPod_def and_then_def with_result_def done_with_def upto.simps)
  moreover have "PodDelete example_env example_choices ''shop'' (podName ''web'' 1) empty_DeleteOptions shop_state =
      Some (Inl (NotFound ''Pod'' (podName ''web'' 1)), shop_state)"
    by (simp add: PodDelete_def delete_def shop_state_def)
  ultimately show ?thesis
    using web_pod_simps(1,2,7) [of 1] web_condemned
    by (simp add: reconcileReplicas_def reconcileCondemnedPod_def deletePod_def pods_delete_def kube_call_def single_def
        and_then_def with_result_def done_with_def delete_of_def)
qed

section \<open>Properties\<close>

text \<open>C23: Pod names round trip: a name made from a set and an ordinal parses back to both, and the
  members of a set are exactly the names that print from their own parse.\<close>

theorem podName_roundtrip:
  assumes "0 \<le> ordinal" "ordinal < 2 ^ 31"
  shows "parentNameAndOrdinal (podName setName ordinal) = (setName, ordinal) \<and> isMemberOf setName (podName setName ordinal) \<and>
    (isMemberOf setName name = (0 \<le> ordinalOf name \<and> podName setName (ordinalOf name) = name))"
proof (intro conjI)
  show "parentNameAndOrdinal (podName setName ordinal) = (setName, ordinal)"
    by (rule parentNameAndOrdinal_podName [OF assms])
  show "isMemberOf setName (podName setName ordinal)" using assms isMemberOf_iff by blast
  have "ordinalOf name < 2 ^ 31" using ordinal_range by (simp add: ordinalOf_def split: prod.split)
  then show "isMemberOf setName name = (0 \<le> ordinalOf name \<and> podName setName (ordinalOf name) = name)"
    using member_ordinal [of setName name] isMemberOf_iff [of setName name] by metis
qed

theorem podName_roundtrip_witness:
  "parentNameAndOrdinal (podName ''web'' 12) = (''web'', 12) \<and> isMemberOf ''web'' (podName ''web'' 12)"
  using podName_roundtrip [of 12 "''web''" "podName ''web'' 12"] by simp

text \<open>A pod the controller makes for an ordinal needs no correction: it has the identity, the
  claim volumes and the template's spec that the controller checks for, and is controlled by the set.\<close>

theorem new_pod_in_place:
  assumes "key_order_ok rg" "0 \<le> ordinal" "ordinal < 2 ^ 31"
  shows "identityMatches ss (newStatefulSetPod L rg ss ordinal) \<and> podSpecMatches ss (newStatefulSetPod L rg ss ordinal) \<and>
    storageMatches ss (newStatefulSetPod L rg ss ordinal) \<and>
    GetControllerOf (ObjectMeta (newStatefulSetPod L rg ss ordinal)) =
      Some (NewControllerRef (ObjectMeta ss) ''apps/v1'' ''StatefulSet'') \<and>
    findPodByOrdinal ss [newStatefulSetPod L rg ss ordinal] ordinal = Some (newStatefulSetPod L rg ss ordinal)"
proof -
  note facts = newStatefulSetPod_meta [OF assms(2,3), where L = L and rg = rg and ss = ss]
  have "storageMatches ss (newStatefulSetPod L rg ss ordinal)"
    using facts(5) assms(1) by (simp add: podSpecMatches_def split: if_splits)
  moreover have "findPodByOrdinal ss [newStatefulSetPod L rg ss ordinal] ordinal = Some (newStatefulSetPod L rg ss ordinal)"
    using facts(1) parentNameAndOrdinal_podName [OF assms(2,3), of "Name (ObjectMeta ss)"] by (simp add: findPodByOrdinal_def)
  ultimately show ?thesis using facts(3-5) assms(1) by simp
qed

theorem new_pod_in_place_witness:
  "identityMatches (web 3 [data_claim]) (newStatefulSetPod example_lib example_key_order (web 3 [data_claim]) 2) \<and>
    claim_templates (web 3 [data_claim]) = [data_claim]"
  using new_pod_in_place [OF example_key_order_ok, of 2 "web 3 [data_claim]" example_lib] by simp

text \<open>C11: Whatever the API answers, a successful reconciliation creates and deletes exactly the pods of
  the plan, and a failed one a prefix of it; the plan never has more than one change.\<close>

theorem reconcileReplicas_refines_plan:
  assumes "reconcileReplicas C L rg ss pods w = Some (r, w')"
  shows "\<exists>ws. w_log w' = w_log w @ ws \<and> prefix (filter pod_change ws) (planned L rg ss pods) \<and>
    (r = Inr () \<longrightarrow> filter pod_change ws = planned L rg ss pods) \<and> length (planned L rg ss pods) \<le> 1"
proof -
  have "length (planned L rg ss pods) \<le> 1"
    by (auto simp: planned_def planned_create_def split: option.split)
  moreover obtain ws where "w_log w' = w_log w @ ws" "\<And>e. r = Inl e \<Longrightarrow> prefix (filter pod_change ws) (planned L rg ss pods)"
    "\<And>x. r = Inr x \<Longrightarrow> x \<in> UNIV \<and> filter pod_change ws = planned L rg ss pods"
    using attemptsD [OF reconcileReplicas_sends assms] by blast
  ultimately show ?thesis by (cases r) auto
qed

theorem reconcileReplicas_refines_plan_witness:
  "w_log (world shop_state) = [] \<and> planned example_lib example_key_order (web 1 []) [web_pod 0, web_pod 1] = [delete_of (web_pod 1)]"
  using reconcileReplicas_refines_plan [OF web_round] by (auto simp: delete_of_def)

text \<open>C12: Pods change in order. A pod is created only for the first missing ordinal, when all the pods
  before it exist and none is terminating; a pod is deleted only when every desired pod exists and
  none is terminating, and it is the pod of the largest ordinal beyond the replicas or, when there
  is none, the outdated pod of the largest ordinal.\<close>

theorem reconcileReplicas_ordered:
  assumes "reconcileReplicas C L rg ss pods w = Some (r, w')" "w_log w' = w_log w @ ws" "x \<in> set ws" "pod_change x"
  shows "(\<exists>k. x = create_of L rg ss k \<and> 0 \<le> k \<and> k < replicasOf ss \<and> findPodByOrdinal ss pods k = None \<and>
      (\<forall>j. 0 \<le> j \<and> j < k \<longrightarrow> \<not> blocks ss pods j)) \<or>
    (\<exists>pod \<in> set pods. x = delete_of pod \<and> \<not> isTerminating pod \<and>
      (\<forall>j. 0 \<le> j \<and> j < replicasOf ss \<longrightarrow> \<not> blocks ss pods j) \<and>
      (if \<exists>q \<in> set pods. condemned_pod ss q
       then condemned_pod ss pod \<and> (\<forall>q \<in> set pods. condemned_pod ss q \<longrightarrow>
         ordinalOf (Name (ObjectMeta q)) \<le> ordinalOf (Name (ObjectMeta pod)))
       else \<not> podSpecMatches ss pod \<and> (\<forall>k q. ordinalOf (Name (ObjectMeta pod)) < k \<and> k < replicasOf ss \<and>
         findPodByOrdinal ss pods k = Some q \<longrightarrow> podSpecMatches ss q)))"
proof -
  from attemptsD [OF reconcileReplicas_sends assms(1)] obtain ws1 where "w_log w' = w_log w @ ws1"
    and sent: "\<And>e. r = Inl e \<Longrightarrow> prefix (filter pod_change ws1) (planned L rg ss pods)"
    "\<And>x. r = Inr x \<Longrightarrow> x \<in> UNIV \<and> filter pod_change ws1 = planned L rg ss pods" by blast
  with assms(2) have same: "ws1 = ws" by simp
  have "set (filter pod_change ws) \<subseteq> set (planned L rg ss pods)"
    using sent [unfolded same] set_mono_prefix by (cases r) fastforce+
  with assms(3,4) have x: "x \<in> set (planned L rg ss pods)" by auto
  show ?thesis
  proof (cases "list_ex (blocks ss pods) [0..endOrdinalOf ss]")
    case True
    with x show ?thesis
      using planned_create_first [of x L rg ss pods] by (simp add: planned_def)
  next
    case False
    then have all: "\<forall>j. 0 \<le> j \<and> j < replicasOf ss \<longrightarrow> \<not> blocks ss pods j"
      by (auto simp: list_ex_iff endOrdinalOf_def)
    from False x obtain pod where pod: "excess_pod ss pods = Some pod" "\<not> isTerminating pod" "x = delete_of pod"
      by (cases "excess_pod ss pods") (auto simp: planned_def split: if_splits)
    with all excess_pod_order [OF pod(1)] show ?thesis by blast
  qed
qed

theorem reconcileReplicas_ordered_witness:
  "delete_of (web_pod 1) \<noteq> create_of example_lib example_key_order (web 1 []) 0 \<and> \<not> blocks (web 1 []) [web_pod 0, web_pod 1] 0"
proof -
  have "pod_change (delete_of (web_pod 1))" by (simp add: delete_of_def)
  then show ?thesis
    using reconcileReplicas_ordered [OF web_round, of "[delete_of (web_pod 1)]" "delete_of (web_pod 1)"]
    by (auto simp: delete_of_def create_of_def)
qed

end
