(* ===== verification/Ctl_ReplicaSet.thy ===== *)
theory Ctl_ReplicaSet
  imports Ctl_Log Ctl_Example
begin

text \<open>
  The replica set controller (src/controllers/replicaset/replica_set.go, replica_set_utils.go), and
  the helpers of k8s.io/kubernetes it calls, as src/src/code translates them
  (pkg/api/v1/pod.v, pkg/controller/replicaset.v, pkg/labels.v). A Go \<open>int\<close> counts pods here,
  so it never comes near its 64 bits and is an integer; the counts of a status are 32-bit words.

  Goroutines that send one request each run in an order the runtime chooses, and the error a
  channel delivers first is any of those sent; a panic stops the program, so the step has no
  result.
\<close>

section \<open>The Go runtime\<close>

record runtime =
  rt_order :: "nat \<Rightarrow> nat \<Rightarrow> nat list"
  rt_first :: "nat \<Rightarrow> nat \<Rightarrow> nat"
  rt_now :: "string \<Rightarrow> nat \<Rightarrow> instant"

definition runtime_ok :: "runtime \<Rightarrow> bool" where
  "runtime_ok R \<longleftrightarrow> (\<forall>c n. distinct (rt_order R c n) \<and> set (rt_order R c n) = {..<n} \<and>
     (0 < n \<longrightarrow> rt_first R c n < n))"

definition clock_now :: "runtime \<Rightarrow> string \<Rightarrow> instant step" where
  "clock_now R clock w = Some (Inr (rt_now R clock (w_calls w)), w)"

definition scheduled :: "runtime \<Rightarrow> 'a list \<Rightarrow> 'a list step" where
  "scheduled R xs w = Some (Inr (map ((!) xs) (rt_order R (w_calls w) (length xs))), w)"

definition first_error :: "runtime \<Rightarrow> error list \<Rightarrow> error option step" where
  "first_error R es w =
     Some (Inr (if es = [] then None else Some (es ! rt_first R (w_calls w) (length es))), w)"

section \<open>Helpers of k8s.io/kubernetes\<close>

definition GetPodReadyCondition :: "PodStatus \<Rightarrow> PodCondition option" where
  "GetPodReadyCondition status = List.find (\<lambda>c. pc_Type c = ''Ready'') (elems (pod_Conditions status))"

definition IsPodReady :: "Pod \<Rightarrow> bool" where
  "IsPodReady pod =
     (case GetPodReadyCondition (pod_Status pod) of None \<Rightarrow> False | Some c \<Rightarrow> pc_Status c = ''True'')"

definition IsPodAvailable :: "Pod \<Rightarrow> int32 \<Rightarrow> instant \<Rightarrow> bool" where
  "IsPodAvailable pod minReadySeconds now =
     (if \<not> IsPodReady pod then False
      else case GetPodReadyCondition (pod_Status pod) of
          None \<Rightarrow> False
        | Some c \<Rightarrow> minReadySeconds = 0 \<or> (pc_LastTransitionTime c \<noteq> 0 \<and>
            time_add (pc_LastTransitionTime c) (seconds (scast minReadySeconds)) \<le> now))"

text \<open>\<open>labels.Set(template.Labels).AsSelectorPreValidated()\<close>: every label of the set is required.\<close>

definition set_selector :: "str_map option \<Rightarrow> selector" where
  "set_selector wanted labels \<longleftrightarrow> fmpred (\<lambda>k v. map_get labels k = Some v) (copy_map wanted)"

definition NewReplicaSetCondition :: "string \<Rightarrow> string \<Rightarrow> instant \<Rightarrow> string \<Rightarrow> string \<Rightarrow> ReplicaSetCondition" where
  "NewReplicaSetCondition condType status now reason msg =
     \<lparr>rsc_Type = condType, rsc_Status = status, rsc_LastTransitionTime = now, rsc_Reason = reason, rsc_Message = msg\<rparr>"

definition GetCondition :: "ReplicaSetStatus \<Rightarrow> string \<Rightarrow> ReplicaSetCondition option" where
  "GetCondition status condType = List.find (\<lambda>c. rsc_Type c = condType) (elems (st_Conditions status))"

definition filterOutCondition :: "ReplicaSetCondition slice \<Rightarrow> string \<Rightarrow> ReplicaSetCondition slice" where
  "filterOutCondition conditions condType =
     append_slice None (filter (\<lambda>c. rsc_Type c \<noteq> condType) (elems conditions))"

definition SetCondition :: "ReplicaSetStatus \<Rightarrow> ReplicaSetCondition \<Rightarrow> ReplicaSetStatus" where
  "SetCondition status condition =
     (case GetCondition status (rsc_Type condition) of
        Some currentCond \<Rightarrow>
          if rsc_Status currentCond = rsc_Status condition \<and> rsc_Reason currentCond = rsc_Reason condition then status
          else status\<lparr>st_Conditions := append_slice (filterOutCondition (st_Conditions status) (rsc_Type condition)) [condition]\<rparr>
      | None \<Rightarrow> status\<lparr>st_Conditions := append_slice (filterOutCondition (st_Conditions status) (rsc_Type condition)) [condition]\<rparr>)"

definition RemoveCondition :: "ReplicaSetStatus \<Rightarrow> string \<Rightarrow> ReplicaSetStatus" where
  "RemoveCondition status condType = status\<lparr>st_Conditions := filterOutCondition (st_Conditions status) condType\<rparr>"

definition ReplicaSetReplicaFailure :: string where "ReplicaSetReplicaFailure = ''ReplicaFailure''"
definition SlowStartInitialBatchSize :: int where "SlowStartInitialBatchSize = 1"

section \<open>Related pods\<close>

definition getReplicaSetsWithSameController :: "cluster \<Rightarrow> ReplicaSet \<Rightarrow> ReplicaSet list step" where
  "getReplicaSetsWithSameController C rs =
     (case GetControllerOf (ObjectMeta rs) of
        None \<Rightarrow> done_with []
      | Some controllerRef \<Rightarrow>
          with_result (kube_read C (\<lambda>ch s. ByIndex ch s ''ReplicaSet'' ''controllerUID'' (or_UID controllerRef))) (\<lambda>r.
            case r of
              Inl _ \<Rightarrow> done_with []
            | Inr objects \<Rightarrow>
                if list_all (\<lambda>ob. to_ReplicaSet ob \<noteq> None) objects
                then done_with (List.map_filter to_ReplicaSet objects) else panic_step))"

text \<open>The pods not seen before, and the loop over the related replica sets.\<close>

fun unseen_pods :: "string set \<Rightarrow> Pod list \<Rightarrow> Pod list" where
  "unseen_pods seen [] = []"
| "unseen_pods seen (pod # pods) =
     (if UID (ObjectMeta pod) \<in> seen then unseen_pods seen pods
      else pod # unseen_pods (insert (UID (ObjectMeta pod)) seen) pods)"

fun related_pods :: "cluster \<Rightarrow> kube_lib \<Rightarrow> string set \<Rightarrow> ReplicaSet list \<Rightarrow> Pod list step" where
  "related_pods C L seen [] = done_with []"
| "related_pods C L seen (relatedRS # rest) =
     (case LabelSelectorAsSelector L (rs_Selector (rs_Spec relatedRS)) of
        Inl _ \<Rightarrow> related_pods C L seen rest
      | Inr selector \<Rightarrow>
          and_then (kube_read C (\<lambda>ch s. PodList ch s (Namespace (ObjectMeta relatedRS)) selector)) (\<lambda>pods.
            let new = unseen_pods seen pods
            in and_then (related_pods C L (seen \<union> (\<lambda>p. UID (ObjectMeta p)) ` set new) rest) (\<lambda>more.
                 done_with (new @ more))))"

definition getIndirectlyRelatedPods :: "cluster \<Rightarrow> kube_lib \<Rightarrow> ReplicaSet \<Rightarrow> Pod list step" where
  "getIndirectlyRelatedPods C L rs =
     and_then (getReplicaSetsWithSameController C rs) (\<lambda>rss. related_pods C L {} rss)"

definition podsOnNode :: "Pod list \<Rightarrow> string \<Rightarrow> nat" where
  "podsOnNode relatedPods node =
     length (filter (\<lambda>pod. IsPodActive pod \<and> NodeName (pod_Spec pod) = node) relatedPods)"

definition getPodsRankedByRelatedPodsOnSameNode :: "Pod list \<Rightarrow> Pod list \<Rightarrow> (Pod \<times> nat) list" where
  "getPodsRankedByRelatedPodsOnSameNode podsToRank relatedPods =
     map (\<lambda>pod. (pod, podsOnNode relatedPods (NodeName (pod_Spec pod)))) podsToRank"

text \<open>
  The sort is in place, so the caller's slice changes too: the result holds the pods to delete and
  the slice as it is left. A \<open>diff\<close> out of bounds is a panic, of the slice expression or, between
  the length and the capacity of the slice, of the first use of the nil pods it then gives.
\<close>

definition getPodsToDelete :: "kube_lib \<Rightarrow> instant \<Rightarrow> Pod list \<Rightarrow> Pod list \<Rightarrow> int \<Rightarrow> (Pod list \<times> Pod list) option" where
  "getPodsToDelete L now filteredPods relatedPods diff =
     (let pods = (if diff < int (length filteredPods)
                  then map fst (sort_ranked L now (getPodsRankedByRelatedPodsOnSameNode filteredPods relatedPods))
                  else filteredPods)
      in if diff < 0 \<or> diff > int (length filteredPods) then None else Some (take (nat diff) pods, pods))"

section \<open>Creating and deleting pods\<close>

definition new_pod :: "kube_lib \<Rightarrow> ReplicaSet \<Rightarrow> Pod" where
  "new_pod L rs = GetPodFromTemplate L (rs_Template (rs_Spec rs)) (ObjectMeta rs)
     (Some (NewControllerRef (ObjectMeta rs) ''apps/v1'' ''ReplicaSet''))"

definition create_pod :: "cluster \<Rightarrow> kube_lib \<Rightarrow> ReplicaSet \<Rightarrow> unit step" where
  "create_pod C L rs =
     with_result (pods_create C (Namespace (ObjectMeta rs)) (new_pod L rs)) (\<lambda>r.
       case r of
         Inr _ \<Rightarrow> done_with ()
       | Inl e \<Rightarrow> if HasStatusCause L e ''NamespaceTerminating'' then done_with () else fail_with e)"

text \<open>One batch: every call is made, and the errors are collected.\<close>

fun run_batch :: "unit step \<Rightarrow> nat \<Rightarrow> error list step" where
  "run_batch fn 0 = done_with []"
| "run_batch fn (Suc n) =
     with_result fn (\<lambda>r. and_then (run_batch fn n) (\<lambda>es.
       done_with (case r of Inl e \<Rightarrow> e # es | Inr _ \<Rightarrow> es)))"

function slow_batches :: "runtime \<Rightarrow> unit step \<Rightarrow> int \<Rightarrow> int \<Rightarrow> int \<Rightarrow> (int \<times> error option) step" where
  "slow_batches R fn remaining batchSize successes =
     (if batchSize \<le> 0 then done_with (successes, None)
      else and_then (run_batch fn (nat batchSize)) (\<lambda>errors.
        let successes' = successes + (batchSize - int (length errors))
        in if errors \<noteq> [] then and_then (first_error R errors) (\<lambda>e. done_with (successes', e))
           else slow_batches R fn (remaining - batchSize) (min (2 * batchSize) (remaining - batchSize)) successes'))"
  by auto

termination slow_batches
  by (relation "measure (\<lambda>(R, fn, remaining, batchSize, successes).
      2 * nat remaining + (if batchSize > 0 then 1 else 0))") auto

declare slow_batches.simps [simp del]

definition slowStartBatch :: "runtime \<Rightarrow> int \<Rightarrow> int \<Rightarrow> unit step \<Rightarrow> (int \<times> error option) step" where
  "slowStartBatch R calls initialBatchSize fn = slow_batches R fn calls (min calls initialBatchSize) 0"

definition delete_pod :: "cluster \<Rightarrow> Pod \<Rightarrow> unit step" where
  "delete_pod C targetPod =
     pods_delete C (Namespace (ObjectMeta targetPod)) (Name (ObjectMeta targetPod))
       (NewDeleteOptionsWithUID (UID (ObjectMeta targetPod)))"

fun delete_pods :: "cluster \<Rightarrow> Pod list \<Rightarrow> error list step" where
  "delete_pods C [] = done_with []"
| "delete_pods C (pod # pods) =
     with_result (delete_pod C pod) (\<lambda>r. and_then (delete_pods C pods) (\<lambda>es.
       done_with (case r of Inl e \<Rightarrow> if IsNotFound e then es else e # es | Inr _ \<Rightarrow> es)))"

text \<open>The result is the slice of active pods as the in-place sort leaves it, and the error.\<close>

definition manageReplicas ::
  "cluster \<Rightarrow> kube_lib \<Rightarrow> runtime \<Rightarrow> int \<Rightarrow> Pod list \<Rightarrow> ReplicaSet \<Rightarrow> (Pod list \<times> error option) step" where
  "manageReplicas C L R burstReplicas activePods rs =
     (case rs_Replicas (rs_Spec rs) of
        None \<Rightarrow> panic_step
      | Some replicas \<Rightarrow>
          let diff = int (length activePods) - sint replicas in
          if diff < 0 then
            and_then (slowStartBatch R (min (- diff) burstReplicas) SlowStartInitialBatchSize (create_pod C L rs))
              (\<lambda>(_, err). done_with (activePods, err))
          else if diff > 0 then
            with_result (getIndirectlyRelatedPods C L rs) (\<lambda>r.
              case r of
                Inl err \<Rightarrow> done_with (activePods, Some err)
              | Inr relatedPods \<Rightarrow>
                  and_then (clock_now R ''metav1.Now'') (\<lambda>now.
                    case getPodsToDelete L now activePods relatedPods (min diff burstReplicas) of
                      None \<Rightarrow> panic_step
                    | Some (podsToDelete, pods) \<Rightarrow>
                        and_then (scheduled R podsToDelete) (\<lambda>podsToDelete'.
                        and_then (delete_pods C podsToDelete') (\<lambda>errors.
                        and_then (first_error R errors) (\<lambda>err. done_with (pods, err))))))
          else done_with (activePods, None))"

section \<open>Status\<close>

record rs_controller =
  burstReplicas :: int
  DeploymentReplicaSetTerminatingReplicas :: bool
  EnableStatusTerminatingReplicas :: bool

definition terminating_enabled :: "rs_controller \<Rightarrow> bool" where
  "terminating_enabled cf \<longleftrightarrow> DeploymentReplicaSetTerminatingReplicas cf \<and> EnableStatusTerminatingReplicas cf"

definition failure_reason :: "nat \<Rightarrow> int32 \<Rightarrow> string" where
  "failure_reason active replicas =
     (let diff = int active - sint replicas in
      if diff < 0 then ''FailedCreate'' else if diff > 0 then ''FailedDelete'' else [])"

text \<open>The condition part of \<open>calculateStatus\<close>; reading a nil \<open>Spec.Replicas\<close> is a panic.\<close>

definition with_failure_condition ::
  "kube_lib \<Rightarrow> ReplicaSet \<Rightarrow> nat \<Rightarrow> error option \<Rightarrow> instant \<Rightarrow> ReplicaSetStatus option" where
  "with_failure_condition L rs active manageReplicasErr condNow =
     (let status = rs_Status rs; failureCond = GetCondition status ReplicaSetReplicaFailure in
      case manageReplicasErr of
        Some e \<Rightarrow>
          if failureCond = None then
            (case rs_Replicas (rs_Spec rs) of
               None \<Rightarrow> None
             | Some replicas \<Rightarrow> Some (SetCondition status (NewReplicaSetCondition ReplicaSetReplicaFailure ''True'' condNow
                 (failure_reason active replicas) (error_text L e))))
          else Some status
      | None \<Rightarrow> Some (if failureCond \<noteq> None then RemoveCondition status ReplicaSetReplicaFailure else status))"

definition calculateStatus ::
  "kube_lib \<Rightarrow> rs_controller \<Rightarrow> ReplicaSet \<Rightarrow> Pod list \<Rightarrow> Pod list \<Rightarrow> error option \<Rightarrow> instant \<Rightarrow> instant \<Rightarrow> ReplicaSetStatus option" where
  "calculateStatus L cf rs activePods terminatingPods manageReplicasErr condNow now =
     map_option (\<lambda>status. status
       \<lparr>st_Replicas := of_nat (length activePods),
        st_FullyLabeledReplicas := of_nat (length (filter (\<lambda>pod.
          set_selector (Labels (tmpl_ObjectMeta (rs_Template (rs_Spec rs)))) (Labels (ObjectMeta pod))) activePods)),
        st_ReadyReplicas := of_nat (length (filter IsPodReady activePods)),
        st_AvailableReplicas := of_nat (length (filter (\<lambda>pod.
          IsPodReady pod \<and> IsPodAvailable pod (rs_MinReadySeconds (rs_Spec rs)) now) activePods)),
        st_TerminatingReplicas := (if terminating_enabled cf then Some (of_nat (length terminatingPods)) else None)\<rparr>)
       (with_failure_condition L rs (length activePods) manageReplicasErr condNow)"

definition status_steady :: "ReplicaSet \<Rightarrow> ReplicaSetStatus \<Rightarrow> bool" where
  "status_steady rs newStatus \<longleftrightarrow>
     st_Replicas (rs_Status rs) = st_Replicas newStatus \<and>
     st_FullyLabeledReplicas (rs_Status rs) = st_FullyLabeledReplicas newStatus \<and>
     st_ReadyReplicas (rs_Status rs) = st_ReadyReplicas newStatus \<and>
     st_AvailableReplicas (rs_Status rs) = st_AvailableReplicas newStatus \<and>
     st_TerminatingReplicas (rs_Status rs) = st_TerminatingReplicas newStatus \<and>
     Generation (ObjectMeta rs) = st_ObservedGeneration (rs_Status rs) \<and>
     st_Conditions (rs_Status rs) = st_Conditions newStatus"

definition statusUpdateRetries :: nat where "statusUpdateRetries = 1"

primrec status_attempts :: "cluster \<Rightarrow> string \<Rightarrow> ReplicaSetStatus \<Rightarrow> nat \<Rightarrow> ReplicaSet \<Rightarrow> ReplicaSet step" where
  "status_attempts C ns newStatus 0 current =
     replicasets_update_status C ns (current\<lparr>rs_Status := newStatus\<rparr>)"
| "status_attempts C ns newStatus (Suc retries) current =
     with_result (replicasets_update_status C ns (current\<lparr>rs_Status := newStatus\<rparr>)) (\<lambda>r.
       case r of
         Inr updated \<Rightarrow> done_with updated
       | Inl _ \<Rightarrow> and_then (kube_read C (\<lambda>ch s. ReplicaSetGet s ns (Name (ObjectMeta current))))
           (\<lambda>current'. status_attempts C ns newStatus retries current'))"

definition updateReplicaSetStatus :: "cluster \<Rightarrow> ReplicaSet \<Rightarrow> ReplicaSetStatus \<Rightarrow> ReplicaSet step" where
  "updateReplicaSetStatus C rs newStatus =
     (if status_steady rs newStatus then done_with rs
      else status_attempts C (Namespace (ObjectMeta rs))
             (newStatus\<lparr>st_ObservedGeneration := Generation (ObjectMeta rs)\<rparr>) statusUpdateRetries rs)"

section \<open>Sync\<close>

definition finish_sync ::
  "cluster \<Rightarrow> kube_lib \<Rightarrow> runtime \<Rightarrow> rs_controller \<Rightarrow> ReplicaSet \<Rightarrow> Pod list \<Rightarrow> Pod list \<times> error option \<Rightarrow> unit step" where
  "finish_sync C L R cf rs terminatingPods managed =
     (case managed of (activePods, manageReplicasErr) \<Rightarrow>
       and_then (clock_now R ''rscClock'') (\<lambda>now.
       and_then (clock_now R ''metav1.Now'') (\<lambda>condNow.
         case calculateStatus L cf rs activePods terminatingPods manageReplicasErr condNow now of
           None \<Rightarrow> panic_step
         | Some newStatus \<Rightarrow>
             and_then (updateReplicaSetStatus C rs newStatus) (\<lambda>_.
               case manageReplicasErr of None \<Rightarrow> done_with () | Some err \<Rightarrow> fail_with err))))"

definition syncReplicaSet ::
  "cluster \<Rightarrow> kube_lib \<Rightarrow> runtime \<Rightarrow> rs_controller \<Rightarrow> string \<Rightarrow> string \<Rightarrow> unit step" where
  "syncReplicaSet C L R cf namespace name =
     with_result (kube_read C (\<lambda>ch s. ReplicaSetGet s namespace name)) (\<lambda>r.
       case r of
         Inl e \<Rightarrow> if IsNotFound e then done_with () else fail_with e
       | Inr rs \<Rightarrow>
           and_then (FilterPodsByOwner C (ObjectMeta rs) ''ReplicaSet'') (\<lambda>allRSPods.
             let activePods = FilterActivePods allRSPods;
                 terminatingPods = (if terminating_enabled cf then FilterTerminatingPods allRSPods else [])
             in and_then (if DeletionTimestamp (ObjectMeta rs) = None
                          then manageReplicas C L R (burstReplicas cf) activePods rs
                          else done_with (activePods, None))
                  (finish_sync C L R cf rs terminatingPods)))"

end
