(* ===== verification/Ctl_ReplicaSet_Spec.thy ===== *)
theory Ctl_ReplicaSet_Spec
  imports Ctl_ReplicaSet
begin

text \<open>
  What the replica set controller promises: how many pods it creates or deletes at most, that the
  slow start is a loop that gives up early, that a delete is guarded by the UID of an active pod,
  and that the status is made of true counts and settles.
\<close>

section \<open>Slow start\<close>

definition pod_create :: "kube_lib \<Rightarrow> ReplicaSet \<Rightarrow> client_write" where
  "pod_create L rs = WPodCreate (Namespace (ObjectMeta rs)) (new_pod L rs)"

lemma first_error_run:
  "first_error R es w = Some (Inr (if es = [] then None else Some (es ! rt_first R (w_calls w) (length es))), w)"
  by (simp add: first_error_def)

lemma create_pod_logs: "logs (create_pod C L rs) (\<lambda>r ws. ws = [pod_create L rs])"
proof -
  have "logs (pods_create C (Namespace (ObjectMeta rs)) (new_pod L rs)) (\<lambda>r ws. ws = [pod_create L rs])"
    unfolding pods_create_def by (rule logs_call) (simp add: pod_create_def)
  then show ?thesis unfolding create_pod_def
    by (rule logs_then) (auto intro: logs_done logs_fail split: sum.split)
qed

lemma run_batch_logs:
  assumes "logs fn (\<lambda>r ws. ws = [x])"
  shows "logs (run_batch fn n) (\<lambda>r ws. ws = replicate n x \<and> (\<exists>es. r = Inr es \<and> length es \<le> n))"
proof (induction n)
  case 0
  then show ?case by (simp add: logs_done)
next
  case (Suc n)
  show ?case unfolding run_batch.simps
    by (rule logs_then [OF assms], rule logs_and_then [OF Suc]) (auto intro!: logs_done split: sum.split)
qed

lemma slow_batches_logs:
  "logs fn (\<lambda>r ws. ws = [x]) \<Longrightarrow> batchSize \<le> remaining \<Longrightarrow> 0 \<le> remaining \<Longrightarrow> (batchSize \<le> 0 \<Longrightarrow> remaining = 0) \<Longrightarrow>
      batchSize \<le> successes + 1 \<Longrightarrow> 0 \<le> successes \<Longrightarrow>
    logs (slow_batches R fn remaining batchSize successes)
      (\<lambda>r ws. \<exists>k n e. r = Inr (n, e) \<and> ws = replicate k x \<and> int k \<le> remaining \<and>
        (if e = None then int k = remaining \<and> n = successes + remaining
         else n < successes + int k \<and> successes + int k \<le> 2 * n + 1))"
proof (induction R fn remaining batchSize successes rule: slow_batches.induct [case_names step])
  case (step R fn remaining batchSize successes)
  show ?case
  proof (cases "batchSize \<le> 0")
    case True
    with step.prems show ?thesis by (subst slow_batches.simps) (auto intro: logs_done)
  next
    case False
    let ?Q = "\<lambda>r ws. \<exists>k n e. r = Inr (n, e) \<and> ws = replicate k x \<and> int k \<le> remaining \<and>
        (if e = None then int k = remaining \<and> n = successes + remaining
         else n < successes + int k \<and> successes + int k \<le> 2 * n + 1)"
    let ?next = "\<lambda>es. let successes' = successes + (batchSize - int (length es))
        in if es \<noteq> [] then and_then (first_error R es) (\<lambda>e. done_with (successes', e))
           else slow_batches R fn (remaining - batchSize) (min (2 * batchSize) (remaining - batchSize)) successes'"
    have "logs (?next es) (\<lambda>r ws'. ?Q r (replicate (nat batchSize) x @ ws'))" if "length es \<le> nat batchSize" for es
    proof (cases "es = []")
      case True
      let ?s = "successes + (batchSize - int (length es))"
      have "logs (slow_batches R fn (remaining - batchSize) (min (2 * batchSize) (remaining - batchSize)) ?s)
         (\<lambda>r ws. \<exists>k n e. r = Inr (n, e) \<and> ws = replicate k x \<and> int k \<le> remaining - batchSize \<and>
            (if e = None then int k = remaining - batchSize \<and> n = ?s + (remaining - batchSize)
             else n < ?s + int k \<and> ?s + int k \<le> 2 * n + 1))"
        using step.prems False True by (intro step.IH) auto
      then show ?thesis using True False step.prems
        apply (simp add: Let_def)
        apply (erule logs_mono)
        apply clarify
        subgoal for r ws k n e
          by (intro exI [of _ "nat batchSize + k"] exI [of _ n] exI [of _ e]) (auto simp: replicate_add split: if_splits)
        done
    next
      case nonempty: False
      have "logs (and_then (first_error R es) (\<lambda>e. done_with (successes + (batchSize - int (length es)), e)))
          (\<lambda>r ws'. ?Q r (replicate (nat batchSize) x @ ws'))"
      proof (rule logsI)
        fix w r w'
        assume "and_then (first_error R es) (\<lambda>e. done_with (successes + (batchSize - int (length es)), e)) w = Some (r, w')"
        then have "r = Inr (successes + (batchSize - int (length es)), Some (es ! rt_first R (w_calls w) (length es)))" "w' = w"
          using nonempty by (auto simp: and_then_def with_result_def first_error_def done_with_def)
        moreover have "length es > 0" "int (length es) \<le> batchSize" using nonempty that False by auto
        ultimately show "\<exists>ws'. w_log w' = w_log w @ ws' \<and> ?Q r (replicate (nat batchSize) x @ ws')"
          using step.prems False by (intro exI [of _ "[]"]) (auto intro!: exI [of _ "nat batchSize"])
      qed
      then show ?thesis using nonempty by (simp add: Let_def)
    qed
    then have "logs (and_then (run_batch fn (nat batchSize)) ?next) ?Q"
      by (intro logs_and_then [OF run_batch_logs [OF step.prems(1)]]) auto
    with False show ?thesis by (subst slow_batches.simps) simp
  qed
qed

lemma slowStartBatch_logs:
  assumes "logs fn (\<lambda>r ws. ws = [x])" "0 \<le> calls"
  shows "logs (slowStartBatch R calls SlowStartInitialBatchSize fn) (\<lambda>r ws. \<exists>k n e. r = Inr (n, e) \<and> ws = replicate k x \<and>
    int k \<le> calls \<and> (if e = None then int k = calls \<and> n = calls else n < int k \<and> int k \<le> 2 * n + 1))"
proof -
  have "min calls 1 \<le> calls" "min calls 1 \<le> 0 \<Longrightarrow> calls = 0" "min calls 1 \<le> 0 + 1" using assms(2) by auto
  from slow_batches_logs [OF assms(1) this(1) assms(2) this(2,3), of R] show ?thesis
    unfolding slowStartBatch_def SlowStartInitialBatchSize_def by (simp only: add_0 order_refl)
qed

text \<open>The flat loop: without a failure the batches are one sequence of calls.\<close>

lemma run_batch_Inr: "run_batch fn n w = Some (r, w') \<Longrightarrow> \<exists>es. r = Inr es"
proof (induction n arbitrary: w r)
  case (Suc n)
  from Suc.prems [unfolded run_batch.simps] show ?case
    by (elim with_resultE and_thenE) (auto simp: done_with_def dest: Suc.IH)
qed (simp add: done_with_def)

lemma run_batch_add:
  "run_batch fn (a + b) = and_then (run_batch fn a) (\<lambda>es1. and_then (run_batch fn b) (\<lambda>es2. done_with (es1 @ es2)))"
proof (induction a)
  case 0
  show ?case
  proof
    fix w
    show "run_batch fn (0 + b) w =
        and_then (run_batch fn 0) (\<lambda>es1. and_then (run_batch fn b) (\<lambda>es2. done_with (es1 @ es2))) w"
      using run_batch_Inr [of fn b w]
      by (auto simp: and_then_def with_result_def done_with_def split: option.split sum.split)
  qed
next
  case (Suc a)
  show ?case
  proof
    fix w
    show "run_batch fn (Suc a + b) w =
        and_then (run_batch fn (Suc a)) (\<lambda>es1. and_then (run_batch fn b) (\<lambda>es2. done_with (es1 @ es2))) w"
      unfolding add_Suc run_batch.simps Suc
      by (auto simp: and_then_def with_result_def done_with_def fail_with_def split: option.split sum.split)
  qed
qed

lemma slow_batches_flat:
  "batchSize \<le> remaining \<Longrightarrow> 0 \<le> remaining \<Longrightarrow> (batchSize \<le> 0 \<Longrightarrow> remaining = 0) \<Longrightarrow>
    slow_batches R fn remaining batchSize successes w = Some (Inr (n, None), w') \<longleftrightarrow>
    run_batch fn (nat remaining) w = Some (Inr [], w') \<and> n = successes + remaining"
proof (induction R fn remaining batchSize successes arbitrary: w rule: slow_batches.induct [case_names step])
  case (step R fn remaining batchSize successes)
  show ?case
  proof (cases "batchSize \<le> 0")
    case True
    with step.prems show ?thesis by (subst slow_batches.simps) (auto simp: done_with_def)
  next
    case False
    then have split: "nat remaining = nat batchSize + nat (remaining - batchSize)" using step.prems by simp
    show ?thesis
    proof (cases "run_batch fn (nat batchSize) w")
      case None
      with False show ?thesis unfolding split run_batch_add
        by (subst slow_batches.simps) (simp add: and_then_def with_result_def)
    next
      case (Some p)
      then obtain es w1 where run: "run_batch fn (nat batchSize) w = Some (Inr es, w1)"
        using run_batch_Inr by (cases p) blast
      show ?thesis
      proof (cases "es = []")
        case True
        have "slow_batches R fn (remaining - batchSize) (min (2 * batchSize) (remaining - batchSize))
              (successes + (batchSize - int (length es))) w1 = Some (Inr (n, None), w') \<longleftrightarrow>
            run_batch fn (nat (remaining - batchSize)) w1 = Some (Inr [], w') \<and>
            n = successes + (batchSize - int (length es)) + (remaining - batchSize)"
          using step.prems False True by (intro step.IH) auto
        moreover have "slow_batches R fn remaining batchSize successes w =
            slow_batches R fn (remaining - batchSize) (min (2 * batchSize) (remaining - batchSize)) (successes + batchSize) w1"
          using False run True by (subst slow_batches.simps) (simp add: and_then_def with_result_def)
        moreover have "run_batch fn (nat remaining) w = run_batch fn (nat (remaining - batchSize)) w1"
          unfolding split run_batch_add using run True run_batch_Inr [of fn _ w1]
          by (auto simp: and_then_def with_result_def done_with_def split: option.splits sum.splits)
        ultimately show ?thesis using True by simp
      next
        case nonempty: False
        then have "slow_batches R fn remaining batchSize successes w \<noteq> Some (Inr (n, None), w')"
          using False run by (subst slow_batches.simps) (auto simp: and_then_def with_result_def first_error_def done_with_def)
        moreover have "run_batch fn (nat remaining) w \<noteq> Some (Inr [], w')"
          unfolding split run_batch_add using run nonempty
          by (auto simp: and_then_def with_result_def done_with_def fail_with_def split: option.splits sum.splits)
        ultimately show ?thesis by blast
      qed
    qed
  qed
qed

section \<open>Managing the replicas\<close>

definition guarded_delete :: "Pod \<Rightarrow> client_write" where
  "guarded_delete pod = WPodDelete (Namespace (ObjectMeta pod)) (Name (ObjectMeta pod))
     (NewDeleteOptionsWithUID (UID (ObjectMeta pod)))"

text \<open>\<open>sort.Sort\<close> permutes the slice.\<close>

definition sort_permutes :: "kube_lib \<Rightarrow> bool" where
  "sort_permutes L \<longleftrightarrow> (\<forall>now ps. mset (sort_ranked L now ps) = mset ps)"

definition silent :: "'a step \<Rightarrow> bool" where
  "silent m \<longleftrightarrow> logs m (\<lambda>r ws. ws = [])"

lemma silent_steps:
  "silent (done_with x)" "silent (fail_with e)" "silent panic_step" "silent (clock_now R clock)"
  "silent (first_error R es)" "silent (scheduled R xs)" "silent (kube_read C f)"
  by (auto simp: silent_def logs_def done_with_def fail_with_def panic_step_def clock_now_def first_error_def
      scheduled_def kube_read_def kube_call_def split: option.splits)

lemma silent_then: "silent m \<Longrightarrow> (\<And>r. silent (k r)) \<Longrightarrow> silent (with_result m k)"
  unfolding silent_def by (rule logs_then) (auto elim: logs_mono)

lemma silent_and_then: "silent m \<Longrightarrow> (\<And>x. silent (k x)) \<Longrightarrow> silent (and_then m k)"
  unfolding and_then_def by (rule silent_then) (auto simp: silent_steps split: sum.split)

lemma related_pods_silent: "silent (related_pods C L seen rss)"
  by (induction rss arbitrary: seen) (auto intro!: silent_and_then simp: silent_steps Let_def split: sum.split)

lemma getIndirectlyRelatedPods_silent: "silent (getIndirectlyRelatedPods C L rs)"
proof -
  have "silent (getReplicaSetsWithSameController C rs)"
    unfolding getReplicaSetsWithSameController_def
    by (auto intro!: silent_then simp: silent_steps split: option.split sum.split)
  then show ?thesis unfolding getIndirectlyRelatedPods_def by (rule silent_and_then) (rule related_pods_silent)
qed

lemma silent_before:
  assumes "silent m" "\<And>r. logs (k r) Q"
  shows "logs (with_result m k) Q"
  using assms unfolding silent_def by (auto intro!: logs_then)

lemma delete_pods_logs: "logs (delete_pods C pods) (\<lambda>r ws. ws = map guarded_delete pods \<and> (\<exists>es. r = Inr es))"
proof (induction pods)
  case (Cons pod pods)
  have one: "logs (delete_pod C pod) (\<lambda>r ws. ws = [guarded_delete pod])"
    unfolding delete_pod_def pods_delete_def by (rule logs_call) (simp add: guarded_delete_def)
  show ?case unfolding delete_pods.simps
    by (rule logs_then [OF one], rule logs_and_then [OF Cons]) (auto intro!: logs_done split: sum.split)
qed (simp add: logs_done)

lemma delete_pods_run:
  "delete_pods C pods w = Some (r, w') \<Longrightarrow> w_log w' = w_log w @ map guarded_delete pods \<and> (\<exists>es. r = Inr es)"
  using delete_pods_logs [of C pods] unfolding logs_def by blast

lemma scheduled_run:
  assumes "runtime_ok R" "scheduled R xs w = Some (r, w')"
  shows "w' = w \<and> (\<exists>ys. r = Inr ys \<and> mset ys = mset xs)"
proof -
  let ?o = "rt_order R (w_calls w) (length xs)"
  have "distinct ?o" "set ?o = set [0..<length xs]" using assms(1) by (auto simp: runtime_ok_def)
  then have "mset ?o = mset [0..<length xs]" using set_eq_iff_mset_eq_distinct distinct_upt by blast
  then have "image_mset ((!) xs) (mset ?o) = image_mset ((!) xs) (mset [0..<length xs])" by (rule arg_cong)
  then have "mset (map ((!) xs) ?o) = mset (map ((!) xs) [0..<length xs])" by (simp only: mset_map)
  then have "mset (map ((!) xs) ?o) = mset xs" by (simp only: map_nth)
  with assms(2) show ?thesis by (auto simp: scheduled_def)
qed

lemma getPodsToDelete_some:
  assumes "sort_permutes L" "getPodsToDelete L now active related diff = Some (ds, pods)"
  shows "mset pods = mset active \<and> mset ds \<subseteq># mset active \<and> int (length ds) = diff"
proof -
  let ?ranked = "getPodsRankedByRelatedPodsOnSameNode active related"
  have "mset (map fst (sort_ranked L now ?ranked)) = image_mset fst (mset ?ranked)"
    using assms(1) by (simp add: sort_permutes_def)
  also have "\<dots> = mset active"
    by (simp add: getPodsRankedByRelatedPodsOnSameNode_def comp_def flip: mset_map)
  finally have sorted: "mset (map fst (sort_ranked L now ?ranked)) = mset active" .
  have pods: "pods = (if diff < int (length active) then map fst (sort_ranked L now ?ranked) else active)"
    "ds = take (nat diff) pods" "0 \<le> diff" "diff \<le> int (length active)"
    using assms(2) by (auto simp: getPodsToDelete_def Let_def split: if_splits)
  from pods(1) sorted have perm: "mset pods = mset active" by simp
  have "mset ds \<subseteq># mset pods"
    unfolding pods(2) by (metis append_take_drop_id mset_append mset_subset_eq_add_left)
  moreover have "length pods = length active" using perm by (rule mset_eq_length)
  ultimately show ?thesis using perm pods(2-4) by simp
qed

definition managed_as :: "kube_lib \<Rightarrow> int \<Rightarrow> Pod list \<Rightarrow> ReplicaSet \<Rightarrow> error option \<Rightarrow> client_write list \<Rightarrow> bool" where
  "managed_as L burst active rs err ws \<longleftrightarrow>
     (\<exists>replicas. rs_Replicas (rs_Spec rs) = Some replicas \<and>
       (let diff = int (length active) - sint replicas in
        int (length ws) \<le> min \<bar>diff\<bar> burst \<and> (err = None \<longrightarrow> int (length ws) = min \<bar>diff\<bar> burst) \<and>
        (if diff < 0 then ws = replicate (length ws) (pod_create L rs)
         else \<exists>ds. ws = map guarded_delete ds \<and> mset ds \<subseteq># mset active)))"

lemma manageReplicas_logs:
  assumes "runtime_ok R" "sort_permutes L" "0 \<le> burst"
  shows "logs (manageReplicas C L R burst active rs)
    (\<lambda>r ws. \<exists>pods err. r = Inr (pods, err) \<and> mset pods = mset active \<and> managed_as L burst active rs err ws)"
    (is "logs _ ?Q")
proof (cases "rs_Replicas (rs_Spec rs)")
  case None
  then show ?thesis by (simp add: manageReplicas_def logs_def panic_step_def)
next
  case (Some replicas)
  let ?diff = "int (length active) - sint replicas"
  consider "?diff < 0" | "?diff > 0" | "?diff = 0" by linarith
  then show ?thesis
  proof cases
    case 1
    have "0 \<le> min (- ?diff) burst" using 1 assms(3) by simp
    note slow = slowStartBatch_logs [OF create_pod_logs this, of R C L rs]
    have "logs (and_then (slowStartBatch R (min (- ?diff) burst) SlowStartInitialBatchSize (create_pod C L rs))
        (\<lambda>(_, err). done_with (active, err))) ?Q"
      by (rule logs_and_then [OF slow])
        (use 1 Some in \<open>auto intro!: logs_done simp: managed_as_def split: if_splits\<close>)
    then show ?thesis using 1 Some by (simp add: manageReplicas_def)
  next
    case 2
    let ?del = "\<lambda>ds pods. and_then (scheduled R ds) (\<lambda>ds'. and_then (delete_pods C ds') (\<lambda>errors.
        and_then (first_error R errors) (\<lambda>err. done_with (pods, err))))"
    have del: "logs (?del ds pods) ?Q" if "mset pods = mset active" "mset ds \<subseteq># mset active"
      "int (length ds) = min ?diff burst" for ds pods
    proof (rule logsI)
      fix w r w'
      assume "?del ds pods w = Some (r, w')"
      then obtain ds' es e w1 where ds': "mset ds' = mset ds" and run: "delete_pods C ds' w = Some (Inr es, w1)"
        and r: "r = Inr (pods, e)" "w' = w1"
        using scheduled_run [OF assms(1), of ds w]
        by (elim and_thenE) (auto simp: first_error_run done_with_def dest: delete_pods_run)
      from delete_pods_run [OF run] have "w_log w1 = w_log w @ map guarded_delete ds'" by blast
      moreover have "length ds' = length ds" using ds' by (rule mset_eq_length)
      ultimately show "\<exists>ws. w_log w' = w_log w @ ws \<and> ?Q r ws"
        using r that ds' Some 2 by (intro exI [of _ "map guarded_delete ds'"]) (auto simp: managed_as_def)
    qed
    have "logs (and_then (clock_now R ''metav1.Now'') (\<lambda>now.
        case getPodsToDelete L now active related (min ?diff burst) of
          None \<Rightarrow> panic_step | Some (ds, pods) \<Rightarrow> ?del ds pods)) ?Q" for related
    proof (rule logs_and_then [where R = "\<lambda>r ws. ws = [] \<and> (\<exists>now. r = Inr now)"])
      show "logs (clock_now R ''metav1.Now'') (\<lambda>r ws. ws = [] \<and> (\<exists>now. r = Inr now))"
        by (auto simp: logs_def clock_now_def)
      fix now and ws :: "client_write list"
      assume "ws = [] \<and> (\<exists>n. Inr now = (Inr n :: error + instant))"
      then show "logs (case getPodsToDelete L now active related (min ?diff burst) of
          None \<Rightarrow> panic_step | Some (ds, pods) \<Rightarrow> ?del ds pods) (\<lambda>r' ws'. ?Q r' (ws @ ws'))"
      proof (cases "getPodsToDelete L now active related (min ?diff burst)")
        case None
        then show ?thesis by (simp add: logs_def panic_step_def)
      next
        case (Some p)
        obtain ds pods where p: "p = (ds, pods)" by (cases p)
        from del getPodsToDelete_some [OF assms(2) Some [unfolded p]] have "logs (?del ds pods) ?Q" by blast
        with Some p \<open>ws = [] \<and> _\<close> show ?thesis by simp
      qed
    qed simp
    moreover have "manageReplicas C L R burst active rs = with_result (getIndirectlyRelatedPods C L rs) (\<lambda>r.
        case r of Inl err \<Rightarrow> done_with (active, Some err)
        | Inr related \<Rightarrow> and_then (clock_now R ''metav1.Now'') (\<lambda>now.
            case getPodsToDelete L now active related (min ?diff burst) of
              None \<Rightarrow> panic_step | Some (ds, pods) \<Rightarrow> ?del ds pods))"
      using 2 Some by (simp add: manageReplicas_def)
    ultimately show ?thesis using 2 Some assms(3)
      by (auto intro!: silent_before [OF getIndirectlyRelatedPods_silent] logs_done simp: managed_as_def split: sum.split)
  next
    case 3
    then show ?thesis using Some assms(3) by (auto simp: manageReplicas_def managed_as_def intro!: logs_done)
  qed
qed

section \<open>What a sync may send\<close>

text \<open>
  A sync of the replica set \<open>name\<close> of \<open>ns\<close>: it creates pods in \<open>ns\<close> controlled by the set, every
  delete names the UID of the pod it means, and the only object it updates is the set's status.
\<close>

fun rs_request :: "string \<times> string \<Rightarrow> client_write \<Rightarrow> bool" where
  "rs_request (ns, name) (WPodCreate n pod) = (n = ns \<and>
     (case GetControllerOf (ObjectMeta pod) of
        None \<Rightarrow> False | Some r \<Rightarrow> or_Kind r = ''ReplicaSet'' \<and> or_Name r = name))"
| "rs_request (ns, name) (WPodDelete n pod options) =
     (case do_Preconditions options of None \<Rightarrow> False | Some p \<Rightarrow> pre_UID p \<noteq> None)"
| "rs_request (ns, name) (WReplicaSetUpdateStatus n rs) = (n = ns \<and> Name (ObjectMeta rs) = name)"
| "rs_request (ns, name) _ = False"

definition rs_request_of :: "ReplicaSet \<Rightarrow> client_write \<Rightarrow> bool" where
  "rs_request_of rs = rs_request (Namespace (ObjectMeta rs), Name (ObjectMeta rs))"

lemma new_pod_owner:
  "GetControllerOf (ObjectMeta (new_pod L rs)) = Some (NewControllerRef (ObjectMeta rs) ''apps/v1'' ''ReplicaSet'')"
  by (simp add: new_pod_def GetPodFromTemplate_def GetControllerOf_def NewControllerRef_def)

lemma sends_runtime [sends_intros]:
  "sends_only C P (clock_now R clock)" "sends_only C P panic_step" "sends_only C P (scheduled R xs)"
  "sends_only C P (first_error R es)"
  by (simp_all add: sends_def clock_now_def panic_step_def scheduled_def first_error_def)

lemma run_batch_scope: "sends_only C P fn \<Longrightarrow> sends_only C P (run_batch fn n)"
  by (induction n) (auto intro!: sends_only_then sends_only_and_then sends_only_done)

lemma slow_batches_scope:
  "sends_only C P fn \<Longrightarrow> sends_only C P (slow_batches R fn remaining batchSize successes)"
proof (induction R fn remaining batchSize successes rule: slow_batches.induct [case_names step])
  case (step R fn remaining batchSize successes)
  then show ?case
    by (subst slow_batches.simps)
      (auto simp: Let_def intro!: sends_if sends_only_and_then run_batch_scope sends_runtime sends_only_done)
qed

lemma delete_pods_scope: "sends_only C (rs_request_of rs) (delete_pods C pods)"
proof (induction pods)
  case (Cons pod pods)
  have "sends_only C (rs_request_of rs) (delete_pod C pod)"
    unfolding delete_pod_def by (rule sends_client) (simp add: rs_request_of_def NewDeleteOptionsWithUID_def)
  with Cons show ?case by (auto intro!: sends_only_then sends_only_and_then sends_only_done)
qed (simp add: sends_only_done)

lemma related_pods_scope: "sends_only C P (related_pods C L seen rss)"
  by (induction rss arbitrary: seen)
    (auto simp: Let_def intro!: sends_only_and_then sends_only_read sends_only_done split: sum.split)

lemma manageReplicas_scope: "sends_only C (rs_request_of rs) (manageReplicas C L R burst active rs)"
proof -
  have "rs_request_of rs (WPodCreate (Namespace (ObjectMeta rs)) (new_pod L rs))"
    by (simp add: rs_request_of_def new_pod_owner NewControllerRef_def)
  then have "sends_only C (rs_request_of rs) (create_pod C L rs)"
    unfolding create_pod_def by (intro sends_only_then sends_case_sum sends_intros)
  then have slow: "sends_only C (rs_request_of rs) (slowStartBatch R n SlowStartInitialBatchSize (create_pod C L rs))" for n
    unfolding slowStartBatch_def by (rule slow_batches_scope)
  have related: "sends_only C (rs_request_of rs) (getIndirectlyRelatedPods C L rs)"
    unfolding getIndirectlyRelatedPods_def getReplicaSetsWithSameController_def
    by (auto intro!: sends_only_and_then sends_only_then sends_only_read sends_only_done sends_runtime related_pods_scope
        split: option.split sum.split)
  show ?thesis unfolding manageReplicas_def Let_def
    by (auto intro!: sends_if sends_only_and_then sends_only_then slow related sends_only_done sends_runtime
        delete_pods_scope split: option.split sum.split prod.split)
qed

lemma ReplicaSetGet_found:
  "ReplicaSetGet s ns n = Inr rs \<Longrightarrow> wf_state s \<Longrightarrow> Name (ObjectMeta rs) = n \<and> Namespace (ObjectMeta rs) = ns"
  by (auto simp: ReplicaSetGet_def ReplicaSetMutGet_def ebind_Inr_iff assert_type_def api_get_Inr stored_ok_def
      dest!: wf_state_stored split: option.splits elim!: to_ReplicaSet.elims)

lemma status_attempts_scope:
  "sends_only C (rs_request (ns, Name (ObjectMeta current))) (status_attempts C ns newStatus retries current)"
proof (induction retries arbitrary: current)
  case 0
  show ?case by (auto intro!: sends_client)
next
  case (Suc retries)
  have "sends_only C (rs_request (ns, Name (ObjectMeta current)))
      (and_then (kube_read C (\<lambda>ch s. ReplicaSetGet s ns (Name (ObjectMeta current))))
        (\<lambda>current'. status_attempts C ns newStatus retries current'))"
  proof (rule sends_and_then [OF sends_read])
    fix rs s
    assume "wf_state s" "\<exists>ch. range_ok ch \<and> Inr rs = ReplicaSetGet s ns (Name (ObjectMeta current))"
    then have "Name (ObjectMeta rs) = Name (ObjectMeta current)" using ReplicaSetGet_found by (metis (no_types))
    with Suc [of rs] show "sends_only C (rs_request (ns, Name (ObjectMeta current))) (status_attempts C ns newStatus retries rs)"
      by simp
  qed simp
  then show ?case
    by (auto intro!: sends_only_then sends_client sends_only_done split: sum.split)
qed

lemma finish_sync_scope: "sends_only C (rs_request_of rs) (finish_sync C L R cf rs terminating managed)"
proof -
  have "sends_only C (rs_request_of rs) (updateReplicaSetStatus C rs st)" for st
    unfolding updateReplicaSetStatus_def rs_request_of_def
    by (intro sends_if sends_only_done status_attempts_scope)
  then show ?thesis unfolding finish_sync_def
    by (auto intro!: sends_only_and_then sends_runtime sends_only_done sends_only_fail split: prod.split option.split)
qed

lemma syncReplicaSet_scope: "sends_only C (rs_request (ns, name)) (syncReplicaSet C L R cf ns name)"
  unfolding syncReplicaSet_def
proof (rule sends_then [OF sends_read], rule sends_case_sum)
  fix r s rs
  assume "wf_state s" "\<exists>ch. range_ok ch \<and> r = ReplicaSetGet s ns name" "r = Inr rs"
  then have "rs_request_of rs = rs_request (ns, name)"
    using ReplicaSetGet_found [of s ns name rs] by (auto simp: rs_request_of_def)
  with manageReplicas_scope [of C rs] finish_sync_scope [of C rs]
  show "sends_only C (rs_request (ns, name)) (and_then (FilterPodsByOwner C (ObjectMeta rs) ''ReplicaSet'') (\<lambda>allRSPods.
      let activePods = FilterActivePods allRSPods;
          terminatingPods = (if terminating_enabled cf then FilterTerminatingPods allRSPods else [])
      in and_then (if DeletionTimestamp (ObjectMeta rs) = None
                   then manageReplicas C L R (burstReplicas cf) activePods rs
                   else done_with (activePods, None))
           (finish_sync C L R cf rs terminatingPods)))"
    by (auto simp: Let_def intro!: sends_only_and_then [OF sends_weaken [OF sends_FilterPodsByOwner]] sends_only_and_then
        sends_only_done)
qed (intro sends_intros)

interpretation replicaset: controller "\<lambda>(ns, name) C. syncReplicaSet C L R cf ns name" rs_request
  by unfold_locales (clarsimp simp: syncReplicaSet_scope)

section \<open>Status\<close>

lemma sint_of_nat32: "n < 2 ^ 31 \<Longrightarrow> sint (of_nat n :: int32) = int n"
  by (simp add: signed_of_nat signed_take_bit_int_eq_self)

lemma GetCondition_append:
  "GetCondition (status\<lparr>st_Conditions := append_slice cs [c]\<rparr>) (rsc_Type c) \<noteq> None"
  by (auto simp: GetCondition_def find_None_iff)

lemma GetCondition_removed: "GetCondition (RemoveCondition status t) t = None"
  by (simp add: GetCondition_def RemoveCondition_def filterOutCondition_def find_None_iff)

lemma SetCondition_present: "GetCondition (SetCondition status c) (rsc_Type c) \<noteq> None"
  using GetCondition_append by (auto simp: SetCondition_def split: option.split)

lemma GetCondition_conditions:
  "st_Conditions a = st_Conditions b \<Longrightarrow> GetCondition a t = GetCondition b t"
  by (simp add: GetCondition_def)

text \<open>Computed again from the status it gave, the condition part gives it back.\<close>

lemma with_failure_condition_again:
  assumes "with_failure_condition L rs n err t1 = Some st" "st_Conditions (rs_Status rs') = st_Conditions st"
  shows "with_failure_condition L rs' n err t2 = Some (rs_Status rs')"
proof -
  note same = GetCondition_conditions [OF assms(2), of ReplicaSetReplicaFailure]
  show ?thesis
  proof (cases err)
    case None
    have "GetCondition st ReplicaSetReplicaFailure = None"
      using assms(1) None GetCondition_removed by (auto simp: with_failure_condition_def Let_def split: if_splits)
    with same None show ?thesis by (simp add: with_failure_condition_def)
  next
    case (Some e)
    have "GetCondition st ReplicaSetReplicaFailure \<noteq> None"
      using assms(1) Some SetCondition_present [of "rs_Status rs" "NewReplicaSetCondition ReplicaSetReplicaFailure ''True'' t1 r m" for r m]
      by (auto simp: with_failure_condition_def Let_def NewReplicaSetCondition_def split: if_splits option.splits)
    with same Some show ?thesis by (auto simp: with_failure_condition_def Let_def)
  qed
qed

section \<open>An example\<close>

definition example_runtime :: runtime where
  "example_runtime = \<lparr>rt_order = (\<lambda>c n. [0..<n]), rt_first = (\<lambda>c n. 0), rt_now = (\<lambda>clock n. 100)\<rparr>"

lemma example_runtime_ok: "runtime_ok example_runtime"
  by (auto simp: runtime_ok_def example_runtime_def)

lemma example_sort: "sort_permutes example_lib"
  by (simp add: sort_permutes_def example_lib_def)


definition plain_spec :: PodSpec where
  "plain_spec = empty_PodSpec"

definition front_status :: ReplicaSetStatus where
  "front_status = \<lparr>st_Replicas = 0, st_FullyLabeledReplicas = 0, st_ReadyReplicas = 0, st_AvailableReplicas = 0,
     st_TerminatingReplicas = None, st_ObservedGeneration = 0, st_Conditions = None\<rparr>"

definition front :: "int32 \<Rightarrow> ReplicaSet" where
  "front replicas = \<lparr>TypeMeta = empty_TypeMeta,
     ObjectMeta = empty_ObjectMeta\<lparr>Name := ''front'', Namespace := ''shop'', UID := ''f''\<rparr>,
     rs_Spec = \<lparr>rs_Replicas = Some replicas, rs_MinReadySeconds = 0, rs_Selector = None,
       rs_Template = \<lparr>tmpl_ObjectMeta = empty_ObjectMeta, tmpl_Spec = plain_spec\<rparr>\<rparr>,
     rs_Status = front_status\<rparr>"

definition front_pod :: Pod where
  "front_pod = (new_pod example_lib (front 1))\<lparr>ObjectMeta := empty_ObjectMeta
     \<lparr>Name := ''front-x'', Namespace := ''shop'', UID := ''p'', OwnerReferences :=
       Some [NewControllerRef (ObjectMeta (front 1)) ''apps/v1'' ''ReplicaSet'']\<rparr>,
     pod_Status := empty_PodStatus\<lparr>pod_Conditions := Some [\<lparr>pc_Type = ''Ready'', pc_Status = ''True'',
       pc_LastTransitionTime = 5, pc_rest = []\<rparr>]\<rparr>\<rparr>"

lemma front_simps [simp]:
  "ObjectMeta (front n) = empty_ObjectMeta\<lparr>Name := ''front'', Namespace := ''shop'', UID := ''f''\<rparr>"
  "rs_Replicas (rs_Spec (front n)) = Some n" "rs_Status (front n) = front_status"
  by (simp_all add: front_def)



text \<open>Scaling \<open>front\<close> down to nothing, on a state from which its pod has just gone.\<close>

lemma front_scale_down:
  "manageReplicas example_cluster example_lib example_runtime 5 [front_pod] (front 0) (world shop_state) =
    Some (Inr ([front_pod], None), \<lparr>w_state = shop_state, w_calls = 1, w_log = [guarded_delete front_pod]\<rparr>)"
proof -
  let ?w = "\<lparr>w_state = shop_state, w_calls = 1, w_log = [guarded_delete front_pod]\<rparr>"
  have "PodDelete example_env example_choices ''shop'' ''front-x'' options shop_state =
      Some (Inl (NotFound ''Pod'' ''front-x''), shop_state)" for options
    by (simp add: PodDelete_def delete_def shop_state_def)
  then have "delete_pod example_cluster front_pod (world shop_state) = Some (Inl (NotFound ''Pod'' ''front-x''), ?w)"
    by (simp add: delete_pod_def pods_delete_def kube_call_def single_def guarded_delete_def front_pod_def)
  then have deleted: "delete_pods example_cluster [front_pod] (world shop_state) = Some (Inr [], ?w)"
    by (simp add: with_result_def and_then_def done_with_def)
  have unrelated: "getIndirectlyRelatedPods example_cluster example_lib (front 0) w = Some (Inr [], w)" for w
    by (simp add: getIndirectlyRelatedPods_def getReplicaSetsWithSameController_def GetControllerOf_def empty_ObjectMeta_def
        and_then_def with_result_def done_with_def)
  have chosen: "getPodsToDelete example_lib now [front_pod] [] 1 = Some ([front_pod], [front_pod])" for now
    by (simp add: getPodsToDelete_def Let_def)
  have order: "scheduled example_runtime [front_pod] w = Some (Inr [front_pod], w)" for w
    by (simp add: scheduled_def example_runtime_def)
  have time: "clock_now example_runtime ''metav1.Now'' w = Some (Inr 100, w)" for w
    by (simp add: clock_now_def example_runtime_def)
  show ?thesis
    by (simp add: manageReplicas_def and_then_def with_result_def unrelated time chosen order deleted first_error_run done_with_def
        del: delete_pods.simps)
qed

section \<open>Properties\<close>



text \<open>The batches are equivalent to a flat loop: the slow start ends without an error exactly when
  making the calls one after the other does, in the same final state, and then it counts them all.\<close>

theorem slowStartBatch_flat:
  assumes "0 \<le> calls"
  shows "slowStartBatch R calls SlowStartInitialBatchSize fn w = Some (Inr (n, None), w') \<longleftrightarrow>
    run_batch fn (nat calls) w = Some (Inr [], w') \<and> n = calls"
  unfolding slowStartBatch_def SlowStartInitialBatchSize_def
  using assms slow_batches_flat [of "min calls 1" calls R fn 0 w n w'] by auto

theorem slowStartBatch_flat_witness:
  "slowStartBatch example_runtime 4 SlowStartInitialBatchSize (done_with ()) (world shop_state) =
    Some (Inr (4, None), world shop_state)"
proof -
  have "run_batch (done_with ()) (nat 4) (world shop_state) = Some (Inr [], world shop_state)"
    by (simp add: eval_nat_numeral with_result_def and_then_def done_with_def)
  then show ?thesis using slowStartBatch_flat [of 4 example_runtime "done_with ()" "world shop_state" 4 "world shop_state"]
    by simp
qed

text \<open>C17: One round of managing the replicas creates only, or deletes only, as many pods as are missing
  or in excess but never more than the burst, exactly that many when it reports no error; it
  deletes active pods only, each at most once and under the guard of its UID, and leaves the
  slice of active pods a permutation of itself.\<close>

theorem manageReplicas_bounds:
  assumes "manageReplicas C L R burst active rs w = Some (r, w')" "runtime_ok R" "sort_permutes L" "0 \<le> burst"
  shows "\<exists>pods err ws replicas. r = Inr (pods, err) \<and> mset pods = mset active \<and> w_log w' = w_log w @ ws \<and>
    rs_Replicas (rs_Spec rs) = Some replicas \<and>
    (let diff = int (length active) - sint replicas in
     int (length ws) \<le> min \<bar>diff\<bar> burst \<and> (err = None \<longrightarrow> int (length ws) = min \<bar>diff\<bar> burst) \<and>
     (if diff < 0 then ws = replicate (length ws) (pod_create L rs)
      else \<exists>ds. ws = map guarded_delete ds \<and> mset ds \<subseteq># mset active))"
proof -
  from logsD [OF manageReplicas_logs [OF assms(2-4)] assms(1)] obtain ws pods err
    where "w_log w' = w_log w @ ws" "r = Inr (pods, err)" "mset pods = mset active" "managed_as L burst active rs err ws"
    by blast
  then show ?thesis unfolding managed_as_def by blast
qed

theorem manageReplicas_bounds_witness:
  "\<exists>ws. w_log \<lparr>w_state = shop_state, w_calls = 1, w_log = [guarded_delete front_pod]\<rparr> = ws \<and> int (length ws) = min \<bar>1 - 0\<bar> 5 \<and>
    set ws \<subseteq> guarded_delete ` {front_pod}"
  using manageReplicas_bounds [OF front_scale_down example_runtime_ok example_sort] by auto

text \<open>The counts of a computed status are true: \<open>Replicas\<close> is the number of active pods, and
  available pods are ready, ready and fully labelled pods are active; none wraps as long as there
  are fewer than 2147483648 pods.\<close>

theorem calculateStatus_counts:
  assumes "calculateStatus L cf rs active terminating err condNow now = Some st" "length active < 2 ^ 31"
  shows "sint (st_Replicas st) = int (length active) \<and>
    sint (st_ReadyReplicas st) = int (length (filter IsPodReady active)) \<and>
    0 \<le> sint (st_AvailableReplicas st) \<and> sint (st_AvailableReplicas st) \<le> sint (st_ReadyReplicas st) \<and>
    sint (st_ReadyReplicas st) \<le> sint (st_Replicas st) \<and>
    0 \<le> sint (st_FullyLabeledReplicas st) \<and> sint (st_FullyLabeledReplicas st) \<le> sint (st_Replicas st)"
proof -
  let ?avail = "filter (\<lambda>pod. IsPodReady pod \<and> IsPodAvailable pod (rs_MinReadySeconds (rs_Spec rs)) now) active"
  let ?full = "filter (\<lambda>pod. set_selector (Labels (tmpl_ObjectMeta (rs_Template (rs_Spec rs)))) (Labels (ObjectMeta pod))) active"
  have st: "st_Replicas st = of_nat (length active)" "st_ReadyReplicas st = of_nat (length (filter IsPodReady active))"
    "st_AvailableReplicas st = of_nat (length ?avail)" "st_FullyLabeledReplicas st = of_nat (length ?full)"
    using assms(1) by (auto simp: calculateStatus_def)
  have small: "length (filter P active) < 2 ^ 31" for P using assms(2) length_filter_le [of P active] by linarith
  have "?avail = filter (\<lambda>pod. IsPodAvailable pod (rs_MinReadySeconds (rs_Spec rs)) now) (filter IsPodReady active)"
    by (simp add: conj_commute)
  then have "length ?avail \<le> length (filter IsPodReady active)" using length_filter_le by metis
  then show ?thesis unfolding st using small assms(2) by (simp add: sint_of_nat32)
qed

theorem calculateStatus_counts_witness:
  "\<exists>st. calculateStatus example_lib \<lparr>burstReplicas = 5, DeploymentReplicaSetTerminatingReplicas = True,
      EnableStatusTerminatingReplicas = True\<rparr> (front 1) [front_pod] [] None 0 100 = Some st \<and>
    sint (st_Replicas st) = 1 \<and> sint (st_AvailableReplicas st) \<le> 1"
proof -
  let ?cf = "\<lparr>burstReplicas = 5, DeploymentReplicaSetTerminatingReplicas = True, EnableStatusTerminatingReplicas = True\<rparr>"
  obtain st where st: "calculateStatus example_lib ?cf (front 1) [front_pod] [] None 0 100 = Some st"
    by (simp add: calculateStatus_def with_failure_condition_def Let_def)
  from calculateStatus_counts [OF this] have "sint (st_Replicas st) = 1" "sint (st_AvailableReplicas st) \<le> 1" by auto
  with st show ?thesis by blast
qed

text \<open>The status settles: once the status computed for a set of pods is stored with the generation it
  was computed for, the next round on the same pods computes the same status and sends no update.\<close>

theorem status_settles:
  assumes "calculateStatus L cf rs active terminating err condNow now = Some st"
    and "rs' = rs\<lparr>rs_Status := st\<lparr>st_ObservedGeneration := Generation (ObjectMeta rs)\<rparr>\<rparr>"
  shows "calculateStatus L cf rs' active terminating err condNow' now = Some (rs_Status rs') \<and>
    updateReplicaSetStatus C rs' (rs_Status rs') w = Some (Inr rs', w)"
proof -
  from assms(1) obtain st0 where st0: "with_failure_condition L rs (length active) err condNow = Some st0"
    by (auto simp: calculateStatus_def)
  with assms have conds: "st_Conditions (rs_Status rs') = st_Conditions st0" by (auto simp: calculateStatus_def)
  have same: "rs_Spec rs' = rs_Spec rs" "ObjectMeta rs' = ObjectMeta rs"
    "st_ObservedGeneration (rs_Status rs') = Generation (ObjectMeta rs)" using assms(2) by simp_all
  have "calculateStatus L cf rs' active terminating err condNow' now = Some (rs_Status rs')"
    using assms st0 with_failure_condition_again [OF st0 conds, of condNow'] same(1)
    by (auto simp: calculateStatus_def)
  moreover have "status_steady rs' (rs_Status rs')" using same by (simp add: status_steady_def)
  ultimately show ?thesis by (simp add: updateReplicaSetStatus_def done_with_def)
qed

theorem status_settles_witness:
  "\<exists>st. st_Replicas st = 1 \<and> updateReplicaSetStatus example_cluster ((front 1)\<lparr>rs_Status := st\<rparr>) st (world shop_state) =
    Some (Inr ((front 1)\<lparr>rs_Status := st\<rparr>), world shop_state)"
proof -
  let ?cf = "\<lparr>burstReplicas = 5, DeploymentReplicaSetTerminatingReplicas = True, EnableStatusTerminatingReplicas = True\<rparr>"
  obtain st where st: "calculateStatus example_lib ?cf (front 1) [front_pod] [] None 0 100 = Some st"
    by (simp add: calculateStatus_def with_failure_condition_def Let_def)
  let ?st = "st\<lparr>st_ObservedGeneration := Generation (ObjectMeta (front 1))\<rparr>"
  have "st_Replicas ?st = 1" using st by (auto simp: calculateStatus_def)
  moreover have "updateReplicaSetStatus example_cluster ((front 1)\<lparr>rs_Status := ?st\<rparr>) ?st (world shop_state) =
      Some (Inr ((front 1)\<lparr>rs_Status := ?st\<rparr>), world shop_state)"
    using status_settles [OF st refl, of 0 example_cluster "world shop_state"] by simp
  ultimately show ?thesis by blast
qed

end
