(* ===== verification/Ctl_ReplicaSet_Converge.thy ===== *)
theory Ctl_ReplicaSet_Converge
  imports Ctl_ReplicaSet_Spec
begin

text \<open>
  The replica set controller and the API model together, when no other client interferes: every
  successful sync brings the number of active pods closer to the number the replica set asks
  for, by as many pods as the burst allows, and keeps it there. The counts are read off the state
  of the API, not off the requests.
\<close>

section \<open>The setting\<close>

definition alone :: "cluster \<Rightarrow> bool" where
  "alone C \<longleftrightarrow> (\<forall>n i s. cl_others C n i s = s)"

text \<open>
  What the controller counts: the pods that the pod index files under the replica set and that are
  not being deleted.
\<close>

definition active_pods :: "State \<Rightarrow> ObjectMeta \<Rightarrow> Pod set" where
  "active_pods s owner = {pod \<in> pods_of_owner s owner ''ReplicaSet''. DeletionTimestamp (ObjectMeta pod) = None}"

text \<open>
  The create hooks of Kubernetes leave owner references and the deletion timestamp alone, and the
  system fields that a create wipes include the deletion timestamp. The status strategy of replica
  sets takes the spec from the stored object, and the deletion timestamp cannot be changed by an
  update.
\<close>

definition owners_kept :: "ObjectMeta \<Rightarrow> ObjectMeta \<Rightarrow> bool" where
  "owners_kept a b \<longleftrightarrow> OwnerReferences a = OwnerReferences b \<and> DeletionTimestamp a = DeletionTimestamp b"

definition create_hooks_keep_owners :: "env \<Rightarrow> bool" where
  "create_hooks_keep_owners E \<longleftrightarrow>
     (\<forall>p. owners_kept (ObjectMeta (SetObjectDefaults (podOps E) p)) (ObjectMeta p)) \<and>
     (\<forall>p. owners_kept (ObjectMeta (PrepareForCreate (podOps E) p)) (ObjectMeta p)) \<and>
     (\<forall>p. owners_kept (ObjectMeta (Canonicalize (podOps E) p)) (ObjectMeta p)) \<and>
     (\<forall>md. OwnerReferences (WipeObjectMetaSystemFields E md) = OwnerReferences md \<and>
        DeletionTimestamp (WipeObjectMetaSystemFields E md) = None)"

definition status_hooks_keep_spec :: "env \<Rightarrow> bool" where
  "status_hooks_keep_spec E \<longleftrightarrow>
     (\<forall>x y. to_internal (rsOps E) x = Inr y \<longrightarrow> rs_Spec y = rs_Spec x) \<and>
     (\<forall>x y. to_versioned (rsOps E) x = Inr y \<longrightarrow> rs_Spec y = rs_Spec x) \<and>
     (\<forall>ns x y z. RestBeforeStatusUpdate (rsOps E) ns x y = Inr z \<longrightarrow>
        rs_Spec z = rs_Spec y \<and> DeletionTimestamp (ObjectMeta z) = DeletionTimestamp (ObjectMeta y))"

definition quiet_cluster :: "cluster \<Rightarrow> kube_lib \<Rightarrow> bool" where
  "quiet_cluster C L \<longleftrightarrow> cluster_ok C \<and> alone C \<and> create_hooks_keep_owners (cl_env C) \<and>
     status_hooks_keep_spec (cl_env C) \<and> sort_permutes L \<and> (\<forall>e. \<not> HasStatusCause L e ''NamespaceTerminating'')"

section \<open>One pod more, one pod less\<close>

definition owned_by :: "ObjectMeta \<Rightarrow> Pod \<Rightarrow> bool" where
  "owned_by owner pod \<longleftrightarrow> PodControllerIndexKey (Namespace (ObjectMeta pod)) (GetControllerOf (ObjectMeta pod)) =
     PodControllerIndexKey (Namespace owner) (Some (owner_ref owner ''ReplicaSet''))"

definition pod_key :: "Pod \<Rightarrow> KKey" where
  "pod_key pod = KKey ''Pod'' (Name (ObjectMeta pod)) (Namespace (ObjectMeta pod))"

lemma stored_pod_key: "wf_state s \<Longrightarrow> st_m s key = Some (KPod pod) \<Longrightarrow> key = pod_key pod"
  by (cases key) (auto simp: pod_key_def stored_ok_def dest: wf_state_stored)

lemma active_pods_iff:
  "wf_state s \<Longrightarrow> pod \<in> active_pods s owner \<longleftrightarrow>
     st_m s (pod_key pod) = Some (KPod pod) \<and> owned_by owner pod \<and> DeletionTimestamp (ObjectMeta pod) = None"
  using stored_pod_key by (auto simp: active_pods_def pods_of_owner_def owned_by_def)

lemma finite_active: "wf_state s \<Longrightarrow> finite (active_pods s owner)"
proof -
  assume wf: "wf_state s"
  then have "active_pods s owner \<subseteq> (\<lambda>key. case st_m s key of Some (KPod pod) \<Rightarrow> pod) ` dom (st_m s)"
    by (force simp: active_pods_iff)
  then show ?thesis using wf_state_finite [OF wf] finite_surj by blast
qed

lemma active_pods_added:
  assumes "wf_state s" "wf_state s'" "st_m s (pod_key pod) = None" "st_m s' = (st_m s)(pod_key pod \<mapsto> KPod pod)"
    and "DeletionTimestamp (ObjectMeta pod) = None"
  shows "pod \<notin> active_pods s owner \<and>
    active_pods s' owner = (if owned_by owner pod then insert pod (active_pods s owner) else active_pods s owner)"
proof -
  have "x \<in> active_pods s' owner \<longleftrightarrow> x = pod \<and> owned_by owner pod \<or> x \<in> active_pods s owner" for x
    using assms by (cases "pod_key x = pod_key pod") (auto simp: active_pods_iff)
  then have "active_pods s' owner = (if owned_by owner pod then insert pod (active_pods s owner) else active_pods s owner)"
    by (auto simp: set_eq_iff)
  moreover have "pod \<notin> active_pods s owner" using assms(1,3) by (simp add: active_pods_iff)
  ultimately show ?thesis by simp
qed

lemma active_pods_dropped:
  assumes "wf_state s" "wf_state s'" "st_m s (pod_key pod) = Some (KPod pod)"
    and "st_m s' = (st_m s)(pod_key pod := None) \<or>
      (\<exists>pod'. DeletionTimestamp (ObjectMeta pod') \<noteq> None \<and> st_m s' = (st_m s)(pod_key pod \<mapsto> KPod pod'))"
  shows "active_pods s' owner = active_pods s owner - {pod}"
proof -
  have "x \<in> active_pods s' owner \<longleftrightarrow> x \<in> active_pods s owner \<and> x \<noteq> pod" for x
    using assms by (cases "pod_key x = pod_key pod") (auto simp: active_pods_iff)
  then show ?thesis by auto
qed

lemma active_pods_cong:
  assumes "wf_state s" "wf_state s'" "\<And>key. key_Kind key = ''Pod'' \<Longrightarrow> st_m s' key = st_m s key"
  shows "active_pods s' owner = active_pods s owner"
  using assms by (auto simp: active_pods_iff pod_key_def)

section \<open>A create adds an active pod\<close>

lemma converted_owners: "converted a b \<Longrightarrow> owners_kept a b"
  by (auto simp: converted_def owners_kept_def)

lemma owners_kept_trans: "owners_kept a b \<Longrightarrow> owners_kept b c \<Longrightarrow> owners_kept a c"
  by (simp add: owners_kept_def)

lemma create_pipeline_owners:
  assumes "upstream_laws E" "create_hooks_keep_owners E" "applyValidationAndDefaulting E (KPod p) name = Inr ob"
  shows "owners_kept (metadata ob) (ObjectMeta p)"
proof -
  let ?d = "SetObjectDefaults (podOps E) p"
  obtain i t where in': "to_internal (podOps E) ?d = Inr i"
    and out: "to_versioned (podOps E) (Canonicalize (podOps E)
        (PrepareForCreate (podOps E) (applyPriorityAdmission (applyDefaultTolerationSeconds i)))) = Inr t"
      (is "to_versioned _ (Canonicalize _ (PrepareForCreate _ ?a)) = _")
    and ob: "ob = KPod t"
    using assms(3)
    by (auto simp: applyValidationAndDefaulting_def convert_in_def convert_out_def ebind_Inr_iff check_Inr_iff
        split: sum.splits)
  note conv = ops_convertedD [OF upstream_opsD(1) [OF assms(1)]]
  have "owners_kept (ObjectMeta ?a) (ObjectMeta i)"
    by (simp add: applyPriorityAdmission_def applyDefaultTolerationSeconds_def Let_def owners_kept_def)
  then show ?thesis
    using converted_owners [OF conv(1) [OF in']] converted_owners [OF conv(2) [OF out]] assms(2) ob
    by (simp add: create_hooks_keep_owners_def owners_kept_def)
qed

lemma owned_by_new:
  assumes "OwnerReferences (ObjectMeta pod) = OwnerReferences (ObjectMeta (new_pod L rs))"
    and "Namespace (ObjectMeta pod) = Namespace (ObjectMeta rs)"
  shows "owned_by (ObjectMeta rs) pod"
proof -
  have "GetControllerOf (ObjectMeta pod) = GetControllerOf (ObjectMeta (new_pod L rs))"
    using assms(1) by (simp add: GetControllerOf_def)
  then show ?thesis using assms(2)
    by (simp add: owned_by_def new_pod_owner PodControllerIndexKey_def NewControllerRef_def owner_ref_def)
qed

lemma kube_call_alone:
  assumes "alone C" "kube_call C ws (single f) w = Some (r, w')"
  obtains ch where "f (cl_env C) ch (w_state w) = Some (r, w_state w')"
  using assms by (auto simp: kube_call_def single_def alone_def split: option.splits)

lemma kube_read_alone:
  "alone C \<Longrightarrow> kube_read C f w = Some (r, w') \<Longrightarrow> w_state w' = w_state w"
  by (auto simp: kube_read_def kube_call_def single_def alone_def)

text \<open>
  The state after a create for \<open>rs\<close>: one active pod more, and it is indexed under \<open>rs\<close>, so
  replica sets with another index key keep the pods they have.
\<close>

definition index_key :: "ObjectMeta \<Rightarrow> string" where
  "index_key owner = PodControllerIndexKey (Namespace owner) (Some (owner_ref owner ''ReplicaSet''))"

lemma owned_by_key: "owned_by owner pod \<Longrightarrow> owned_by owner' pod \<longleftrightarrow> index_key owner' = index_key owner"
  by (auto simp: owned_by_def index_key_def)

definition one_more :: "ReplicaSet \<Rightarrow> State \<Rightarrow> State \<Rightarrow> bool" where
  "one_more rs s s' \<longleftrightarrow> (\<exists>pod. pod \<notin> active_pods s (ObjectMeta rs) \<and>
     (\<forall>owner. active_pods s' owner = (if index_key owner = index_key (ObjectMeta rs)
        then insert pod (active_pods s owner) else active_pods s owner)))"

lemma PodCreate_adds:
  assumes E: "upstream_laws E" "create_hooks_keep_owners E" and wf: "wf_state s" "wf_state s'"
    and call: "PodCreate E ch (Namespace (ObjectMeta rs)) (new_pod L rs) s = Some (Inr x, s')"
  shows "one_more rs s s'"
proof -
  let ?ns = "Namespace (ObjectMeta rs)"
  from call obtain ob' where "create E ch ''Pod'' ?ns (KPod (new_pod L rs)) s = Some (Inr ob', s')"
    by (auto simp: PodCreate_def assert_call_def ebind_Inr_iff)
  then show ?thesis
  proof (cases rule: create_outcomes)
    case (stored md uid s1 name objCopy ob2)
    from stored(6) obtain ob where pipe: "applyValidationAndDefaulting E objCopy name = Inr ob"
      and free: "st_m s1 (KKey ''Pod'' name ?ns) = None"
      and store: "store_object ch (KKey ''Pod'' name ?ns) ob s1 = Some (Inr ob2, s')"
      by (rule create_named_stored)
    have md: "md = (WipeObjectMetaSystemFields E (ObjectMeta (new_pod L rs)))\<lparr>Namespace := ?ns\<rparr>"
      using ensure_namespaceD [OF E(1) stored(1)] by simp
    obtain p where p: "objCopy = KPod p" and pm: "ObjectMeta p = md\<lparr>CreationTimestamp := o_now ch, UID := uid, Name := name\<rparr>"
      using stored(3) by simp
    have owners: "owners_kept (metadata ob) (ObjectMeta p)"
      by (rule create_pipeline_owners [OF E pipe [unfolded p]])
    have id: "same_id (metadata ob) (ObjectMeta p)" "kind_of ob = ''Pod''"
      using create_pipeline_keeps [OF pipe] E(1) p by simp_all
    then obtain q where q: "ob = KPod q" by (cases ob) auto
    from store obtain rv where s': "s' = s1\<lparr>usedRV := insert rv (usedRV s1), st_m := (st_m s1)(KKey ''Pod'' name ?ns \<mapsto>
        KPod (q\<lparr>ObjectMeta := (ObjectMeta q)\<lparr>ResourceVersion := rv\<rparr>\<rparr>))\<rparr>"
      by (rule store_object_Some) (simp add: q)
    let ?pod = "q\<lparr>ObjectMeta := (ObjectMeta q)\<lparr>ResourceVersion := rv\<rparr>\<rparr>"
    have same: "st_m s1 = st_m s" using generateNewUID_frame [OF stored(2)] by simp
    have key: "pod_key ?pod = KKey ''Pod'' name ?ns"
      using id q pm md by (simp add: pod_key_def same_id_def)
    have "OwnerReferences (ObjectMeta ?pod) = OwnerReferences (ObjectMeta (new_pod L rs))"
      "DeletionTimestamp (ObjectMeta ?pod) = None" "Namespace (ObjectMeta ?pod) = ?ns"
      using owners E(2) q pm md id by (simp_all add: owners_kept_def create_hooks_keep_owners_def same_id_def)
    then have owned: "owned_by (ObjectMeta rs) ?pod" and live: "DeletionTimestamp (ObjectMeta ?pod) = None"
      using owned_by_new [of ?pod L rs] by simp_all
    have "st_m s (pod_key ?pod) = None" "st_m s' = (st_m s)(pod_key ?pod \<mapsto> KPod ?pod)"
      using free s' same key by simp_all
    from active_pods_added [OF wf this live] show ?thesis
      unfolding one_more_def owned_by_key [OF owned] by blast
  qed simp_all
qed

lemma create_pod_adds:
  assumes quiet: "quiet_cluster C L" and wf: "wf_state (w_state w)"
    and run: "create_pod C L rs w = Some (Inr (), w')"
  shows "one_more rs (w_state w) (w_state w')"
proof -
  let ?ns = "Namespace (ObjectMeta rs)"
  from run quiet obtain x where call: "pods_create C ?ns (new_pod L rs) w = Some (Inr x, w')"
    unfolding create_pod_def quiet_cluster_def
    by (elim with_resultE) (auto simp: done_with_def fail_with_def split: sum.splits if_splits)
  then have "wf_state (w_state w')"
    using sendsD [OF sends_client(1) [of "\<lambda>_. True"]] quiet wf unfolding quiet_cluster_def advances_def by blast
  moreover obtain ch where "PodCreate (cl_env C) ch ?ns (new_pod L rs) (w_state w) = Some (Inr x, w_state w')"
    using call quiet by (auto simp: pods_create_def quiet_cluster_def elim: kube_call_alone)
  moreover have "upstream_laws (cl_env C)" "create_hooks_keep_owners (cl_env C)"
    using quiet by (auto simp: quiet_cluster_def cluster_ok_def)
  ultimately show ?thesis using wf by (auto intro: PodCreate_adds)
qed

section \<open>A delete takes an active pod away\<close>

lemma graceful_pod:
  assumes laws: "upstream_laws E" and eq: "strategy_graceful E ob options = Inr (g, pending, checked, options')"
    and ob: "kind_of ob = ''Pod''" "DeletionTimestamp (metadata ob) = None"
  shows "\<exists>pod. checked = KPod pod \<and> DeletionTimestamp (ObjectMeta pod) = None \<and> \<not> pending"
proof -
  obtain pod where pod: "ob = KPod pod" using ob(1) by (cases ob) auto
  with eq obtain i g' i' t where steps: "to_internal (podOps E) pod = Inr i"
    "PodCheckGracefulDelete E i options = (g', i', options')" "to_versioned (podOps E) i' = Inr t"
    "checked = KPod t" "pending = (DeletionTimestamp (ObjectMeta i') \<noteq> None)"
    by (auto split: sum.splits prod.splits)
  have "ObjectMeta i' = ObjectMeta i" using laws steps(2) unfolding upstream_laws_def by blast
  with steps ob(2) pod ops_convertedD [OF upstream_opsD(1) [OF laws]] show ?thesis
    by (fastforce simp: converted_def)
qed

lemma delete_active:
  assumes laws: "upstream_laws E" and stored: "st_m s key = Some (KPod pod)" "DeletionTimestamp (ObjectMeta pod) = None"
    and call: "delete E ch key options s = Some (r, s')" and r: "case r of Inl e \<Rightarrow> IsNotFound e | Inr _ \<Rightarrow> True"
  shows "st_m s' = (st_m s)(key := None) \<or>
    (\<exists>pod'. DeletionTimestamp (ObjectMeta pod') \<noteq> None \<and> st_m s' = (st_m s)(key \<mapsto> KPod pod'))"
proof -
  have not_found: "\<not> IsNotFound e" if "validateDeleteOptions options = Some e \<or>
      validateDeletePreconditions (ObjectMeta pod) options (key_Kind key) = Some e \<or>
      checkGracefulDelete E ch (KPod pod) options = Inl e" for e
    using that stored(2)
    by (auto simp: validateDeleteOptions_def validateDeletePreconditions_def checkGracefulDelete_def Let_def
        split: option.splits if_splits sum.splits prod.splits)
  obtain g pending checked options' where check: "checkGracefulDelete E ch (KPod pod) options = Inr (g, pending, checked, options')"
    and rest: "(if pending then Some (Inr (), s) else delete_commit ch key (KPod pod) g checked options' s) = Some (r, s')"
    using call r stored(1) not_found
    by (auto simp: delete_def Let_def split: option.splits sum.splits prod.splits if_splits)
  let ?ob1 = "set_metadata (KPod pod) ((ObjectMeta pod)
      \<lparr>DeletionGracePeriodSeconds := clamp_grace (DeletionGracePeriodSeconds (ObjectMeta pod))\<rparr>)"
  have "strategy_graceful E ?ob1 (options\<lparr>GracePeriodSeconds := clamp_grace (GracePeriodSeconds options)\<rparr>) =
      Inr (g, pending, checked, options')"
    using check stored(2) by (simp add: checkGracefulDelete_def Let_def del: strategy_graceful.simps set_metadata.simps)
  from graceful_pod [OF laws this] stored(2) obtain p1 where p1: "checked = KPod p1" "DeletionTimestamp (ObjectMeta p1) = None"
    and "\<not> pending" by auto
  define objCopy where "objCopy = with_gc_finalizers checked options'"
  define marked where "marked = set_metadata objCopy (mark_deleted ch g (delete_grace g options') (metadata objCopy))"
  obtain fs where "objCopy = set_metadata checked ((metadata checked)\<lparr>Finalizers := fs\<rparr>)"
    using with_gc_finalizers_frame [of checked options'] objCopy_def by auto
  then obtain p2 where p2: "objCopy = KPod p2" "DeletionTimestamp (ObjectMeta p2) = None"
    using p1 by simp
  have marks: "DeletionTimestamp (metadata marked) \<noteq> None"
    using p2 by (simp add: marked_def mark_deleted_def Let_def)
  have "\<not> storageObjectDeepEqual marked (KPod pod)"
  proof
    assume "storageObjectDeepEqual marked (KPod pod)"
    then have "DeletionTimestamp (metadata (storage_view marked)) = DeletionTimestamp (metadata (storage_view (KPod pod)))"
      by (simp add: storageObjectDeepEqual_def)
    with marks stored(2) show False by (simp add: storage_view_def)
  qed
  with rest \<open>\<not> pending\<close> consider "s' = s\<lparr>st_m := (st_m s)(key := None)\<rparr>"
    | r' where "store_object ch key marked s = Some (r', s')"
    by (auto simp: delete_commit_def Let_def objCopy_def [symmetric] marked_def [symmetric] split: if_splits)
  then show ?thesis
  proof cases
    case 2
    then obtain rv where s': "st_m s' = (st_m s)(key \<mapsto> set_metadata marked ((metadata marked)\<lparr>ResourceVersion := rv\<rparr>))"
      by (elim store_object_Some) simp
    obtain p3 where p3: "marked = KPod p3" using p2 by (simp add: marked_def)
    show ?thesis
      by (rule disjI2, rule exI [of _ "p3\<lparr>ObjectMeta := (ObjectMeta p3)\<lparr>ResourceVersion := rv\<rparr>\<rparr>"])
        (use s' p3 marks in simp)
  qed simp
qed

lemma delete_pod_drops:
  assumes quiet: "quiet_cluster C L" and wf: "wf_state (w_state w)" and pod: "pod \<in> active_pods (w_state w) owner"
    and run: "delete_pod C pod w = Some (r, w')" and r: "case r of Inl e \<Rightarrow> IsNotFound e | Inr _ \<Rightarrow> True"
  shows "wf_state (w_state w') \<and> (\<forall>owner'. active_pods (w_state w') owner' = active_pods (w_state w) owner' - {pod})"
proof -
  from run quiet obtain ch where del: "delete (cl_env C) ch (pod_key pod) (NewDeleteOptionsWithUID (UID (ObjectMeta pod)))
      (w_state w) = Some (r, w_state w')"
    by (auto simp: delete_pod_def pods_delete_def PodDelete_def pod_key_def quiet_cluster_def elim: kube_call_alone)
  have laws: "upstream_laws (cl_env C)" using quiet by (simp add: quiet_cluster_def cluster_ok_def)
  have wf': "wf_state (w_state w')" using delete_wf [OF laws wf del] by simp
  have stored: "st_m (w_state w) (pod_key pod) = Some (KPod pod)" "DeletionTimestamp (ObjectMeta pod) = None"
    using pod wf by (simp_all add: active_pods_iff)
  from active_pods_dropped [OF wf wf' stored(1) delete_active [OF laws stored del r]] wf' show ?thesis by simp
qed

lemma delete_pods_drop:
  assumes quiet: "quiet_cluster C L"
  shows "wf_state (w_state w) \<Longrightarrow> distinct pods \<Longrightarrow> set pods \<subseteq> active_pods (w_state w) owner \<Longrightarrow>
    delete_pods C pods w = Some (Inr [], w') \<Longrightarrow>
    wf_state (w_state w') \<and> (\<forall>owner'. active_pods (w_state w') owner' = active_pods (w_state w) owner' - set pods)"
proof (induction pods arbitrary: w)
  case Nil
  then show ?case by (simp add: done_with_def)
next
  case (Cons pod pods)
  from Cons.prems(4) obtain r w1 where one: "delete_pod C pod w = Some (r, w1)"
    and rest: "delete_pods C pods w1 = Some (Inr [], w')" and r: "case r of Inl e \<Rightarrow> IsNotFound e | Inr _ \<Rightarrow> True"
    unfolding delete_pods.simps
    by (elim with_resultE and_thenE) (auto simp: done_with_def split: sum.splits if_splits)
  have "pod \<in> active_pods (w_state w) owner" using Cons.prems(3) by simp
  from delete_pod_drops [OF quiet Cons.prems(1) this one r]
  have w1: "wf_state (w_state w1)" "\<And>owner'. active_pods (w_state w1) owner' = active_pods (w_state w) owner' - {pod}" by auto
  with Cons.prems Cons.IH [OF w1(1) _ _ rest] show ?case by auto
qed

section \<open>Managing the replicas\<close>

text \<open>The count after one round, and what a run of successful creates adds.\<close>

definition approach :: "int \<Rightarrow> int \<Rightarrow> int \<Rightarrow> int" where
  "approach burst wanted n = (if n \<le> wanted then min wanted (n + burst) else max wanted (n - burst))"

definition active_count :: "State \<Rightarrow> ObjectMeta \<Rightarrow> int" where
  "active_count s owner = int (card (active_pods s owner))"

definition spares :: "ReplicaSet \<Rightarrow> State \<Rightarrow> State \<Rightarrow> bool" where
  "spares rs s s' \<longleftrightarrow> (\<forall>owner. index_key owner \<noteq> index_key (ObjectMeta rs) \<longrightarrow> active_pods s' owner = active_pods s owner)"

lemma spares_refl [simp]: "spares rs s s"
  by (simp add: spares_def)

lemma spares_trans: "spares rs s s1 \<Longrightarrow> spares rs s1 s2 \<Longrightarrow> spares rs s s2"
  by (simp add: spares_def)

lemma one_more_count:
  assumes "one_more rs s s'" "wf_state s"
  shows "active_count s' (ObjectMeta rs) = active_count s (ObjectMeta rs) + 1 \<and> spares rs s s'"
  using assms(1) finite_active [OF assms(2)] unfolding one_more_def active_count_def spares_def by force

lemma create_pod_wf:
  assumes "quiet_cluster C L" "wf_state (w_state w)" "create_pod C L rs w = Some (r, w')"
  shows "wf_state (w_state w')"
proof -
  have "sends_only C (\<lambda>_. True) (create_pod C L rs)"
    unfolding create_pod_def by (intro sends_only_then sends_case_sum sends_intros) simp_all
  from sendsD [OF this _ assms(2,3)] assms(1) show ?thesis by (simp add: quiet_cluster_def advances_def)
qed

lemma run_batch_adds:
  assumes quiet: "quiet_cluster C L"
  shows "wf_state (w_state w) \<Longrightarrow> run_batch (create_pod C L rs) n w = Some (Inr [], w') \<Longrightarrow>
    wf_state (w_state w') \<and> active_count (w_state w') (ObjectMeta rs) = active_count (w_state w) (ObjectMeta rs) + int n \<and>
    spares rs (w_state w) (w_state w')"
proof (induction n arbitrary: w)
  case 0
  then show ?case by (simp add: done_with_def)
next
  case (Suc n)
  from Suc.prems(2) obtain w1 where one: "create_pod C L rs w = Some (Inr (), w1)"
    and rest: "run_batch (create_pod C L rs) n w1 = Some (Inr [], w')"
    unfolding run_batch.simps
    by (elim with_resultE and_thenE) (auto simp: done_with_def split: sum.splits)
  from create_pod_wf [OF quiet Suc.prems(1) one] have wf1: "wf_state (w_state w1)" .
  note added = one_more_count [OF create_pod_adds [OF quiet Suc.prems(1) one] Suc.prems(1)]
  with Suc.IH [OF wf1 rest] show ?case by (auto intro: spares_trans)
qed

text \<open>Steps that leave the state of the API as it is.\<close>

definition idle :: "'a step \<Rightarrow> bool" where
  "idle m \<longleftrightarrow> (\<forall>w r w'. m w = Some (r, w') \<longrightarrow> w_state w' = w_state w)"

lemma idleD: "idle m \<Longrightarrow> m w = Some (r, w') \<Longrightarrow> w_state w' = w_state w"
  by (simp add: idle_def)

lemma idle_steps:
  "idle (done_with x)" "idle (fail_with e)" "idle panic_step" "idle (clock_now R clock)"
  "idle (first_error R es)" "idle (scheduled R xs)"
  by (auto simp: idle_def done_with_def fail_with_def panic_step_def clock_now_def first_error_def scheduled_def)

lemma idle_read: "alone C \<Longrightarrow> idle (kube_read C f)"
  by (auto simp: idle_def dest: kube_read_alone)

lemma idle_then: "idle m \<Longrightarrow> (\<And>r. idle (k r)) \<Longrightarrow> idle (with_result m k)"
  unfolding idle_def by (auto elim!: with_resultE)

lemma idle_and_then: "idle m \<Longrightarrow> (\<And>x. idle (k x)) \<Longrightarrow> idle (and_then m k)"
  unfolding and_then_def by (rule idle_then) (auto simp: idle_steps split: sum.split)

lemma related_pods_idle: "alone C \<Longrightarrow> idle (related_pods C L seen rss)"
  by (induction rss arbitrary: seen)
    (auto intro!: idle_and_then simp: idle_steps idle_read Let_def split: sum.split)

lemma getIndirectlyRelatedPods_idle: "alone C \<Longrightarrow> idle (getIndirectlyRelatedPods C L rs)"
  unfolding getIndirectlyRelatedPods_def getReplicaSetsWithSameController_def
  by (auto intro!: idle_and_then idle_then related_pods_idle simp: idle_steps idle_read split: option.split sum.split)

lemma manageReplicas_approaches:
  assumes quiet: "quiet_cluster C L" and R: "runtime_ok R" and burst: "0 < burst" and wf: "wf_state (w_state w)"
    and active: "distinct active" "set active = active_pods (w_state w) (ObjectMeta rs)"
    and run: "manageReplicas C L R burst active rs w = Some (Inr (pods, None), w')"
  shows "\<exists>replicas. rs_Replicas (rs_Spec rs) = Some replicas \<and> wf_state (w_state w') \<and>
    active_count (w_state w') (ObjectMeta rs) = approach burst (sint replicas) (active_count (w_state w) (ObjectMeta rs)) \<and>
    spares rs (w_state w) (w_state w')"
proof -
  obtain replicas where replicas: "rs_Replicas (rs_Spec rs) = Some replicas"
    using run by (cases "rs_Replicas (rs_Spec rs)") (auto simp: manageReplicas_def panic_step_def)
  let ?n = "int (length active)" and ?count = "\<lambda>s. active_count s (ObjectMeta rs)"
  let ?diff = "?n - sint replicas"
  have n: "?count (w_state w) = ?n" using distinct_card [OF active(1)] active(2) by (simp add: active_count_def)
  consider (less) "?diff < 0" | (more) "?diff > 0" | (same) "?diff = 0" by linarith
  then have "wf_state (w_state w') \<and> ?count (w_state w') = approach burst (sint replicas) ?n \<and>
    spares rs (w_state w) (w_state w')"
  proof cases
    case less
    let ?calls = "min (- ?diff) burst"
    from run replicas less obtain k where
      "slowStartBatch R ?calls SlowStartInitialBatchSize (create_pod C L rs) w = Some (Inr (k, None), w')"
      by (auto simp: manageReplicas_def done_with_def elim!: and_thenE split: prod.splits)
    then have "run_batch (create_pod C L rs) (nat ?calls) w = Some (Inr [], w')"
      unfolding slowStartBatch_def SlowStartInitialBatchSize_def
      using less burst slow_batches_flat [of "min ?calls 1" ?calls R "create_pod C L rs" 0 w k w'] by auto
    from run_batch_adds [OF quiet wf this] show ?thesis using less burst n by (simp add: approach_def)
  next
    case more
    from run replicas more obtain w1 related where related: "getIndirectlyRelatedPods C L rs w = Some (Inr related, w1)"
      and rest: "and_then (clock_now R ''metav1.Now'') (\<lambda>now.
        case getPodsToDelete L now active related (min ?diff burst) of None \<Rightarrow> panic_step
        | Some (podsToDelete, pods) \<Rightarrow> and_then (scheduled R podsToDelete) (\<lambda>podsToDelete'.
            and_then (delete_pods C podsToDelete') (\<lambda>errors.
            and_then (first_error R errors) (\<lambda>err. done_with (pods, err))))) w1 = Some (Inr (pods, None), w')"
      by (auto simp: manageReplicas_def done_with_def elim!: with_resultE split: sum.splits)
    from rest obtain now ds ds' es where chosen: "getPodsToDelete L now active related (min ?diff burst) = Some (ds, pods)"
      and order: "scheduled R ds w1 = Some (Inr ds', w1)" and del: "delete_pods C ds' w1 = Some (Inr es, w')"
      and none: "es = []"
      by (elim and_thenE)
        (auto simp: clock_now_def done_with_def first_error_run panic_step_def scheduled_def elim!: and_thenE
          split: option.splits prod.splits if_splits)
    let ?s1 = "w_state w1"
    have s1: "?s1 = w_state w"
      using idleD [OF getIndirectlyRelatedPods_idle related] quiet by (simp add: quiet_cluster_def)
    have "mset ds' = mset ds" using scheduled_run [OF R order] by simp
    moreover have "mset ds \<subseteq># mset active" "int (length ds) = min ?diff burst"
      using getPodsToDelete_some [OF _ chosen] quiet by (simp_all add: quiet_cluster_def)
    ultimately have ds': "mset ds' \<subseteq># mset active" "int (length ds') = min ?diff burst"
      using mset_eq_length by metis+
    have "set ds' \<subseteq> set active" using set_mset_mono [OF ds'(1)] by simp
    obtain ys where "mset active = mset (ds' @ ys)"
      using ds'(1) ex_mset by (metis mset_append mset_subset_eq_exists_conv)
    then have "distinct ds'" using active(1) mset_eq_imp_distinct_iff by (metis distinct_append)
    have del': "wf_state (w_state w') \<and> (\<forall>owner. active_pods (w_state w') owner = active_pods ?s1 owner - set ds')"
      by (rule delete_pods_drop [OF quiet _ \<open>distinct ds'\<close> _ del [unfolded none]])
        (use wf active(2) s1 \<open>set ds' \<subseteq> set active\<close> in simp_all)
    then have "wf_state (w_state w')" "active_pods (w_state w') (ObjectMeta rs) = set active - set ds'"
      using s1 active(2) by simp_all
    moreover have "spares rs (w_state w) (w_state w')" unfolding spares_def
    proof (intro allI impI)
      fix owner assume "index_key owner \<noteq> index_key (ObjectMeta rs)"
      then have "active_pods ?s1 owner \<inter> active_pods ?s1 (ObjectMeta rs) = {}"
        using wf s1 owned_by_key by (auto simp: active_pods_iff)
      then show "active_pods (w_state w') owner = active_pods (w_state w) owner"
        using del' \<open>set ds' \<subseteq> set active\<close> active(2) s1 by auto
    qed
    moreover have "card (set active - set ds') = length active - length ds'"
      using active(1) \<open>distinct ds'\<close> \<open>set ds' \<subseteq> set active\<close> by (simp add: card_Diff_subset distinct_card)
    moreover have "length ds' \<le> length active" using ds'(1) size_mset_mono by fastforce
    ultimately show ?thesis using ds'(2) more burst by (simp add: active_count_def approach_def)
  next
    case same
    with run replicas have "w' = w" by (simp add: manageReplicas_def done_with_def)
    with same wf n show ?thesis using burst by (simp add: approach_def)
  qed
  with replicas n show ?thesis by auto
qed

section \<open>The status update leaves pods and the spec alone\<close>

definition same_set :: "ReplicaSet \<Rightarrow> ReplicaSet \<Rightarrow> bool" where
  "same_set a b \<longleftrightarrow> same_id (ObjectMeta a) (ObjectMeta b) \<and> rs_Spec a = rs_Spec b \<and>
     DeletionTimestamp (ObjectMeta a) = DeletionTimestamp (ObjectMeta b)"

definition set_key :: "ReplicaSet \<Rightarrow> KKey" where
  "set_key rs = KKey ''ReplicaSet'' (Name (ObjectMeta rs)) (Namespace (ObjectMeta rs))"

definition holds_set :: "ReplicaSet \<Rightarrow> State \<Rightarrow> bool" where
  "holds_set rs s \<longleftrightarrow> (\<exists>rs'. st_m s (set_key rs) = Some (KReplicaSet rs') \<and> same_set rs' rs)"

definition same_pods :: "State \<Rightarrow> State \<Rightarrow> bool" where
  "same_pods s s' \<longleftrightarrow> (\<forall>key. key_Kind key = ''Pod'' \<longrightarrow> st_m s' key = st_m s key)"

lemma same_pods_refl [simp]: "same_pods s s"
  by (simp add: same_pods_def)

lemma same_pods_trans: "same_pods s s1 \<Longrightarrow> same_pods s1 s2 \<Longrightarrow> same_pods s s2"
  by (simp add: same_pods_def)

lemma status_pipeline_spec:
  assumes laws: "upstream_laws E" "status_hooks_keep_spec E"
    and pipe: "applyValidationAndDefaultingOnStatusUpdate E ob (KReplicaSet old) ns = Inr ob'"
  shows "\<exists>u. ob' = KReplicaSet u \<and> same_set u old"
proof -
  have "kind_of ob = ''ReplicaSet''" using status_pipeline_keeps(1) [OF pipe] by simp
  then obtain x where ob: "ob = KReplicaSet x" by (cases ob) auto
  from pipe obtain y oldi z u where steps: "to_internal (rsOps E) old = Inr oldi"
    "RestBeforeStatusUpdate (rsOps E) ns y oldi = Inr z" "to_versioned (rsOps E) z = Inr u" "ob' = KReplicaSet u"
    unfolding ob
    by (auto simp: applyValidationAndDefaultingOnStatusUpdate_def convert_in_def convert_out_def ebind_Inr_iff check_Inr_iff
        typed_update_def map_sum_Inr split: sum.splits)
  have "same_id (ObjectMeta u) (ObjectMeta old)" using status_pipeline_keeps(2) [OF pipe laws(1)] steps(4) by simp
  moreover have "rs_Spec u = rs_Spec old" using steps laws(2) unfolding status_hooks_keep_spec_def by metis
  moreover have "DeletionTimestamp (ObjectMeta u) = DeletionTimestamp (ObjectMeta old)"
  proof -
    have "DeletionTimestamp (ObjectMeta z) = DeletionTimestamp (ObjectMeta oldi)"
      using steps(2) laws(2) unfolding status_hooks_keep_spec_def by blast
    then show ?thesis using ops_convertedD [OF upstream_opsD(4) [OF laws(1)]] steps(1,3)
      by (metis converted_owners owners_kept_def)
  qed
  ultimately show ?thesis using steps(4) by (simp add: same_set_def)
qed

lemma updateStatus_keeps_set:
  assumes laws: "upstream_laws E" "status_hooks_keep_spec E" and rs: "DeletionTimestamp (ObjectMeta rs) = None"
    and held: "holds_set rs s" and call: "updateStatus E ch ''ReplicaSet'' ns ob s = Some (r, s')"
  shows "same_pods s s' \<and> holds_set rs s'"
proof (cases "s' = s")
  case False
  let ?msg = "''object of kind %q must specify a name for status update''"
  from call False obtain key u ex where
    checks: "update_checks (applyValidationAndDefaultingOnStatusUpdate E) ?msg E ''ReplicaSet'' ns ob True s = Inr (key, u, ex)"
    and commit: "update_commit ch key u ex s = Some (r, s')"
    by (auto simp: updateStatus_def updateStatusLocked_def update_with_def split: sum.splits prod.splits)
  from put_status.checks_passed [OF checks] obtain md rv where key: "key = KKey ''ReplicaSet'' (Name md) ns"
    and stored: "st_m s key = Some ex"
    and pipe: "applyValidationAndDefaultingOnStatusUpdate E (set_metadata ob (md\<lparr>ResourceVersion := rv\<rparr>)) ex ns = Inr u"
    by metis
  from commit False have writes: "shouldDeleteDuringUpdate u ex \<and> s' = s\<lparr>st_m := (st_m s)(key := None)\<rparr> \<or>
      (\<exists>v. st_m s' = (st_m s)(key \<mapsto> set_metadata u ((metadata u)\<lparr>ResourceVersion := v\<rparr>)))"
    by (auto simp: update_commit_def split: if_splits elim!: store_object_Some)
  then have pods: "same_pods s s'" using key by (auto simp: same_pods_def)
  show ?thesis
  proof (cases "key = set_key rs")
    case True
    with held stored obtain rs' where ex: "ex = KReplicaSet rs'" and same: "same_set rs' rs" by (auto simp: holds_set_def)
    from status_pipeline_spec [OF laws pipe [unfolded ex]] obtain x where x: "u = KReplicaSet x" "same_set x rs'" by blast
    have "\<not> shouldDeleteDuringUpdate u ex" using same rs ex by (simp add: shouldDeleteDuringUpdate_def same_set_def)
    with writes obtain v where s': "st_m s' = (st_m s)(key \<mapsto> set_metadata u ((metadata u)\<lparr>ResourceVersion := v\<rparr>))" by blast
    have "same_set (x\<lparr>ObjectMeta := (ObjectMeta x)\<lparr>ResourceVersion := v\<rparr>\<rparr>) rs"
      using x(2) same by (simp add: same_set_def same_id_def)
    then show ?thesis using pods s' True x(1) by (auto simp: holds_set_def)
  next
    case False
    then have "st_m s' (set_key rs) = st_m s (set_key rs)" using writes by auto
    then show ?thesis using pods held by (simp add: holds_set_def)
  qed
qed (use held in simp)

lemma updateStatusTx_keeps_set:
  assumes laws: "upstream_laws E" "status_hooks_keep_spec E" and rs: "DeletionTimestamp (ObjectMeta rs) = None"
    and quiet: "\<And>i s. others i s = s"
    and held: "holds_set rs s" and call: "updateStatusTx E chs others ''ReplicaSet'' ns ob s = Some (r, s')"
  shows "same_pods s s' \<and> holds_set rs s'"
proof -
  let ?I = "\<lambda>s1. same_pods s s1 \<and> holds_set rs s1"
  let ?attempt = "update_attempt updateStatus ''object of kind %q must specify a name for status update'' E chs others
    ''ReplicaSet'' ns ob"
  have step: "?I s2" if "?I s1" "?attempt i s1 = Some (a, s2)" for i s1 a s2
  proof (cases "s2 = s1")
    case False
    with that(2) quiet obtain ob1 p where "updateStatus E (chs i) ''ReplicaSet'' ns ob1 s1 = Some p"
      and "conflict_retries p = (a, s2)"
      by (auto simp: update_attempt_def Let_def split: sum.splits if_splits)
    moreover from this(2) have "s2 = snd p" by (cases p) (simp add: conflict_retries_def)
    ultimately show ?thesis using updateStatus_keeps_set [OF laws rs _, of s1 "chs i" ns ob1 "fst p" s2] that(1)
      by (auto intro: same_pods_trans)
  qed (use that in simp)
  show ?thesis
  proof (rule tx_loop_rule [OF call [unfolded updateStatusTx_def], where I = ?I and Q = "\<lambda>_. ?I"])
    show "?I s" using held by simp
  qed (fact step)+
qed

lemma replicasets_update_status_keeps:
  assumes quiet: "quiet_cluster C L" and rs: "DeletionTimestamp (ObjectMeta rs) = None"
    and held: "holds_set rs (w_state w)" and call: "replicasets_update_status C ns x w = Some (r, w')"
  shows "same_pods (w_state w) (w_state w') \<and> holds_set rs (w_state w')"
proof -
  obtain r1 where "updateStatusTx (cl_env C) (cl_choices C (w_calls w)) (cl_others C (w_calls w)) ''ReplicaSet'' ns
      (KReplicaSet x) (w_state w) = Some (r1, w_state w')"
    using call by (auto simp: replicasets_update_status_def kube_call_def ReplicaSetUpdateStatusTx_def assert_call_def
        split: option.splits)
  from updateStatusTx_keeps_set [OF _ _ rs _ held this] quiet show ?thesis
    by (simp add: quiet_cluster_def cluster_ok_def alone_def)
qed

lemma status_attempts_keeps:
  assumes quiet: "quiet_cluster C L" and rs: "DeletionTimestamp (ObjectMeta rs) = None"
  shows "holds_set rs (w_state w) \<Longrightarrow> status_attempts C ns newStatus retries current w = Some (r, w') \<Longrightarrow>
    same_pods (w_state w) (w_state w') \<and> holds_set rs (w_state w')"
proof (induction retries arbitrary: current w)
  case 0
  then show ?case using replicasets_update_status_keeps [OF quiet rs] by simp
next
  case (Suc retries)
  from Suc.prems(2) obtain r1 w1 where call: "replicasets_update_status C ns (current\<lparr>rs_Status := newStatus\<rparr>) w = Some (r1, w1)"
    and rest: "(case r1 of Inr updated \<Rightarrow> done_with updated
      | Inl _ \<Rightarrow> and_then (kube_read C (\<lambda>ch s. ReplicaSetGet s ns (Name (ObjectMeta current))))
          (\<lambda>current'. status_attempts C ns newStatus retries current')) w1 = Some (r, w')"
    unfolding status_attempts.simps by (rule with_resultE)
  note w1 = replicasets_update_status_keeps [OF quiet rs Suc.prems(1) call]
  show ?case
  proof (cases r1)
    case (Inr updated)
    with rest w1 show ?thesis by (simp add: done_with_def)
  next
    case (Inl e)
    have "alone C" using quiet by (simp add: quiet_cluster_def)
    note read = kube_read_alone [OF this]
    from rest [unfolded Inl sum.case] show ?thesis
    proof (cases rule: and_thenE)
      case (failed e)
      then show ?thesis using w1 read [OF failed(1)] by simp
    next
      case (passed current' w2)
      then show ?thesis using w1 read [OF passed(1)] Suc.IH [of w2 current'] by (auto intro: same_pods_trans)
    qed
  qed
qed

lemma finish_sync_keeps:
  assumes quiet: "quiet_cluster C L" and rs: "DeletionTimestamp (ObjectMeta rs) = None"
    and held: "holds_set rs (w_state w)" and run: "finish_sync C L R cf x terminating (pods, err) w = Some (Inr (), w')"
  shows "err = None \<and> same_pods (w_state w) (w_state w') \<and> holds_set rs (w_state w')"
proof -
  from run obtain st y w1 where update: "updateReplicaSetStatus C x st w = Some (Inr y, w1)"
    and rest: "(case err of None \<Rightarrow> done_with () | Some e \<Rightarrow> fail_with e) w1 = Some (Inr (), w')"
    unfolding finish_sync_def prod.case
    by (elim and_thenE) (auto simp: clock_now_def panic_step_def elim!: and_thenE split: option.splits)
  have "same_pods (w_state w) (w_state w1) \<and> holds_set rs (w_state w1)"
    using update held status_attempts_keeps [OF quiet rs held]
    by (auto simp: updateReplicaSetStatus_def done_with_def split: if_splits)
  with rest show ?thesis by (auto simp: done_with_def fail_with_def split: option.splits)
qed

section \<open>Managing the replicas leaves other kinds alone\<close>

definition pods_only :: "'a step \<Rightarrow> bool" where
  "pods_only m \<longleftrightarrow> (\<forall>w r w'. m w = Some (r, w') \<longrightarrow>
     (\<forall>key. key_Kind key \<noteq> ''Pod'' \<longrightarrow> st_m (w_state w') key = st_m (w_state w) key))"

lemma pods_only_idle: "idle m \<Longrightarrow> pods_only m"
  by (simp add: pods_only_def idle_def)

lemma pods_only_then: "pods_only m \<Longrightarrow> (\<And>r. pods_only (k r)) \<Longrightarrow> pods_only (with_result m k)"
  unfolding pods_only_def by (metis with_resultE)

lemma pods_only_and_then: "pods_only m \<Longrightarrow> (\<And>x. pods_only (k x)) \<Longrightarrow> pods_only (and_then m k)"
  unfolding and_then_def by (rule pods_only_then) (auto simp: idle_steps intro: pods_only_idle split: sum.split)

lemma pods_only_call:
  assumes "alone C" "\<And>E ch s r s' key. f E ch s = Some (r, s') \<Longrightarrow> key_Kind key \<noteq> ''Pod'' \<Longrightarrow> st_m s' key = st_m s key"
  shows "pods_only (kube_call C ws (single f))"
  unfolding pods_only_def using assms(2) by (blast elim: kube_call_alone [OF assms(1)])

lemma create_other_keys:
  assumes "create E ch kind ns ob s = Some (r, s')" "key_Kind key \<noteq> kind"
  shows "st_m s' key = st_m s key"
  using assms(1)
proof (cases rule: create_outcomes)
  case (stored md uid s1 name objCopy ob')
  then show ?thesis using assms(2) generateNewUID_frame [OF stored(2)]
    by (elim create_named_stored store_object_Some) auto
qed (auto dest: generateNewUID_frame)

lemma delete_other_keys:
  assumes "delete E ch key options s = Some (r, s')" "key' \<noteq> key"
  shows "st_m s' key' = st_m s key'"
  using assms(1)
proof (cases rule: delete_outcomes)
  case (marked ob g checked options' objCopy r')
  from marked(5) show ?thesis using assms(2) by (elim store_object_Some) simp
qed (use assms(2) in simp_all)

lemma client_pods_only:
  assumes "alone C"
  shows "pods_only (pods_create C ns pod)" "pods_only (pods_delete C ns name options)"
proof -
  have "st_m s' key = st_m s key" if "PodCreate E ch ns pod s = Some (r, s')" "key_Kind key \<noteq> ''Pod''" for E ch s r s' key
    using that create_other_keys by (fastforce simp: PodCreate_def assert_call_def)
  then show "pods_only (pods_create C ns pod)" unfolding pods_create_def by (intro pods_only_call assms)
  have "st_m s' key = st_m s key" if "PodDelete E ch ns name options s = Some (r, s')" "key_Kind key \<noteq> ''Pod''" for E ch s r s' key
    using that by (auto simp: PodDelete_def elim: delete_other_keys)
  then show "pods_only (pods_delete C ns name options)" unfolding pods_delete_def by (intro pods_only_call assms)
qed

lemma idle_pods_only: "pods_only (done_with x)" "pods_only (fail_with e)" "pods_only panic_step"
    "pods_only (clock_now R clock)" "pods_only (first_error R es)" "pods_only (scheduled R xs)"
  by (simp_all add: pods_only_idle idle_steps)

lemma run_batch_pods_only: "pods_only fn \<Longrightarrow> pods_only (run_batch fn n)"
  by (induction n) (auto intro!: pods_only_then pods_only_and_then simp: idle_pods_only)

lemma slow_batches_pods_only: "pods_only fn \<Longrightarrow> pods_only (slow_batches R fn remaining batchSize successes)"
proof (induction R fn remaining batchSize successes rule: slow_batches.induct [case_names step])
  case (step R fn remaining batchSize successes)
  then show ?case
    by (subst slow_batches.simps)
      (auto simp: Let_def idle_pods_only intro!: pods_only_and_then run_batch_pods_only)
qed

lemma manageReplicas_pods_only:
  assumes "alone C"
  shows "pods_only (manageReplicas C L R burst active rs)"
proof -
  have create: "pods_only (create_pod C L rs)"
    unfolding create_pod_def
    by (auto intro!: pods_only_then client_pods_only assms simp: idle_pods_only split: sum.split)
  have del: "pods_only (delete_pods C pods)" for pods
    by (induction pods)
      (auto intro!: pods_only_then pods_only_and_then client_pods_only assms simp: delete_pod_def idle_pods_only)
  show ?thesis unfolding manageReplicas_def Let_def slowStartBatch_def
    by (auto intro!: pods_only_and_then pods_only_then slow_batches_pods_only create del
        pods_only_idle [OF getIndirectlyRelatedPods_idle] assms simp: idle_pods_only split: option.split sum.split prod.split)
qed

section \<open>Syncs converge\<close>

definition settled_step :: "rs_controller \<Rightarrow> ReplicaSet \<Rightarrow> State \<Rightarrow> State \<Rightarrow> bool" where
  "settled_step cf rs s s' \<longleftrightarrow> wf_state s' \<and> spares rs s s' \<and>
     (\<forall>rs'. DeletionTimestamp (ObjectMeta rs') = None \<longrightarrow> holds_set rs' s \<longrightarrow> holds_set rs' s') \<and>
     (\<exists>replicas. rs_Replicas (rs_Spec rs) = Some replicas \<and>
        active_count s' (ObjectMeta rs) = approach (burstReplicas cf) (sint replicas) (active_count s (ObjectMeta rs)))"

lemma same_id_active: "same_id a b \<Longrightarrow> active_pods s a = active_pods s b"
  by (simp add: active_pods_def pods_of_owner_def owner_ref_def same_id_def)

lemma sync_approaches:
  assumes quiet: "quiet_cluster C L" and R: "runtime_ok R" and burst: "0 < burstReplicas cf"
    and wf: "wf_state (w_state w)" and rs: "DeletionTimestamp (ObjectMeta rs) = None" and held: "holds_set rs (w_state w)"
    and run: "syncReplicaSet C L R cf (Namespace (ObjectMeta rs)) (Name (ObjectMeta rs)) w = Some (Inr (), w')"
  shows "settled_step cf rs (w_state w) (w_state w')"
proof -
  let ?s = "w_state w"
  have alone: "alone C" and ok: "cluster_ok C" using quiet by (simp_all add: quiet_cluster_def)
  from held obtain rs' where rs': "st_m ?s (set_key rs) = Some (KReplicaSet rs')" "same_set rs' rs"
    by (auto simp: holds_set_def)
  have get: "ReplicaSetGet ?s (Namespace (ObjectMeta rs)) (Name (ObjectMeta rs)) = Inr rs'"
    using rs'(1) by (simp add: ReplicaSetGet_def ReplicaSetMutGet_def api_get_def set_key_def assert_type_def)
  let ?pods = "FilterPodsByOwner C (ObjectMeta rs') ''ReplicaSet''"
  from run obtain r1 w1 where read: "kube_read C (\<lambda>ch s. ReplicaSetGet s (Namespace (ObjectMeta rs)) (Name (ObjectMeta rs))) w
      = Some (r1, w1)" and rest: "(case r1 of Inl e \<Rightarrow> if IsNotFound e then done_with () else fail_with e
       | Inr x \<Rightarrow> and_then (FilterPodsByOwner C (ObjectMeta x) ''ReplicaSet'') (\<lambda>allRSPods.
             let activePods = FilterActivePods allRSPods;
                 terminatingPods = (if terminating_enabled cf then FilterTerminatingPods allRSPods else [])
             in and_then (if DeletionTimestamp (ObjectMeta x) = None
                          then manageReplicas C L R (burstReplicas cf) activePods x
                          else done_with (activePods, None))
                  (finish_sync C L R cf x terminatingPods))) w1 = Some (Inr (), w')"
    unfolding syncReplicaSet_def by (rule with_resultE)
  have r1: "r1 = Inr rs'" "w_state w1 = ?s"
    using read get alone by (auto simp: kube_read_def kube_call_def single_def alone_def)
  obtain all w2 managed w3 where filtered: "?pods w1 = Some (Inr all, w2)"
    and manage: "manageReplicas C L R (burstReplicas cf) (FilterActivePods all) rs' w2 = Some (Inr managed, w3)"
    and finish: "finish_sync C L R cf rs' (if terminating_enabled cf then FilterTerminatingPods all else []) managed w3
      = Some (Inr (), w')"
    using rest rs'(2) rs unfolding r1(1) sum.case Let_def same_set_def
    by (elim and_thenE) (auto elim!: and_thenE)
  have "idle (?pods)" unfolding FilterPodsByOwner_def by (intro idle_and_then idle_read idle_steps alone)
  from idleD [OF this filtered] have s2: "w_state w2 = ?s" using r1(2) by simp
  from sendsD [OF sends_FilterPodsByOwner ok _ filtered] wf r1(2) s2
  have all: "distinct all" "set all = pods_of_owner ?s (ObjectMeta rs') ''ReplicaSet''" by auto
  have active: "distinct (FilterActivePods all)" "set (FilterActivePods all) = active_pods ?s (ObjectMeta rs')"
    using all by (auto simp: FilterActivePods_def active_pods_def)
  obtain pods err where managed: "managed = (pods, err)" by (cases managed)
  have held3: "holds_set x (w_state w3)" if "holds_set x ?s" for x
    using that manage manageReplicas_pods_only [OF alone] s2 unfolding pods_only_def holds_set_def set_key_def by fastforce
  note last = finish_sync_keeps [OF quiet _ held3 finish [unfolded managed]]
  have err: "err = None" and pods: "same_pods (w_state w3) (w_state w')" using last [OF rs held] by auto
  from manageReplicas_approaches [OF quiet R burst _ active(1) _ manage [unfolded managed err]] wf s2 active(2)
  obtain replicas where replicas: "rs_Replicas (rs_Spec rs') = Some replicas" and wf3: "wf_state (w_state w3)"
    and count: "active_count (w_state w3) (ObjectMeta rs') =
      approach (burstReplicas cf) (sint replicas) (active_count ?s (ObjectMeta rs'))"
    and others: "spares rs' ?s (w_state w3)" by auto
  have wf': "wf_state (w_state w')"
    using sendsD [OF syncReplicaSet_scope ok wf run] by (simp add: advances_def)
  have after: "active_pods (w_state w') owner = active_pods (w_state w3) owner" for owner
    using active_pods_cong [OF wf3 wf'] pods by (simp add: same_pods_def)
  moreover have "active_pods s (ObjectMeta rs') = active_pods s (ObjectMeta rs)" for s
    using rs'(2) by (simp add: same_set_def same_id_active)
  moreover have "rs_Replicas (rs_Spec rs) = Some replicas" using replicas rs'(2) by (simp add: same_set_def)
  moreover have "spares rs ?s (w_state w')"
    using others rs'(2) by (simp add: spares_def after index_key_def owner_ref_def same_set_def same_id_def)
  ultimately show ?thesis using wf' last count unfolding settled_step_def active_count_def by auto
qed

text \<open>One sync of the set after the other, as long as they succeed.\<close>

primrec syncs :: "cluster \<Rightarrow> kube_lib \<Rightarrow> runtime \<Rightarrow> rs_controller \<Rightarrow> string \<Rightarrow> string \<Rightarrow> nat \<Rightarrow> unit step" where
  "syncs C L R cf ns name 0 = done_with ()"
| "syncs C L R cf ns name (Suc k) = and_then (syncReplicaSet C L R cf ns name) (\<lambda>_. syncs C L R cf ns name k)"

lemma approach_closer:
  "0 < burst \<Longrightarrow> \<bar>approach burst n c - n\<bar> = max 0 (\<bar>c - n\<bar> - burst)"
  by (auto simp: approach_def)

lemma approach_again:
  assumes "(0::int) < b"
  shows "max 0 (max 0 (x - b) - int k * b) = max 0 (x - int (Suc k) * b)"
proof -
  have "0 \<le> int k * b" using assms by simp
  moreover have "int (Suc k) * b = b + int k * b" by (simp add: algebra_simps)
  ultimately show ?thesis by linarith
qed

lemma syncs_approach:
  assumes quiet: "quiet_cluster C L" and R: "runtime_ok R" and burst: "0 < burstReplicas cf"
    and rs: "DeletionTimestamp (ObjectMeta rs) = None" "rs_Replicas (rs_Spec rs) = Some replicas"
  shows "wf_state (w_state w) \<Longrightarrow> holds_set rs (w_state w) \<Longrightarrow>
    syncs C L R cf (Namespace (ObjectMeta rs)) (Name (ObjectMeta rs)) k w = Some (Inr (), w') \<Longrightarrow>
    \<bar>active_count (w_state w') (ObjectMeta rs) - sint replicas\<bar> =
      max 0 (\<bar>active_count (w_state w) (ObjectMeta rs) - sint replicas\<bar> - int k * burstReplicas cf)"
proof (induction k arbitrary: w)
  case 0
  then show ?case by (simp add: done_with_def)
next
  case (Suc k)
  from Suc.prems(3) obtain w1 where one:
      "syncReplicaSet C L R cf (Namespace (ObjectMeta rs)) (Name (ObjectMeta rs)) w = Some (Inr (), w1)"
    and rest: "syncs C L R cf (Namespace (ObjectMeta rs)) (Name (ObjectMeta rs)) k w1 = Some (Inr (), w')"
    unfolding syncs.simps by (elim and_thenE) auto
  from sync_approaches [OF quiet R burst Suc.prems(1) rs(1) Suc.prems(2) one]
  have w1: "wf_state (w_state w1)" "holds_set rs (w_state w1)" and count: "active_count (w_state w1) (ObjectMeta rs) =
      approach (burstReplicas cf) (sint replicas) (active_count (w_state w) (ObjectMeta rs))"
    using rs Suc.prems(2) by (auto simp: settled_step_def)
  show ?case
    unfolding Suc.IH [OF w1 rest] count approach_closer [OF burst] by (rule approach_again [OF burst])
qed

section \<open>An example\<close>

text \<open>The example environment with a status strategy that takes everything but the status from the stored set.\<close>

definition status_before_update :: "string \<Rightarrow> ReplicaSet \<Rightarrow> ReplicaSet \<Rightarrow> error + ReplicaSet" where
  "status_before_update ns x old = Inr (old\<lparr>rs_Status := rs_Status x\<rparr>)"

definition quiet_env :: env where
  "quiet_env = example_env\<lparr>rsOps := example_ops\<lparr>RestBeforeStatusUpdate := status_before_update\<rparr>\<rparr>"

definition quiet_example :: cluster where
  "quiet_example = \<lparr>cl_env = quiet_env, cl_choices = (\<lambda>_ _. example_choices), cl_others = (\<lambda>_ _ s. s)\<rparr>"

lemma quiet_example_simps [simp]:
  "cl_env quiet_example = quiet_env" "cl_choices quiet_example n i = example_choices" "cl_others quiet_example n i s = s"
  by (simp_all add: quiet_example_def)

lemma quiet_env_laws: "upstream_laws quiet_env"
proof -
  have "ops_laws (example_ops\<lparr>RestBeforeStatusUpdate := status_before_update\<rparr>)"
    using example_ops_laws by (auto simp: ops_laws_def status_before_update_def example_ops_def)
  then show ?thesis using example_env_laws by (simp add: upstream_laws_def quiet_env_def)
qed

lemma quiet_example_ok: "quiet_cluster quiet_example example_lib"
proof -
  have "cluster_ok quiet_example"
    by (simp add: cluster_ok_def quiet_env_laws example_range_ok fair_others_def)
  moreover have "create_hooks_keep_owners quiet_env"
    by (simp add: create_hooks_keep_owners_def owners_kept_def quiet_env_def example_env_def example_ops_def example_wipe_def)
  moreover have "status_hooks_keep_spec quiet_env"
    by (auto simp: status_hooks_keep_spec_def quiet_env_def example_ops_def status_before_update_def)
  ultimately show ?thesis
    by (simp add: quiet_cluster_def alone_def example_sort) (simp add: example_lib_def)
qed

text \<open>A stored replica set that asks for one pod, controlled by the deployment \<open>front\<close> with the UID \<open>d\<close>.\<close>

definition front_owner :: OwnerReference where
  "front_owner = NewControllerRef (empty_ObjectMeta\<lparr>Name := ''front'', UID := ''d''\<rparr>) ''apps/v1'' ''Deployment''"

definition front_stored :: ReplicaSet where
  "front_stored = (front 1)\<lparr>ObjectMeta := (ObjectMeta (front 1))
     \<lparr>ResourceVersion := ''4'', OwnerReferences := Some [front_owner]\<rparr>\<rparr>"

definition front_state :: State where
  "front_state = shop_state\<lparr>st_m := (st_m shop_state)(KKey ''ReplicaSet'' ''front'' ''shop'' \<mapsto> KReplicaSet front_stored),
     usedUID := {''n'', ''f''}, usedRV := {''3'', ''4''}\<rparr>"

lemma front_stored_simps [simp]:
  "Name (ObjectMeta front_stored) = ''front''" "Namespace (ObjectMeta front_stored) = ''shop''"
  "UID (ObjectMeta front_stored) = ''f''" "ResourceVersion (ObjectMeta front_stored) = ''4''"
  "DeletionTimestamp (ObjectMeta front_stored) = None" "Generation (ObjectMeta front_stored) = 0"
  "rs_Replicas (rs_Spec front_stored) = Some 1" "rs_Status front_stored = front_status"
  "rs_Spec front_stored = rs_Spec (front 1)" "OwnerReferences (ObjectMeta front_stored) = Some [front_owner]"
  by (simp_all add: front_stored_def empty_ObjectMeta_def)

lemma front_state_wf: "wf_state front_state"
  by (auto simp: wf_state_def stored_ok_def front_state_def shop_state_def shop_def example_meta_def parse_uint_def digit_val_def)

lemma front_read:
  "kube_read quiet_example f w = Some (f example_choices (w_state w), w\<lparr>w_calls := Suc (w_calls w)\<rparr>)"
  by (simp add: kube_read_def kube_call_def single_def)

text \<open>A state with this replica set, without pods, in which the first random draws are free.\<close>

definition front_ready :: "State \<Rightarrow> bool" where
  "front_ready s \<longleftrightarrow> wf_state s \<and> st_m s (KKey ''ReplicaSet'' ''front'' ''shop'') = Some (KReplicaSet front_stored) \<and>
     (\<forall>name ns. st_m s (KKey ''Pod'' name ns) = None) \<and> ''0'' \<notin> usedUID s \<and> ''0'' \<notin> usedRV s"

lemma front_state_ready: "front_ready front_state"
  using front_state_wf by (simp add: front_ready_def) (simp add: front_state_def shop_state_def)

lemma front_no_pods:
  assumes "front_ready s"
  shows "objListLocked example_choices s ''Pod'' NamespaceAll = []"
proof -
  have "st_m s key = None" if "key_Kind key = ''Pod''" for key using that assms by (cases key) (simp add: front_ready_def)
  then have "set (objListLocked example_choices s ''Pod'' NamespaceAll) = {}"
    using set_objListLocked [OF example_range_ok wf_state_finite] assms by (auto simp: front_ready_def)
  then show ?thesis by simp
qed

lemma front_create:
  assumes "front_ready s"
  shows "\<exists>x s'. PodCreate quiet_env example_choices ''shop'' (new_pod example_lib front_stored) s = Some (Inr x, s')"
proof -
  let ?pod = "new_pod example_lib front_stored"
  let ?s1 = "s\<lparr>usedUID := insert ''0'' (usedUID s)\<rparr>"
  have name: "generateNewName example_choices ?s1 ''Pod'' ''shop'' ''front-'' = Some ''front-bcdfg''"
    unfolding generateNewName_def
    by (subst draw_fresh_now)
      (use assms in \<open>simp_all add: front_ready_def example_choices_def randomSuffix_def randomSuffixChars_def upt_rec\<close>)
  have pipe: "applyValidationAndDefaulting quiet_env (KPod p) nm =
      Inr (KPod (applyPriorityAdmission (applyDefaultTolerationSeconds p)))" for p nm
    by (simp add: applyValidationAndDefaulting_def quiet_env_def example_env_def example_ops_def convert_in_def
        convert_out_def validate_with_def)
  have free: "st_m ?s1 (KKey ''Pod'' ''front-bcdfg'' ''shop'') = None" using assms by (simp add: front_ready_def)
  have rv: "generateNewRVAndUpdate example_choices ?s1 = Some (''0'', ?s1\<lparr>usedRV := insert ''0'' (usedRV s)\<rparr>)"
    by (subst example_new_rv) (use assms in \<open>simp_all add: front_ready_def\<close>)
  have "validateObjectMeta quiet_env md kind = None" for md kind
    by (simp add: validateObjectMeta_def quiet_env_def example_env_def)
  then have named: "create_named quiet_env example_choices ''Pod'' ''shop'' ''front-bcdfg'' (KPod p) ?s1 =
      store_object example_choices (KKey ''Pod'' ''front-bcdfg'' ''shop'')
        (KPod (applyPriorityAdmission (applyDefaultTolerationSeconds p))) ?s1" for p
    using free by (simp add: create_named_def pipe Let_def)
  have uid: "generateNewUIDAndUpdate example_choices s = Some (''0'', ?s1)"
    by (rule example_new_uid) (use assms in \<open>simp add: front_ready_def\<close>)
  obtain p where "create quiet_env example_choices ''Pod'' ''shop'' (KPod ?pod) s =
      create_named quiet_env example_choices ''Pod'' ''shop'' ''front-bcdfg'' (KPod p) ?s1"
    using uid name
    by (simp add: create_def quiet_env_def example_env_def example_wipe_def example_ensure_namespace_def new_pod_def
        GetPodFromTemplate_def empty_ObjectMeta_def example_lib_def Let_def)
  then show ?thesis
    by (auto simp: PodCreate_def assert_call_def named store_object_def rv Let_def assert_type_def)
qed

definition front_controller :: rs_controller where
  "front_controller = \<lparr>burstReplicas = 5, DeploymentReplicaSetTerminatingReplicas = False, EnableStatusTerminatingReplicas = False\<rparr>"

lemma front_manage:
  assumes "front_ready (w_state w)"
  shows "\<exists>w'. manageReplicas quiet_example example_lib example_runtime 5 [] front_stored w = Some (Inr ([], None), w')"
proof -
  from front_create [OF assms] obtain x s' where
    "PodCreate quiet_env example_choices ''shop'' (new_pod example_lib front_stored) (w_state w) = Some (Inr x, s')" by blast
  then obtain w1 where "create_pod quiet_example example_lib front_stored w = Some (Inr (), w1)"
    by (simp add: create_pod_def pods_create_def kube_call_def single_def with_result_def done_with_def)
  then have "run_batch (create_pod quiet_example example_lib front_stored) (nat 1) w = Some (Inr [], w1)"
    by (simp add: with_result_def and_then_def done_with_def)
  then have "slowStartBatch example_runtime 1 1 (create_pod quiet_example example_lib front_stored) w = Some (Inr (1, None), w1)"
    unfolding slowStartBatch_def by (subst slow_batches_flat) simp_all
  then show ?thesis
    by (simp add: manageReplicas_def SlowStartInitialBatchSize_def and_then_def with_result_def done_with_def)
qed

lemma front_sync:
  assumes ready: "front_ready (w_state w)"
  shows "\<exists>w'. syncReplicaSet quiet_example example_lib example_runtime front_controller ''shop'' ''front'' w = Some (Inr (), w')"
proof -
  have get: "ReplicaSetGet (w_state w) ''shop'' ''front'' = Inr front_stored"
    using ready by (simp add: ReplicaSetGet_def ReplicaSetMutGet_def api_get_def front_ready_def assert_type_def)
  have none: "FilterPodsByOwner quiet_example owner ''ReplicaSet'' w1 = Some (Inr [], w1\<lparr>w_calls := Suc (w_calls w1)\<rparr>)"
    if "w_state w1 = w_state w" for owner w1
    using that front_no_pods [OF ready]
    by (simp add: FilterPodsByOwner_def and_then_def with_result_def front_read ByIndex_def done_with_def List.map_filter_def)
  let ?w = "w\<lparr>w_calls := Suc (Suc (w_calls w))\<rparr>"
  from front_manage [of ?w] ready obtain w' where "manageReplicas quiet_example example_lib example_runtime 5 [] front_stored ?w =
      Some (Inr ([], None), w')" by auto
  then have "syncReplicaSet quiet_example example_lib example_runtime front_controller ''shop'' ''front'' w = Some (Inr (), w')"
    by (simp add: syncReplicaSet_def with_result_def and_then_def front_read get none FilterActivePods_def front_controller_def
        terminating_enabled_def finish_sync_def clock_now_def calculateStatus_def with_failure_condition_def
        updateReplicaSetStatus_def status_steady_def front_status_def GetCondition_def done_with_def numeral_2_eq_2)
  then show ?thesis by blast
qed

section \<open>Property\<close>

text \<open>C13: When no other client interferes and Kubernetes treats pods and statuses as documented, k successful syncs
  bring the number of active pods of a replica set k times the burst closer to the wanted number, and
  no further than that: once it is reached, it stays.\<close>

theorem replicaset_converges:
  assumes "quiet_cluster C L" "runtime_ok R" "0 < burstReplicas cf" "wf_state (w_state w)"
    and "st_m (w_state w) (KKey ''ReplicaSet'' name ns) = Some (KReplicaSet rs)"
    and "DeletionTimestamp (ObjectMeta rs) = None" "rs_Replicas (rs_Spec rs) = Some replicas"
    and "syncs C L R cf ns name k w = Some (Inr (), w')"
  shows "\<bar>int (card (active_pods (w_state w') (ObjectMeta rs))) - sint replicas\<bar> =
    max 0 (\<bar>int (card (active_pods (w_state w) (ObjectMeta rs))) - sint replicas\<bar> - int k * burstReplicas cf)"
proof -
  have id: "Name (ObjectMeta rs) = name" "Namespace (ObjectMeta rs) = ns"
    using wf_state_stored [OF assms(4,5)] by (simp_all add: stored_ok_def)
  then have "holds_set rs (w_state w)"
    using assms(5) by (auto simp: holds_set_def set_key_def same_set_def)
  from syncs_approach [OF assms(1-3,6,7,4) this] assms(8) id show ?thesis by (simp add: active_count_def)
qed

theorem replicaset_converges_witness:
  "\<exists>w'. syncs quiet_example example_lib example_runtime front_controller ''shop'' ''front'' 1 (world front_state) = Some (Inr (), w') \<and>
    \<bar>int (card (active_pods (w_state w') (ObjectMeta front_stored))) - 1\<bar> = 0"
proof -
  from front_sync [of "world front_state"] front_state_ready obtain w' where
    run: "syncs quiet_example example_lib example_runtime front_controller ''shop'' ''front'' 1 (world front_state) = Some (Inr (), w')"
    by (auto simp: and_then_def with_result_def done_with_def)
  have stored: "st_m (w_state (world front_state)) (KKey ''ReplicaSet'' ''front'' ''shop'') = Some (KReplicaSet front_stored)"
    by (simp add: front_state_def)
  have none: "active_pods front_state (ObjectMeta front_stored) = {}"
    by (auto simp: active_pods_def pods_of_owner_def front_state_def shop_state_def split: if_splits)
  have "0 < burstReplicas front_controller" "burstReplicas front_controller = 5" by (simp_all add: front_controller_def)
  with replicaset_converges [OF quiet_example_ok example_runtime_ok this(1) _ stored _ _ run, of 1] front_state_wf run none
  show ?thesis by auto
qed

end
