(* ===== verification/Ctl_StatefulSet_Rollout.thy ===== *)
theory Ctl_StatefulSet_Rollout
  imports Ctl_StatefulSet_Spec Ctl_ReplicaSet_Converge Api_Invariants
begin

text \<open>
  The rollout of a stateful set, on the state of the API. Its abstract state is two sets of ordinals,
  those that have a pod and those whose pod is outdated; \<open>next_ordinals\<close> is one step of the abstract
  rollout, which ends (\<open>rollout_distance\<close>). Then what the operations of the controller do to the
  ordinals when no other client interferes: a create adds one, a delete takes one away, and
  creating claims leaves them as they are.
\<close>

section \<open>The rollout of ordinals\<close>

type_synonym ordinals = "int set \<times> int set"

definition next_ordinals :: "int \<Rightarrow> ordinals \<Rightarrow> ordinals" where
  "next_ordinals n x = (case x of (present, outdated) \<Rightarrow>
     let missing = {0..<n} - present; surplus = present - {0..<n} in
     if missing \<noteq> {} then (insert (Min missing) present, outdated)
     else if surplus \<noteq> {} then (present - {Max surplus}, outdated - {Max surplus})
     else if outdated \<noteq> {} then (present - {Max outdated}, outdated - {Max outdated})
     else x)"

text \<open>An outdated pod takes two steps: it is deleted, and created again.\<close>

definition rollout_distance :: "int \<Rightarrow> ordinals \<Rightarrow> nat" where
  "rollout_distance n x = (case x of (present, outdated) \<Rightarrow>
     card ({0..<n} - present) + card (present - {0..<n}) + 2 * card (outdated \<inter> {0..<n}))"

definition sane_ordinals :: "ordinals \<Rightarrow> bool" where
  "sane_ordinals x \<longleftrightarrow> finite (fst x) \<and> snd x \<subseteq> fst x"

lemma next_ordinals_sane: "sane_ordinals x \<Longrightarrow> sane_ordinals (next_ordinals n x)"
  by (auto simp: sane_ordinals_def next_ordinals_def Let_def split: prod.splits)

lemma distance_done: "sane_ordinals x \<Longrightarrow> rollout_distance n x = 0 \<longleftrightarrow> x = ({0..<n}, {})"
proof -
  assume sane: "sane_ordinals x"
  obtain present outdated where x: "x = (present, outdated)" by (cases x)
  from sane x have fin: "finite present" "finite outdated" and sub: "outdated \<subseteq> present"
    by (auto simp: sane_ordinals_def dest: finite_subset)
  then have "rollout_distance n x = 0 \<longleftrightarrow> {0..<n} - present = {} \<and> present - {0..<n} = {} \<and> outdated \<inter> {0..<n} = {}"
    by (simp add: x rollout_distance_def)
  also have "\<dots> \<longleftrightarrow> present = {0..<n} \<and> outdated = {}" using sub by blast
  finally show ?thesis by (simp add: x)
qed

lemma card_shrink: "finite A \<Longrightarrow> x \<in> A \<Longrightarrow> card (A - {x}) = card A - 1 \<and> 0 < card A"
  by (auto simp: card_gt_0_iff)

lemma next_ordinals_closer:
  assumes "sane_ordinals x"
  shows "rollout_distance n (next_ordinals n x) = rollout_distance n x - 1"
proof -
  obtain present outdated where x: "x = (present, outdated)" by (cases x)
  with assms have fin: "finite present" "finite outdated" and sub: "outdated \<subseteq> present"
    by (auto simp: sane_ordinals_def dest: finite_subset)
  let ?missing = "{0..<n} - present" and ?surplus = "present - {0..<n}"
  consider (create) "?missing \<noteq> {}" | (scale) "?missing = {}" "?surplus \<noteq> {}"
    | (update) "?missing = {}" "?surplus = {}" "outdated \<noteq> {}" | (rest) "?missing = {}" "?surplus = {}" "outdated = {}"
    by blast
  then show ?thesis
  proof cases
    case create
    let ?k = "Min ?missing"
    have k: "?k \<in> ?missing" using create by (intro Min_in) auto
    then have "{0..<n} - insert ?k present = ?missing - {?k}" "insert ?k present - {0..<n} = ?surplus" by auto
    then show ?thesis using create card_shrink [OF _ k] by (simp add: x next_ordinals_def rollout_distance_def Let_def)
  next
    case scale
    let ?k = "Max ?surplus"
    have k: "?k \<in> ?surplus" using scale fin by (intro Max_in) auto
    then have parts: "{0..<n} - (present - {?k}) = ?missing" "present - {?k} - {0..<n} = ?surplus - {?k}"
      "(outdated - {?k}) \<inter> {0..<n} = outdated \<inter> {0..<n}" by auto
    have "next_ordinals n x = (present - {?k}, outdated - {?k})" using scale by (simp add: x next_ordinals_def Let_def)
    then show ?thesis
      using fin card_shrink [OF _ k] by (simp only: x rollout_distance_def prod.case parts) simp
  next
    case update
    let ?k = "Max outdated"
    have "?k \<in> outdated" using update fin by (intro Max_in) auto
    then have k: "?k \<in> outdated \<inter> {0..<n}" using update sub by auto
    then have parts: "{0..<n} - (present - {?k}) = {?k}" "present - {?k} - {0..<n} = {}"
      "(outdated - {?k}) \<inter> {0..<n} = outdated \<inter> {0..<n} - {?k}" using update by auto
    have "next_ordinals n x = (present - {?k}, outdated - {?k})" using update by (simp add: x next_ordinals_def Let_def)
    moreover have "card (outdated \<inter> {0..<n} - {?k}) = card (outdated \<inter> {0..<n}) - 1 \<and> 0 < card (outdated \<inter> {0..<n})"
      using fin k by (intro card_shrink) auto
    ultimately show ?thesis
      by (simp only: x rollout_distance_def prod.case parts update(1,2) card.empty) (simp, arith)
  next
    case rest
    then show ?thesis by (simp add: x next_ordinals_def rollout_distance_def Let_def)
  qed
qed

lemma ordinals_converge:
  assumes "sane_ordinals x"
  shows "rollout_distance n ((next_ordinals n ^^ k) x) = rollout_distance n x - k \<and> sane_ordinals ((next_ordinals n ^^ k) x)"
  using assms by (induction k) (simp_all add: next_ordinals_closer next_ordinals_sane)

section \<open>The setting\<close>

definition set_pods :: "StatefulSet \<Rightarrow> State \<Rightarrow> Pod set" where
  "set_pods ss s = pods_of_owner s (ObjectMeta ss) ''StatefulSet''"

definition pod_ordinal :: "Pod \<Rightarrow> int" where
  "pod_ordinal pod = ordinalOf (Name (ObjectMeta pod))"

definition ordinals_of :: "StatefulSet \<Rightarrow> State \<Rightarrow> ordinals" where
  "ordinals_of ss s = (pod_ordinal ` set_pods ss s, pod_ordinal ` {pod \<in> set_pods ss s. \<not> podSpecMatches ss pod})"

text \<open>A pod that a delete removes at once: not scheduled to a node, without finalizers, not being deleted.\<close>

definition tidy :: "StatefulSet \<Rightarrow> Pod \<Rightarrow> bool" where
  "tidy ss pod \<longleftrightarrow> identityMatches ss pod \<and> DeletionTimestamp (ObjectMeta pod) = None \<and>
     NodeName (pod_Spec pod) = [] \<and> elems (Finalizers (ObjectMeta pod)) = []"

definition stateful_key :: "StatefulSet \<Rightarrow> KKey" where
  "stateful_key ss = KKey ''StatefulSet'' (Name (ObjectMeta ss)) (Namespace (ObjectMeta ss))"

definition ordinal_key :: "StatefulSet \<Rightarrow> int \<Rightarrow> KKey" where
  "ordinal_key ss k = KKey ''Pod'' (podName (Name (ObjectMeta ss)) k) (Namespace (ObjectMeta ss))"

text \<open>The set is stored, its pods are tidy, and no pod of another owner has a name of the set.\<close>

definition orderly :: "StatefulSet \<Rightarrow> State \<Rightarrow> bool" where
  "orderly ss s \<longleftrightarrow> wf_state s \<and> st_m s (stateful_key ss) = Some (KStatefulSet ss) \<and>
     (\<forall>pod \<in> set_pods ss s. tidy ss pod) \<and>
     (\<forall>k. 0 \<le> k \<longrightarrow> k < replicasOf ss \<longrightarrow> k \<notin> pod_ordinal ` set_pods ss s \<longrightarrow> st_m s (ordinal_key ss k) = None)"

text \<open>
  A spec to which Kubernetes has nothing to add, such as one that was read back from the API: on a pod
  with this very spec, defaulting, the create strategy and the conversions leave the spec, the labels, the
  owners and the finalizers alone. It is asked only of the specs of the pods the controller makes. The
  reset of the system fields at a create keeps labels, owners and finalizers and clears the deletion
  timestamp; a pod that is not scheduled is deleted without a grace period.
\<close>

definition meta_kept :: "ObjectMeta \<Rightarrow> ObjectMeta \<Rightarrow> bool" where
  "meta_kept a b \<longleftrightarrow> owners_kept a b \<and> Labels a = Labels b \<and> elems (Finalizers a) = elems (Finalizers b)"

definition pod_kept :: "Pod \<Rightarrow> Pod \<Rightarrow> bool" where
  "pod_kept p q \<longleftrightarrow> pod_Spec p = pod_Spec q \<and> meta_kept (ObjectMeta p) (ObjectMeta q)"

definition spec_of_template :: "PodSpec \<Rightarrow> Pod \<Rightarrow> bool" where
  "spec_of_template spec p \<longleftrightarrow> withoutStatefulSetFields (pod_Spec p) = withoutStatefulSetFields spec"

definition settled_spec :: "env \<Rightarrow> PodSpec \<Rightarrow> bool" where
  "settled_spec E spec \<longleftrightarrow> (\<forall>p. pod_Spec p = spec \<longrightarrow>
     pod_kept (SetObjectDefaults (podOps E) p) p \<and> pod_kept (PrepareForCreate (podOps E) p) p \<and>
     pod_kept (Canonicalize (podOps E) p) p \<and>
     (\<forall>q. to_internal (podOps E) p = Inr q \<longrightarrow> pod_Spec q = spec) \<and>
     (\<forall>q. to_versioned (podOps E) p = Inr q \<longrightarrow> pod_Spec q = spec))"

lemma settled_specD:
  assumes "settled_spec E spec" "pod_Spec p = spec"
  shows "pod_kept (SetObjectDefaults (podOps E) p) p" "pod_kept (PrepareForCreate (podOps E) p) p"
    "pod_kept (Canonicalize (podOps E) p) p" "to_internal (podOps E) p = Inr q \<Longrightarrow> pod_Spec q = spec"
    "to_versioned (podOps E) p = Inr q \<Longrightarrow> pod_Spec q = spec"
  using assms unfolding settled_spec_def by blast+

definition wipe_keeps :: "env \<Rightarrow> bool" where
  "wipe_keeps E \<longleftrightarrow> (\<forall>md. OwnerReferences (WipeObjectMetaSystemFields E md) = OwnerReferences md \<and>
     Labels (WipeObjectMetaSystemFields E md) = Labels md \<and> Finalizers (WipeObjectMetaSystemFields E md) = Finalizers md \<and>
     DeletionTimestamp (WipeObjectMetaSystemFields E md) = None)"

definition unscheduled_at_once :: "env \<Rightarrow> bool" where
  "unscheduled_at_once E \<longleftrightarrow>
     (\<forall>p q. to_internal (podOps E) p = Inr q \<longrightarrow> NodeName (pod_Spec q) = NodeName (pod_Spec p)) \<and>
     (\<forall>p options g q options'. NodeName (pod_Spec p) = [] \<longrightarrow> PodCheckGracefulDelete E p options = (g, q, options') \<longrightarrow>
        GracePeriodSeconds options' = Some 0 \<and>
        OrphanDependents options' = OrphanDependents options \<and> PropagationPolicy options' = PropagationPolicy options)"

text \<open>A template to which admission adds nothing.\<close>

definition admitted_spec :: "PodSpec \<Rightarrow> bool" where
  "admitted_spec spec \<longleftrightarrow> tolerates spec \<and> (Priority spec \<noteq> None \<or> PriorityClassName spec \<noteq> [])"

definition set_template :: "StatefulSet \<Rightarrow> PodTemplateSpec" where
  "set_template ss = ss_Template (ss_Spec ss)"

definition quiet_for :: "cluster \<Rightarrow> bool" where
  "quiet_for C \<longleftrightarrow> cluster_ok C \<and> alone C \<and> answers_no_taken (cl_env C) \<and> wipe_keeps (cl_env C) \<and> unscheduled_at_once (cl_env C)"

text \<open>
  The templates for which a rollout comes to an end: admission adds nothing, no node is named, no
  finalizer is set, and the specs of the pods made from it are settled.
\<close>

definition settled_template :: "env \<Rightarrow> kube_lib \<Rightarrow> key_order \<Rightarrow> StatefulSet \<Rightarrow> bool" where
  "settled_template E L rg ss \<longleftrightarrow> admitted_spec (tmpl_Spec (set_template ss)) \<and> NodeName (tmpl_Spec (set_template ss)) = [] \<and>
     elems (Finalizers (tmpl_ObjectMeta (set_template ss))) = [] \<and>
     (\<forall>k. 0 \<le> k \<longrightarrow> k < replicasOf ss \<longrightarrow> settled_spec E (pod_Spec (newStatefulSetPod L rg ss k)))"

section \<open>A create adds an ordinal\<close>

lemma spec_of_template_simps:
  assumes "spec_of_template spec p"
  shows "Tolerations (pod_Spec p) = Tolerations spec" "Priority (pod_Spec p) = Priority spec"
    "PriorityClassName (pod_Spec p) = PriorityClassName spec" "NodeName (pod_Spec p) = NodeName spec"
  using assms by (auto simp: spec_of_template_def withoutStatefulSetFields_def dest: arg_cong [of _ _ Tolerations]
      arg_cong [of _ _ Priority] arg_cong [of _ _ PriorityClassName] arg_cong [of _ _ NodeName])

lemma admission_idle:
  assumes "spec_of_template spec p" "admitted_spec spec"
  shows "applyPriorityAdmission (applyDefaultTolerationSeconds p) = p"
proof -
  have "applyDefaultTolerationSeconds p = p"
    using assms by (cases "Tolerations spec")
      (simp_all add: applyDefaultTolerationSeconds_def admitted_spec_def tolerates_def spec_of_template_simps append_slice_def)
  then show ?thesis using assms by (auto simp: applyPriorityAdmission_def admitted_spec_def spec_of_template_simps)
qed

text \<open>A pod that has been scheduled to a node the template does not name is outdated.\<close>

lemma scheduled_outdated:
  assumes "NodeName (pod_Spec pod) \<noteq> NodeName (tmpl_Spec (set_template ss))"
  shows "\<not> podSpecMatches ss pod"
proof
  assume "podSpecMatches ss pod"
  then have "spec_of_template (tmpl_Spec (set_template ss)) pod"
    by (simp add: podSpecMatches_def spec_of_template_def set_template_def split: if_splits)
  with assms show False by (simp add: spec_of_template_simps(4))
qed

lemma podSpecMatches_cong:
  "Name (ObjectMeta p) = Name (ObjectMeta q) \<Longrightarrow> pod_Spec p = pod_Spec q \<Longrightarrow> podSpecMatches ss p = podSpecMatches ss q"
  by (simp add: podSpecMatches_def storageMatches_def Let_def)

lemma create_pipeline_pod_kept:
  assumes laws: "upstream_laws E" "settled_spec E (pod_Spec p)" and spec: "admitted_spec spec" "spec_of_template spec p"
    and pipe: "applyValidationAndDefaulting E (KPod p) name = Inr ob"
  shows "\<exists>q. ob = KPod q \<and> pod_kept q p"
proof -
  let ?d = "SetObjectDefaults (podOps E) p"
  obtain i t where in': "to_internal (podOps E) ?d = Inr i"
    and out: "to_versioned (podOps E) (Canonicalize (podOps E)
        (PrepareForCreate (podOps E) (applyPriorityAdmission (applyDefaultTolerationSeconds i)))) = Inr t"
    and ob: "ob = KPod t"
    using pipe
    by (auto simp: applyValidationAndDefaulting_def convert_in_def convert_out_def ebind_Inr_iff check_Inr_iff
        split: sum.splits)
  note stays = settled_specD [OF laws(2)] and conv = ops_convertedD [OF upstream_opsD(1) [OF laws(1)]]
  have meta: "converted a b \<Longrightarrow> meta_kept a b" for a b by (auto simp: converted_def meta_kept_def owners_kept_def)
  have d: "pod_kept ?d p" by (rule stays(1) [OF refl])
  then have "pod_Spec i = pod_Spec p" using stays(4) [OF _ in'] by (simp add: pod_kept_def)
  with d meta [OF conv(1) [OF in']] have i: "pod_Spec i = pod_Spec p" "pod_kept i ?d" by (simp_all add: pod_kept_def)
  let ?c = "PrepareForCreate (podOps E) i"
  have c: "pod_kept ?c i" by (rule stays(2) [OF i(1)])
  let ?n = "Canonicalize (podOps E) ?c"
  have n: "pod_kept ?n ?c" by (rule stays(3)) (use c i in \<open>simp add: pod_kept_def\<close>)
  have "spec_of_template spec i" using spec(2) i(1) by (simp add: spec_of_template_def)
  then have out': "to_versioned (podOps E) ?n = Inr t" using out admission_idle [OF _ spec(1)] by simp
  have "pod_Spec t = pod_Spec p" by (rule stays(5) [OF _ out']) (use n c i in \<open>simp add: pod_kept_def\<close>)
  with meta [OF conv(2) [OF out']] n c i(1) have "pod_kept t ?n" by (simp add: pod_kept_def)
  with d i c n have "pod_kept t p" by (simp add: pod_kept_def meta_kept_def owners_kept_def)
  with ob show ?thesis by blast
qed

lemma new_pod_fields:
  assumes "0 \<le> k" "k < 2 ^ 31"
  shows "spec_of_template (tmpl_Spec (set_template ss)) (newStatefulSetPod L rg ss k)"
    "OwnerReferences (ObjectMeta (newStatefulSetPod L rg ss k)) = Some [NewControllerRef (ObjectMeta ss) ''apps/v1'' ''StatefulSet'']"
    "elems (Finalizers (ObjectMeta (newStatefulSetPod L rg ss k))) = elems (Finalizers (tmpl_ObjectMeta (set_template ss)))"
  by (simp_all add: newStatefulSetPod_def initIdentity_def updateIdentity_def GetPodFromTemplate_def Let_def set_template_def
      spec_of_template_def withoutStatefulSetFields_def initStorage_def)

text \<open>What counts of a pod: where it is stored, who owns it, and whether it is in place.\<close>

definition indexed_under :: "StatefulSet \<Rightarrow> Pod \<Rightarrow> bool" where
  "indexed_under ss pod \<longleftrightarrow> PodControllerIndexKey (Namespace (ObjectMeta pod)) (GetControllerOf (ObjectMeta pod)) =
     PodControllerIndexKey (Namespace (ObjectMeta ss)) (Some (owner_ref (ObjectMeta ss) ''StatefulSet''))"

lemma set_pods_iff: "wf_state s \<Longrightarrow> pod \<in> set_pods ss s \<longleftrightarrow> st_m s (pod_key pod) = Some (KPod pod) \<and> indexed_under ss pod"
  using stored_pod_key by (auto simp: set_pods_def pods_of_owner_def indexed_under_def)

lemma PodCreate_in_place:
  assumes quiet: "quiet_for C" and plain: "settled_template (cl_env C) L rg ss" and rg: "key_order_ok rg"
    and k: "0 \<le> k" "k < 2 ^ 31" "k < replicasOf ss"
    and call: "PodCreate (cl_env C) ch (Namespace (ObjectMeta ss)) (newStatefulSetPod L rg ss k) s = Some (Inr x, s')"
  shows "\<exists>pod. st_m s' = (st_m s)(ordinal_key ss k \<mapsto> KPod pod) \<and> st_m s (ordinal_key ss k) = None \<and>
    pod_key pod = ordinal_key ss k \<and> pod_ordinal pod = k \<and> indexed_under ss pod \<and> tidy ss pod \<and> podSpecMatches ss pod"
proof -
  let ?E = "cl_env C" and ?ns = "Namespace (ObjectMeta ss)" and ?new = "newStatefulSetPod L rg ss k"
  have laws: "upstream_laws ?E" and hooks: "settled_spec ?E (pod_Spec ?new)" and wipe: "wipe_keeps ?E"
    using quiet plain k by (simp_all add: settled_template_def quiet_for_def cluster_ok_def)
  note new = newStatefulSetPod_meta [OF k(1,2), where L = L and rg = rg and ss = ss]
  note fields = new_pod_fields [OF k(1,2), where L = L and rg = rg and ss = ss]
  from call obtain ob' where "create ?E ch ''Pod'' ?ns (KPod ?new) s = Some (Inr ob', s')"
    by (auto simp: PodCreate_def assert_call_def ebind_Inr_iff)
  then show ?thesis
  proof (cases rule: create_outcomes)
    case (stored md uid s1 name objCopy ob2)
    have md: "md = (WipeObjectMetaSystemFields ?E (ObjectMeta ?new))\<lparr>Namespace := ?ns\<rparr>"
      using ensure_namespaceD [OF laws stored(1)] by simp
    then have "Name md = podName (Name (ObjectMeta ss)) k" using laws new(1) by (simp add: upstream_laws_def)
    with stored(4) have name: "name = podName (Name (ObjectMeta ss)) k" by (auto simp: podName_def)
    then have key: "KKey ''Pod'' name ?ns = ordinal_key ss k" by (simp add: ordinal_key_def)
    from stored(6) obtain ob where pipe: "applyValidationAndDefaulting ?E objCopy name = Inr ob"
      and free: "st_m s1 (ordinal_key ss k) = None"
      and store: "store_object ch (ordinal_key ss k) ob s1 = Some (Inr ob2, s')"
      unfolding key [symmetric] by (rule create_named_stored)
    obtain p where p: "objCopy = KPod p" "pod_Spec p = pod_Spec ?new"
      and pm: "ObjectMeta p = md\<lparr>CreationTimestamp := o_now ch, UID := uid, Name := name\<rparr>"
      using stored(3) by simp
    have "spec_of_template (tmpl_Spec (set_template ss)) p" using fields(1) p(2) by (simp add: spec_of_template_def)
    then obtain q where q: "ob = KPod q" "pod_kept q p"
      using create_pipeline_pod_kept [OF laws _ _ _ pipe [unfolded p(1)]] hooks p(2) plain by (auto simp: settled_template_def)
    have id: "same_id (ObjectMeta q) (ObjectMeta p)"
      using create_pipeline_keeps [OF pipe] laws p q(1) by simp
    from store obtain rv where s': "s' = s1\<lparr>usedRV := insert rv (usedRV s1), st_m := (st_m s1)(ordinal_key ss k \<mapsto>
        KPod (q\<lparr>ObjectMeta := (ObjectMeta q)\<lparr>ResourceVersion := rv\<rparr>\<rparr>))\<rparr>"
      by (rule store_object_Some) (simp add: q)
    let ?pod = "q\<lparr>ObjectMeta := (ObjectMeta q)\<lparr>ResourceVersion := rv\<rparr>\<rparr>"
    have same: "st_m s1 = st_m s" using generateNewUID_frame [OF stored(2)] by simp
    have meta: "Name (ObjectMeta ?pod) = Name (ObjectMeta ?new)" "Namespace (ObjectMeta ?pod) = ?ns"
      "pod_Spec ?pod = pod_Spec ?new" "Labels (ObjectMeta ?pod) = Labels (ObjectMeta ?new)"
      "OwnerReferences (ObjectMeta ?pod) = OwnerReferences (ObjectMeta ?new)" "DeletionTimestamp (ObjectMeta ?pod) = None"
      "elems (Finalizers (ObjectMeta ?pod)) = elems (Finalizers (ObjectMeta ?new))"
      using id q(2) p pm md name new(1) wipe
      by (simp_all add: same_id_def pod_kept_def meta_kept_def owners_kept_def wipe_keeps_def)
    have "pod_key ?pod = ordinal_key ss k" "pod_ordinal ?pod = k"
      using meta(1,2) new(1) k by (simp_all add: pod_key_def ordinal_key_def pod_ordinal_def ordinalOf_podName)
    moreover have "identityMatches ss ?pod" using new(2,3) meta(1,2,4) by (simp add: identityMatches_def Let_def)
    then have "tidy ss ?pod"
      using meta(3,6,7) fields plain by (simp add: tidy_def settled_template_def spec_of_template_simps [OF fields(1)])
    moreover have "podSpecMatches ss ?pod"
      using new(5) [OF rg] podSpecMatches_cong [OF meta(1,3)] by simp
    moreover have "GetControllerOf (ObjectMeta ?pod) = GetControllerOf (ObjectMeta ?new)"
      using meta(5) by (simp add: GetControllerOf_def)
    then have "indexed_under ss ?pod" using meta(2) new(4)
      by (simp add: indexed_under_def PodControllerIndexKey_def NewControllerRef_def owner_ref_def)
    ultimately show ?thesis using s' same free by (intro exI [of _ ?pod]) simp
  qed simp_all
qed

lemma tidy_ordinal:
  assumes "tidy ss pod"
  shows "0 \<le> pod_ordinal pod" "pod_ordinal pod < 2 ^ 31" "pod_key pod = ordinal_key ss (pod_ordinal pod)"
    "parentNameAndOrdinal (Name (ObjectMeta pod)) = (Name (ObjectMeta ss), pod_ordinal pod)"
    "isMemberOf (Name (ObjectMeta ss)) (Name (ObjectMeta pod))"
proof -
  obtain parent ordinal where parse: "parentNameAndOrdinal (Name (ObjectMeta pod)) = (parent, ordinal)" by fastforce
  with assms have id: "0 \<le> ordinal" "parent = Name (ObjectMeta ss)" "Name (ObjectMeta pod) = podName (Name (ObjectMeta ss)) ordinal"
    "Namespace (ObjectMeta pod) = Namespace (ObjectMeta ss)"
    by (simp_all add: tidy_def identityMatches_def Let_def)
  have ordinal: "pod_ordinal pod = ordinal" using parse by (simp add: pod_ordinal_def ordinalOf_def)
  show "0 \<le> pod_ordinal pod" "pod_key pod = ordinal_key ss (pod_ordinal pod)"
    "parentNameAndOrdinal (Name (ObjectMeta pod)) = (Name (ObjectMeta ss), pod_ordinal pod)"
    using id ordinal parse by (simp_all add: pod_key_def ordinal_key_def)
  show "pod_ordinal pod < 2 ^ 31" using ordinal_range [OF parse] ordinal by simp
  show "isMemberOf (Name (ObjectMeta ss)) (Name (ObjectMeta pod))" using parse id by (simp add: isMemberOf_def)
qed

lemma finite_set_pods: "wf_state s \<Longrightarrow> finite (set_pods ss s)"
proof -
  assume wf: "wf_state s"
  then have "set_pods ss s \<subseteq> (\<lambda>key. case st_m s key of Some (KPod pod) \<Rightarrow> pod) ` dom (st_m s)"
    by (force simp: set_pods_iff)
  then show ?thesis using wf_state_finite [OF wf] finite_surj by blast
qed

lemma ordinal_unique:
  assumes "orderly ss s" "p \<in> set_pods ss s" "q \<in> set_pods ss s" "pod_ordinal p = pod_ordinal q"
  shows "p = q"
proof -
  have "wf_state s" "tidy ss p" "tidy ss q" using assms(1-3) by (auto simp: orderly_def)
  then have "pod_key p = pod_key q" using tidy_ordinal(3) assms(4) by metis
  with assms(2,3) \<open>wf_state s\<close> show ?thesis by (auto simp: set_pods_iff)
qed

lemma sane_ordinals_of: "orderly ss s \<Longrightarrow> sane_ordinals (ordinals_of ss s)"
  by (auto simp: sane_ordinals_def ordinals_of_def orderly_def finite_set_pods)

lemma stateful_not_pod: "stateful_key ss \<noteq> ordinal_key ss k"
  by (simp add: stateful_key_def ordinal_key_def)

text \<open>The ordinals after a pod appears and after one goes.\<close>

lemma orderly_added:
  assumes ss: "orderly ss s" and wf: "wf_state s'" and st: "st_m s' = (st_m s)(ordinal_key ss k \<mapsto> KPod pod)"
    and free: "st_m s (ordinal_key ss k) = None"
    and pod: "pod_key pod = ordinal_key ss k" "pod_ordinal pod = k" "indexed_under ss pod" "tidy ss pod" "podSpecMatches ss pod"
  shows "orderly ss s' \<and> ordinals_of ss s' = (insert k (fst (ordinals_of ss s)), snd (ordinals_of ss s))"
proof -
  have wf0: "wf_state s" using ss by (simp add: orderly_def)
  have pods: "set_pods ss s' = insert pod (set_pods ss s)"
  proof (rule set_eqI)
    fix x show "x \<in> set_pods ss s' \<longleftrightarrow> x \<in> insert pod (set_pods ss s)"
      using st free pod(1,3) by (cases "pod_key x = ordinal_key ss k") (auto simp: set_pods_iff [OF wf] set_pods_iff [OF wf0])
  qed
  have "ordinal_key ss j \<noteq> ordinal_key ss k" if "0 \<le> j" "j < replicasOf ss" "j \<notin> pod_ordinal ` set_pods ss s'" for j
  proof -
    have "j \<noteq> k" using that(3) pods pod(2) by auto
    moreover have "j < 2 ^ 31" using that(2) replicas_range(1) [of ss] by linarith
    ultimately show ?thesis
      using podName_inject [OF that(1) _ tidy_ordinal(1,2) [OF pod(4)], of "Name (ObjectMeta ss)" "Name (ObjectMeta ss)"] pod(2)
      by (simp add: ordinal_key_def)
  qed
  then have "orderly ss s'"
    using ss wf st pod(4) stateful_not_pod [of ss k] by (auto simp: orderly_def pods)
  moreover have "{p \<in> set_pods ss s'. \<not> podSpecMatches ss p} = {p \<in> set_pods ss s. \<not> podSpecMatches ss p}"
    using pods pod(5) by auto
  ultimately show ?thesis using pods pod(2) by (simp add: ordinals_of_def)
qed

lemma orderly_removed:
  assumes ss: "orderly ss s" and wf: "wf_state s'" and pod: "pod \<in> set_pods ss s"
    and st: "st_m s' = (st_m s)(pod_key pod := None)"
  shows "orderly ss s' \<and> ordinals_of ss s' =
    (fst (ordinals_of ss s) - {pod_ordinal pod}, snd (ordinals_of ss s) - {pod_ordinal pod})"
proof -
  have wf0: "wf_state s" and tidy: "tidy ss pod" using ss pod by (simp_all add: orderly_def)
  have pods: "set_pods ss s' = set_pods ss s - {pod}"
  proof (rule set_eqI)
    fix x show "x \<in> set_pods ss s' \<longleftrightarrow> x \<in> set_pods ss s - {pod}"
      using st pod by (cases "pod_key x = pod_key pod") (auto simp: set_pods_iff [OF wf] set_pods_iff [OF wf0])
  qed
  have "stateful_key ss \<noteq> pod_key pod" using tidy_ordinal(3) [OF tidy] stateful_not_pod by simp
  moreover have "st_m s' (ordinal_key ss j) = None" if "0 \<le> j" "j < replicasOf ss" "j \<notin> pod_ordinal ` set_pods ss s'" for j
  proof (cases "j = pod_ordinal pod")
    case True
    then show ?thesis using st tidy_ordinal(3) [OF tidy] by simp
  next
    case False
    with that pods have "j \<notin> pod_ordinal ` set_pods ss s" by auto
    then show ?thesis using ss that(1,2) st by (auto simp: orderly_def)
  qed
  ultimately have "orderly ss s'" using ss wf st by (auto simp: orderly_def pods)
  moreover have "pod_ordinal ` (A - {pod}) = pod_ordinal ` A - {pod_ordinal pod}" if "A \<subseteq> set_pods ss s" for A
    using that ordinal_unique [OF ss] pod by (auto simp: image_iff)
  moreover have "{p \<in> set_pods ss s'. \<not> podSpecMatches ss p} = {p \<in> set_pods ss s. \<not> podSpecMatches ss p} - {pod}"
    using pods by auto
  ultimately show ?thesis by (simp add: ordinals_of_def pods)
qed

section \<open>A delete takes an ordinal away\<close>

lemma no_gc_finalizers:
  assumes "elems (Finalizers (metadata ob)) = []" "OrphanDependents options = None" "PropagationPolicy options = None"
  shows "with_gc_finalizers ob options = ob"
  using assms by (simp add: with_gc_finalizers_def deletionFinalizersForGarbageCollection_def shouldOrphanDependents_def
      shouldDeleteDependents_def Let_def)

lemma delete_tidy:
  assumes laws: "upstream_laws E" "unscheduled_at_once E" and tidy: "tidy ss pod" and stored: "st_m s key = Some (KPod pod)"
    and call: "delete E ch key empty_DeleteOptions s = Some (r, s')" and r: "case r of Inl e \<Rightarrow> IsNotFound e | Inr _ \<Rightarrow> True"
  shows "st_m s' = (st_m s)(key := None)"
proof -
  have live: "DeletionTimestamp (ObjectMeta pod) = None" and none: "elems (Finalizers (ObjectMeta pod)) = []"
    and node: "NodeName (pod_Spec pod) = []" using tidy by (simp_all add: tidy_def)
  have not_found: "\<not> IsNotFound e" if "validateDeleteOptions empty_DeleteOptions = Some e \<or>
      validateDeletePreconditions (ObjectMeta pod) empty_DeleteOptions (key_Kind key) = Some e \<or>
      checkGracefulDelete E ch (KPod pod) empty_DeleteOptions = Inl e" for e
    using that live
    by (auto simp: validateDeleteOptions_def validateDeletePreconditions_def checkGracefulDelete_def Let_def
        split: option.splits if_splits sum.splits prod.splits)
  obtain g pending checked options' where check: "checkGracefulDelete E ch (KPod pod) empty_DeleteOptions = Inr (g, pending, checked, options')"
    and rest: "(if pending then Some (Inr (), s) else delete_commit ch key (KPod pod) g checked options' s) = Some (r, s')"
    using call r stored not_found
    by (auto simp: delete_def Let_def split: option.splits sum.splits prod.splits if_splits)
  let ?p1 = "pod\<lparr>ObjectMeta := (ObjectMeta pod)\<lparr>DeletionGracePeriodSeconds := clamp_grace (DeletionGracePeriodSeconds (ObjectMeta pod))\<rparr>\<rparr>"
  have "strategy_graceful E (KPod ?p1) (empty_DeleteOptions\<lparr>GracePeriodSeconds := clamp_grace None\<rparr>) =
      Inr (g, pending, checked, options')"
    using check live by (simp add: checkGracefulDelete_def Let_def empty_DeleteOptions_def del: strategy_graceful.simps)
  then obtain i i' t where steps: "to_internal (podOps E) ?p1 = Inr i"
    "PodCheckGracefulDelete E i (empty_DeleteOptions\<lparr>GracePeriodSeconds := clamp_grace None\<rparr>) = (g, i', options')"
    "to_versioned (podOps E) i' = Inr t" "checked = KPod t" "pending = (DeletionTimestamp (ObjectMeta i') \<noteq> None)"
    by (auto split: sum.splits prod.splits)
  note conv = ops_convertedD [OF upstream_opsD(1) [OF laws(1)]]
  have i': "ObjectMeta i' = ObjectMeta i" using laws(1) steps(2) unfolding upstream_laws_def by blast
  have md: "DeletionTimestamp (ObjectMeta i) = None" "elems (Finalizers (ObjectMeta t)) = []"
    using conv(1) [OF steps(1)] conv(2) [OF steps(3)] live none i' by (auto simp: converted_def)
  have "NodeName (pod_Spec ?p1) = []" using node by simp
  then have "NodeName (pod_Spec i) = []" using laws(2) steps(1) unfolding unscheduled_at_once_def by metis
  then have grace: "GracePeriodSeconds options' = Some 0" "OrphanDependents options' = None" "PropagationPolicy options' = None"
    using laws(2) steps(2) unfolding unscheduled_at_once_def by (auto simp: empty_DeleteOptions_def)
  have "with_gc_finalizers checked options' = checked"
    using md(2) grace(2,3) steps(4) by (intro no_gc_finalizers) simp_all
  then have "delete_commit ch key (KPod pod) g checked options' s = Some (Inr (), s\<lparr>st_m := (st_m s)(key := None)\<rparr>)"
    using steps(4) md(2) grace(1) by (simp add: delete_commit_def delete_grace_def Let_def)
  moreover have "\<not> pending" using steps(5) md(1) i' by simp
  ultimately show ?thesis using rest by auto
qed

lemma deletePod_removes:
  assumes quiet: "quiet_for C" and ss: "orderly ss (w_state w)" and pod: "pod \<in> set_pods ss (w_state w)"
    and run: "deletePod C pod w = Some (Inr x, w')"
  shows "orderly ss (w_state w') \<and> ordinals_of ss (w_state w') =
    (fst (ordinals_of ss (w_state w)) - {pod_ordinal pod}, snd (ordinals_of ss (w_state w)) - {pod_ordinal pod})"
proof -
  have wf: "wf_state (w_state w)" and tidy: "tidy ss pod" using ss pod by (simp_all add: orderly_def)
  have laws: "upstream_laws (cl_env C)" and alone: "alone C" and hooks: "unscheduled_at_once (cl_env C)"
    using quiet by (simp_all add: quiet_for_def cluster_ok_def)
  from run obtain r where call: "pods_delete C (Namespace (ObjectMeta pod)) (Name (ObjectMeta pod)) empty_DeleteOptions w = Some (r, w')"
    and r: "case r of Inl e \<Rightarrow> IsNotFound e | Inr _ \<Rightarrow> True"
    unfolding deletePod_def by (elim with_resultE) (auto simp: done_with_def fail_with_def split: sum.splits if_splits)
  from call alone obtain ch where del: "delete (cl_env C) ch (pod_key pod) empty_DeleteOptions (w_state w) = Some (r, w_state w')"
    by (auto simp: pods_delete_def PodDelete_def pod_key_def elim: kube_call_alone)
  have stored: "st_m (w_state w) (pod_key pod) = Some (KPod pod)" using pod set_pods_iff [OF wf] by simp
  have "wf_state (w_state w')" using delete_wf [OF laws wf del] by simp
  then show ?thesis using delete_tidy [OF laws hooks tidy stored del r] orderly_removed [OF ss _ pod] by simp
qed

section \<open>Claims leave the pods alone\<close>

definition calm :: "State \<Rightarrow> State \<Rightarrow> bool" where
  "calm s s' \<longleftrightarrow> wf_state s' \<and> (\<forall>key. key_Kind key \<noteq> ''PersistentVolumeClaim'' \<longrightarrow> st_m s' key = st_m s key)"

definition calms :: "'a step \<Rightarrow> bool" where
  "calms m \<longleftrightarrow> (\<forall>w r w'. wf_state (w_state w) \<longrightarrow> m w = Some (r, w') \<longrightarrow> calm (w_state w) (w_state w'))"

lemma calm_refl: "wf_state s \<Longrightarrow> calm s s"
  by (simp add: calm_def)

lemma calm_trans: "calm s s1 \<Longrightarrow> calm s1 s2 \<Longrightarrow> calm s s2"
  by (simp add: calm_def)

lemma calmsD: "calms m \<Longrightarrow> wf_state (w_state w) \<Longrightarrow> m w = Some (r, w') \<Longrightarrow> calm (w_state w) (w_state w')"
  by (simp add: calms_def)

lemma calms_idle: "idle m \<Longrightarrow> calms m"
  by (simp add: calms_def idle_def calm_def)

lemma calms_then: "calms m \<Longrightarrow> (\<And>r. calms (k r)) \<Longrightarrow> calms (with_result m k)"
  unfolding calms_def
proof (intro allI impI)
  fix w r w'
  assume m: "\<forall>w r w'. wf_state (w_state w) \<longrightarrow> m w = Some (r, w') \<longrightarrow> calm (w_state w) (w_state w')"
    and k: "\<And>r. \<forall>w ra w'. wf_state (w_state w) \<longrightarrow> k r w = Some (ra, w') \<longrightarrow> calm (w_state w) (w_state w')"
    and wf: "wf_state (w_state w)" and run: "with_result m k w = Some (r, w')"
  from run obtain r1 w1 where one: "m w = Some (r1, w1)" and rest: "k r1 w1 = Some (r, w')" by (rule with_resultE)
  from m wf one have 1: "calm (w_state w) (w_state w1)" by blast
  with k rest have "calm (w_state w1) (w_state w')" unfolding calm_def by blast
  with 1 show "calm (w_state w) (w_state w')" by (rule calm_trans)
qed

lemma calm_orderly:
  assumes "calm s s'" "orderly ss s"
  shows "orderly ss s' \<and> ordinals_of ss s' = ordinals_of ss s \<and> set_pods ss s' = set_pods ss s"
proof -
  have wf: "wf_state s'" "wf_state s" using assms by (simp_all add: calm_def orderly_def)
  have "set_pods ss s' = set_pods ss s" using assms(1) by (auto simp: set_pods_iff [OF wf(1)] set_pods_iff [OF wf(2)] calm_def pod_key_def)
  with assms wf show ?thesis by (simp add: orderly_def ordinals_of_def calm_def stateful_key_def ordinal_key_def)
qed

lemma calms_sum: "(\<And>e. calms (f e)) \<Longrightarrow> (\<And>x. calms (g x)) \<Longrightarrow> calms (case r of Inl e \<Rightarrow> f e | Inr x \<Rightarrow> g x)"
  by (cases r) simp_all

lemma calms_if: "calms m \<Longrightarrow> calms m' \<Longrightarrow> calms (if b then m else m')"
  by simp

lemma claims_create_calm:
  assumes "quiet_for C"
  shows "calms (claims_create C ns pvc)"
  unfolding calms_def
proof (intro allI impI)
  fix w r w'
  assume wf: "wf_state (w_state w)" and run: "claims_create C ns pvc w = Some (r, w')"
  have laws: "upstream_laws (cl_env C)" "alone C" using assms by (simp_all add: quiet_for_def cluster_ok_def)
  from kube_call_alone [OF laws(2) run [unfolded claims_create_def]] obtain ch where
    "PersistentVolumeClaimCreate (cl_env C) ch ns pvc (w_state w) = Some (r, w_state w')" .
  then obtain r1 where made: "create (cl_env C) ch ''PersistentVolumeClaim'' ns (KPersistentVolumeClaim pvc) (w_state w) =
      Some (r1, w_state w')"
    by (auto simp: PersistentVolumeClaimCreate_def assert_call_def)
  have "wf_state (w_state w')" by (rule create_wf [OF laws(1) _ wf made, THEN conjunct1]) simp
  with create_other_keys [OF made] show "calm (w_state w) (w_state w')" by (simp add: calm_def)
qed

lemma createPersistentVolumeClaims_calm:
  assumes quiet: "quiet_for C"
  shows "calms (createPersistentVolumeClaims C rg ss pod)"
proof -
  have alone: "alone C" using quiet by (simp add: quiet_for_def)
  have one: "calms (createPersistentVolumeClaim C ss pod tmpl)" for tmpl
    unfolding createPersistentVolumeClaim_def Let_def
    by (intro calms_then calms_sum calms_if claims_create_calm [OF quiet] calms_idle [OF idle_read [OF alone]]
        calms_idle [OF idle_steps(1)] calms_idle [OF idle_steps(2)])
  have "calms (create_claims C ss pod tmpls)" for tmpls
    by (induction tmpls) (auto simp: and_then_def calms_idle idle_steps intro!: calms_then one calms_sum)
  then show ?thesis by (simp add: createPersistentVolumeClaims_def)
qed

section \<open>Creating a pod for an ordinal\<close>

lemma find_tidy:
  assumes "\<forall>p \<in> set pods. tidy ss p"
  shows "findPodByOrdinal ss pods k = None \<longleftrightarrow> k \<notin> pod_ordinal ` set pods"
    "findPodByOrdinal ss pods k = Some p \<Longrightarrow> p \<in> set pods \<and> pod_ordinal p = k"
proof -
  have find: "findPodByOrdinal ss pods k = List.find (\<lambda>p. pod_ordinal p = k) pods"
    unfolding findPodByOrdinal_def by (rule find_cong) (use assms tidy_ordinal(4) in auto)
  show "findPodByOrdinal ss pods k = None \<longleftrightarrow> k \<notin> pod_ordinal ` set pods" by (auto simp: find find_None_iff)
  show "p \<in> set pods \<and> pod_ordinal p = k" if "findPodByOrdinal ss pods k = Some p"
    by (rule find_SomeD) (use that find in simp)
qed

lemma desired_ordinal: "k \<in> set [0..endOrdinalOf ss] \<Longrightarrow> 0 \<le> k \<and> k < 2 ^ 31 \<and> k < replicasOf ss"
  using replicas_range(1) [of ss] by (auto simp: endOrdinalOf_def)

lemma createStatefulPod_adds:
  assumes quiet: "quiet_for C" and plain: "settled_template (cl_env C) L rg ss" and rg: "key_order_ok rg"
    and ss: "orderly ss (w_state w)" and k: "0 \<le> k" "k < 2 ^ 31" "k < replicasOf ss" "k \<notin> fst (ordinals_of ss (w_state w))"
    and run: "createStatefulPod C rg ss (newStatefulSetPod L rg ss k) w = Some (Inr x, w')"
  shows "orderly ss (w_state w') \<and> ordinals_of ss (w_state w') =
    (insert k (fst (ordinals_of ss (w_state w))), snd (ordinals_of ss (w_state w)))"
proof -
  let ?ns = "Namespace (ObjectMeta ss)" and ?new = "newStatefulSetPod L rg ss k"
  have laws: "upstream_laws (cl_env C)" "alone C" "answers_no_taken (cl_env C)"
    using quiet by (simp_all add: quiet_for_def cluster_ok_def)
  from run obtain u w1 where claims: "createPersistentVolumeClaims C rg ss ?new w = Some (Inr u, w1)"
    and rest: "with_result (pods_create C ?ns ?new) (\<lambda>r. case r of
         Inr _ \<Rightarrow> done_with () | Inl e \<Rightarrow> if IsAlreadyExists e then done_with () else fail_with e) w1 = Some (Inr x, w')"
    unfolding createStatefulPod_def by (elim and_thenE) auto
  have wf: "wf_state (w_state w)" using ss by (simp add: orderly_def)
  from calmsD [OF createPersistentVolumeClaims_calm [OF quiet] wf claims] ss
  have ss1: "orderly ss (w_state w1)" and same: "ordinals_of ss (w_state w1) = ordinals_of ss (w_state w)"
    using calm_orderly by blast+
  have wf1: "wf_state (w_state w1)" using ss1 by (simp add: orderly_def)
  have free: "st_m (w_state w1) (ordinal_key ss k) = None"
    using ss1 k(1,3,4) same by (auto simp: orderly_def ordinals_of_def)
  from rest obtain r where call: "pods_create C ?ns ?new w1 = Some (r, w')" and r: "case r of Inl e \<Rightarrow> IsAlreadyExists e | Inr _ \<Rightarrow> True"
    by (elim with_resultE) (auto simp: done_with_def fail_with_def split: sum.splits if_splits)
  from call laws(2) obtain ch where pc: "PodCreate (cl_env C) ch ?ns ?new (w_state w1) = Some (r, w_state w')"
    by (auto simp: pods_create_def elim: kube_call_alone)
  then obtain a where a: "create (cl_env C) ch ''Pod'' ?ns (KPod ?new) (w_state w1) = Some (a, w_state w')"
    "r = ebind a (\<lambda>ob. assert_type to_Pod ''create returned unexpected type %T'' [kind_of ob] ob)"
    by (auto simp: PodCreate_def assert_call_def)
  from a(1) have wf': "wf_state (w_state w')" by (rule create_wf [OF laws(1) _ wf1, THEN conjunct1, rotated]) simp
  obtain y where "r = Inr y"
  proof (cases r)
    case (Inl e)
    with r have taken: "IsAlreadyExists e" by simp
    have new: "Name (ObjectMeta ?new) = podName (Name (ObjectMeta ss)) k" by (rule newStatefulSetPod_meta(1) [OF k(1,2)])
    from a(2) Inl taken have "a = Inl e" by (cases a) (auto simp: assert_type_def split: option.splits)
    with a(1) taken have made: "create (cl_env C) ch ''Pod'' ?ns (KPod ?new) (w_state w1) = Some (Inl e, w_state w')"
      "IsAlreadyExists e" by simp_all
    have "st_m (w_state w') (ordinal_key ss k) \<noteq> None"
      using create_taken_key [OF laws(1,3) _ made] new by (simp add: podName_def ordinal_key_def)
    moreover have "st_m (w_state w') (ordinal_key ss k) = st_m (w_state w1) (ordinal_key ss k)"
      using made(1) by (cases rule: create_outcomes) (auto dest!: generateNewUID_frame)
    ultimately show ?thesis using free by simp
  qed
  then obtain pod where "st_m (w_state w') = (st_m (w_state w1))(ordinal_key ss k \<mapsto> KPod pod)"
    "pod_key pod = ordinal_key ss k" "pod_ordinal pod = k" "indexed_under ss pod" "tidy ss pod" "podSpecMatches ss pod"
    using PodCreate_in_place [OF quiet plain rg k(1-3)] pc by blast
  from orderly_added [OF ss1 wf' this(1) free this(2-6)] same show ?thesis by simp
qed

end
