(* ===== verification/Ctl_Deployment.thy ===== *)
theory Ctl_Deployment
  imports Ctl_Log Ctl_Example
begin

text \<open>
  The deployment controller (src/controllers/deployment/deployment.go), with the helpers of
  k8s.io/kubernetes it calls as src/src/code translates them (pkg/controller/deployment/util.v,
  pkg/util/labels.v). What it promises: it refines a plan read off the replica sets alone, and the
  template of the replica set it makes is the deployment's up to the hash label.
\<close>

section \<open>Helpers of k8s.io/kubernetes\<close>

definition DefaultDeploymentUniqueLabelKey :: string where
  "DefaultDeploymentUniqueLabelKey = ''pod-template-hash''"

definition without_label :: "string \<Rightarrow> PodTemplateSpec \<Rightarrow> PodTemplateSpec" where
  "without_label key template =
     template\<lparr>tmpl_ObjectMeta := (tmpl_ObjectMeta template)
       \<lparr>Labels := map_option (fmdrop key) (Labels (tmpl_ObjectMeta template))\<rparr>\<rparr>"

definition EqualIgnoreHash :: "kube_lib \<Rightarrow> PodTemplateSpec \<Rightarrow> PodTemplateSpec \<Rightarrow> bool" where
  "EqualIgnoreHash L template1 template2 =
     templates_DeepEqual L (without_label DefaultDeploymentUniqueLabelKey template1)
       (without_label DefaultDeploymentUniqueLabelKey template2)"

definition CloneAndAddLabel :: "str_map option \<Rightarrow> string \<Rightarrow> string \<Rightarrow> str_map option" where
  "CloneAndAddLabel labels labelKey labelValue =
     (if labelKey = [] then labels else Some (fmupd labelKey labelValue (copy_map labels)))"

text \<open>A nil selector is a panic.\<close>

definition CloneSelectorAndAddLabel :: "LabelSelector option \<Rightarrow> string \<Rightarrow> string \<Rightarrow> LabelSelector option option" where
  "CloneSelectorAndAddLabel selector labelKey labelValue =
     (if labelKey = [] then Some selector
      else case selector of
          None \<Rightarrow> None
        | Some sel \<Rightarrow> Some (Some \<lparr>MatchLabels = Some (fmupd labelKey labelValue (copy_map (MatchLabels sel))),
            MatchExpressions = MatchExpressions sel\<rparr>))"

section \<open>The replica sets of a deployment\<close>

definition d_replicasOf :: "Deployment \<Rightarrow> int32" where
  "d_replicasOf d = (case d_Replicas (d_Spec d) of None \<Rightarrow> 1 | Some n \<Rightarrow> n)"

definition replicasOfRS :: "ReplicaSet \<Rightarrow> int32" where
  "replicasOfRS rs = (case rs_Replicas (rs_Spec rs) of None \<Rightarrow> 0 | Some n \<Rightarrow> n)"

definition findNewReplicaSet :: "kube_lib \<Rightarrow> Deployment \<Rightarrow> ReplicaSet list \<Rightarrow> ReplicaSet option" where
  "findNewReplicaSet L d rsList =
     List.find (\<lambda>rs. EqualIgnoreHash L (rs_Template (rs_Spec rs)) (d_Template (d_Spec d))) rsList"

definition findOldReplicaSets :: "kube_lib \<Rightarrow> Deployment \<Rightarrow> ReplicaSet list \<Rightarrow> ReplicaSet list" where
  "findOldReplicaSets L d rsList =
     (case findNewReplicaSet L d rsList of
        None \<Rightarrow> rsList
      | Some newRS \<Rightarrow> filter (\<lambda>rs. UID (ObjectMeta rs) \<noteq> UID (ObjectMeta newRS)) rsList)"

definition with_replicas :: "ReplicaSet \<Rightarrow> int32 \<Rightarrow> ReplicaSet" where
  "with_replicas rs n = rs\<lparr>rs_Spec := (rs_Spec rs)\<lparr>rs_Replicas := Some n\<rparr>\<rparr>"

definition scaleReplicaSet :: "cluster \<Rightarrow> ReplicaSet \<Rightarrow> int32 \<Rightarrow> (bool \<times> ReplicaSet) step" where
  "scaleReplicaSet C rs newScale =
     (if replicasOfRS rs = newScale then done_with (False, rs)
      else and_then (replicasets_update C (Namespace (ObjectMeta rs)) (with_replicas rs newScale)) (\<lambda>updated.
             done_with (True, updated)))"

definition new_replica_set :: "kube_lib \<Rightarrow> Deployment \<Rightarrow> ReplicaSet option" where
  "new_replica_set L d =
     (let template = d_Template (d_Spec d);
          hash = ComputeHash L template;
          labels = CloneAndAddLabel (Labels (tmpl_ObjectMeta template)) DefaultDeploymentUniqueLabelKey hash;
          newRSTemplate = template\<lparr>tmpl_ObjectMeta := (tmpl_ObjectMeta template)\<lparr>Labels := labels\<rparr>\<rparr>
      in map_option (\<lambda>newRSSelector.
           \<lparr>TypeMeta = empty_TypeMeta,
            ObjectMeta = empty_ObjectMeta
              \<lparr>Name := Name (ObjectMeta d) @ ''-'' @ hash, Namespace := Namespace (ObjectMeta d),
               OwnerReferences := Some [NewControllerRef (ObjectMeta d) ''apps/v1'' ''Deployment''],
               Labels := labels\<rparr>,
            rs_Spec = \<lparr>rs_Replicas = Some (d_replicasOf d), rs_MinReadySeconds = d_MinReadySeconds (d_Spec d),
              rs_Selector = newRSSelector, rs_Template = newRSTemplate\<rparr>,
            rs_Status = \<lparr>st_Replicas = 0, st_FullyLabeledReplicas = 0, st_ReadyReplicas = 0, st_AvailableReplicas = 0,
              st_TerminatingReplicas = None, st_ObservedGeneration = 0, st_Conditions = None\<rparr>\<rparr>)
           (CloneSelectorAndAddLabel (d_Selector (d_Spec d)) DefaultDeploymentUniqueLabelKey hash))"

definition getNewReplicaSet :: "cluster \<Rightarrow> kube_lib \<Rightarrow> Deployment \<Rightarrow> ReplicaSet list \<Rightarrow> ReplicaSet step" where
  "getNewReplicaSet C L d rsList =
     (case findNewReplicaSet L d rsList of
        Some existingNewRS \<Rightarrow> done_with existingNewRS
      | None \<Rightarrow>
          (case new_replica_set L d of
             None \<Rightarrow> panic_step
           | Some newRS \<Rightarrow>
               with_result (replicasets_create C (Namespace (ObjectMeta d)) newRS) (\<lambda>r.
                 case r of
                   Inr createdRS \<Rightarrow> done_with createdRS
                 | Inl e \<Rightarrow>
                     if IsAlreadyExists e
                     then kube_read C (\<lambda>ch s. ReplicaSetGet s (Namespace (ObjectMeta newRS)) (Name (ObjectMeta newRS)))
                     else fail_with e)))"

definition reconcileNewReplicaSet :: "cluster \<Rightarrow> ReplicaSet \<Rightarrow> Deployment \<Rightarrow> bool step" where
  "reconcileNewReplicaSet C newRS d =
     and_then (scaleReplicaSet C newRS (d_replicasOf d)) (\<lambda>(scaled, _). done_with scaled)"

fun scale_down :: "cluster \<Rightarrow> bool \<Rightarrow> ReplicaSet list \<Rightarrow> bool step" where
  "scale_down C scaledDown [] = done_with scaledDown"
| "scale_down C scaledDown (rs # oldRSs) =
     and_then (scaleReplicaSet C rs 0) (\<lambda>(scaled, _). scale_down C (scaled \<or> scaledDown) oldRSs)"

definition reconcileOldReplicaSets :: "cluster \<Rightarrow> ReplicaSet list \<Rightarrow> bool step" where
  "reconcileOldReplicaSets C oldRSs = scale_down C False oldRSs"

definition rollout :: "cluster \<Rightarrow> kube_lib \<Rightarrow> Deployment \<Rightarrow> ReplicaSet list \<Rightarrow> unit step" where
  "rollout C L d rsList =
     (let oldRSs = findOldReplicaSets L d rsList in
      and_then (getNewReplicaSet C L d rsList) (\<lambda>newRS.
      and_then (reconcileNewReplicaSet C newRS d) (\<lambda>_.
      and_then (reconcileOldReplicaSets C oldRSs) (\<lambda>_. done_with ()))))"

definition filterReplicaSetsByOwner :: "cluster \<Rightarrow> Deployment \<Rightarrow> ReplicaSet list step" where
  "filterReplicaSetsByOwner C d =
     and_then (kube_read C (\<lambda>ch s. ReplicaSetList ch s (Namespace (ObjectMeta d)) (\<lambda>labels. True))) (\<lambda>all.
       done_with (filter (\<lambda>rs. case GetControllerOf (ObjectMeta rs) of
         None \<Rightarrow> False | Some ref \<Rightarrow> or_UID ref = UID (ObjectMeta d)) all))"

definition syncDeployment :: "cluster \<Rightarrow> kube_lib \<Rightarrow> string \<Rightarrow> string \<Rightarrow> unit step" where
  "syncDeployment C L namespace name =
     with_result (kube_read C (\<lambda>ch s. DeploymentGet s namespace name)) (\<lambda>r.
       case r of
         Inl e \<Rightarrow> if IsNotFound e then done_with () else fail_with e
       | Inr d \<Rightarrow>
           and_then (filterReplicaSetsByOwner C d) (\<lambda>rsList.
             if DeletionTimestamp (ObjectMeta d) \<noteq> None then done_with () else rollout C L d rsList))"

section \<open>The plan of a rollout\<close>

definition scale_request :: "ReplicaSet \<Rightarrow> int32 \<Rightarrow> client_write list" where
  "scale_request rs n =
     (if replicasOfRS rs = n then [] else [WReplicaSetUpdate (Namespace (ObjectMeta rs)) (with_replicas rs n)])"

definition rollout_plan :: "kube_lib \<Rightarrow> Deployment \<Rightarrow> ReplicaSet list \<Rightarrow> ReplicaSet \<Rightarrow> client_write list" where
  "rollout_plan L d rsList newRS =
     scale_request newRS (d_replicasOf d) @ concat (map (\<lambda>rs. scale_request rs 0) (findOldReplicaSets L d rsList))"

abbreviation all_writes :: "client_write \<Rightarrow> bool" where "all_writes \<equiv> \<lambda>x. True"

lemma scaleReplicaSet_sends: "attempts all_writes (scale_request rs n) UNIV (scaleReplicaSet C rs n)"
  using attempts_call_then [of all_writes "[]" UNIV "\<lambda>updated. done_with (True, updated)"
      "[WReplicaSetUpdate (Namespace (ObjectMeta rs)) (with_replicas rs n)]" C]
  by (auto simp: scaleReplicaSet_def scale_request_def replicasets_update_def attempts_done)

lemma reconcileNew_sends:
  "attempts all_writes (scale_request newRS (d_replicasOf d)) UNIV (reconcileNewReplicaSet C newRS d)"
  unfolding reconcileNewReplicaSet_def
  by (rule attempts_last_then [OF scaleReplicaSet_sends]) (auto intro: attempts_done)

lemma scale_down_sends:
  "attempts all_writes (concat (map (\<lambda>rs. scale_request rs 0) oldRSs)) UNIV (scale_down C scaled oldRSs)"
proof (induction oldRSs arbitrary: scaled)
  case (Cons rs oldRSs)
  then show ?case
    using attempts_and_then [OF scaleReplicaSet_sends, where k = "\<lambda>(s, _). scale_down C (s \<or> scaled) oldRSs"]
    by (simp add: split_beta)
qed (simp add: attempts_done)

lemma rollout_rest_sends:
  "attempts all_writes (rollout_plan L d rsList newRS) UNIV
    (and_then (reconcileNewReplicaSet C newRS d) (\<lambda>_.
     and_then (reconcileOldReplicaSets C (findOldReplicaSets L d rsList)) (\<lambda>_. done_with ())))"
  unfolding rollout_plan_def reconcileOldReplicaSets_def
  by (intro attempts_and_then [OF reconcileNew_sends] attempts_last_then [OF scale_down_sends] attempts_done) simp

lemma rollout_plan_empty:
  "rollout_plan L d rsList newRS = [] \<longleftrightarrow> replicasOfRS newRS = d_replicasOf d \<and>
    (\<forall>rs \<in> set (findOldReplicaSets L d rsList). replicasOfRS rs = 0)"
  by (auto simp: rollout_plan_def scale_request_def)

section \<open>What a sync may send\<close>

text \<open>
  A sync of the deployment \<open>name\<close> of \<open>ns\<close>: it creates replica sets in \<open>ns\<close> controlled by the
  deployment, and updates replica sets in their own namespace.
\<close>

fun dep_request :: "string \<times> string \<Rightarrow> client_write \<Rightarrow> bool" where
  "dep_request (ns, name) (WReplicaSetCreate n rs) = (n = ns \<and> Namespace (ObjectMeta rs) = ns \<and>
     (case GetControllerOf (ObjectMeta rs) of
        None \<Rightarrow> False | Some r \<Rightarrow> or_Kind r = ''Deployment'' \<and> or_Name r = name))"
| "dep_request (ns, name) (WReplicaSetUpdate n rs) = (n = Namespace (ObjectMeta rs) \<and> rs_Replicas (rs_Spec rs) \<noteq> None)"
| "dep_request (ns, name) _ = False"

lemma new_replica_set_meta:
  assumes "new_replica_set L d = Some rs"
  shows "Namespace (ObjectMeta rs) = Namespace (ObjectMeta d)"
    "GetControllerOf (ObjectMeta rs) = Some (NewControllerRef (ObjectMeta d) ''apps/v1'' ''Deployment'')"
    "rs_Replicas (rs_Spec rs) = Some (d_replicasOf d)"
  using assms by (auto simp: new_replica_set_def Let_def GetControllerOf_def NewControllerRef_def)

lemma scale_scope: "sends_only C (dep_request (ns, name)) (scaleReplicaSet C rs n)"
  unfolding scaleReplicaSet_def
  by (intro sends_if sends_only_and_then sends_client sends_only_done) (simp add: with_replicas_def)

lemma scale_down_scope: "sends_only C (dep_request (ns, name)) (scale_down C b oldRSs)"
  by (induction oldRSs arbitrary: b) (auto intro!: sends_only_done sends_only_and_then scale_scope)

lemma rollout_scope:
  assumes "Namespace (ObjectMeta d) = ns" "Name (ObjectMeta d) = name"
  shows "sends_only C (dep_request (ns, name)) (rollout C L d rsList)"
proof -
  have "dep_request (ns, name) (WReplicaSetCreate (Namespace (ObjectMeta d)) rs)" if "new_replica_set L d = Some rs" for rs
    using new_replica_set_meta [OF that] assms by (simp add: NewControllerRef_def)
  then have "sends_only C (dep_request (ns, name)) (getNewReplicaSet C L d rsList)"
    unfolding getNewReplicaSet_def
    by (auto intro!: sends_only_done sends_only_then sends_client sends_if sends_only_read sends_only_fail
        simp: sends_def [of _ _ panic_step] panic_step_def split: option.split sum.split)
  then show ?thesis
    unfolding rollout_def Let_def reconcileNewReplicaSet_def reconcileOldReplicaSets_def
    by (auto intro!: sends_only_and_then scale_scope scale_down_scope sends_only_done)
qed

lemma DeploymentGet_found:
  "DeploymentGet s ns n = Inr d \<Longrightarrow> wf_state s \<Longrightarrow> Name (ObjectMeta d) = n \<and> Namespace (ObjectMeta d) = ns"
  by (auto simp: DeploymentGet_def DeploymentMutGet_def ebind_Inr_iff assert_type_def api_get_Inr stored_ok_def
      dest!: wf_state_stored split: option.splits elim!: to_Deployment.elims)

lemma syncDeployment_scope: "sends_only C (dep_request (ns, name)) (syncDeployment C L ns name)"
  unfolding syncDeployment_def
proof (rule sends_then [OF sends_read], rule sends_case_sum)
  fix r s d
  assume "wf_state s" "\<exists>ch. range_ok ch \<and> r = DeploymentGet s ns name" "r = Inr d"
  then have "Name (ObjectMeta d) = name" "Namespace (ObjectMeta d) = ns" using DeploymentGet_found by auto
  then show "sends_only C (dep_request (ns, name)) (and_then (filterReplicaSetsByOwner C d) (\<lambda>rsList.
      if DeletionTimestamp (ObjectMeta d) \<noteq> None then done_with () else rollout C L d rsList))"
    unfolding filterReplicaSetsByOwner_def
    by (intro sends_only_and_then sends_only_read sends_only_done sends_if rollout_scope)
qed (intro sends_intros)

interpretation deployment: controller "\<lambda>(ns, name) C. syncDeployment C L ns name" dep_request
  by unfold_locales (clarsimp simp: syncDeployment_scope)

section \<open>Properties\<close>

lemma getNewReplicaSet_run:
  assumes "getNewReplicaSet C L d rsList w = Some (r, w')"
  shows "case findNewReplicaSet L d rsList of
      Some rs \<Rightarrow> r = Inr rs \<and> w' = w
    | None \<Rightarrow> (\<exists>made. new_replica_set L d = Some made \<and> w_log w' = w_log w @ [WReplicaSetCreate (Namespace (ObjectMeta d)) made])"
proof (cases "findNewReplicaSet L d rsList")
  case (Some rs)
  with assms show ?thesis by (simp add: getNewReplicaSet_def done_with_def)
next
  case None
  with assms obtain made where made: "new_replica_set L d = Some made"
    by (auto simp: getNewReplicaSet_def panic_step_def split: option.splits)
  let ?k = "\<lambda>r. case r of
      Inr createdRS \<Rightarrow> done_with createdRS
    | Inl e \<Rightarrow> if IsAlreadyExists e
               then kube_read C (\<lambda>ch s. ReplicaSetGet s (Namespace (ObjectMeta made)) (Name (ObjectMeta made)))
               else fail_with e"
  have "with_result (replicasets_create C (Namespace (ObjectMeta d)) made) ?k w = Some (r, w')"
    using assms None made by (simp add: getNewReplicaSet_def)
  then obtain r1 w1 where create: "replicasets_create C (Namespace (ObjectMeta d)) made w = Some (r1, w1)" and rest: "?k r1 w1 = Some (r, w')"
    by (rule with_resultE)
  have "w_log w1 = w_log w @ [WReplicaSetCreate (Namespace (ObjectMeta d)) made]"
    using create by (auto simp: replicasets_create_def kube_call_def split: option.splits)
  moreover have "w_log w' = w_log w1" using rest
    by (auto simp: done_with_def fail_with_def kube_read_def kube_call_def split: sum.splits if_splits option.splits)
  ultimately show ?thesis using None made by simp
qed

text \<open>C19: A rollout refines its plan. When a replica set with the deployment's template exists, a
  rollout that succeeds sends exactly the plan: the new replica set scaled to the deployment's
  count, every other one to zero, and nothing at all when the counts are there already; a failed
  one sends a prefix of it. Otherwise it first creates the new replica set.\<close>

theorem rollout_refines_plan:
  assumes "rollout C L d rsList w = Some (r, w')"
  shows "\<exists>newRS made ws. w_log w' = w_log w @ made @ ws \<and> prefix ws (rollout_plan L d rsList newRS) \<and>
    (r = Inr () \<longrightarrow> ws = rollout_plan L d rsList newRS) \<and>
    (case findNewReplicaSet L d rsList of
       Some rs \<Rightarrow> newRS = rs \<and> made = []
     | None \<Rightarrow> Some made = map_option (\<lambda>rs. [WReplicaSetCreate (Namespace (ObjectMeta d)) rs]) (new_replica_set L d)) \<and>
    (rollout_plan L d rsList newRS = [] \<longleftrightarrow> replicasOfRS newRS = d_replicasOf d \<and>
      (\<forall>rs \<in> set (findOldReplicaSets L d rsList). replicasOfRS rs = 0))"
proof -
  define made where "made = (if findNewReplicaSet L d rsList = None
    then the (map_option (\<lambda>rs. [WReplicaSetCreate (Namespace (ObjectMeta d)) rs]) (new_replica_set L d)) else [])"
  have made: "case findNewReplicaSet L d rsList of
      Some rs \<Rightarrow> r1 = Inr rs \<and> w_log w1 = w_log w @ made \<and> made = []
    | None \<Rightarrow> Some made = map_option (\<lambda>rs. [WReplicaSetCreate (Namespace (ObjectMeta d)) rs]) (new_replica_set L d) \<and>
        w_log w1 = w_log w @ made"
    if "getNewReplicaSet C L d rsList w = Some (r1, w1)" for r1 w1
    using getNewReplicaSet_run [OF that] by (auto simp: made_def split: option.splits)
  let ?rest = "\<lambda>newRS. and_then (reconcileNewReplicaSet C newRS d) (\<lambda>_.
      and_then (reconcileOldReplicaSets C (findOldReplicaSets L d rsList)) (\<lambda>_. done_with ()))"
  from assms have "and_then (getNewReplicaSet C L d rsList) ?rest w = Some (r, w')" by (simp add: rollout_def Let_def)
  then show ?thesis
  proof (cases rule: and_thenE)
    case (failed e)
    from made [OF failed(1)] failed(2) show ?thesis
      by (intro exI [of _ undefined] exI [of _ made] exI [of _ "[]"]) (auto simp: rollout_plan_empty split: option.splits)
  next
    case (passed newRS w1)
    from attemptsD [OF rollout_rest_sends passed(2)] obtain ws where ws: "w_log w' = w_log w1 @ ws"
      "\<And>e. r = Inl e \<Longrightarrow> prefix (filter all_writes ws) (rollout_plan L d rsList newRS)"
      "\<And>x. r = Inr x \<Longrightarrow> x \<in> UNIV \<and> filter all_writes ws = rollout_plan L d rsList newRS" by blast
    then have "prefix ws (rollout_plan L d rsList newRS)" "r = Inr () \<Longrightarrow> ws = rollout_plan L d rsList newRS"
      by (cases r; simp)+
    with made [OF passed(1)] ws(1) show ?thesis
      by (intro exI [of _ newRS] exI [of _ made] exI [of _ ws]) (auto simp: rollout_plan_empty split: option.splits)
  qed
qed

text \<open>\<open>Semantic.DeepEqual\<close> takes a nil map and an empty one as equal.\<close>

definition semantic_equal :: "kube_lib \<Rightarrow> bool" where
  "semantic_equal L \<longleftrightarrow> (\<forall>t1 t2. tmpl_Spec t1 = tmpl_Spec t2 \<and>
     (tmpl_ObjectMeta t1)\<lparr>Labels := None\<rparr> = (tmpl_ObjectMeta t2)\<lparr>Labels := None\<rparr> \<and>
     copy_map (Labels (tmpl_ObjectMeta t1)) = copy_map (Labels (tmpl_ObjectMeta t2)) \<longrightarrow> templates_DeepEqual L t1 t2)"

definition selects_template :: "LabelSelector option \<Rightarrow> PodTemplateSpec \<Rightarrow> bool" where
  "selects_template selector template \<longleftrightarrow>
     (case selector of None \<Rightarrow> False
      | Some sel \<Rightarrow> fmpred (\<lambda>k v. map_get (Labels (tmpl_ObjectMeta template)) k = Some v) (copy_map (MatchLabels sel)))"

text \<open>
  The template of the replica set the controller makes is the deployment's up to the hash label, so it
  is the new set of the deployment; and the set selects its own template if the deployment does.
\<close>

lemma made_template:
  assumes "new_replica_set L d = Some rs"
  shows "tmpl_Spec (rs_Template (rs_Spec rs)) = tmpl_Spec (d_Template (d_Spec d))"
    "tmpl_ObjectMeta (rs_Template (rs_Spec rs)) = (tmpl_ObjectMeta (d_Template (d_Spec d)))
      \<lparr>Labels := Some (fmupd DefaultDeploymentUniqueLabelKey (ComputeHash L (d_Template (d_Spec d)))
        (copy_map (Labels (tmpl_ObjectMeta (d_Template (d_Spec d))))))\<rparr>"
  using assms by (auto simp: new_replica_set_def Let_def CloneAndAddLabel_def DefaultDeploymentUniqueLabelKey_def)

lemma made_equal:
  assumes "semantic_equal L" "new_replica_set L d = Some rs"
  shows "EqualIgnoreHash L (rs_Template (rs_Spec rs)) (d_Template (d_Spec d))"
proof -
  have "fmdrop k (fmupd k v f) = fmdrop k f" for k v and f :: str_map by (rule fmap_ext) simp
  then show ?thesis
    unfolding EqualIgnoreHash_def using assms(1) made_template [OF assms(2)]
    by (auto simp: semantic_equal_def without_label_def copy_map_def split: option.split)
qed

lemma made_selects:
  assumes "new_replica_set L d = Some rs" "selects_template (d_Selector (d_Spec d)) (d_Template (d_Spec d))"
  shows "selects_template (rs_Selector (rs_Spec rs)) (rs_Template (rs_Spec rs))"
proof -
  let ?key = DefaultDeploymentUniqueLabelKey and ?t = "d_Template (d_Spec d)"
  have key: "?key \<noteq> []" by (simp add: DefaultDeploymentUniqueLabelKey_def)
  obtain sel where sel: "d_Selector (d_Spec d) = Some sel" using assms(2) by (auto simp: selects_template_def split: option.splits)
  have "rs_Selector (rs_Spec rs) = Some \<lparr>MatchLabels = Some (fmupd ?key (ComputeHash L ?t) (copy_map (MatchLabels sel))),
      MatchExpressions = MatchExpressions sel\<rparr>"
    using assms(1) sel key by (auto simp: new_replica_set_def Let_def CloneSelectorAndAddLabel_def)
  then show ?thesis using assms(2) sel made_template [OF assms(1)]
    by (auto simp: selects_template_def copy_map_def map_get_def fmpred_iff split: option.splits if_splits)
qed

section \<open>An example\<close>

definition same_template :: "PodTemplateSpec \<Rightarrow> PodTemplateSpec \<Rightarrow> bool" where
  "same_template t1 t2 \<longleftrightarrow> tmpl_Spec t1 = tmpl_Spec t2 \<and>
     (tmpl_ObjectMeta t1)\<lparr>Labels := None\<rparr> = (tmpl_ObjectMeta t2)\<lparr>Labels := None\<rparr> \<and>
     copy_map (Labels (tmpl_ObjectMeta t1)) = copy_map (Labels (tmpl_ObjectMeta t2))"

definition rollout_lib :: kube_lib where
  "rollout_lib = example_lib\<lparr>templates_DeepEqual := same_template\<rparr>"

lemma rollout_lib_ok: "semantic_equal rollout_lib"
  by (simp add: semantic_equal_def rollout_lib_def same_template_def)

definition site_spec :: "string \<Rightarrow> PodSpec" where
  "site_spec host = empty_PodSpec\<lparr>Hostname := host\<rparr>"

definition site_template :: "string \<Rightarrow> PodTemplateSpec" where
  "site_template host = \<lparr>tmpl_ObjectMeta = empty_ObjectMeta\<lparr>Labels := Some (fmupd ''app'' ''site'' fmempty)\<rparr>,
     tmpl_Spec = site_spec host\<rparr>"

definition site :: Deployment where
  "site = \<lparr>TypeMeta = empty_TypeMeta,
     ObjectMeta = empty_ObjectMeta\<lparr>Name := ''site'', Namespace := ''shop'', UID := ''d''\<rparr>,
     d_Spec = \<lparr>d_Replicas = Some 3, d_Selector = Some \<lparr>MatchLabels = Some (fmupd ''app'' ''site'' fmempty),
         MatchExpressions = None\<rparr>,
       d_Template = site_template ''b'', d_Strategy = empty_DeploymentStrategy, d_MinReadySeconds = 0,
       d_RevisionHistoryLimit = None, d_Paused = False, d_ProgressDeadlineSeconds = None\<rparr>,
     d_Status = empty_DeploymentStatus\<rparr>"

definition site_rs :: "string \<Rightarrow> string \<Rightarrow> int32 \<Rightarrow> ReplicaSet" where
  "site_rs uid host n = \<lparr>TypeMeta = empty_TypeMeta,
     ObjectMeta = empty_ObjectMeta\<lparr>Name := ''site-'' @ uid, Namespace := ''shop'', UID := uid\<rparr>,
     rs_Spec = \<lparr>rs_Replicas = Some n, rs_MinReadySeconds = 0, rs_Selector = None, rs_Template = site_template host\<rparr>,
     rs_Status = \<lparr>st_Replicas = 0, st_FullyLabeledReplicas = 0, st_ReadyReplicas = 0, st_AvailableReplicas = 0,
       st_TerminatingReplicas = None, st_ObservedGeneration = 0, st_Conditions = None\<rparr>\<rparr>"

lemma site_find:
  "findNewReplicaSet rollout_lib site [site_rs ''o'' ''a'' 0, site_rs ''n'' ''b'' 3] = Some (site_rs ''n'' ''b'' 3)"
  by (simp add: findNewReplicaSet_def EqualIgnoreHash_def rollout_lib_def same_template_def without_label_def
      site_rs_def site_def site_template_def site_spec_def empty_PodSpec_def)

lemma site_rollout:
  "rollout example_cluster rollout_lib site [site_rs ''o'' ''a'' 0, site_rs ''n'' ''b'' 3] (world shop_state) =
    Some (Inr (), world shop_state)"
proof -
  have "findOldReplicaSets rollout_lib site [site_rs ''o'' ''a'' 0, site_rs ''n'' ''b'' 3] = [site_rs ''o'' ''a'' 0]"
    unfolding findOldReplicaSets_def site_find by (simp add: site_rs_def)
  moreover have "replicasOfRS (site_rs uid host n) = n" "d_replicasOf site = 3" for uid host n
    by (simp_all add: replicasOfRS_def site_rs_def d_replicasOf_def site_def)
  ultimately show ?thesis
    by (simp add: rollout_def getNewReplicaSet_def site_find reconcileNewReplicaSet_def reconcileOldReplicaSets_def
        scaleReplicaSet_def and_then_def with_result_def done_with_def)
qed

theorem rollout_refines_plan_witness:
  "\<exists>newRS. newRS = site_rs ''n'' ''b'' 3 \<and>
    rollout_plan rollout_lib site [site_rs ''o'' ''a'' 0, site_rs ''n'' ''b'' 3] newRS = []"
  using rollout_refines_plan [OF site_rollout] by (auto simp: site_find)

end
