(* ===== verification/Ctl_Deployment_Converge.thy ===== *)
theory Ctl_Deployment_Converge
  imports Ctl_Deployment Ctl_ReplicaSet_Converge
begin

text \<open>
  The deployment controller, the replica set controller and the API model together, when no other
  client interferes: one successful sync of a deployment leaves the stored replica sets asking for
  the deployment's count in one set and for zero in every other one, and the syncs of the replica set
  controller that follow bring the pods of each set to that number. A replica set that was made is
  the one the next sync finds.
\<close>

section \<open>What the replica sets of a deployment ask for\<close>

definition owned_set :: "Deployment \<Rightarrow> ReplicaSet \<Rightarrow> bool" where
  "owned_set d rs \<longleftrightarrow> Namespace (ObjectMeta rs) = Namespace (ObjectMeta d) \<and>
     (case GetControllerOf (ObjectMeta rs) of None \<Rightarrow> False | Some ref \<Rightarrow> or_UID ref = UID (ObjectMeta d))"

definition sets_of :: "State \<Rightarrow> Deployment \<Rightarrow> ReplicaSet set" where
  "sets_of s d = {rs. owned_set d rs \<and> (\<exists>key. st_m s key = Some (KReplicaSet rs))}"

text \<open>The abstraction of the state: the count each replica set of the deployment asks for, by its key.\<close>

definition asked :: "State \<Rightarrow> Deployment \<Rightarrow> KKey \<rightharpoonup> int32" where
  "asked s d key = (case st_m s key of
       Some (KReplicaSet rs) \<Rightarrow> if owned_set d rs then Some (replicasOfRS rs) else None
     | _ \<Rightarrow> None)"

definition sets_live :: "State \<Rightarrow> Deployment \<Rightarrow> bool" where
  "sets_live s d \<longleftrightarrow> (\<forall>key rs. st_m s key = Some (KReplicaSet rs) \<longrightarrow> owned_set d rs \<longrightarrow>
     DeletionTimestamp (ObjectMeta rs) = None)"

text \<open>
  The functions of Kubernetes keep the replica count a client sets: defaulting fills in a missing one
  only, and the conversions copy it. They leave the owner references alone; an update takes the
  deletion timestamp from the object sent or from the stored one.
\<close>

definition keeps_count :: "ReplicaSet \<Rightarrow> ReplicaSet \<Rightarrow> bool" where
  "keeps_count x y \<longleftrightarrow> (\<forall>n. rs_Replicas (rs_Spec x) = Some n \<longrightarrow> rs_Replicas (rs_Spec y) = Some n)"

definition keeps_set :: "ReplicaSet \<Rightarrow> ReplicaSet \<Rightarrow> bool" where
  "keeps_set x y \<longleftrightarrow> keeps_count x y \<and> owners_kept (ObjectMeta y) (ObjectMeta x)"

definition set_hooks_keep :: "ReplicaSet kind_ops \<Rightarrow> bool" where
  "set_hooks_keep ops \<longleftrightarrow>
     (\<forall>x y. to_internal ops x = Inr y \<longrightarrow> keeps_count x y) \<and>
     (\<forall>x y. to_versioned ops x = Inr y \<longrightarrow> keeps_count x y) \<and>
     (\<forall>x. keeps_set x (SetObjectDefaults ops x)) \<and> (\<forall>x. keeps_set x (PrepareForCreate ops x)) \<and>
     (\<forall>x. keeps_set x (Canonicalize ops x)) \<and>
     (\<forall>ns x old y. RestBeforeUpdate ops ns x old = Inr y \<longrightarrow> keeps_count x y \<and>
        OwnerReferences (ObjectMeta y) = OwnerReferences (ObjectMeta x) \<and>
        DeletionTimestamp (ObjectMeta y) \<in> {DeletionTimestamp (ObjectMeta x), DeletionTimestamp (ObjectMeta old)})"

text \<open>
  A template to which Kubernetes has nothing to add, such as one that has been through the API before:
  defaulting, the conversions and the strategies leave it as it is.
\<close>

abbreviation template_of_set :: "ReplicaSet \<Rightarrow> PodTemplateSpec" where "template_of_set rs \<equiv> rs_Template (rs_Spec rs)"

definition template_settled :: "ReplicaSet kind_ops \<Rightarrow> PodTemplateSpec \<Rightarrow> bool" where
  "template_settled ops t \<longleftrightarrow> (\<forall>x. template_of_set x = t \<longrightarrow>
     template_of_set (SetObjectDefaults ops x) = t \<and> template_of_set (PrepareForCreate ops x) = t \<and>
     template_of_set (Canonicalize ops x) = t \<and>
     (\<forall>y. to_internal ops x = Inr y \<longrightarrow> template_of_set y = t) \<and>
     (\<forall>y. to_versioned ops x = Inr y \<longrightarrow> template_of_set y = t) \<and>
     (\<forall>ns old y. RestBeforeUpdate ops ns x old = Inr y \<longrightarrow> template_of_set y = t))"

lemma template_settledD:
  assumes "template_settled ops t" "template_of_set x = t"
  shows "template_of_set (SetObjectDefaults ops x) = t" "template_of_set (PrepareForCreate ops x) = t"
    "template_of_set (Canonicalize ops x) = t" "to_internal ops x = Inr y \<Longrightarrow> template_of_set y = t"
    "to_versioned ops x = Inr y \<Longrightarrow> template_of_set y = t" "RestBeforeUpdate ops ns x old = Inr y \<Longrightarrow> template_of_set y = t"
  using assms unfolding template_settled_def by blast+

definition keeps_template :: "ReplicaSet kind_ops \<Rightarrow> ReplicaSet \<Rightarrow> ReplicaSet \<Rightarrow> bool" where
  "keeps_template ops x y \<longleftrightarrow> (template_settled ops (template_of_set x) \<longrightarrow> template_of_set y = template_of_set x)"

lemma stored_set_key: "wf_state s \<Longrightarrow> st_m s key = Some (KReplicaSet rs) \<Longrightarrow> key = set_key rs"
  by (cases key) (auto simp: set_key_def stored_ok_def dest: wf_state_stored)

lemma set_in: "wf_state s \<Longrightarrow> rs \<in> sets_of s d \<longleftrightarrow> st_m s (set_key rs) = Some (KReplicaSet rs) \<and> owned_set d rs"
  using stored_set_key by (auto simp: sets_of_def)

lemma set_key_inj: "wf_state s \<Longrightarrow> inj_on set_key (sets_of s d)"
proof (rule inj_onI)
  fix x y
  assume wf: "wf_state s" and x: "x \<in> sets_of s d" and y: "y \<in> sets_of s d" and eq: "set_key x = set_key y"
  have "Some (KReplicaSet x) = st_m s (set_key x)" using set_in [OF wf] x by simp
  also have "\<dots> = Some (KReplicaSet y)" unfolding eq using set_in [OF wf] y by simp
  finally show "x = y" by simp
qed

lemma asked_sets: "wf_state s \<Longrightarrow> asked s d key \<noteq> None \<longleftrightarrow> key \<in> set_key ` sets_of s d"
proof
  assume wf: "wf_state s" and "asked s d key \<noteq> None"
  then obtain rs where "st_m s key = Some (KReplicaSet rs)" "owned_set d rs"
    by (auto simp: asked_def split: option.splits kobject.splits if_splits)
  then show "key \<in> set_key ` sets_of s d" using stored_set_key [OF wf] by (auto simp: sets_of_def)
next
  assume "wf_state s" "key \<in> set_key ` sets_of s d"
  then show "asked s d key \<noteq> None" using set_in by (auto simp: asked_def)
qed

lemma asked_dom: "wf_state s \<Longrightarrow> dom (asked s d) = set_key ` sets_of s d"
  using asked_sets unfolding dom_def by blast

lemma asked_count: "wf_state s \<Longrightarrow> rs \<in> sets_of s d \<Longrightarrow> asked s d (set_key rs) = Some (replicasOfRS rs)"
  by (simp add: set_in asked_def)

lemma owned_set_cong: "same_id (ObjectMeta u) (ObjectMeta rs) \<Longrightarrow> owners_kept (ObjectMeta u) (ObjectMeta rs) \<Longrightarrow>
    owned_set d u = owned_set d rs"
  by (simp add: owned_set_def GetControllerOf_def same_id_def owners_kept_def)

text \<open>One replica set written: it asks for \<open>n\<close> from now on, and nothing else changes.\<close>

lemma asked_written:
  assumes "st_m s' = (st_m s)(key \<mapsto> KReplicaSet u)" "owned_set d u" "DeletionTimestamp (ObjectMeta u) = None"
  shows "asked s' d = (asked s d)(key \<mapsto> replicasOfRS u)" "sets_live s d \<Longrightarrow> sets_live s' d"
  using assms by (auto simp: asked_def sets_live_def fun_eq_iff)

section \<open>Scaling one replica set\<close>

lemma set_hooksD:
  assumes "set_hooks_keep ops"
  shows "to_internal ops x = Inr y \<Longrightarrow> keeps_count x y" "to_versioned ops x = Inr y \<Longrightarrow> keeps_count x y"
    "keeps_set x (SetObjectDefaults ops x)" "keeps_set x (PrepareForCreate ops x)" "keeps_set x (Canonicalize ops x)"
    and "RestBeforeUpdate ops ns x old = Inr y \<Longrightarrow> keeps_count x y"
    "RestBeforeUpdate ops ns x old = Inr y \<Longrightarrow> OwnerReferences (ObjectMeta y) = OwnerReferences (ObjectMeta x)"
    "RestBeforeUpdate ops ns x old = Inr y \<Longrightarrow>
      DeletionTimestamp (ObjectMeta y) \<in> {DeletionTimestamp (ObjectMeta x), DeletionTimestamp (ObjectMeta old)}"
proof -
  note laws = assms [unfolded set_hooks_keep_def]
  show "to_internal ops x = Inr y \<Longrightarrow> keeps_count x y" "to_versioned ops x = Inr y \<Longrightarrow> keeps_count x y"
    "keeps_set x (SetObjectDefaults ops x)" "keeps_set x (PrepareForCreate ops x)" "keeps_set x (Canonicalize ops x)"
    using laws by simp_all
  from laws have upd: "\<And>ns x old y. RestBeforeUpdate ops ns x old = Inr y \<Longrightarrow> keeps_count x y \<and>
      OwnerReferences (ObjectMeta y) = OwnerReferences (ObjectMeta x) \<and>
      DeletionTimestamp (ObjectMeta y) \<in> {DeletionTimestamp (ObjectMeta x), DeletionTimestamp (ObjectMeta old)}" by simp
  show "RestBeforeUpdate ops ns x old = Inr y \<Longrightarrow> keeps_count x y"
    "RestBeforeUpdate ops ns x old = Inr y \<Longrightarrow> OwnerReferences (ObjectMeta y) = OwnerReferences (ObjectMeta x)"
    "RestBeforeUpdate ops ns x old = Inr y \<Longrightarrow>
      DeletionTimestamp (ObjectMeta y) \<in> {DeletionTimestamp (ObjectMeta x), DeletionTimestamp (ObjectMeta old)}"
    using upd by blast+
qed

lemma update_pipeline_count:
  assumes laws: "upstream_laws E" "set_hooks_keep (rsOps E)"
    and pipe: "applyValidationAndDefaultingOnUpdate E (KReplicaSet x) (KReplicaSet old) ns = Inr ob"
    and x: "rs_Replicas (rs_Spec x) = Some n" "DeletionTimestamp (ObjectMeta x) = None"
      "DeletionTimestamp (ObjectMeta old) = None"
  shows "\<exists>u. ob = KReplicaSet u \<and> same_id (ObjectMeta u) (ObjectMeta old) \<and> owners_kept (ObjectMeta u) (ObjectMeta x) \<and>
    rs_Replicas (rs_Spec u) = Some n \<and> keeps_template (rsOps E) x u"
proof -
  note hooks = set_hooksD [OF laws(2)]
  note conv = ops_convertedD [OF upstream_opsD(4) [OF laws(1)]]
  let ?d = "SetObjectDefaults (rsOps E) x"
  from pipe obtain i oldi z u where steps: "to_internal (rsOps E) ?d = Inr i" "to_internal (rsOps E) old = Inr oldi"
    "RestBeforeUpdate (rsOps E) ns i oldi = Inr z" "to_versioned (rsOps E) z = Inr u" and ob: "ob = KReplicaSet u"
    by (auto simp: applyValidationAndDefaultingOnUpdate_def convert_in_def convert_out_def ebind_Inr_iff check_Inr_iff
        typed_update_def map_sum_Inr split: sum.splits)
  have "rs_Replicas (rs_Spec u) = Some n"
    using x(1) hooks(3) [of x] hooks(1) [OF steps(1)] hooks(6) [OF steps(3)] hooks(2) [OF steps(4)]
    by (simp add: keeps_set_def keeps_count_def)
  moreover have "owners_kept (ObjectMeta i) (ObjectMeta x)"
    using converted_owners [OF conv(1) [OF steps(1)]] hooks(3) [of x] by (auto simp: keeps_set_def owners_kept_def)
  then have "owners_kept (ObjectMeta u) (ObjectMeta x)"
    using converted_owners [OF conv(1) [OF steps(2)]] converted_owners [OF conv(2) [OF steps(4)]]
      hooks(7,8) [OF steps(3)] x(2,3) by (auto simp: owners_kept_def)
  moreover have "same_id (ObjectMeta u) (ObjectMeta old)"
    using update_pipeline_keeps(2) [OF pipe laws(1)] ob by simp
  moreover have "keeps_template (rsOps E) x u"
    using template_settledD [of "rsOps E" "template_of_set x"] steps unfolding keeps_template_def by blast
  ultimately show ?thesis using ob by blast
qed

text \<open>Writing \<open>rs\<close> back with another count.\<close>

definition scaled_to :: "ReplicaSet kind_ops \<Rightarrow> int32 \<Rightarrow> ReplicaSet \<Rightarrow> State \<Rightarrow> State \<Rightarrow> bool" where
  "scaled_to ops n rs s s' \<longleftrightarrow> (\<exists>u. st_m s' = (st_m s)(set_key rs \<mapsto> KReplicaSet u) \<and> keeps_template ops rs u \<and>
     same_id (ObjectMeta u) (ObjectMeta rs) \<and> owners_kept (ObjectMeta u) (ObjectMeta rs) \<and> replicasOfRS u = n)"

lemma scaled_already:
  "st_m s (set_key rs) = Some (KReplicaSet rs) \<Longrightarrow> st_m s' = st_m s \<Longrightarrow> replicasOfRS rs = n \<Longrightarrow> scaled_to ops n rs s s'"
  unfolding scaled_to_def by (intro exI [of _ rs]) (auto simp: owners_kept_def keeps_template_def)

lemma updateTx_count:
  assumes laws: "upstream_laws E" "set_hooks_keep (rsOps E)" and rs: "DeletionTimestamp (ObjectMeta rs) = None"
    and stored: "st_m s (set_key rs) = Some (KReplicaSet rs)" and quiet: "\<And>i s. others i s = s"
    and call: "updateTx E chs others ''ReplicaSet'' (Namespace (ObjectMeta rs)) (KReplicaSet (with_replicas rs n)) s =
      Some (Inr ob, s')"
  shows "scaled_to (rsOps E) n rs s s'"
proof -
  let ?ns = "Namespace (ObjectMeta rs)" and ?x = "with_replicas rs n"
  have om: "ObjectMeta ?x = ObjectMeta rs" by (simp add: with_replicas_def)
  have "\<exists>m u rv. applyValidationAndDefaultingOnUpdate E (set_metadata (KReplicaSet ?x)
        ((metadata (KReplicaSet ?x))\<lparr>Namespace := ?ns, ResourceVersion := rv\<rparr>)) (KReplicaSet rs) ?ns = Inr u \<and>
      written_as (set_key rs) (KReplicaSet rs) u (interfered others m s) s'"
    by (rule updateTx_written [OF laws(1) _ stored _ _ call]) (use rs quiet om in \<open>simp_all add: set_key_def\<close>)
  then obtain u rv where
    pipe: "applyValidationAndDefaultingOnUpdate E
      (KReplicaSet (?x\<lparr>ObjectMeta := (ObjectMeta rs)\<lparr>Namespace := ?ns, ResourceVersion := rv\<rparr>\<rparr>)) (KReplicaSet rs) ?ns = Inr u"
    and written: "written_as (set_key rs) (KReplicaSet rs) u s s'"
    using interfered_idle [OF quiet] by (auto simp: om)
  from update_pipeline_count [OF laws pipe _ _ rs, of n] obtain v where u: "u = KReplicaSet v"
    and v: "same_id (ObjectMeta v) (ObjectMeta rs)" "owners_kept (ObjectMeta v) (ObjectMeta rs)" "rs_Replicas (rs_Spec v) = Some n"
      "keeps_template (rsOps E) rs v"
    using rs by (auto simp: with_replicas_def owners_kept_def keeps_template_def)
  from written consider (same) "storage_view u = storage_view (KReplicaSet rs)" "st_m s' = st_m s"
    | (stored) r where "st_m s' = (st_m s)(set_key rs \<mapsto> set_metadata u ((metadata u)\<lparr>ResourceVersion := r\<rparr>))"
    unfolding written_as_def by blast
  then show ?thesis
  proof cases
    case same
    then have "rs_Replicas (rs_Spec rs) = Some n"
      using v(3) u by (auto simp: storage_view_def dest: arg_cong [of _ _ rs_Spec])
    then show ?thesis using scaled_already [OF stored same(2)] by (simp add: replicasOfRS_def)
  next
    case (stored r)
    then show ?thesis using v u unfolding scaled_to_def
      by (intro exI [of _ "v\<lparr>ObjectMeta := (ObjectMeta v)\<lparr>ResourceVersion := r\<rparr>\<rparr>"])
        (simp add: same_id_def owners_kept_def replicasOfRS_def keeps_template_def)
  qed
qed

lemma scaleReplicaSet_scales:
  assumes quiet: "quiet_cluster C L" "set_hooks_keep (rsOps (cl_env C))" and rs: "DeletionTimestamp (ObjectMeta rs) = None"
    and stored: "st_m (w_state w) (set_key rs) = Some (KReplicaSet rs)"
    and run: "scaleReplicaSet C rs n w = Some (Inr x, w')"
  shows "scaled_to (rsOps (cl_env C)) n rs (w_state w) (w_state w')"
proof (cases "replicasOfRS rs = n")
  case True
  with run stored show ?thesis by (intro scaled_already) (auto simp: scaleReplicaSet_def done_with_def)
next
  case False
  with run obtain u w1 where "replicasets_update C (Namespace (ObjectMeta rs)) (with_replicas rs n) w = Some (Inr u, w1)"
    and "w' = w1" unfolding scaleReplicaSet_def by (auto simp: done_with_def elim!: and_thenE)
  then obtain ob where "updateTx (cl_env C) (cl_choices C (w_calls w)) (cl_others C (w_calls w)) ''ReplicaSet''
      (Namespace (ObjectMeta rs)) (KReplicaSet (with_replicas rs n)) (w_state w) = Some (Inr ob, w_state w')"
    by (auto simp: replicasets_update_def kube_call_def ReplicaSetUpdateTx_def assert_call_def ebind_Inr_iff
        split: option.splits)
  from updateTx_count [OF _ quiet(2) rs stored _ this] quiet(1) show ?thesis
    by (simp add: quiet_cluster_def cluster_ok_def alone_def)
qed

text \<open>What else is stored, and the templates of the replica sets that are written.\<close>

definition templates_kept :: "ReplicaSet kind_ops \<Rightarrow> (KKey \<rightharpoonup> kobject) \<Rightarrow> (KKey \<rightharpoonup> kobject) \<Rightarrow> bool" where
  "templates_kept ops m m' \<longleftrightarrow> (\<forall>key. m' key = m key \<or>
     (\<exists>rs u. m key = Some (KReplicaSet rs) \<and> m' key = Some (KReplicaSet u) \<and> keeps_template ops rs u))"

lemma templates_kept_refl [simp]: "templates_kept ops m m"
  by (simp add: templates_kept_def)

lemma keeps_template_trans: "keeps_template ops a b \<Longrightarrow> keeps_template ops b c \<Longrightarrow> keeps_template ops a c"
  by (auto simp: keeps_template_def)

lemma templates_kept_trans:
  assumes "templates_kept ops m m1" "templates_kept ops m1 m2"
  shows "templates_kept ops m m2"
  unfolding templates_kept_def
proof
  fix key
  show "m2 key = m key \<or> (\<exists>rs u. m key = Some (KReplicaSet rs) \<and> m2 key = Some (KReplicaSet u) \<and> keeps_template ops rs u)"
    using assms [unfolded templates_kept_def, THEN spec, of key] keeps_template_trans by (elim disjE exE conjE) auto
qed

lemma templates_kept_other: "templates_kept ops m m' \<Longrightarrow> m key = Some ob \<Longrightarrow> kind_of ob \<noteq> ''ReplicaSet'' \<Longrightarrow> m' key = Some ob"
  unfolding templates_kept_def by (elim allE [of _ key]) auto

text \<open>On the abstraction: the key of \<open>rs\<close> now asks for \<open>n\<close>.\<close>

lemma scaled_asked:
  assumes "scaled_to ops n rs s s'" "owned_set d rs" "DeletionTimestamp (ObjectMeta rs) = None"
  shows "asked s' d = (asked s d)(set_key rs \<mapsto> n) \<and> (sets_live s d \<longrightarrow> sets_live s' d) \<and>
    (\<forall>key. key \<noteq> set_key rs \<longrightarrow> st_m s' key = st_m s key) \<and>
    (st_m s (set_key rs) = Some (KReplicaSet rs) \<longrightarrow> templates_kept ops (st_m s) (st_m s'))"
proof -
  from assms(1) obtain u where u: "st_m s' = (st_m s)(set_key rs \<mapsto> KReplicaSet u)" "replicasOfRS u = n" "keeps_template ops rs u"
    and kept: "same_id (ObjectMeta u) (ObjectMeta rs)" "owners_kept (ObjectMeta u) (ObjectMeta rs)"
    by (auto simp: scaled_to_def)
  have "owned_set d u" "DeletionTimestamp (ObjectMeta u) = None"
    using owned_set_cong [OF kept] assms(2,3) kept(2) by (simp_all add: owners_kept_def)
  from asked_written [OF u(1) this] u show ?thesis by (auto simp: templates_kept_def)
qed

section \<open>Scaling the old replica sets down\<close>

definition stored_sets :: "Deployment \<Rightarrow> ReplicaSet list \<Rightarrow> State \<Rightarrow> bool" where
  "stored_sets d rss s \<longleftrightarrow> (\<forall>rs \<in> set rss. st_m s (set_key rs) = Some (KReplicaSet rs) \<and> owned_set d rs \<and>
     DeletionTimestamp (ObjectMeta rs) = None)"

lemma scale_down_zeroes:
  assumes quiet: "quiet_cluster C L" "set_hooks_keep (rsOps (cl_env C))"
  shows "sets_live (w_state w) d \<Longrightarrow> stored_sets d rss (w_state w) \<Longrightarrow> distinct (map set_key rss) \<Longrightarrow>
    scale_down C b rss w = Some (Inr x, w') \<Longrightarrow>
    sets_live (w_state w') d \<and> templates_kept (rsOps (cl_env C)) (st_m (w_state w)) (st_m (w_state w')) \<and>
    asked (w_state w') d = (\<lambda>key. if key \<in> set_key ` set rss then Some 0 else asked (w_state w) d key)"
proof (induction rss arbitrary: b w)
  case Nil
  then show ?case by (auto simp: done_with_def)
next
  case (Cons rs rss)
  from Cons.prems(4) obtain y w1 where one: "scaleReplicaSet C rs 0 w = Some (Inr y, w1)"
    and rest: "scale_down C (fst y \<or> b) rss w1 = Some (Inr x, w')"
    by (auto elim!: and_thenE)
  from Cons.prems(2) have rs: "DeletionTimestamp (ObjectMeta rs) = None" "st_m (w_state w) (set_key rs) = Some (KReplicaSet rs)"
    "owned_set d rs" by (simp_all add: stored_sets_def)
  from scaled_asked [OF scaleReplicaSet_scales [OF quiet rs(1,2) one] rs(3,1)] Cons.prems(1) rs(2)
  have kept: "templates_kept (rsOps (cl_env C)) (st_m (w_state w)) (st_m (w_state w1))" and w1: "asked (w_state w1) d = (asked (w_state w) d)(set_key rs \<mapsto> 0)" "sets_live (w_state w1) d"
    and same: "\<And>key. key \<noteq> set_key rs \<Longrightarrow> st_m (w_state w1) key = st_m (w_state w) key" by auto
  have "stored_sets d rss (w_state w1)"
    using Cons.prems(2,3) same unfolding stored_sets_def by (metis distinct.simps(2) image_eqI list.set_intros(2) list.simps(9) set_map)
  from Cons.IH [OF w1(2) this _ rest] Cons.prems(3) w1(1) templates_kept_trans [OF kept] show ?case
    by (auto simp: fun_eq_iff)
qed

section \<open>The new replica set\<close>

definition new_set_key :: "kube_lib \<Rightarrow> Deployment \<Rightarrow> KKey" where
  "new_set_key L d = KKey ''ReplicaSet'' (Name (ObjectMeta d) @ ''-'' @ ComputeHash L (d_Template (d_Spec d)))
     (Namespace (ObjectMeta d))"

lemma new_set_key: "new_replica_set L d = Some made \<Longrightarrow> set_key made = new_set_key L d \<and> Name (ObjectMeta made) \<noteq> []"
  by (auto simp: new_replica_set_def Let_def set_key_def new_set_key_def)

lemma new_set_owned: "new_replica_set L d = Some made \<Longrightarrow> owned_set d made"
  using new_replica_set_meta [of L d made] by (simp add: owned_set_def NewControllerRef_def)

lemma create_pipeline_count:
  assumes laws: "upstream_laws E" "set_hooks_keep (rsOps E)"
    and pipe: "applyValidationAndDefaulting E (KReplicaSet x) name = Inr ob"
  shows "\<exists>u. ob = KReplicaSet u \<and> keeps_set x u \<and> keeps_template (rsOps E) x u"
proof -
  let ?d = "SetObjectDefaults (rsOps E) x"
  from pipe obtain i u where steps: "to_internal (rsOps E) ?d = Inr i"
    "to_versioned (rsOps E) (Canonicalize (rsOps E) (PrepareForCreate (rsOps E) i)) = Inr u"
      (is "to_versioned _ (Canonicalize _ ?p) = _") and ob: "ob = KReplicaSet u"
    by (auto simp: applyValidationAndDefaulting_def convert_in_def convert_out_def ebind_Inr_iff check_Inr_iff
        split: sum.splits)
  note hooks = set_hooksD [OF laws(2)]
  note conv = ops_convertedD [OF upstream_opsD(4) [OF laws(1)]]
  have "keeps_set ?d i" using hooks(1) [OF steps(1)] converted_owners [OF conv(1) [OF steps(1)]] by (simp add: keeps_set_def)
  moreover have "keeps_set (Canonicalize (rsOps E) ?p) u"
    using hooks(2) [OF steps(2)] converted_owners [OF conv(2) [OF steps(2)]] by (simp add: keeps_set_def)
  ultimately have "keeps_set x u" using hooks(3) [of x] hooks(4) [of i] hooks(5) [of ?p]
    by (simp add: keeps_set_def keeps_count_def owners_kept_def)
  moreover have "keeps_template (rsOps E) x u" unfolding keeps_template_def
  proof
    assume t: "template_settled (rsOps E) (template_of_set x)"
    note stays = template_settledD [OF t]
    have "template_of_set i = template_of_set x" by (rule stays(4) [OF stays(1) [OF refl] steps(1)])
    then show "template_of_set u = template_of_set x" by (intro stays(5) [OF stays(3) [OF stays(2)] steps(2)])
  qed
  ultimately show ?thesis using ob by blast
qed

lemma ReplicaSetCreate_stores:
  assumes laws: "upstream_laws E" "create_hooks_keep_owners E" "set_hooks_keep (rsOps E)"
    and named: "Name (ObjectMeta rs) \<noteq> []" and count: "rs_Replicas (rs_Spec rs) = Some n"
    and call: "ReplicaSetCreate E ch (Namespace (ObjectMeta rs)) rs s = Some (Inr u, s')"
  shows "st_m s' = (st_m s)(set_key rs \<mapsto> KReplicaSet u) \<and> set_key u = set_key rs \<and>
    OwnerReferences (ObjectMeta u) = OwnerReferences (ObjectMeta rs) \<and> DeletionTimestamp (ObjectMeta u) = None \<and>
    replicasOfRS u = n \<and> keeps_template (rsOps E) rs u"
proof -
  let ?ns = "Namespace (ObjectMeta rs)"
  from call obtain ob' where "create E ch ''ReplicaSet'' ?ns (KReplicaSet rs) s = Some (Inr ob', s')" and u: "ob' = KReplicaSet u"
    by (auto simp: ReplicaSetCreate_def assert_call_def ebind_Inr_iff assert_type_def elim!: to_ReplicaSet.elims split: option.splits)
  then show ?thesis
  proof (cases rule: create_outcomes)
    case (stored md uid s1 name objCopy ob2)
    have md: "md = (WipeObjectMetaSystemFields E (ObjectMeta rs))\<lparr>Namespace := ?ns\<rparr>"
      using ensure_namespaceD [OF laws(1) stored(1)] by simp
    then have name: "name = Name (ObjectMeta rs)" using stored(4) named laws(1) by (auto simp: upstream_laws_def)
    from stored(6) obtain ob where pipe: "applyValidationAndDefaulting E objCopy name = Inr ob"
      and store: "store_object ch (KKey ''ReplicaSet'' name ?ns) ob s1 = Some (Inr ob2, s')"
      by (rule create_named_stored)
    let ?p = "rs\<lparr>ObjectMeta := md\<lparr>CreationTimestamp := o_now ch, UID := uid, Name := name\<rparr>\<rparr>"
    have p: "objCopy = KReplicaSet ?p" using stored(3) by simp
    from create_pipeline_count [OF laws(1,3) pipe [unfolded p]] obtain q where q: "ob = KReplicaSet q" "keeps_set ?p q"
      and template: "keeps_template (rsOps E) ?p q" by blast
    have id: "same_id (metadata ob) (ObjectMeta ?p)" using create_pipeline_keeps(2) [OF pipe laws(1)] p by simp
    from store obtain rv where u': "KReplicaSet u = KReplicaSet (q\<lparr>ObjectMeta := (ObjectMeta q)\<lparr>ResourceVersion := rv\<rparr>\<rparr>)"
      and s': "st_m s' = (st_m s1)(KKey ''ReplicaSet'' name ?ns \<mapsto> KReplicaSet u)"
      using stored(5) u q(1) by (elim store_object_Some) simp
    have "st_m s1 = st_m s" using generateNewUID_frame [OF stored(2)] by simp
    moreover have "OwnerReferences md = OwnerReferences (ObjectMeta rs)" "DeletionTimestamp md = None"
      using md laws(2) by (simp_all add: create_hooks_keep_owners_def)
    ultimately show ?thesis using s' u' q id md name count template
      by (simp add: set_key_def same_id_def keeps_set_def keeps_count_def owners_kept_def replicasOfRS_def keeps_template_def)
  qed simp_all
qed

lemma ReplicaSetCreate_fails:
  assumes "ReplicaSetCreate E ch ns rs s = Some (Inl e, s')"
  shows "st_m s' = st_m s"
proof -
  have "ReplicaSetCreate E ch ns rs s = map_option (\<lambda>(r, s). (map_sum id (\<lambda>ob. the (to_ReplicaSet ob)) r, s))
      (create E ch ''ReplicaSet'' ns (KReplicaSet rs) s)"
    unfolding ReplicaSetCreate_def by (rule replicasets.call_ok) (auto dest: create_kind)
  with assms obtain r where "create E ch ''ReplicaSet'' ns (KReplicaSet rs) s = Some (r, s')"
    and "map_sum id (\<lambda>ob. the (to_ReplicaSet ob)) r = Inl e" by auto
  moreover from this(2) obtain e' where "r = Inl e'" by (cases r) auto
  ultimately have "create E ch ''ReplicaSet'' ns (KReplicaSet rs) s = Some (Inl e', s')" by simp
  then show ?thesis by (cases rule: create_outcomes) (auto dest: generateNewUID_frame)
qed

text \<open>What the rollout does with the list of the deployment's replica sets.\<close>

definition listed :: "Deployment \<Rightarrow> ReplicaSet list \<Rightarrow> State \<Rightarrow> bool" where
  "listed d rss s \<longleftrightarrow> distinct rss \<and> set rss = sets_of s d"

lemma listed_stored: "wf_state s \<Longrightarrow> sets_live s d \<Longrightarrow> listed d rss s \<Longrightarrow> stored_sets d rss s"
  using set_in by (auto simp: listed_def stored_sets_def sets_live_def)

definition target_set :: "kube_lib \<Rightarrow> Deployment \<Rightarrow> ReplicaSet list \<Rightarrow> KKey" where
  "target_set L d rss = (case findNewReplicaSet L d rss of Some rs \<Rightarrow> set_key rs | None \<Rightarrow> new_set_key L d)"

lemma findNewReplicaSet_Some:
  "findNewReplicaSet L d rss = Some rs \<Longrightarrow>
    rs \<in> set rss \<and> EqualIgnoreHash L (rs_Template (rs_Spec rs)) (d_Template (d_Spec d))"
  unfolding findNewReplicaSet_def by (induction rss) (auto split: if_splits)

lemma findNewReplicaSet_None:
  "findNewReplicaSet L d rss = None \<longleftrightarrow>
    (\<forall>rs \<in> set rss. \<not> EqualIgnoreHash L (rs_Template (rs_Spec rs)) (d_Template (d_Spec d)))"
  unfolding findNewReplicaSet_def by (auto simp: find_None_iff)

lemma getNewReplicaSet_ready:
  assumes quiet: "quiet_cluster C L" "set_hooks_keep (rsOps (cl_env C))"
    and wf: "wf_state (w_state w)" and live: "sets_live (w_state w) d" and rss: "listed d rss (w_state w)"
    and free: "findNewReplicaSet L d rss = None \<Longrightarrow> st_m (w_state w) (new_set_key L d) = None"
    and run: "getNewReplicaSet C L d rss w = Some (Inr new, w')"
  shows "set_key new = target_set L d rss \<and> stored_sets d [new] (w_state w') \<and> sets_live (w_state w') d \<and>
    st_m (w_state w') = (st_m (w_state w))(set_key new \<mapsto> KReplicaSet new) \<and>
    (findNewReplicaSet L d rss = None \<longrightarrow> (\<exists>made. new_replica_set L d = Some made \<and> keeps_template (rsOps (cl_env C)) made new))"
proof (cases "findNewReplicaSet L d rss")
  case (Some rs)
  with run have "new = rs" "w' = w" by (auto simp: getNewReplicaSet_def done_with_def)
  moreover have "stored_sets d [rs] (w_state w)"
    using listed_stored [OF wf live rss] findNewReplicaSet_Some [OF Some] by (simp add: stored_sets_def)
  ultimately show ?thesis using Some live by (auto simp: target_set_def stored_sets_def)
next
  case None
  from run None obtain made r1 w1 where made: "new_replica_set L d = Some made"
    and create: "replicasets_create C (Namespace (ObjectMeta d)) made w = Some (r1, w1)"
    and rest: "(case r1 of Inr createdRS \<Rightarrow> done_with createdRS
      | Inl e \<Rightarrow> if IsAlreadyExists e
               then kube_read C (\<lambda>ch s. ReplicaSetGet s (Namespace (ObjectMeta made)) (Name (ObjectMeta made)))
               else fail_with e) w1 = Some (Inr new, w')"
    by (auto simp: getNewReplicaSet_def panic_step_def elim!: with_resultE split: option.splits)
  note key = new_set_key [OF made] and meta = new_replica_set_meta [OF made]
  have alone: "alone C" and laws: "upstream_laws (cl_env C)" "create_hooks_keep_owners (cl_env C)"
    using quiet(1) by (auto simp: quiet_cluster_def cluster_ok_def)
  from create meta(1) obtain ch where
    call: "ReplicaSetCreate (cl_env C) ch (Namespace (ObjectMeta made)) made (w_state w) = Some (r1, w_state w1)"
    by (auto simp: replicasets_create_def elim: kube_call_alone [OF alone])
  show ?thesis
  proof (cases r1)
    case (Inl e)
    have "\<nexists>x. ReplicaSetGet (w_state w1) (Namespace (ObjectMeta made)) (Name (ObjectMeta made)) = Inr x"
      using ReplicaSetCreate_fails [OF call [unfolded Inl]] free [OF None] key by (simp add: ReplicaSetGet_def ReplicaSetMutGet_def api_get_def set_key_def)
    then show ?thesis using rest Inl alone
      by (auto simp: kube_read_def kube_call_def single_def alone_def fail_with_def split: if_splits)
  next
    case (Inr u)
    have "w' = w1" "u = new" using rest Inr by (simp_all add: done_with_def)
    with ReplicaSetCreate_stores [OF laws quiet(2) conjunct2 [OF key] meta(3) call [unfolded Inr]] key
    have new: "st_m (w_state w') = (st_m (w_state w))(set_key new \<mapsto> KReplicaSet new)" "set_key new = new_set_key L d"
      "OwnerReferences (ObjectMeta new) = OwnerReferences (ObjectMeta made)" "DeletionTimestamp (ObjectMeta new) = None"
      "keeps_template (rsOps (cl_env C)) made new" by auto
    have "owned_set d new"
      using new_set_owned [OF made] new(2,3) key by (simp add: owned_set_def GetControllerOf_def set_key_def new_set_key_def)
    then show ?thesis using new None made asked_written(2) [OF new(1) _ new(4)] live
      by (simp add: target_set_def stored_sets_def)
  qed
qed

text \<open>The refinement: on the abstraction, a rollout is one assignment.\<close>

definition rolled_out :: "KKey \<Rightarrow> int32 \<Rightarrow> (KKey \<rightharpoonup> int32) \<Rightarrow> (KKey \<rightharpoonup> int32)" where
  "rolled_out key n counts = (\<lambda>k. map_option (\<lambda>_. 0) (counts k))(key \<mapsto> n)"

lemma image_except: "f ` {x \<in> A. f x \<noteq> k} = f ` A - {k}"
  by auto

lemma findOld_listed:
  assumes wf: "wf_state s" and rss: "listed d rss s"
    and free: "findNewReplicaSet L d rss = None \<Longrightarrow> st_m s (new_set_key L d) = None"
  shows "set_key ` set (findOldReplicaSets L d rss) = set_key ` set rss - {target_set L d rss} \<and>
    distinct (map set_key (findOldReplicaSets L d rss)) \<and> set (findOldReplicaSets L d rss) \<subseteq> set rss"
proof -
  have stored: "st_m s (set_key rs) = Some (KReplicaSet rs)" if "rs \<in> set rss" for rs
    using that rss set_in [OF wf] by (simp add: listed_def)
  have inj: "inj_on set_key (set rss)" using rss set_key_inj [OF wf] by (simp add: listed_def)
  then have "distinct (map set_key rss)" using rss by (simp add: distinct_map listed_def)
  then have dist: "distinct (map set_key (filter P rss))" for P by (rule distinct_map_filter)
  show ?thesis
  proof (cases "findNewReplicaSet L d rss")
    case None
    then have "target_set L d rss \<notin> set_key ` set rss" using stored free by (force simp: target_set_def)
    then show ?thesis using None dist [of "\<lambda>_. True"] by (simp add: findOldReplicaSets_def)
  next
    case (Some new)
    have new: "new \<in> set rss" using findNewReplicaSet_Some [OF Some] by simp
    have "UID (ObjectMeta rs) = UID (ObjectMeta new) \<longleftrightarrow> set_key rs = set_key new" if "rs \<in> set rss" for rs
    proof
      assume "UID (ObjectMeta rs) = UID (ObjectMeta new)"
      with wf_state_uid_unique [OF wf stored [OF that] stored [OF new]] show "set_key rs = set_key new" by simp
    next
      assume "set_key rs = set_key new"
      from inj_onD [OF inj this that new] show "UID (ObjectMeta rs) = UID (ObjectMeta new)" by simp
    qed
    then have old: "set (findOldReplicaSets L d rss) = {rs \<in> set rss. set_key rs \<noteq> set_key new}"
      using Some by (auto simp: findOldReplicaSets_def)
    have "set_key ` set (findOldReplicaSets L d rss) = set_key ` set rss - {set_key new}"
      unfolding old by (rule image_except)
    moreover have "set (findOldReplicaSets L d rss) \<subseteq> set rss" unfolding old by (rule Collect_subset)
    moreover have "distinct (map set_key (findOldReplicaSets L d rss))"
      using dist Some by (simp add: findOldReplicaSets_def)
    ultimately show ?thesis using Some by (simp add: target_set_def)
  qed
qed

text \<open>What is stored after it: the old replica sets and the new one, found or made, with their templates.\<close>

definition rollout_from ::
  "ReplicaSet kind_ops \<Rightarrow> kube_lib \<Rightarrow> Deployment \<Rightarrow> ReplicaSet list \<Rightarrow> State \<Rightarrow> State \<Rightarrow> bool" where
  "rollout_from ops L d rss s s' \<longleftrightarrow> (\<exists>new.
     templates_kept ops ((st_m s)(target_set L d rss \<mapsto> KReplicaSet new)) (st_m s') \<and>
     (findNewReplicaSet L d rss = None \<longrightarrow> (\<exists>made. new_replica_set L d = Some made \<and> keeps_template ops made new)))"

lemma rollout_asked:
  assumes quiet: "quiet_cluster C L" "set_hooks_keep (rsOps (cl_env C))"
    and wf: "wf_state (w_state w)" and live: "sets_live (w_state w) d" and rss: "listed d rss (w_state w)"
    and free: "findNewReplicaSet L d rss = None \<Longrightarrow> st_m (w_state w) (new_set_key L d) = None"
    and run: "rollout C L d rss w = Some (Inr (), w')"
  shows "sets_live (w_state w') d \<and>
    asked (w_state w') d = rolled_out (target_set L d rss) (d_replicasOf d) (asked (w_state w) d) \<and>
    rollout_from (rsOps (cl_env C)) L d rss (w_state w) (w_state w')"
proof -
  let ?old = "findOldReplicaSets L d rss" and ?key = "target_set L d rss" and ?s = "w_state w"
  from run obtain new w1 y w2 z where get: "getNewReplicaSet C L d rss w = Some (Inr new, w1)"
    and scale: "scaleReplicaSet C new (d_replicasOf d) w1 = Some (Inr y, w2)"
    and down: "scale_down C False ?old w2 = Some (Inr z, w')"
    by (auto simp: rollout_def Let_def reconcileNewReplicaSet_def reconcileOldReplicaSets_def done_with_def elim!: and_thenE)
  from getNewReplicaSet_ready [OF quiet wf live rss free get]
  have key: "set_key new = ?key" and new: "stored_sets d [new] (w_state w1)" and live1: "sets_live (w_state w1) d"
    and s1: "st_m (w_state w1) = (st_m ?s)(?key \<mapsto> KReplicaSet new)"
    and made: "findNewReplicaSet L d rss = None \<longrightarrow> (\<exists>made. new_replica_set L d = Some made \<and> keeps_template (rsOps (cl_env C)) made new)"
    by auto
  have same1: "st_m (w_state w1) k = st_m ?s k" if "k \<noteq> ?key" for k using s1 that by simp
  from new have new': "DeletionTimestamp (ObjectMeta new) = None" "st_m (w_state w1) (set_key new) = Some (KReplicaSet new)"
    "owned_set d new" by (simp_all add: stored_sets_def)
  from scaled_asked [OF scaleReplicaSet_scales [OF quiet new'(1,2) scale] new'(3,1)] live1 key
  have asked2: "asked (w_state w2) d = (asked (w_state w1) d)(?key \<mapsto> d_replicasOf d)" and live2: "sets_live (w_state w2) d"
    and same2: "\<And>k. k \<noteq> ?key \<Longrightarrow> st_m (w_state w2) k = st_m ?s k"
    and kept: "templates_kept (rsOps (cl_env C)) (st_m (w_state w1)) (st_m (w_state w2))" using same1 new'(2) by auto
  note old = findOld_listed [OF wf rss free]
  have "stored_sets d ?old (w_state w2)"
    using listed_stored [OF wf live rss] old same2 unfolding stored_sets_def by (metis Diff_iff image_eqI insertI1 subsetD)
  from scale_down_zeroes [OF quiet live2 this _ down] old asked2 templates_kept_trans [OF kept]
  have live': "sets_live (w_state w') d"
    and kept': "templates_kept (rsOps (cl_env C)) (st_m (w_state w1)) (st_m (w_state w'))" and "asked (w_state w') d = (\<lambda>k. if k \<in> set_key ` set rss - {?key} then Some 0
      else ((asked (w_state w1) d)(?key \<mapsto> d_replicasOf d)) k)" by auto
  moreover have "asked (w_state w1) d k = asked ?s d k" if "k \<noteq> ?key" for k
    using same1 [OF that] by (simp add: asked_def)
  ultimately have "asked (w_state w') d k = rolled_out ?key (d_replicasOf d) (asked ?s d) k" for k
    using asked_sets [OF wf, of d k] rss
    by (cases "k = ?key"; cases "asked ?s d k") (simp_all add: rolled_out_def listed_def)
  then have "asked (w_state w') d = rolled_out ?key (d_replicasOf d) (asked ?s d)" by blast
  moreover have "rollout_from (rsOps (cl_env C)) L d rss ?s (w_state w')"
    unfolding rollout_from_def using kept' made unfolding s1 by (intro exI [of _ new] conjI)
  ultimately show ?thesis using live' by blast
qed

section \<open>A sync of the deployment\<close>

lemma kube_read_alone_eq:
  "alone C \<Longrightarrow> kube_read C f w = Some (r, w') \<Longrightarrow> r = f (cl_choices C (w_calls w) 0) (w_state w) \<and> w_state w' = w_state w"
  by (auto simp: kube_read_def kube_call_def single_def alone_def)

lemma filterReplicaSetsByOwner_listed:
  assumes quiet: "quiet_cluster C L" and wf: "wf_state (w_state w)" and ns: "Namespace (ObjectMeta d) \<noteq> NamespaceAll"
    and run: "filterReplicaSetsByOwner C d w = Some (Inr rss, w')"
  shows "w_state w' = w_state w \<and> listed d rss (w_state w)"
proof -
  let ?s = "w_state w" and ?ns = "Namespace (ObjectMeta d)"
  let ?mine = "\<lambda>rs. case GetControllerOf (ObjectMeta rs) of None \<Rightarrow> False | Some ref \<Rightarrow> or_UID ref = UID (ObjectMeta d)"
  let ?ch = "cl_choices C (w_calls w) 0"
  have range: "range_ok ?ch" and alone: "alone C" using quiet by (simp_all add: quiet_cluster_def cluster_ok_def)
  from run obtain all where read: "kube_read C (\<lambda>ch s. ReplicaSetList ch s ?ns (\<lambda>labels. True)) w = Some (Inr all, w')"
    and rss: "rss = filter ?mine all"
    unfolding filterReplicaSetsByOwner_def by (elim and_thenE) (auto simp: done_with_def)
  from kube_read_alone_eq [OF alone read] have all: "ReplicaSetList ?ch ?s ?ns (\<lambda>labels. True) = Inr all"
    and w': "w_state w' = ?s" by auto
  from objListBySelector_spec [OF range wf, of "''ReplicaSet''" ?ns "\<lambda>_. True"] ns obtain items where
    items: "objListBySelector ?ch ?s ''ReplicaSet'' ?ns (\<lambda>_. True) = Inr items" "distinct items"
    and set: "set items = {ob. \<exists>key. st_m ?s key = Some ob \<and> key_Kind key = ''ReplicaSet'' \<and> key_Namespace key = ?ns}"
    by auto
  have "\<forall>ob \<in> set items. kind_of ob = ''ReplicaSet''" using wf_state_kind [OF wf] unfolding set by auto
  from replicasets.assert_types_ok [OF this, of "''state entry is not a *v1.ReplicaSet''"] all items(1) have map: "map KReplicaSet all = items"
    by (auto simp: ReplicaSetList_def ReplicaSetMutList_def)
  then have "distinct all" using items(2) by (auto simp: distinct_map)
  have "rs \<in> set all \<longleftrightarrow> KReplicaSet rs \<in> set items" for rs using map by auto
  also have "\<dots> rs \<longleftrightarrow> Namespace (ObjectMeta rs) = ?ns \<and> (\<exists>key. st_m ?s key = Some (KReplicaSet rs))" for rs
    unfolding set using wf_state_stored [OF wf] by (fastforce simp: stored_ok_def)
  finally have "set all = {rs. Namespace (ObjectMeta rs) = ?ns \<and> (\<exists>key. st_m ?s key = Some (KReplicaSet rs))}" by blast
  then show ?thesis using \<open>distinct all\<close> rss w' by (auto simp: listed_def owned_set_def sets_of_def)
qed

text \<open>The replica sets that already have the deployment's template.\<close>

definition matching_sets :: "kube_lib \<Rightarrow> Deployment \<Rightarrow> State \<Rightarrow> ReplicaSet set" where
  "matching_sets L d s = {rs \<in> sets_of s d. EqualIgnoreHash L (rs_Template (rs_Spec rs)) (d_Template (d_Spec d))}"

lemma target_matches:
  assumes "listed d rss s"
  shows "findNewReplicaSet L d rss = None \<longleftrightarrow> matching_sets L d s = {}"
    and "if matching_sets L d s = {} then target_set L d rss = new_set_key L d
         else target_set L d rss \<in> set_key ` matching_sets L d s"
proof -
  have set: "set rss \<inter> {rs. EqualIgnoreHash L (rs_Template (rs_Spec rs)) (d_Template (d_Spec d))} = matching_sets L d s"
    using assms by (auto simp: listed_def matching_sets_def)
  show none: "findNewReplicaSet L d rss = None \<longleftrightarrow> matching_sets L d s = {}"
    unfolding findNewReplicaSet_None set [symmetric] by blast
  show "if matching_sets L d s = {} then target_set L d rss = new_set_key L d
        else target_set L d rss \<in> set_key ` matching_sets L d s"
  proof (cases "findNewReplicaSet L d rss")
    case (Some rs)
    then have "rs \<in> matching_sets L d s" using findNewReplicaSet_Some set by blast
    then show ?thesis using Some by (auto simp: target_set_def)
  qed (use none in \<open>simp add: target_set_def\<close>)
qed

lemma syncDeployment_asked:
  assumes quiet: "quiet_cluster C L" "set_hooks_keep (rsOps (cl_env C))" and wf: "wf_state (w_state w)"
    and d: "st_m (w_state w) (KKey ''Deployment'' name ns) = Some (KDeployment d)" "ns \<noteq> NamespaceAll"
      "DeletionTimestamp (ObjectMeta d) = None"
    and live: "sets_live (w_state w) d"
    and free: "matching_sets L d (w_state w) = {} \<Longrightarrow> st_m (w_state w) (new_set_key L d) = None"
    and run: "syncDeployment C L ns name w = Some (Inr (), w')"
  shows "\<exists>key. asked (w_state w') d = rolled_out key (d_replicasOf d) (asked (w_state w) d) \<and>
    (if matching_sets L d (w_state w) = {} then key = new_set_key L d
     else key \<in> set_key ` matching_sets L d (w_state w)) \<and>
    wf_state (w_state w') \<and> sets_live (w_state w') d \<and>
    (\<exists>rss. listed d rss (w_state w) \<and> rollout_from (rsOps (cl_env C)) L d rss (w_state w) (w_state w'))"
proof -
  have ok: "cluster_ok C" "alone C" using quiet(1) by (simp_all add: quiet_cluster_def)
  have get: "DeploymentGet (w_state w) ns name = Inr d"
    using d(1) by (simp add: DeploymentGet_def DeploymentMutGet_def api_get_def assert_type_def)
  have ns: "Namespace (ObjectMeta d) = ns" using DeploymentGet_found [OF get wf] by simp
  from run obtain r w1 where read: "kube_read C (\<lambda>ch s. DeploymentGet s ns name) w = Some (r, w1)"
    and rest: "(case r of Inl e \<Rightarrow> if IsNotFound e then done_with () else fail_with e
      | Inr d \<Rightarrow> and_then (filterReplicaSetsByOwner C d) (\<lambda>rsList.
          if DeletionTimestamp (ObjectMeta d) \<noteq> None then done_with () else rollout C L d rsList)) w1 = Some (Inr (), w')"
    unfolding syncDeployment_def by (rule with_resultE)
  from kube_read_alone_eq [OF ok(2) read] get have r: "r = Inr d" and s1: "w_state w1 = w_state w" by auto
  from rest d(3) obtain rss w2 where list: "filterReplicaSetsByOwner C d w1 = Some (Inr rss, w2)"
    and roll: "rollout C L d rss w2 = Some (Inr (), w')"
    unfolding r sum.case by (elim and_thenE) auto
  from filterReplicaSetsByOwner_listed [OF quiet(1) _ _ list] wf s1 ns d(2)
  have s2: "w_state w2 = w_state w" and rss: "listed d rss (w_state w)" by auto
  note target = target_matches [OF rss]
  from rollout_asked [OF quiet _ _ _ _ roll] wf live rss free target(1) s2
  have "sets_live (w_state w') d \<and>
      asked (w_state w') d = rolled_out (target_set L d rss) (d_replicasOf d) (asked (w_state w) d) \<and>
      rollout_from (rsOps (cl_env C)) L d rss (w_state w) (w_state w')" by simp
  moreover have "wf_state (w_state w')" using sendsD [OF syncDeployment_scope ok(1) wf run] by (simp add: advances_def)
  ultimately show ?thesis using target(2) rss by blast
qed

section \<open>The next sync\<close>

text \<open>The templates of the replica sets of \<open>d\<close>, and of the one it makes, need nothing more of Kubernetes.\<close>

definition templates_settled :: "ReplicaSet kind_ops \<Rightarrow> kube_lib \<Rightarrow> Deployment \<Rightarrow> State \<Rightarrow> bool" where
  "templates_settled ops L d s \<longleftrightarrow> (\<forall>rs \<in> sets_of s d. template_settled ops (template_of_set rs)) \<and>
     (\<forall>made. new_replica_set L d = Some made \<longrightarrow> template_settled ops (template_of_set made))"

text \<open>After a rollout that had to make the new replica set, that one matches and no other does.\<close>

lemma matching_after_rollout:
  assumes wf: "wf_state s" "wf_state s'" and none: "matching_sets L d s = {}" and rss: "listed d rss s"
    and equal: "semantic_equal L" and settled: "templates_settled ops L d s"
    and roll: "rollout_from ops L d rss s s'" "asked s' d = rolled_out (new_set_key L d) n (asked s d)"
  shows "\<exists>u. matching_sets L d s' = {u} \<and> set_key u = new_set_key L d"
proof -
  let ?key = "new_set_key L d"
  note target = target_matches [OF rss]
  from roll(1) none target obtain new made where kept: "templates_kept ops ((st_m s)(?key \<mapsto> KReplicaSet new)) (st_m s')"
    and made: "new_replica_set L d = Some made" "keeps_template ops made new"
    by (auto simp: rollout_from_def)
  have stored: "st_m s' (set_key x) = Some (KReplicaSet x)" "x \<in> sets_of s' d" if "x \<in> matching_sets L d s'" for x
    using that set_in [OF wf(2)] by (simp_all add: matching_sets_def)
  have "asked s' d ?key \<noteq> None" by (simp add: roll(2) rolled_out_def)
  then obtain u where u: "u \<in> sets_of s' d" "set_key u = ?key" using asked_sets [OF wf(2)] by auto
  then have "st_m s' ?key = Some (KReplicaSet u)" using set_in [OF wf(2)] by metis
  with kept [unfolded templates_kept_def, THEN spec, of ?key] have "u = new \<or> keeps_template ops new u" by auto
  then have "template_of_set u = template_of_set made"
    using made settled by (auto simp: keeps_template_def templates_settled_def)
  then have match: "u \<in> matching_sets L d s'" using u(1) made_equal [OF equal made(1)] by (simp add: matching_sets_def)
  have "x = u" if x: "x \<in> matching_sets L d s'" for x
  proof (cases "set_key x = ?key")
    case True
    then show ?thesis using inj_onD [OF set_key_inj [OF wf(2)] _ stored(2) [OF x] u(1)] u(2) by simp
  next
    case False
    have "asked s' d (set_key x) \<noteq> None" using stored(2) [OF x] asked_sets [OF wf(2)] by blast
    then have "asked s d (set_key x) \<noteq> None" using False by (simp add: roll(2) rolled_out_def)
    then obtain rs where rs: "rs \<in> sets_of s d" "set_key rs = set_key x"
      unfolding asked_sets [OF wf(1)] by (elim imageE) metis
    then have "st_m s (set_key x) = Some (KReplicaSet rs)" using set_in [OF wf(1)] by metis
    with kept [unfolded templates_kept_def, THEN spec, of "set_key x"] stored(1) [OF x] False
    have "x = rs \<or> keeps_template ops rs x" by auto
    then have "template_of_set x = template_of_set rs" using settled rs(1) by (auto simp: keeps_template_def templates_settled_def)
    then have "rs \<in> matching_sets L d s" using x rs(1) by (simp add: matching_sets_def)
    with none show ?thesis by simp
  qed
  with match u(2) show ?thesis by blast
qed

text \<open>A sync that finds every count as it is to be sends nothing.\<close>

lemma filterReplicaSetsByOwner_runs:
  assumes quiet: "quiet_cluster C L" and wf: "wf_state (w_state w)"
  shows "\<exists>rss w'. filterReplicaSetsByOwner C d w = Some (Inr rss, w') \<and> w_state w' = w_state w \<and> w_log w' = w_log w"
proof -
  have range: "range_ok (cl_choices C (w_calls w) 0)" and alone: "alone C" using quiet by (simp_all add: quiet_cluster_def cluster_ok_def)
  from replicasets.list_ok [OF range wf, of "Namespace (ObjectMeta d)" "\<lambda>_. True"
      "''state entry is not a *v1.ReplicaSet''"] obtain all where
    "ReplicaSetList (cl_choices C (w_calls w) 0) (w_state w) (Namespace (ObjectMeta d)) (\<lambda>labels. True) = Inr all"
    by (auto simp: ReplicaSetList_def ReplicaSetMutList_def)
  then show ?thesis using alone
    by (simp add: filterReplicaSetsByOwner_def and_then_def with_result_def kube_read_def kube_call_def single_def
        alone_def done_with_def)
qed

lemma scale_down_idle: "(\<forall>rs \<in> set rss. replicasOfRS rs = 0) \<Longrightarrow> scale_down C b rss w = Some (Inr b, w)"
  by (induction rss arbitrary: b) (simp_all add: done_with_def and_then_def with_result_def scaleReplicaSet_def)

lemma rollout_idle:
  assumes "findNewReplicaSet L d rss = Some u" "replicasOfRS u = d_replicasOf d"
    and "\<forall>rs \<in> set (findOldReplicaSets L d rss). replicasOfRS rs = 0"
  shows "rollout C L d rss w = Some (Inr (), w)"
  using assms scale_down_idle [OF assms(3)]
  by (simp add: rollout_def getNewReplicaSet_def reconcileNewReplicaSet_def reconcileOldReplicaSets_def scaleReplicaSet_def
      and_then_def with_result_def done_with_def)

lemma syncDeployment_idle:
  assumes quiet: "quiet_cluster C L" and wf: "wf_state (w_state w)"
    and d: "st_m (w_state w) (KKey ''Deployment'' name ns) = Some (KDeployment d)" "ns \<noteq> NamespaceAll"
      "DeletionTimestamp (ObjectMeta d) = None"
    and u: "matching_sets L d (w_state w) = {u}" "replicasOfRS u = d_replicasOf d"
    and others: "\<And>rs. rs \<in> sets_of (w_state w) d \<Longrightarrow> set_key rs \<noteq> set_key u \<Longrightarrow> replicasOfRS rs = 0"
  shows "\<exists>w'. syncDeployment C L ns name w = Some (Inr (), w') \<and> w_state w' = w_state w \<and> w_log w' = w_log w"
proof -
  have alone: "alone C" using quiet by (simp add: quiet_cluster_def)
  have get: "DeploymentGet (w_state w) ns name = Inr d"
    using d(1) by (simp add: DeploymentGet_def DeploymentMutGet_def api_get_def assert_type_def)
  have ns: "Namespace (ObjectMeta d) = ns" using DeploymentGet_found [OF get wf] by simp
  let ?w1 = "\<lparr>w_state = w_state w, w_calls = Suc (w_calls w), w_log = w_log w\<rparr>"
  from filterReplicaSetsByOwner_runs [OF quiet, of ?w1 d] wf obtain rss w2 where
    list: "filterReplicaSetsByOwner C d ?w1 = Some (Inr rss, w2)" and w2: "w_state w2 = w_state w" "w_log w2 = w_log w" by auto
  from filterReplicaSetsByOwner_listed [OF quiet _ _ list] wf ns d(2) have rss: "listed d rss (w_state w)" by simp
  from target_matches(1) [OF rss] u(1) obtain v where v: "findNewReplicaSet L d rss = Some v" by fastforce
  from findNewReplicaSet_Some [OF v] rss u(1) have "v = u" by (auto simp: matching_sets_def listed_def)
  note old = findOld_listed [OF wf rss, of L]
  have "replicasOfRS rs = 0" if "rs \<in> set (findOldReplicaSets L d rss)" for rs
  proof (rule others)
    show "rs \<in> sets_of (w_state w) d" using old v that rss by (auto simp: listed_def)
    have "set_key rs \<in> set_key ` set rss - {target_set L d rss}" using old v that by auto
    then show "set_key rs \<noteq> set_key u" using v \<open>v = u\<close> by (simp add: target_set_def)
  qed
  with rollout_idle [of L d rss u C w2] v \<open>v = u\<close> u(2) have "rollout C L d rss w2 = Some (Inr (), w2)" by simp
  then show ?thesis using list get alone d(3) w2
    by (simp add: syncDeployment_def with_result_def and_then_def kube_read_def kube_call_def single_def alone_def)
qed

section \<open>The replica set controller follows\<close>

text \<open>Syncs of replica sets of one namespace, in the order of the given names, as long as they succeed.\<close>

primrec sync_sets :: "cluster \<Rightarrow> kube_lib \<Rightarrow> runtime \<Rightarrow> rs_controller \<Rightarrow> string \<Rightarrow> string list \<Rightarrow> unit step" where
  "sync_sets C L R cf ns [] = done_with ()"
| "sync_sets C L R cf ns (name # names) =
     and_then (syncReplicaSet C L R cf ns name) (\<lambda>_. sync_sets C L R cf ns names)"

text \<open>Replica sets of one namespace, stored and not being deleted, that the pod index tells apart.\<close>

definition separate_sets :: "string \<Rightarrow> ReplicaSet set \<Rightarrow> State \<Rightarrow> bool" where
  "separate_sets ns X s \<longleftrightarrow> wf_state s \<and>
     (\<forall>rs \<in> X. Namespace (ObjectMeta rs) = ns \<and> DeletionTimestamp (ObjectMeta rs) = None \<and> holds_set rs s) \<and>
     (\<forall>rs \<in> X. \<forall>rs' \<in> X. rs \<noteq> rs' \<longrightarrow> Name (ObjectMeta rs) \<noteq> Name (ObjectMeta rs') \<and>
        index_key (ObjectMeta rs) \<noteq> index_key (ObjectMeta rs'))"

definition distance :: "State \<Rightarrow> ReplicaSet \<Rightarrow> int" where
  "distance s rs = \<bar>active_count s (ObjectMeta rs) - sint (replicasOfRS rs)\<bar>"

lemma index_key_name:
  assumes "Namespace a = Namespace b" "CHR ''/'' \<notin> set (Name a)" "CHR ''/'' \<notin> set (Name b)" "index_key a = index_key b"
  shows "Name a = Name b"
proof -
  have "Name a @ CHR ''/'' # UID a = Name b @ CHR ''/'' # UID b"
    using assms(1,4) by (simp add: index_key_def PodControllerIndexKey_def owner_ref_def)
  from split_at_sep [OF assms(2,3) this] show ?thesis by simp
qed

lemma sync_one_of_many:
  assumes quiet: "quiet_cluster C L" and R: "runtime_ok R" and burst: "0 < burstReplicas cf"
    and X: "separate_sets ns X (w_state w)" and name: "name \<in> (\<lambda>rs. Name (ObjectMeta rs)) ` X"
    and run: "syncReplicaSet C L R cf ns name w = Some (Inr (), w')"
  shows "separate_sets ns X (w_state w') \<and>
    (\<forall>rs \<in> X. distance (w_state w') rs = (if Name (ObjectMeta rs) = name
       then max 0 (distance (w_state w) rs - burstReplicas cf) else distance (w_state w) rs))"
proof -
  from name obtain x where x: "x \<in> X" "name = Name (ObjectMeta x)" by blast
  with X have x': "DeletionTimestamp (ObjectMeta x) = None" "holds_set x (w_state w)" "Namespace (ObjectMeta x) = ns"
    and wf: "wf_state (w_state w)" by (auto simp: separate_sets_def)
  from sync_approaches [OF quiet R burst wf x'(1,2)] run x(2) x'(3)
  have step: "settled_step cf x (w_state w) (w_state w')" by simp
  then obtain replicas where replicas: "rs_Replicas (rs_Spec x) = Some replicas"
    and count: "active_count (w_state w') (ObjectMeta x) =
      approach (burstReplicas cf) (sint replicas) (active_count (w_state w) (ObjectMeta x))"
    by (auto simp: settled_step_def)
  have "separate_sets ns X (w_state w')" using X step unfolding separate_sets_def settled_step_def by blast
  moreover have "distance (w_state w') x = max 0 (distance (w_state w) x - burstReplicas cf)"
    using approach_closer [OF burst] replicas by (simp add: distance_def count replicasOfRS_def)
  moreover have "distance (w_state w') rs = distance (w_state w) rs" if "rs \<in> X" "rs \<noteq> x" for rs
    using that X x(1) step by (simp add: separate_sets_def settled_step_def spares_def distance_def active_count_def)
  moreover have "Name (ObjectMeta rs) = name \<longleftrightarrow> rs = x" if "rs \<in> X" for rs
    using that X x by (auto simp: separate_sets_def)
  ultimately show ?thesis by auto
qed

lemma sync_sets_approach:
  assumes quiet: "quiet_cluster C L" and R: "runtime_ok R" and burst: "0 < burstReplicas cf" and rs: "rs \<in> X"
  shows "separate_sets ns X (w_state w) \<Longrightarrow> set names \<subseteq> (\<lambda>rs. Name (ObjectMeta rs)) ` X \<Longrightarrow>
    sync_sets C L R cf ns names w = Some (Inr (), w') \<Longrightarrow>
    distance (w_state w') rs =
      max 0 (distance (w_state w) rs - int (count_list names (Name (ObjectMeta rs))) * burstReplicas cf)"
proof (induction names arbitrary: w)
  case Nil
  then show ?case by (simp add: done_with_def distance_def)
next
  case (Cons name names)
  from Cons.prems(3) obtain w1 where one: "syncReplicaSet C L R cf ns name w = Some (Inr (), w1)"
    and rest: "sync_sets C L R cf ns names w1 = Some (Inr (), w')"
    unfolding sync_sets.simps by (elim and_thenE) auto
  from sync_one_of_many [OF quiet R burst Cons.prems(1) _ one] Cons.prems(2)
  have X1: "separate_sets ns X (w_state w1)" and step: "distance (w_state w1) rs = (if Name (ObjectMeta rs) = name
      then max 0 (distance (w_state w) rs - burstReplicas cf) else distance (w_state w) rs)" using rs by auto
  from Cons.IH [OF X1 _ rest] Cons.prems(2) have "distance (w_state w') rs =
      max 0 (distance (w_state w1) rs - int (count_list names (Name (ObjectMeta rs))) * burstReplicas cf)" by simp
  then show ?case using step approach_again [OF burst] by auto
qed

text \<open>The replica sets a sync of the deployment leaves behind are separate.\<close>

lemma asked_separate:
  assumes wf: "wf_state s" and live: "sets_live s d" and ns: "Namespace (ObjectMeta d) = ns"
    and names: "\<forall>key \<in> dom (asked s d). CHR ''/'' \<notin> set (key_Name key)"
  shows "separate_sets ns (sets_of s d) s"
proof -
  have sets: "Namespace (ObjectMeta rs) = ns \<and> DeletionTimestamp (ObjectMeta rs) = None \<and> holds_set rs s"
    if "rs \<in> sets_of s d" for rs
    using that live ns set_in [OF wf] by (auto simp: owned_set_def sets_live_def holds_set_def same_set_def)
  moreover have "Name (ObjectMeta rs) \<noteq> Name (ObjectMeta rs') \<and> index_key (ObjectMeta rs) \<noteq> index_key (ObjectMeta rs')"
    if "rs \<in> sets_of s d" "rs' \<in> sets_of s d" "rs \<noteq> rs'" for rs rs'
  proof -
    have slash: "CHR ''/'' \<notin> set (Name (ObjectMeta x))" if "x \<in> sets_of s d" for x
      using asked_count [OF wf that] names by (force simp: set_key_def)
    have "set_key rs \<noteq> set_key rs'" using inj_onD [OF set_key_inj [OF wf]] that by blast
    then have "Name (ObjectMeta rs) \<noteq> Name (ObjectMeta rs')" using sets [OF that(1)] sets [OF that(2)] by (simp add: set_key_def)
    moreover from this have "index_key (ObjectMeta rs) \<noteq> index_key (ObjectMeta rs')"
      using index_key_name [of "ObjectMeta rs" "ObjectMeta rs'"] slash that sets by metis
    ultimately show ?thesis by blast
  qed
  ultimately show ?thesis using wf unfolding separate_sets_def by blast
qed

lemma asked_total:
  assumes wf: "wf_state s" and asked: "asked s d = rolled_out key n counts"
  shows "(\<Sum>rs \<in> sets_of s d. sint (replicasOfRS rs)) = sint n"
proof -
  have fin: "finite (sets_of s d)"
  proof (rule inj_on_finite [OF set_key_inj [OF wf]])
    show "set_key ` sets_of s d \<subseteq> dom (st_m s)" using set_in [OF wf] by auto
  qed (rule wf_state_finite [OF wf])
  have "asked s d key \<noteq> None" by (simp add: asked rolled_out_def)
  then have "key \<in> set_key ` sets_of s d" using asked_sets [OF wf, of d key] by simp
  then obtain new where new: "new \<in> sets_of s d" "set_key new = key" by blast
  have "replicasOfRS rs = 0" if "rs \<in> sets_of s d - {new}" for rs
  proof -
    have "set_key rs \<noteq> key" using that new inj_onD [OF set_key_inj [OF wf]] by blast
    then show ?thesis using asked_count [OF wf, of rs d] that unfolding asked by (auto simp: rolled_out_def split: if_splits)
  qed
  moreover have "replicasOfRS new = n" using asked_count [OF wf new(1)] new(2) unfolding asked by (simp add: rolled_out_def)
  ultimately show ?thesis using sum.remove [OF fin new(1), of "\<lambda>rs. sint (replicasOfRS rs)"] by simp
qed

section \<open>An example\<close>

text \<open>The deployment \<open>site\<close>, stored, with no replica set yet.\<close>

definition site_stored :: Deployment where
  "site_stored = site\<lparr>ObjectMeta := (ObjectMeta site)\<lparr>ResourceVersion := ''5''\<rparr>\<rparr>"

definition site_state :: State where
  "site_state = shop_state\<lparr>st_m := (st_m shop_state)(KKey ''Deployment'' ''site'' ''shop'' \<mapsto> KDeployment site_stored),
     usedUID := {''n'', ''d''}, usedRV := {''3'', ''5''}\<rparr>"

lemma site_stored_simps [simp]:
  "Name (ObjectMeta site_stored) = ''site''" "Namespace (ObjectMeta site_stored) = ''shop''" "UID (ObjectMeta site_stored) = ''d''"
  "ResourceVersion (ObjectMeta site_stored) = ''5''" "DeletionTimestamp (ObjectMeta site_stored) = None"
  "d_Spec site_stored = d_Spec site"
  by (simp_all add: site_stored_def site_def empty_ObjectMeta_def)

lemma site_state_wf: "wf_state site_state"
  by (auto simp: wf_state_def stored_ok_def site_state_def shop_state_def shop_def example_meta_def parse_uint_def digit_val_def)

lemma quiet_hooks: "set_hooks_keep (rsOps quiet_env)"
  by (auto simp: set_hooks_keep_def keeps_set_def keeps_count_def owners_kept_def quiet_env_def example_ops_def
      example_before_update_def Let_def split: if_splits)

lemma site_no_sets: "st_m site_state key \<noteq> Some (KReplicaSet rs)"
  by (auto simp: site_state_def shop_state_def)

lemma site_list: "ReplicaSetList example_choices site_state ''shop'' (\<lambda>labels. True) = Inr []"
proof -
  have "set (objListLocked example_choices site_state ''ReplicaSet'' ''shop'') = {}"
    unfolding set_objListLocked [OF example_range_ok wf_state_finite [OF site_state_wf]]
    by (auto simp: site_state_def shop_state_def)
  then have "objListLocked example_choices site_state ''ReplicaSet'' ''shop'' = []" by simp
  then show ?thesis
    by (simp add: ReplicaSetList_def ReplicaSetMutList_def objListBySelector_def objList_def filterByLabelSelector_def)
qed

lemma site_made:
  assumes "ComputeHash L = (\<lambda>t. ''5d9'')"
  shows "\<exists>made. new_replica_set L site_stored = Some made \<and> Name (ObjectMeta made) = ''site-5d9'' \<and>
    Namespace (ObjectMeta made) = ''shop'' \<and> rs_Replicas (rs_Spec made) = Some 3"
  by (simp add: new_replica_set_def Let_def CloneSelectorAndAddLabel_def site_def DefaultDeploymentUniqueLabelKey_def
      assms d_replicasOf_def)

lemma site_create:
  assumes "Name (ObjectMeta made) = ''site-5d9''" "Namespace (ObjectMeta made) = ''shop''" "rs_Replicas (rs_Spec made) = Some 3"
  shows "\<exists>u s'. ReplicaSetCreate quiet_env example_choices ''shop'' made site_state = Some (Inr u, s') \<and> replicasOfRS u = 3"
proof -
  let ?s1 = "site_state\<lparr>usedUID := {''0'', ''n'', ''d''}\<rparr>"
  have pipe: "applyValidationAndDefaulting quiet_env (KReplicaSet p) nm = Inr (KReplicaSet p)" for p nm
    by (simp add: applyValidationAndDefaulting_def quiet_env_def example_env_def example_ops_def convert_in_def
        convert_out_def validate_with_def)
  have free: "st_m ?s1 (KKey ''ReplicaSet'' ''site-5d9'' ''shop'') = None" by (simp add: site_state_def shop_state_def)
  have rv: "generateNewRVAndUpdate example_choices ?s1 = Some (''0'', ?s1\<lparr>usedRV := {''0'', ''3'', ''5''}\<rparr>)"
    by (subst example_new_rv) (simp_all add: site_state_def)
  have uid: "generateNewUIDAndUpdate example_choices site_state = Some (''0'', ?s1)"
    by (subst example_new_uid) (simp_all add: site_state_def)
  have "validateObjectMeta quiet_env md kind = None" for md kind
    by (simp add: validateObjectMeta_def quiet_env_def example_env_def)
  then have named: "create_named quiet_env example_choices ''ReplicaSet'' ''shop'' ''site-5d9'' (KReplicaSet p) ?s1 =
      store_object example_choices (KKey ''ReplicaSet'' ''site-5d9'' ''shop'') (KReplicaSet p) ?s1" for p
    using free by (simp add: create_named_def pipe Let_def)
  have wiped: "EnsureObjectNamespaceMatchesRequestNamespace quiet_env ''shop'' (WipeObjectMetaSystemFields quiet_env (ObjectMeta made)) =
      Inr ((example_wipe (ObjectMeta made))\<lparr>Namespace := ''shop''\<rparr>)"
    using assms by (simp add: quiet_env_def example_env_def example_ensure_namespace_def example_wipe_def)
  have name: "Name (example_wipe (ObjectMeta made)) = ''site-5d9''" using assms by (simp add: example_wipe_def)
  obtain p where "create quiet_env example_choices ''ReplicaSet'' ''shop'' (KReplicaSet made) site_state =
      create_named quiet_env example_choices ''ReplicaSet'' ''shop'' ''site-5d9'' (KReplicaSet p) ?s1"
    and "rs_Spec p = rs_Spec made"
    using uid wiped name by (simp add: create_def Let_def)
  then show ?thesis using assms(3)
    by (auto simp: ReplicaSetCreate_def assert_call_def named store_object_def rv Let_def assert_type_def replicasOfRS_def)
qed

lemma site_sync:
  assumes "ComputeHash L = (\<lambda>t. ''5d9'')"
  shows "\<exists>w'. syncDeployment quiet_example L ''shop'' ''site'' (world site_state) = Some (Inr (), w')"
proof -
  have get: "DeploymentGet site_state ''shop'' ''site'' = Inr site_stored"
    by (simp add: DeploymentGet_def DeploymentMutGet_def api_get_def site_state_def assert_type_def)
  from site_made [OF assms] obtain made where made: "new_replica_set L site_stored = Some made"
    "Name (ObjectMeta made) = ''site-5d9''" "Namespace (ObjectMeta made) = ''shop''" "rs_Replicas (rs_Spec made) = Some 3" by blast
  from site_create [OF made(2-4)] obtain u s' where
    u: "ReplicaSetCreate quiet_env example_choices ''shop'' made site_state = Some (Inr u, s')" "replicasOfRS u = 3" by blast
  have "d_replicasOf site_stored = 3" by (simp add: d_replicasOf_def) (simp add: site_def)
  then show ?thesis
    using made(1) u get site_list
    by (simp add: syncDeployment_def with_result_def and_then_def front_read filterReplicaSetsByOwner_def done_with_def
        rollout_def getNewReplicaSet_def findNewReplicaSet_def findOldReplicaSets_def reconcileNewReplicaSet_def
        reconcileOldReplicaSets_def scaleReplicaSet_def replicasets_create_def kube_call_def single_def)
qed

text \<open>Templates are settled in the example, and semantic equality is that of \<open>rollout_lib\<close>.\<close>

lemma quiet_settled: "template_settled (rsOps quiet_env) t"
  by (auto simp: template_settled_def quiet_env_def example_ops_def example_before_update_def Let_def split: if_splits)

lemma rollout_lib_hash: "ComputeHash rollout_lib = (\<lambda>t. ''5d9'')"
  by (simp add: rollout_lib_def example_lib_def)

lemma quiet_rollout_ok: "quiet_cluster quiet_example rollout_lib"
  using quiet_example_ok by (simp add: quiet_cluster_def sort_permutes_def rollout_lib_def)

text \<open>The deployment \<open>front\<close>, whose replica set is there and asks for its one pod, which does not exist yet.\<close>

definition front_site :: Deployment where
  "front_site = site\<lparr>ObjectMeta := (ObjectMeta site)\<lparr>Name := ''front'', ResourceVersion := ''5''\<rparr>,
     d_Spec := (d_Spec site)\<lparr>d_Replicas := Some 1, d_Template := rs_Template (rs_Spec (front 1))\<rparr>\<rparr>"

definition front_site_state :: State where
  "front_site_state = front_state\<lparr>st_m := (st_m front_state)(KKey ''Deployment'' ''front'' ''shop'' \<mapsto> KDeployment front_site),
     usedUID := {''n'', ''f'', ''d''}, usedRV := {''3'', ''4'', ''5''}\<rparr>"

lemma front_site_simps [simp]:
  "Name (ObjectMeta front_site) = ''front''" "Namespace (ObjectMeta front_site) = ''shop''" "UID (ObjectMeta front_site) = ''d''"
  "ResourceVersion (ObjectMeta front_site) = ''5''" "DeletionTimestamp (ObjectMeta front_site) = None"
  "d_Template (d_Spec front_site) = rs_Template (rs_Spec (front 1))" "d_replicasOf front_site = 1"
  by (simp_all add: front_site_def site_def empty_ObjectMeta_def d_replicasOf_def)

lemma front_site_wf: "wf_state front_site_state"
  by (auto simp: wf_state_def stored_ok_def front_site_state_def front_state_def shop_state_def shop_def example_meta_def
      parse_uint_def digit_val_def)

lemma front_site_ready: "front_ready front_site_state"
  using front_site_wf by (simp add: front_ready_def) (simp add: front_site_state_def front_state_def shop_state_def)

lemma front_site_stored: "st_m front_site_state key = Some (KReplicaSet rs) \<longleftrightarrow>
    key = KKey ''ReplicaSet'' ''front'' ''shop'' \<and> rs = front_stored"
  by (auto simp: front_site_state_def front_state_def shop_state_def)

lemma front_set_key: "set_key front_stored = KKey ''ReplicaSet'' ''front'' ''shop''"
  by (simp add: set_key_def)

lemma front_controlled: "GetControllerOf (ObjectMeta front_stored) = Some front_owner" "or_UID front_owner = ''d''"
  by (simp_all add: GetControllerOf_def front_owner_def NewControllerRef_def)

lemma front_site_sets: "sets_of front_site_state front_site = {front_stored}"
  by (auto simp: sets_of_def front_site_stored owned_set_def front_controlled)

lemma distinct_singleton: "distinct xs \<Longrightarrow> set xs = {a} \<Longrightarrow> xs = [a]"
  by (cases xs; cases "tl xs") auto

lemma front_site_list: "ReplicaSetList example_choices front_site_state ''shop'' (\<lambda>labels. True) = Inr [front_stored]"
proof -
  let ?obs = "objListLocked example_choices front_site_state ''ReplicaSet'' ''shop''"
  have "set ?obs = {KReplicaSet front_stored}"
    unfolding set_objListLocked [OF example_range_ok wf_state_finite [OF front_site_wf]]
    by (auto simp: front_site_state_def front_state_def shop_state_def)
  moreover have "distinct ?obs" by (rule objListLocked_distinct [OF example_range_ok front_site_wf])
  ultimately have "?obs = [KReplicaSet front_stored]" by (intro distinct_singleton)
  then show ?thesis
    by (simp add: ReplicaSetList_def ReplicaSetMutList_def objListBySelector_def objList_def filterByLabelSelector_def assert_type_def)
qed

lemma front_site_sync:
  "\<exists>w'. syncDeployment quiet_example example_lib ''shop'' ''front'' (world front_site_state) = Some (Inr (), w') \<and>
    w_state w' = front_site_state"
proof -
  have get: "DeploymentGet front_site_state ''shop'' ''front'' = Inr front_site"
    by (simp add: DeploymentGet_def DeploymentMutGet_def api_get_def front_site_state_def assert_type_def)
  have "replicasOfRS front_stored = 1" by (simp add: replicasOfRS_def)
  then show ?thesis
    using get front_site_list
    by (simp add: syncDeployment_def with_result_def and_then_def front_read filterReplicaSetsByOwner_def done_with_def
        rollout_def getNewReplicaSet_def findNewReplicaSet_def findOldReplicaSets_def reconcileNewReplicaSet_def
        reconcileOldReplicaSets_def scaleReplicaSet_def EqualIgnoreHash_def example_lib_def front_controlled)
qed

section \<open>Properties\<close>

text \<open>C20: A sync of a deployment refines one assignment. When no other client interferes and Kubernetes
  keeps the counts that clients set, a successful sync leaves the stored replica sets of the deployment asking
  for the deployment's count in one set and for zero in every other one; that set is a stored one with the
  deployment's template, or, when there is none, a new one of the expected name.\<close>

theorem deployment_settles:
  assumes "quiet_cluster C L" "set_hooks_keep (rsOps (cl_env C))" "wf_state (w_state w)"
    and "st_m (w_state w) (KKey ''Deployment'' name ns) = Some (KDeployment d)" "ns \<noteq> NamespaceAll"
    and "DeletionTimestamp (ObjectMeta d) = None" "sets_live (w_state w) d"
    and "matching_sets L d (w_state w) = {} \<Longrightarrow> st_m (w_state w) (new_set_key L d) = None"
    and "syncDeployment C L ns name w = Some (Inr (), w')"
  shows "\<exists>key. asked (w_state w') d = rolled_out key (d_replicasOf d) (asked (w_state w) d) \<and>
    (if matching_sets L d (w_state w) = {} then key = new_set_key L d
     else key \<in> set_key ` matching_sets L d (w_state w))"
  using syncDeployment_asked [OF assms] by blast

theorem deployment_settles_witness:
  "\<exists>w'. syncDeployment quiet_example example_lib ''shop'' ''site'' (world site_state) = Some (Inr (), w') \<and>
    asked (w_state w') site_stored = [KKey ''ReplicaSet'' ''site-5d9'' ''shop'' \<mapsto> 3]"
proof -
  from site_sync [of example_lib] obtain w' where
    run: "syncDeployment quiet_example example_lib ''shop'' ''site'' (world site_state) = Some (Inr (), w')" by (auto simp: example_lib_def)
  have none: "matching_sets example_lib site_stored site_state = {}" using site_no_sets by (simp add: matching_sets_def sets_of_def)
  have key: "new_set_key example_lib site_stored = KKey ''ReplicaSet'' ''site-5d9'' ''shop''"
    by (simp add: new_set_key_def example_lib_def)
  have stored: "st_m (w_state (world site_state)) (KKey ''Deployment'' ''site'' ''shop'') = Some (KDeployment site_stored)"
    and free: "st_m site_state (new_set_key example_lib site_stored) = None"
    unfolding key by (simp_all add: site_state_def shop_state_def)
  have live: "sets_live site_state site_stored" using site_no_sets by (simp add: sets_live_def)
  have before: "asked site_state site_stored = Map.empty"
    using site_no_sets by (auto simp: asked_def fun_eq_iff split: option.split kobject.split)
  have "d_replicasOf site_stored = 3" by (simp add: d_replicasOf_def) (simp add: site_def)
  with deployment_settles [OF quiet_example_ok _ _ stored _ _ _ _ run] quiet_hooks site_state_wf none key free live before run
  show ?thesis by (auto simp: NamespaceAll_def rolled_out_def)
qed

text \<open>C21: The replica set a deployment makes is recognised by its next sync. When no stored replica set has
  the deployment's template, a successful sync creates one through the API model, with all the
  defaulting and storing of a create, and leaves exactly one stored set with the deployment's
  template, under the expected name and with the deployment's count; a second sync right after finds it,
  succeeds, sends no request and leaves the state as it is, so no second set is made and the first is
  not scaled down as an old one. Conditions: no other client interferes, the replica sets of the
  deployment are not being deleted, the name of the new set is free, counts are kept and the templates need no more
  defaulting, and semantic equality takes a nil map and an empty one as equal.\<close>

theorem created_is_recognised:
  assumes "quiet_cluster C L" "set_hooks_keep (rsOps (cl_env C))" "semantic_equal L" "wf_state (w_state w)"
    and "st_m (w_state w) (KKey ''Deployment'' name ns) = Some (KDeployment d)" "ns \<noteq> NamespaceAll"
    and "DeletionTimestamp (ObjectMeta d) = None" "sets_live (w_state w) d"
    and "matching_sets L d (w_state w) = {}" "st_m (w_state w) (new_set_key L d) = None"
    and "templates_settled (rsOps (cl_env C)) L d (w_state w)"
    and "syncDeployment C L ns name w = Some (Inr (), w1)"
  shows "\<exists>u w2. matching_sets L d (w_state w1) = {u} \<and> set_key u = new_set_key L d \<and>
    st_m (w_state w1) (new_set_key L d) = Some (KReplicaSet u) \<and> replicasOfRS u = d_replicasOf d \<and>
    syncDeployment C L ns name w1 = Some (Inr (), w2) \<and> w_state w2 = w_state w1 \<and> w_log w2 = w_log w1"
proof -
  from syncDeployment_asked [OF assms(1,2,4-8) _ assms(12)] assms(9,10) obtain rss where
    asked: "asked (w_state w1) d = rolled_out (new_set_key L d) (d_replicasOf d) (asked (w_state w) d)"
    and wf: "wf_state (w_state w1)" and rss: "listed d rss (w_state w)"
    and roll: "rollout_from (rsOps (cl_env C)) L d rss (w_state w) (w_state w1)" by auto
  from matching_after_rollout [OF assms(4) wf assms(9) rss assms(3,11) roll asked] obtain u where
    u: "matching_sets L d (w_state w1) = {u}" "set_key u = new_set_key L d" by blast
  then have "u \<in> sets_of (w_state w1) d" by (auto simp: matching_sets_def)
  then have stored: "st_m (w_state w1) (new_set_key L d) = Some (KReplicaSet u)" and count: "replicasOfRS u = d_replicasOf d"
    using set_in [OF wf] asked_count [OF wf, of u d] u(2) asked by (auto simp: rolled_out_def)
  have zero: "replicasOfRS rs = 0" if "rs \<in> sets_of (w_state w1) d" "set_key rs \<noteq> set_key u" for rs
    using asked_count [OF wf that(1)] that(2) u(2) asked by (auto simp: rolled_out_def)
  have "st_m (w_state w1) (KKey ''Deployment'' name ns) = Some (KDeployment d)"
    using roll target_matches [OF rss] assms(5,9) templates_kept_other
    by (fastforce simp: rollout_from_def new_set_key_def)
  from syncDeployment_idle [OF assms(1) wf this assms(6,7) u(1) count zero] u stored count show ?thesis by blast
qed

theorem created_is_recognised_witness:
  "\<exists>w1 u w2. syncDeployment quiet_example rollout_lib ''shop'' ''site'' (world site_state) = Some (Inr (), w1) \<and>
    matching_sets rollout_lib site_stored (w_state w1) = {u} \<and> replicasOfRS u = 3 \<and>
    set_key u = KKey ''ReplicaSet'' ''site-5d9'' ''shop'' \<and>
    syncDeployment quiet_example rollout_lib ''shop'' ''site'' w1 = Some (Inr (), w2) \<and> w_state w2 = w_state w1"
proof -
  from site_sync [OF rollout_lib_hash] obtain w1 where
    run: "syncDeployment quiet_example rollout_lib ''shop'' ''site'' (world site_state) = Some (Inr (), w1)" by blast
  have none: "matching_sets rollout_lib site_stored site_state = {}" and live: "sets_live site_state site_stored"
    using site_no_sets by (simp_all add: matching_sets_def sets_of_def sets_live_def)
  have key: "new_set_key rollout_lib site_stored = KKey ''ReplicaSet'' ''site-5d9'' ''shop''"
    by (simp add: new_set_key_def rollout_lib_hash)
  have stored: "st_m (w_state (world site_state)) (KKey ''Deployment'' ''site'' ''shop'') = Some (KDeployment site_stored)"
    and free: "st_m site_state (new_set_key rollout_lib site_stored) = None"
    unfolding key by (simp_all add: site_state_def shop_state_def)
  have settled: "templates_settled (rsOps quiet_env) rollout_lib site_stored site_state"
    by (simp add: templates_settled_def quiet_settled)
  have "d_replicasOf site_stored = 3" by (simp add: d_replicasOf_def) (simp add: site_def)
  with created_is_recognised [OF quiet_rollout_ok _ rollout_lib_ok _ stored _ _ _ _ _ _ run] quiet_hooks site_state_wf none
    key free live settled run
  show ?thesis by (auto simp: NamespaceAll_def)
qed

text \<open>C14: The two controllers and the API model together bring a deployment to its count. After a
  successful sync of the deployment, let the replica set controller sync its replica sets in any order, each
  often enough for its distance: then every set has exactly the active pods it is to have, the
  deployment's count in the set with its template and none in the others, in total the deployment's count.\<close>

theorem deployment_converges:
  assumes "quiet_cluster C L" "set_hooks_keep (rsOps (cl_env C))" "wf_state (w_state w)"
    and "st_m (w_state w) (KKey ''Deployment'' name ns) = Some (KDeployment d)" "ns \<noteq> NamespaceAll"
    and "DeletionTimestamp (ObjectMeta d) = None" "sets_live (w_state w) d"
    and "matching_sets L d (w_state w) = {} \<Longrightarrow> st_m (w_state w) (new_set_key L d) = None"
    and "syncDeployment C L ns name w = Some (Inr (), w')"
    and "\<forall>key \<in> insert (new_set_key L d) (dom (asked (w_state w) d)). CHR ''/'' \<notin> set (key_Name key)"
    and "runtime_ok R" "0 < burstReplicas cf"
    and "set names \<subseteq> (\<lambda>rs. Name (ObjectMeta rs)) ` sets_of (w_state w') d"
    and "sync_sets C L R cf ns names w' = Some (Inr (), w'')"
    and "\<forall>rs \<in> sets_of (w_state w') d. \<bar>int (card (active_pods (w_state w') (ObjectMeta rs))) - sint (replicasOfRS rs)\<bar> \<le>
      int (count_list names (Name (ObjectMeta rs))) * burstReplicas cf"
  shows "(\<forall>rs \<in> sets_of (w_state w') d.
      int (card (active_pods (w_state w'') (ObjectMeta rs))) = sint (the (asked (w_state w') d (set_key rs)))) \<and>
    (\<Sum>rs \<in> sets_of (w_state w') d. int (card (active_pods (w_state w'') (ObjectMeta rs)))) = sint (d_replicasOf d)"
proof -
  from syncDeployment_asked [OF assms(1-9)] obtain key where
    asked: "asked (w_state w') d = rolled_out key (d_replicasOf d) (asked (w_state w) d)"
    and key: "if matching_sets L d (w_state w) = {} then key = new_set_key L d
      else key \<in> set_key ` matching_sets L d (w_state w)"
    and wf: "wf_state (w_state w')" and live: "sets_live (w_state w') d" by blast
  have "key \<in> insert (new_set_key L d) (dom (asked (w_state w) d))"
    using key asked_sets [OF assms(3)] by (auto simp: matching_sets_def split: if_splits)
  then have "\<forall>k \<in> dom (asked (w_state w') d). CHR ''/'' \<notin> set (key_Name k)"
    using assms(10) unfolding asked rolled_out_def by (auto split: if_splits)
  moreover have "Namespace (ObjectMeta d) = ns" using wf_state_stored [OF assms(3,4)] by (simp add: stored_ok_def)
  ultimately have X: "separate_sets ns (sets_of (w_state w') d) (w_state w')" using asked_separate [OF wf live] by blast
  have reached: "active_count (w_state w'') (ObjectMeta rs) = sint (replicasOfRS rs)" if rs: "rs \<in> sets_of (w_state w') d" for rs
  proof -
    have "distance (w_state w'') rs = 0"
      using sync_sets_approach [OF assms(1,11,12) rs X assms(13,14)] assms(15) rs
      by (simp add: distance_def active_count_def)
    then show ?thesis by (simp add: distance_def)
  qed
  then show ?thesis using asked_total [OF wf asked] asked_count [OF wf] by (simp add: active_count_def)
qed

theorem deployment_converges_witness:
  "\<exists>w' w''. syncDeployment quiet_example example_lib ''shop'' ''front'' (world front_site_state) = Some (Inr (), w') \<and>
    sync_sets quiet_example example_lib example_runtime front_controller ''shop'' [''front''] w' = Some (Inr (), w'') \<and>
    card (active_pods (w_state w'') (ObjectMeta front_stored)) = 1"
proof -
  from front_site_sync obtain w' where
    run: "syncDeployment quiet_example example_lib ''shop'' ''front'' (world front_site_state) = Some (Inr (), w')"
    and w': "w_state w' = front_site_state" by blast
  from front_sync [of w'] front_site_ready w' obtain w'' where
    syncs: "sync_sets quiet_example example_lib example_runtime front_controller ''shop'' [''front''] w' = Some (Inr (), w'')"
    by (auto simp: and_then_def with_result_def done_with_def)
  let ?s = "w_state (world front_site_state)"
  have stored: "st_m ?s (KKey ''Deployment'' ''front'' ''shop'') = Some (KDeployment front_site)"
    by (simp add: front_site_state_def)
  have live: "sets_live ?s front_site" by (simp add: sets_live_def front_site_stored)
  have "front_stored \<in> matching_sets example_lib front_site ?s"
    by (simp add: matching_sets_def front_site_sets EqualIgnoreHash_def example_lib_def)
  then have free: "matching_sets example_lib front_site ?s = {} \<Longrightarrow> st_m ?s (new_set_key example_lib front_site) = None" by blast
  have "dom (asked ?s front_site) = {KKey ''ReplicaSet'' ''front'' ''shop''}"
    using asked_dom [OF front_site_wf] front_site_sets by (simp add: front_set_key)
  then have slash: "\<forall>key \<in> insert (new_set_key example_lib front_site) (dom (asked ?s front_site)). CHR ''/'' \<notin> set (key_Name key)"
    by (simp add: new_set_key_def example_lib_def)
  have burst: "0 < burstReplicas front_controller" "burstReplicas front_controller = 5" by (simp_all add: front_controller_def)
  have none: "active_pods front_site_state (ObjectMeta front_stored) = {}"
    by (auto simp: active_pods_def pods_of_owner_def front_site_state_def front_state_def shop_state_def split: if_splits)
  from deployment_converges [OF quiet_example_ok _ _ stored _ _ live free run slash example_runtime_ok burst(1) _ syncs]
  have "(\<Sum>rs \<in> sets_of (w_state w') front_site. int (card (active_pods (w_state w'') (ObjectMeta rs)))) = 1"
    using quiet_hooks front_site_wf burst(2) none by (simp add: w' front_site_sets NamespaceAll_def replicasOfRS_def)
  with run syncs show ?thesis by (auto simp: w' front_site_sets)
qed

end
