(* ===== verification/Conf_Compare.thy ===== *)
theory Conf_Compare
  imports K8s_Types "HOL-Library.Multiset"
begin

text \<open>
  The comparators of the conformance tests
  (src/kubernetes_model/apimodel/pbtesting/comparators/compare.go): when an answer of the API
  model counts as the answer of a real API server, and the text that describes a difference.

  Third-party code is the record \<open>conf_lib\<close>: \<open>equality.Semantic.DeepEqual\<close>, \<open>json.Marshal\<close> and the
  \<open>%+v\<close> form of structs. The bytes of a JSON text are the characters of a string.
\<close>

section \<open>Formatting\<close>

text \<open>\<open>fmt.Sprintf\<close> with arguments that are already printed: a verb is a percent sign, perhaps a plus
  sign, and a letter.\<close>

fun sprintf :: "string \<Rightarrow> string list \<Rightarrow> string" where
  "sprintf [] args = []"
| "sprintf (c # cs) args =
     (if c = CHR ''%'' \<and> args \<noteq> [] \<and> cs \<noteq> []
      then hd args @ sprintf (if hd cs = CHR ''+'' then drop 2 cs else tl cs) (tl args)
      else c # sprintf cs args)"

declare sprintf.simps [simp del]

definition newline :: string where "newline = [CHR 0x0A]"

definition show_bool :: "bool \<Rightarrow> string" where
  "show_bool b = (if b then ''true'' else ''false'')"

text \<open>A slice of strings under \<open>%v\<close>.\<close>

fun words :: "string list \<Rightarrow> string" where
  "words [] = []"
| "words [x] = x"
| "words (x # xs) = x @ '' '' @ words xs"

definition show_strings :: "string list \<Rightarrow> string" where
  "show_strings xs = ''['' @ words xs @ '']''"

definition joinStrings :: "string list \<Rightarrow> string \<Rightarrow> string" where
  "joinStrings strs sep = (case strs of [] \<Rightarrow> [] | result # rest \<Rightarrow> foldl (\<lambda>result s. result @ sep @ s) result rest)"

section \<open>Comparing errors\<close>

record StatusDetails =
  det_Causes :: "string slice"
  det_rest :: opaque

record Status =
  status_Reason :: string
  status_Message :: string
  status_Details :: "StatusDetails option"

text \<open>
  A Go error: an \<open>APIStatus\<close>, an error that wraps another one, or any other. A cause of the
  details is its field path.
\<close>

datatype go_error = StatusError Status | Wrapped string go_error | PlainError string

fun as_APIStatus :: "go_error \<Rightarrow> Status option" where
  "as_APIStatus (StatusError st) = Some st"
| "as_APIStatus (Wrapped msg e) = as_APIStatus e"
| "as_APIStatus (PlainError msg) = None"

fun error_string :: "go_error \<Rightarrow> string" where
  "error_string (StatusError st) = status_Message st"
| "error_string (Wrapped msg e) = msg"
| "error_string (PlainError msg) = msg"

definition show_error :: "go_error option \<Rightarrow> string" where
  "show_error e = (case e of None \<Rightarrow> ''<nil>'' | Some e' \<Rightarrow> error_string e')"

record conf_lib =
  Semantic_DeepEqual :: "kobject \<Rightarrow> kobject \<Rightarrow> bool"
  json_Marshal :: "kobject \<Rightarrow> string + string"
  show_details :: "StatusDetails \<Rightarrow> string"
  show_PodSpec :: "PodSpec \<Rightarrow> string"
  show_ReplicaSetSpec :: "ReplicaSetSpec \<Rightarrow> string"
  show_Selector :: "LabelSelector option \<Rightarrow> string"

definition isRejectionReason :: "string \<Rightarrow> bool" where
  "isRejectionReason reason \<longleftrightarrow>
     reason \<in> {''Invalid'', ''BadRequest'', ''Forbidden'', ''NotAcceptable''}"

definition extractFieldPaths :: "string slice \<Rightarrow> string list" where
  "extractFieldPaths causes = filter (\<lambda>f. f \<noteq> []) (elems causes)"

type_synonym verdict = "bool \<times> string list"

definition show_det :: "conf_lib \<Rightarrow> StatusDetails option \<Rightarrow> string" where
  "show_det L d = (case d of None \<Rightarrow> ''<nil>'' | Some d' \<Rightarrow> show_details L d')"

definition compareValidationErrors :: "conf_lib \<Rightarrow> Status \<Rightarrow> Status \<Rightarrow> verdict" where
  "compareValidationErrors L modelStatus realStatus =
     (case (status_Details modelStatus, status_Details realStatus) of
        (None, None) \<Rightarrow> (True, [])
      | (Some modelDetails, Some realDetails) \<Rightarrow>
          (let modelFields = sort (extractFieldPaths (det_Causes modelDetails));
               realFields = sort (extractFieldPaths (det_Causes realDetails))
           in if modelFields \<noteq> realFields
              then (False, [sprintf (''validation field paths mismatch:'' @ newline @ ''  model: %v'' @ newline @ ''  real:  %v'')
                      [show_strings modelFields, show_strings realFields]])
              else (True, []))
      | (modelDetails, realDetails) \<Rightarrow>
          (False, [sprintf ''error details mismatch: model=%v, real=%v'' [show_det L modelDetails, show_det L realDetails]]))"

definition compare_status :: "conf_lib \<Rightarrow> Status \<Rightarrow> Status \<Rightarrow> bool \<Rightarrow> verdict" where
  "compare_status L modelStatus realStatus lenient =
     (let modelReason = status_Reason modelStatus; realReason = status_Reason realStatus in
      if lenient then
        (let modelIsRejection = isRejectionReason modelReason; realIsRejection = isRejectionReason realReason
         in if modelIsRejection \<noteq> realIsRejection
            then (False, [sprintf ''error type mismatch: model=%s (rejection=%v), real=%s (rejection=%v)''
                    [modelReason, show_bool modelIsRejection, realReason, show_bool realIsRejection]])
            else (True, []))
      else if modelReason \<noteq> realReason
      then (False, [sprintf ''error reason mismatch: model=%s, real=%s'' [modelReason, realReason]])
      else if modelReason = ''Invalid'' then compareValidationErrors L modelStatus realStatus
      else (True, []))"

definition CompareErrors :: "conf_lib \<Rightarrow> go_error option \<Rightarrow> go_error option \<Rightarrow> bool \<Rightarrow> verdict" where
  "CompareErrors L modelErr realErr lenient =
     (case (modelErr, realErr) of
        (None, None) \<Rightarrow> (True, [])
      | (Some m, Some r) \<Rightarrow>
          (case (as_APIStatus m, as_APIStatus r) of
             (Some modelStatus, Some realStatus) \<Rightarrow> compare_status L modelStatus realStatus lenient
           | _ \<Rightarrow> (False, [sprintf ''non-API error type: model=%v, real=%v'' [show_error modelErr, show_error realErr]]))
      | _ \<Rightarrow> (False, [sprintf ''nil-error mismatch: model=%v, real=%v'' [show_error modelErr, show_error realErr]]))"

section \<open>Describing a difference\<close>

definition differing :: "string \<Rightarrow> ('a \<Rightarrow> string) \<Rightarrow> 'a \<Rightarrow> 'a \<Rightarrow> string list" where
  "differing msg show' x y = (if x \<noteq> y then [sprintf msg [show' x, show' y]] else [])"

abbreviation (input) "show_string \<equiv> \<lambda>s::string. s"

definition show_int64 :: "int64 \<Rightarrow> string" where "show_int64 x = format_int (sint x)"
definition show_int32 :: "int32 \<Rightarrow> string" where "show_int32 x = format_int (sint x)"

definition name_differences :: "ObjectMeta \<Rightarrow> ObjectMeta \<Rightarrow> string list" where
  "name_differences model real =
     differing ''name: model=%s, real=%s'' show_string (Name model) (Name real) @
     differing ''namespace: model=%s, real=%s'' show_string (Namespace model) (Namespace real) @
     differing ''generation: model=%d, real=%d'' show_int64 (Generation model) (Generation real)"

definition container_differences :: "Container list \<Rightarrow> Container list \<Rightarrow> string list" where
  "container_differences model real =
     (if length model \<noteq> length real
      then [sprintf ''containers count: model=%d, real=%d''
              [format_int (int (length model)), format_int (int (length real))]]
      else if length model > 0 then
        (let mc = model ! 0; rc = real ! 0 in
         differing ''container[0].name: model=%s, real=%s'' show_string (cont_Name mc) (cont_Name rc) @
         differing ''container[0].image: model=%s, real=%s'' show_string (cont_Image mc) (cont_Image rc) @
         differing ''container[0].imagePullPolicy: model=%s, real=%s'' show_string
           (cont_ImagePullPolicy mc) (cont_ImagePullPolicy rc) @
         differing ''container[0].terminationMessagePath: model=%s, real=%s'' show_string
           (cont_TerminationMessagePath mc) (cont_TerminationMessagePath rc) @
         differing ''container[0].terminationMessagePolicy: model=%s, real=%s'' show_string
           (cont_TerminationMessagePolicy mc) (cont_TerminationMessagePolicy rc))
      else [])"

text \<open>A nil pointer counts as the default the code writes down.\<close>

definition deref :: "'a \<Rightarrow> 'a option \<Rightarrow> 'a" where
  "deref d p = (case p of None \<Rightarrow> d | Some x \<Rightarrow> x)"

definition describePodDifferences :: "conf_lib \<Rightarrow> Pod \<Rightarrow> Pod \<Rightarrow> string" where
  "describePodDifferences L model real =
     (let ms = pod_Spec model; rs = pod_Spec real;
          diffs = name_differences (ObjectMeta model) (ObjectMeta real) @
            differing ''spec.dnsPolicy: model=%s, real=%s'' show_string (DNSPolicy ms) (DNSPolicy rs) @
            differing ''spec.restartPolicy: model=%s, real=%s'' show_string (RestartPolicy ms) (RestartPolicy rs) @
            differing ''spec.schedulerName: model=%s, real=%s'' show_string (SchedulerName ms) (SchedulerName rs) @
            differing ''spec.serviceAccountName: model=%s, real=%s'' show_string
              (ServiceAccountName ms) (ServiceAccountName rs) @
            differing ''spec.terminationGracePeriodSeconds: model=%d, real=%d'' show_int64
              (deref (- 1) (TerminationGracePeriodSeconds ms)) (deref (- 1) (TerminationGracePeriodSeconds rs)) @
            container_differences (elems (Containers ms)) (elems (Containers rs)) @
            differing ''spec.enableServiceLinks: model=%v, real=%v'' show_bool
              (deref False (EnableServiceLinks ms)) (deref False (EnableServiceLinks rs))
      in if diffs = []
         then sprintf (''pods differ (no obvious field diff found)'' @ newline @ ''  model.spec=%+v'' @ newline @ ''  real.spec=%+v'')
                [show_PodSpec L ms, show_PodSpec L rs]
         else sprintf (''pod differences:'' @ newline @ ''  %s'') [joinStrings diffs (newline @ ''  '')])"

definition describeReplicaSetDifferences :: "conf_lib \<Rightarrow> ReplicaSet \<Rightarrow> ReplicaSet \<Rightarrow> string" where
  "describeReplicaSetDifferences L model real =
     (let ms = rs_Spec model; rs = rs_Spec real;
          diffs = name_differences (ObjectMeta model) (ObjectMeta real) @
            differing ''spec.replicas: model=%d, real=%d'' show_int32
              (deref 1 (rs_Replicas ms)) (deref 1 (rs_Replicas rs)) @
            differing ''spec.selector differs: model=%+v, real=%+v'' (show_Selector L) (rs_Selector ms) (rs_Selector rs) @
            (if Labels (tmpl_ObjectMeta (rs_Template ms)) \<noteq> Labels (tmpl_ObjectMeta (rs_Template rs))
             then [''spec.template.labels differs''] else [])
      in if diffs = []
         then sprintf (''replicasets differ (no obvious field diff found)'' @ newline @ ''  model.spec=%+v'' @ newline @ ''  real.spec=%+v'')
                [show_ReplicaSetSpec L ms, show_ReplicaSetSpec L rs]
         else sprintf (''replicaset differences:'' @ newline @ ''  %s'') [joinStrings diffs (newline @ ''  '')])"

text \<open>The accessors are never nil on an object of the API, so the last return of the code is not reached.\<close>

definition describeObjectDifferences :: "conf_lib \<Rightarrow> kobject \<Rightarrow> kobject \<Rightarrow> string" where
  "describeObjectDifferences L model real =
     (let names = sprintf (''objects differ:'' @ newline @ ''  model name=%s, namespace=%s'' @ newline @ ''  real name=%s, namespace=%s'')
            [Name (metadata model), Namespace (metadata model), Name (metadata real), Namespace (metadata real)]
      in case model of
           KPod modelPod \<Rightarrow> (case real of KPod realPod \<Rightarrow> describePodDifferences L modelPod realPod | _ \<Rightarrow> names)
         | KReplicaSet modelRS \<Rightarrow>
             (case real of KReplicaSet realRS \<Rightarrow> describeReplicaSetDifferences L modelRS realRS | _ \<Rightarrow> names)
         | _ \<Rightarrow> names)"

fun first_difference :: "string \<Rightarrow> string \<Rightarrow> nat \<Rightarrow> nat option" where
  "first_difference (x # xs) (y # ys) i = (if x \<noteq> y then Some i else first_difference xs ys (Suc i))"
| "first_difference xs ys i = None"

definition slice_of :: "string \<Rightarrow> nat \<Rightarrow> nat \<Rightarrow> string" where
  "slice_of s a b = take (b - a) (drop a s)"

definition diff_context :: "string \<Rightarrow> string \<Rightarrow> string" where
  "diff_context modelJSON realJSON =
     (case first_difference modelJSON realJSON 0 of
        Some diffPos \<Rightarrow>
          (let start = diffPos - 50; ending = diffPos + 50 in
           sprintf (newline @ ''First difference at byte %d:'' @ newline @ ''Model: ...%s...'' @ newline @ ''Real:  ...%s...'')
             [format_int (int diffPos), slice_of modelJSON start (min ending (length modelJSON)),
              slice_of realJSON start (min ending (length realJSON))])
      | None \<Rightarrow>
          if length modelJSON \<noteq> length realJSON
          then sprintf (newline @ ''JSON length differs: model=%d, real=%d'')
                 [format_int (int (length modelJSON)), format_int (int (length realJSON))]
          else [])"

definition describeObjectDifferencesWithJSON :: "conf_lib \<Rightarrow> kobject \<Rightarrow> kobject \<Rightarrow> string" where
  "describeObjectDifferencesWithJSON L modelObj realObj =
     (case (json_Marshal L modelObj, json_Marshal L realObj) of
        (Inr modelJSON, Inr realJSON) \<Rightarrow>
          if modelJSON \<noteq> realJSON
          then sprintf (''objects differ (Semantic.DeepEqual returned false)%s'' @ newline @ ''Full model JSON: %s'' @ newline @ ''Full real JSON: %s'')
                 [diff_context modelJSON realJSON, modelJSON, realJSON]
          else describeObjectDifferences L modelObj realObj
      | _ \<Rightarrow> describeObjectDifferences L modelObj realObj)"

section \<open>Comparing objects\<close>

text \<open>
  A Go interface value: nil, a nil pointer of some type, an object of the API, or a value of
  another type.
\<close>

datatype iface = NilInterface | NilPointer string | APIObject kobject | OtherValue string

fun type_name :: "iface \<Rightarrow> string" where
  "type_name NilInterface = ''<nil>''"
| "type_name (NilPointer T) = T"
| "type_name (APIObject ob) = ''*v1.'' @ kind_of ob"
| "type_name (OtherValue T) = T"

fun nil_pointer :: "iface \<Rightarrow> bool" where
  "nil_pointer (NilPointer T) = True"
| "nil_pointer x = False"

definition accessor_error :: string where
  "accessor_error = ''object does not implement the Object interfaces''"

fun Accessor :: "iface \<Rightarrow> string + ObjectMeta" where
  "Accessor (APIObject ob) = Inr (metadata ob)"
| "Accessor x = Inl accessor_error"

definition presence :: "string \<Rightarrow> bool \<Rightarrow> bool \<Rightarrow> bool \<Rightarrow> string list" where
  "presence msg bad modelHas realHas = (if bad then [sprintf msg [show_bool modelHas, show_bool realHas]] else [])"

definition metadata_differences :: "ObjectMeta \<Rightarrow> ObjectMeta \<Rightarrow> string list" where
  "metadata_differences model real =
     (let modelHasUID = (UID model \<noteq> []); realHasUID = (UID real \<noteq> []);
          modelHasRV = (ResourceVersion model \<noteq> []); realHasRV = (ResourceVersion real \<noteq> []);
          modelHasCreation = (CreationTimestamp model \<noteq> 0); realHasCreation = (CreationTimestamp real \<noteq> 0);
          modelHasDeletion = (DeletionTimestamp model \<noteq> None); realHasDeletion = (DeletionTimestamp real \<noteq> None) in
      presence ''metadata.uid is empty: model has UID=%v, real has UID=%v''
        (\<not> modelHasUID \<or> \<not> realHasUID) modelHasUID realHasUID @
      presence ''metadata.resourceVersion is empty: model has RV=%v, real has RV=%v''
        (\<not> modelHasRV \<or> \<not> realHasRV) modelHasRV realHasRV @
      presence ''metadata.creationTimestamp presence mismatch: model has timestamp=%v, real has timestamp=%v''
        (modelHasCreation \<noteq> realHasCreation) modelHasCreation realHasCreation @
      presence ''metadata.deletionTimestamp presence mismatch: model has timestamp=%v, real has timestamp=%v''
        (modelHasDeletion \<noteq> realHasDeletion) modelHasDeletion realHasDeletion)"

definition compareMetadata :: "iface \<Rightarrow> iface \<Rightarrow> verdict" where
  "compareMetadata modelObj realObj =
     (case Accessor modelObj of
        Inl err \<Rightarrow> (False, [sprintf ''failed to access model metadata: %v'' [err]])
      | Inr model \<Rightarrow>
          (case Accessor realObj of
             Inl err \<Rightarrow> (False, [sprintf ''failed to access real metadata: %v'' [err]])
           | Inr real \<Rightarrow> (let diffs = metadata_differences model real in (diffs = [], diffs))))"

definition clearServerAssignedFields :: "kobject \<Rightarrow> kobject" where
  "clearServerAssignedFields ob = set_metadata ob ((metadata ob)
     \<lparr>UID := [], ResourceVersion := [], CreationTimestamp := 0, DeletionTimestamp := None, ManagedFields := None,
      SelfLink := []\<rparr>)"

fun deepCopyAndClear :: "iface \<Rightarrow> kobject option" where
  "deepCopyAndClear (APIObject (KNamespace x)) = None"
| "deepCopyAndClear (APIObject ob) = Some (clearServerAssignedFields ob)"
| "deepCopyAndClear x = None"

definition compare_copies :: "conf_lib \<Rightarrow> iface \<Rightarrow> iface \<Rightarrow> verdict" where
  "compare_copies L modelObj realObj =
     (case (deepCopyAndClear modelObj, deepCopyAndClear realObj) of
        (Some modelCopy, Some realCopy) \<Rightarrow>
          if \<not> Semantic_DeepEqual L modelCopy realCopy
          then (False, [describeObjectDifferencesWithJSON L modelCopy realCopy])
          else (True, [])
      | _ \<Rightarrow> (False, [sprintf ''failed to copy objects: model=%T, real=%T'' [type_name modelObj, type_name realObj]]))"

definition CompareObjects :: "conf_lib \<Rightarrow> iface \<Rightarrow> iface \<Rightarrow> verdict" where
  "CompareObjects L modelObj realObj =
     (if modelObj = NilInterface \<and> realObj = NilInterface then (True, [])
      else if modelObj = NilInterface \<or> realObj = NilInterface
      then (False, [sprintf ''nil-interface mismatch: model=%T, real=%T'' [type_name modelObj, type_name realObj]])
      else if nil_pointer modelObj \<and> nil_pointer realObj then (True, [])
      else if nil_pointer modelObj \<or> nil_pointer realObj
      then (False, [sprintf ''nil pointer mismatch: model=%T (isNil=%v), real=%T (isNil=%v)''
              [type_name modelObj, show_bool (nil_pointer modelObj), type_name realObj, show_bool (nil_pointer realObj)]])
      else case compareMetadata modelObj realObj of (match, metadataDiffs) \<Rightarrow>
        if \<not> match then (False, metadataDiffs) else compare_copies L modelObj realObj)"

section \<open>What counts as the same error\<close>

text \<open>
  The comparators decide an equality of classes. Leniently, an error is in one of two classes;
  strictly, the class is the reason, and for an invalid object the field paths, in any order. An
  error that is not from the API has no class: it matches nothing, itself included.
\<close>

datatype error_class = NoError | Rejection bool | Reason string "string multiset option"

definition field_paths :: "Status \<Rightarrow> string multiset option" where
  "field_paths st = map_option (\<lambda>d. mset (extractFieldPaths (det_Causes d))) (status_Details st)"

definition status_class :: "bool \<Rightarrow> Status \<Rightarrow> error_class" where
  "status_class lenient st =
     (if lenient then Rejection (isRejectionReason (status_Reason st))
      else Reason (status_Reason st) (if status_Reason st = ''Invalid'' then field_paths st else None))"

definition classify :: "bool \<Rightarrow> go_error option \<Rightarrow> error_class option" where
  "classify lenient e =
     (case e of None \<Rightarrow> Some NoError | Some e' \<Rightarrow> map_option (status_class lenient) (as_APIStatus e'))"

lemma status_class_error [simp]: "status_class lenient st \<noteq> NoError" "NoError \<noteq> status_class lenient st"
  by (simp_all add: status_class_def)

lemma sort_eq_iff_mset: "sort xs = sort ys \<longleftrightarrow> mset xs = mset ys"
  by (metis mset_sort properties_for_sort sorted_sort)

lemma compareValidationErrors_iff:
  "fst (compareValidationErrors L m r) \<longleftrightarrow> field_paths m = field_paths r"
  "snd (compareValidationErrors L m r) = [] \<longleftrightarrow> field_paths m = field_paths r"
  by (auto simp: compareValidationErrors_def field_paths_def sort_eq_iff_mset split: option.splits)

lemma compare_status_iff:
  "fst (compare_status L m r lenient) \<longleftrightarrow> status_class lenient m = status_class lenient r"
  "snd (compare_status L m r lenient) = [] \<longleftrightarrow> status_class lenient m = status_class lenient r"
  by (cases lenient; cases "status_Reason m = ''Invalid''";
      simp add: compare_status_def status_class_def Let_def compareValidationErrors_iff)+

text \<open>Two errors match exactly when they are in the same class (no error; leniently, whether the request
  was rejected; strictly, the reason, with the field paths of an invalid object in any order), and a
  difference is reported exactly when they do not match. An error that is not from the API has no
  class, so it matches nothing.\<close>

theorem CompareErrors_classes:
  "(fst (CompareErrors L modelErr realErr lenient) \<longleftrightarrow>
      classify lenient modelErr \<noteq> None \<and> classify lenient modelErr = classify lenient realErr) \<and>
   (snd (CompareErrors L modelErr realErr lenient) = [] \<longleftrightarrow> fst (CompareErrors L modelErr realErr lenient))"
proof (cases modelErr; cases realErr)
  fix m r
  assume "modelErr = Some m" "realErr = Some r"
  then show ?thesis
    by (cases "as_APIStatus m"; cases "as_APIStatus r")
      (auto simp: CompareErrors_def classify_def compare_status_iff)
qed (auto simp: CompareErrors_def classify_def dest!: sym [of "Some NoError"])

section \<open>What counts as the same object\<close>

definition assigned_alike :: "ObjectMeta \<Rightarrow> ObjectMeta \<Rightarrow> bool" where
  "assigned_alike a b \<longleftrightarrow>
     UID a \<noteq> [] \<and> UID b \<noteq> [] \<and> ResourceVersion a \<noteq> [] \<and> ResourceVersion b \<noteq> [] \<and>
     (CreationTimestamp a = 0 \<longleftrightarrow> CreationTimestamp b = 0) \<and>
     (DeletionTimestamp a = None \<longleftrightarrow> DeletionTimestamp b = None)"

lemma metadata_differences_Nil: "metadata_differences a b = [] \<longleftrightarrow> assigned_alike a b"
  by (auto simp: metadata_differences_def presence_def assigned_alike_def Let_def)

lemma deepCopyAndClear_object:
  "deepCopyAndClear (APIObject ob) =
     (if kind_of ob = ''Namespace'' then None else Some (clearServerAssignedFields ob))"
  by (cases ob) simp_all

lemma compareMetadata_objects:
  "compareMetadata (APIObject a) (APIObject b) =
     (assigned_alike (metadata a) (metadata b), metadata_differences (metadata a) (metadata b))"
  by (simp add: compareMetadata_def Let_def metadata_differences_Nil)

lemma compare_objects:
  "CompareObjects L (APIObject a) (APIObject b) =
     (if \<not> assigned_alike (metadata a) (metadata b)
      then (False, metadata_differences (metadata a) (metadata b))
      else compare_copies L (APIObject a) (APIObject b))"
  by (simp add: CompareObjects_def compareMetadata_objects)

text \<open>C35: When two answers match, with each condition of the code. Both are nil interfaces or both nil pointers; or
  both are objects other than namespaces, each with a UID and with a resource version, both with a
  creation timestamp or both without, the same for the deletion timestamp, and \<open>Semantic.DeepEqual\<close>
  holds of the copies with the fields the server assigns cleared. So two equal objects that both lack a
  UID or a version do not match, contrary to the comment in \<open>compareMetadata\<close> by which both UIDs may be empty, nor
  does a namespace ever match, as the comparators cannot copy it. A difference is reported exactly when there
  is no match.\<close>

theorem CompareObjects_accepts:
  "(fst (CompareObjects L modelObj realObj) \<longleftrightarrow>
      modelObj = NilInterface \<and> realObj = NilInterface \<or> nil_pointer modelObj \<and> nil_pointer realObj \<or>
      (\<exists>a b. modelObj = APIObject a \<and> realObj = APIObject b \<and>
        kind_of a \<noteq> ''Namespace'' \<and> kind_of b \<noteq> ''Namespace'' \<and>
        UID (metadata a) \<noteq> [] \<and> UID (metadata b) \<noteq> [] \<and>
        ResourceVersion (metadata a) \<noteq> [] \<and> ResourceVersion (metadata b) \<noteq> [] \<and>
        (CreationTimestamp (metadata a) = 0 \<longleftrightarrow> CreationTimestamp (metadata b) = 0) \<and>
        (DeletionTimestamp (metadata a) = None \<longleftrightarrow> DeletionTimestamp (metadata b) = None) \<and>
        Semantic_DeepEqual L (clearServerAssignedFields a) (clearServerAssignedFields b))) \<and>
   (snd (CompareObjects L modelObj realObj) = [] \<longleftrightarrow> fst (CompareObjects L modelObj realObj))"
proof (cases "\<exists>a b. modelObj = APIObject a \<and> realObj = APIObject b")
  case True
  then obtain a b where "modelObj = APIObject a" "realObj = APIObject b" by blast
  then show ?thesis
    by (auto simp: compare_objects compare_copies_def deepCopyAndClear_object metadata_differences_Nil assigned_alike_def)
next
  case False
  then show ?thesis
    by (cases modelObj; cases realObj) (auto simp: CompareObjects_def compareMetadata_def)
qed

lemma clear_set_assigned:
  "clearServerAssignedFields (set_metadata ob ((metadata ob)\<lparr>UID := u, ResourceVersion := v, CreationTimestamp := t,
     DeletionTimestamp := d, ManagedFields := m, SelfLink := l\<rparr>)) = clearServerAssignedFields ob"
  by (simp add: clearServerAssignedFields_def)

text \<open>Fields the server assigns may differ as long as both sides have them.\<close>

lemma CompareObjects_ignores_assigned:
  assumes "\<And>x. Semantic_DeepEqual L x x" and "kind_of ob \<noteq> ''Namespace''"
    and "UID (metadata ob) \<noteq> []" "ResourceVersion (metadata ob) \<noteq> []" "u \<noteq> []" "v \<noteq> []"
    and "t = 0 \<longleftrightarrow> CreationTimestamp (metadata ob) = 0" "d = None \<longleftrightarrow> DeletionTimestamp (metadata ob) = None"
  shows "CompareObjects L (APIObject ob) (APIObject (set_metadata ob ((metadata ob)\<lparr>UID := u, ResourceVersion := v,
     CreationTimestamp := t, DeletionTimestamp := d, ManagedFields := m, SelfLink := l\<rparr>))) = (True, [])"
  using assms by (simp add: compare_objects compare_copies_def deepCopyAndClear_object clear_set_assigned assigned_alike_def)

end
