(* ===== verification/Conf_Rapid.thy ===== *)
theory Conf_Rapid
  imports K8s_Types "HOL-Library.State_Monad"
begin

text \<open>
  The random source of the conformance tests. The generators
  (src/kubernetes_model/apimodel/pbtesting/generators) draw from the library rapid, which is not
  under src/: a source of draws is a record of functions on a state of type \<open>'t\<close>, and a
  generator is a program in the state monad over it. \<open>rapid_ok\<close> states what rapid documents of its
  draws. \<open>pred_state P g\<close>, of \<open>State_Monad\<close>, says that every value \<open>g\<close> can produce satisfies \<open>P\<close>;
  the rules below compute it along a generator.

  \<open>resource.MustParse\<close> also is third-party code and a field of the record.
\<close>

section \<open>Patterns\<close>

text \<open>
  The regular expressions of the generators are sequences of character classes, each with its
  bounds of repetition: \<open>[a-z][a-z0-9]{0,8}\<close> is \<open>[one az, rep az09 0 8]\<close>. A class is a list of
  ranges.
\<close>

type_synonym char_class = "(char \<times> char) list"
type_synonym pattern = "(char_class \<times> nat \<times> nat) list"

definition one :: "char_class \<Rightarrow> char_class \<times> nat \<times> nat" where "one c = (c, 1, 1)"
definition rep :: "char_class \<Rightarrow> nat \<Rightarrow> nat \<Rightarrow> char_class \<times> nat \<times> nat" where "rep c m n = (c, m, n)"

definition az :: char_class where "az = [(CHR ''a'', CHR ''z'')]"
definition az09 :: char_class where "az09 = [(CHR ''a'', CHR ''z''), (CHR ''0'', CHR ''9'')]"
definition az09_dash :: char_class where "az09_dash = [(CHR ''a'', CHR ''z''), (CHR ''0'', CHR ''9''), (CHR ''-'', CHR ''-'')]"
definition AZ :: char_class where "AZ = [(CHR ''A'', CHR ''Z'')]"
definition AZ09_us :: char_class where "AZ09_us = [(CHR ''A'', CHR ''Z''), (CHR ''0'', CHR ''9''), (CHR ''_'', CHR ''_'')]"

definition in_class :: "char_class \<Rightarrow> char \<Rightarrow> bool" where
  "in_class cls c \<longleftrightarrow> list_ex (\<lambda>(lo, hi). (of_char lo :: nat) \<le> of_char c \<and> (of_char c :: nat) \<le> of_char hi) cls"

fun matches :: "pattern \<Rightarrow> string \<Rightarrow> bool" where
  "matches [] s \<longleftrightarrow> s = []"
| "matches ((cls, m, n) # p) s \<longleftrightarrow>
     list_ex (\<lambda>k. k \<le> length s \<and> list_all (in_class cls) (take k s) \<and> matches p (drop k s)) [m..<Suc n]"

lemmas class_defs = one_def rep_def az_def az09_def az09_dash_def AZ_def AZ09_us_def in_class_def

lemma matches_classes:
  "matches p s \<Longrightarrow> \<forall>c \<in> set s. list_ex (\<lambda>(cls, m, n). in_class cls c) p"
proof (induction p s rule: matches.induct)
  case (2 cls m n p s)
  then obtain k where k: "list_all (in_class cls) (take k s)" "matches p (drop k s)"
      "k \<in> set [m..<Suc n]"
    by (auto simp: list_ex_iff simp del: upt_Suc)
  have "c \<in> set (take k s) \<or> c \<in> set (drop k s)" if "c \<in> set s" for c
    using that append_take_drop_id [of k s] by (metis Un_iff set_append)
  with 2(1) k show ?case by (auto simp: list_all_iff)
qed simp

text \<open>The patterns a regular expression can denote: no empty class or range, bounds in order.\<close>

definition wf_class :: "char_class \<Rightarrow> bool" where
  "wf_class cls \<longleftrightarrow> cls \<noteq> [] \<and> list_all (\<lambda>(lo, hi). (of_char lo :: nat) \<le> of_char hi) cls"

definition wf_pattern :: "pattern \<Rightarrow> bool" where
  "wf_pattern p \<longleftrightarrow> list_all (\<lambda>(cls, m, n). wf_class cls \<and> m \<le> n) p"

lemma wf_pattern_simps [simp]:
  "wf_pattern []"
  "wf_pattern (one cls # p) \<longleftrightarrow> wf_class cls \<and> wf_pattern p"
  "wf_pattern (rep cls m n # p) \<longleftrightarrow> wf_class cls \<and> m \<le> n \<and> wf_pattern p"
  by (simp_all add: wf_pattern_def one_def rep_def)

lemma wf_classes [simp]: "wf_class az" "wf_class az09" "wf_class az09_dash" "wf_class AZ" "wf_class AZ09_us"
  by (simp_all add: wf_class_def class_defs)

section \<open>Draws\<close>

text \<open>The last argument before the state is the label of the draw, which rapid prints.\<close>

record 't rapid =
  draw_Bool :: "string \<Rightarrow> 't \<Rightarrow> bool \<times> 't"
  draw_IntRange :: "int \<Rightarrow> int \<Rightarrow> string \<Rightarrow> 't \<Rightarrow> int \<times> 't"
  draw_index :: "nat \<Rightarrow> string \<Rightarrow> 't \<Rightarrow> nat \<times> 't"
  draw_StringMatching :: "pattern \<Rightarrow> string \<Rightarrow> 't \<Rightarrow> string \<times> 't"
  draw_String :: "string \<Rightarrow> 't \<Rightarrow> string \<times> 't"
  MustParse :: "string \<Rightarrow> opaque"

type_synonym ('t, 'a) gen = "('t, 'a) state"

definition Bool :: "'t rapid \<Rightarrow> string \<Rightarrow> ('t, bool) gen" where
  "Bool R label = State (draw_Bool R label)"

text \<open>\<open>rapid.IntRange\<close>, \<open>rapid.Int32Range\<close>, \<open>rapid.Int64Range\<close>: the bounds are included.\<close>

definition IntRange :: "'t rapid \<Rightarrow> int \<Rightarrow> int \<Rightarrow> string \<Rightarrow> ('t, int) gen" where
  "IntRange R lo hi label = State (draw_IntRange R lo hi label)"

definition Int32Range :: "'t rapid \<Rightarrow> int \<Rightarrow> int \<Rightarrow> string \<Rightarrow> ('t, int32) gen" where
  "Int32Range R lo hi label = do { n \<leftarrow> IntRange R lo hi label; State_Monad.return (word_of_int n) }"

definition Int64Range :: "'t rapid \<Rightarrow> int \<Rightarrow> int \<Rightarrow> string \<Rightarrow> ('t, int64) gen" where
  "Int64Range R lo hi label = do { n \<leftarrow> IntRange R lo hi label; State_Monad.return (word_of_int n) }"

definition SampledFrom :: "'t rapid \<Rightarrow> 'a list \<Rightarrow> string \<Rightarrow> ('t, 'a) gen" where
  "SampledFrom R xs label =
     do { i \<leftarrow> State (draw_index R (length xs) label); State_Monad.return (xs ! i) }"

definition StringMatching :: "'t rapid \<Rightarrow> pattern \<Rightarrow> string \<Rightarrow> ('t, string) gen" where
  "StringMatching R p label = State (draw_StringMatching R p label)"

definition String :: "'t rapid \<Rightarrow> string \<Rightarrow> ('t, string) gen" where
  "String R label = State (draw_String R label)"

text \<open>\<open>if rapid.Bool().Draw(t, label) { ... }\<close> around an assignment to \<open>x\<close>.\<close>

definition maybe :: "'t rapid \<Rightarrow> string \<Rightarrow> ('a \<Rightarrow> ('t, 'a) gen) \<Rightarrow> 'a \<Rightarrow> ('t, 'a) gen" where
  "maybe R label f x = do { b \<leftarrow> Bool R label; if b then f x else State_Monad.return x }"

text \<open>\<open>for i := 0; i < n; i++\<close>, from \<open>i\<close> on, with \<open>n\<close> rounds left.\<close>

primrec loop :: "(nat \<Rightarrow> 'a \<Rightarrow> ('t, 'a) gen) \<Rightarrow> nat \<Rightarrow> nat \<Rightarrow> 'a \<Rightarrow> ('t, 'a) gen" where
  "loop body i 0 x = State_Monad.return x"
| "loop body i (Suc n) x = do { y \<leftarrow> body i x; loop body (Suc i) n y }"

section \<open>What rapid promises\<close>

definition rapid_ok :: "'t rapid \<Rightarrow> bool" where
  "rapid_ok R \<longleftrightarrow>
     (\<forall>lo hi label t. lo \<le> hi \<longrightarrow> fst (draw_IntRange R lo hi label t) \<in> {lo..hi}) \<and>
     (\<forall>n label t. 0 < n \<longrightarrow> fst (draw_index R n label t) < n) \<and>
     (\<forall>p label t. wf_pattern p \<longrightarrow> matches p (fst (draw_StringMatching R p label t)))"

lemma pred_state_iff: "pred_state P g \<longleftrightarrow> (\<forall>t. P (fst (run_state g t)))"
  by (metis pred_stateI pred_state_run_state fst_conv)

lemma pred_return [simp]: "pred_state P (State_Monad.return x) \<longleftrightarrow> P x"
  by (simp add: pred_state_iff)

lemma pred_bind: "pred_state (\<lambda>x. pred_state P (f x)) g \<Longrightarrow> pred_state P (g \<bind> f)"
  by (rule bind_predI)

lemma pred_if [simp]:
  "pred_state P (if b then g else h) \<longleftrightarrow> (b \<longrightarrow> pred_state P g) \<and> (\<not> b \<longrightarrow> pred_state P h)"
  by simp

lemma pred_Bool: "(\<And>b. P b) \<Longrightarrow> pred_state P (Bool R label)"
  by (simp add: pred_state_iff)

lemma pred_String: "(\<And>s. P s) \<Longrightarrow> pred_state P (String R label)"
  by (simp add: pred_state_iff)

lemma pred_IntRange:
  "rapid_ok R \<Longrightarrow> lo \<le> hi \<Longrightarrow> (\<And>n. lo \<le> n \<Longrightarrow> n \<le> hi \<Longrightarrow> P n) \<Longrightarrow> pred_state P (IntRange R lo hi label)"
  by (simp add: pred_state_iff IntRange_def rapid_ok_def)

lemma pred_Int32Range:
  "rapid_ok R \<Longrightarrow> lo \<le> hi \<Longrightarrow> (\<And>n. lo \<le> n \<Longrightarrow> n \<le> hi \<Longrightarrow> P (word_of_int n)) \<Longrightarrow>
    pred_state P (Int32Range R lo hi label)"
  unfolding Int32Range_def by (rule pred_bind) (simp add: pred_IntRange)

lemma pred_Int64Range:
  "rapid_ok R \<Longrightarrow> lo \<le> hi \<Longrightarrow> (\<And>n. lo \<le> n \<Longrightarrow> n \<le> hi \<Longrightarrow> P (word_of_int n)) \<Longrightarrow>
    pred_state P (Int64Range R lo hi label)"
  unfolding Int64Range_def by (rule pred_bind) (simp add: pred_IntRange)

lemma pred_SampledFrom:
  "rapid_ok R \<Longrightarrow> xs \<noteq> [] \<Longrightarrow> (\<And>x. x \<in> set xs \<Longrightarrow> P x) \<Longrightarrow> pred_state P (SampledFrom R xs label)"
  unfolding SampledFrom_def by (rule pred_bind) (simp add: pred_state_iff rapid_ok_def)

lemma pred_StringMatching:
  "rapid_ok R \<Longrightarrow> wf_pattern p \<Longrightarrow> (\<And>s. matches p s \<Longrightarrow> P s) \<Longrightarrow> pred_state P (StringMatching R p label)"
  by (simp add: pred_state_iff StringMatching_def rapid_ok_def)

lemma pred_maybe:
  "P x \<Longrightarrow> pred_state P (f x) \<Longrightarrow> pred_state P (maybe R label f x)"
  unfolding maybe_def by (rule pred_bind) (simp add: pred_Bool)

lemma pred_loop:
  "P x \<Longrightarrow> (\<And>i x. P x \<Longrightarrow> pred_state P (body i x)) \<Longrightarrow> pred_state P (loop body i n x)"
proof (induction n arbitrary: i x)
  case (Suc n)
  have "pred_state (\<lambda>y. pred_state P (loop body (Suc i) n y)) (body i x)"
    using Suc.prems(2) [OF Suc.prems(1), of i]
    by (rule state.pred_mono_strong) (use Suc in blast)
  then show ?case by (simp add: pred_bind)
qed simp

lemma pred_mono: "pred_state P g \<Longrightarrow> (\<And>x. P x \<Longrightarrow> Q x) \<Longrightarrow> pred_state Q g"
  by (rule state.pred_mono_strong)

lemma pred_True [simp]: "pred_state (\<lambda>_. True) g"
  by (simp add: pred_state_iff)

text \<open>The rules whose use does not lose anything, in the order in which a generator is read.\<close>

lemmas pred_rules = pred_bind pred_Bool pred_String pred_IntRange pred_Int32Range pred_Int64Range
  pred_SampledFrom pred_StringMatching

section \<open>A source of draws\<close>

text \<open>
  Draws from a tape. A number is reduced to the range asked for; a text is taken when it matches
  the pattern, and the shortest match otherwise. An exhausted tape reads as zeros.
\<close>

datatype draw = Num nat | Text string

fun next_number :: "draw list \<Rightarrow> nat \<times> draw list" where
  "next_number (Num n # t) = (n, t)"
| "next_number (Text s # t) = (0, t)"
| "next_number [] = (0, [])"

fun next_text :: "draw list \<Rightarrow> string \<times> draw list" where
  "next_text (Text s # t) = (s, t)"
| "next_text (Num n # t) = ([], t)"
| "next_text [] = ([], [])"

fun shortest :: "pattern \<Rightarrow> string" where
  "shortest [] = []"
| "shortest ((cls, m, n) # p) = replicate m (fst (hd cls)) @ shortest p"

definition tape :: "draw list rapid" where
  "tape = \<lparr>
     draw_Bool = (\<lambda>label t. map_prod odd id (next_number t)),
     draw_IntRange = (\<lambda>lo hi label t. map_prod (\<lambda>n. lo + int n mod (hi - lo + 1)) id (next_number t)),
     draw_index = (\<lambda>n label t. map_prod (\<lambda>k. k mod n) id (next_number t)),
     draw_StringMatching = (\<lambda>p label t. map_prod (\<lambda>s. if matches p s then s else shortest p) id (next_text t)),
     draw_String = (\<lambda>label t. next_text t),
     MustParse = id\<rparr>"

lemma in_class_first: "wf_class cls \<Longrightarrow> in_class cls (fst (hd cls))"
  by (cases cls) (auto simp: wf_class_def in_class_def)

lemma matches_shortest: "wf_pattern p \<Longrightarrow> matches p (shortest p)"
proof (induction p rule: shortest.induct)
  case (2 cls m n p)
  let ?s = "replicate m (fst (hd cls)) @ shortest p"
  have "m \<le> length ?s \<and> list_all (in_class cls) (take m ?s) \<and> matches p (drop m ?s)" and "m \<le> n"
    using 2 by (auto simp: list_all_iff wf_pattern_def in_class_first)
  then show ?case by (auto simp: list_ex_iff simp del: upt_Suc intro!: bexI [of _ m])
qed simp

lemma tape_ok: "rapid_ok tape"
proof -
  have "lo + int n mod (hi - lo + 1) \<in> {lo..hi}" if "lo \<le> hi" for lo hi n
    using that pos_mod_bound [of "hi - lo + 1" "int n"] by auto
  then show ?thesis by (simp add: rapid_ok_def tape_def matches_shortest)
qed

lemma tape_simps [simp]:
  "run_state (Bool tape label) t = map_prod odd id (next_number t)"
  "run_state (IntRange tape lo hi label) t = map_prod (\<lambda>n. lo + int n mod (hi - lo + 1)) id (next_number t)"
  "run_state (SampledFrom tape xs label) t = map_prod (\<lambda>k. xs ! (k mod length xs)) id (next_number t)"
  "run_state (StringMatching tape p label) t =
     map_prod (\<lambda>s. if matches p s then s else shortest p) id (next_text t)"
  "run_state (String tape label) t = next_text t"
  "MustParse tape s = s"
  by (simp_all add: Bool_def IntRange_def SampledFrom_def StringMatching_def String_def tape_def
      map_prod_def split_beta)

end
