(* ===== verification/Conf_Mutators.thy ===== *)
theory Conf_Mutators
  imports Conf_Rapid
begin

text \<open>
  The update inputs of the conformance tests: the functions that change a pair of objects, one for
  the API model and one for a real API server, before both are sent as updates
  (src/kubernetes_model/apimodel/pbtesting/generators: meta.go and the \<open>...Mut\<close> functions of
  pod.go, replicaset.go, deployment.go, statefulset.go, persistentvolumeclaim.go,
  controllerrevision.go).

  The Go functions assign through pointers to the two objects; here they map the pair to the
  changed pair. The tests call them on deep copies of two answers
  (\<open>testUpdate\<close> in api_model_pb_test.go), so no two fields share a map or a slice.
\<close>

section \<open>Assignments to both objects\<close>

definition both :: "('a \<Rightarrow> 'b) \<Rightarrow> 'a \<times> 'a \<Rightarrow> 'b \<times> 'b" where
  "both f = map_prod f f"

lemma both_simps [simp]: "fst (both f p) = f (fst p)" "snd (both f p) = f (snd p)"
  by (simp_all add: both_def)

lemma both_pair: "both f (a, b) = (f a, f b)"
  by (simp add: both_def)

definition on_meta :: "(ObjectMeta \<Rightarrow> ObjectMeta) \<Rightarrow> 'z Object_scheme \<Rightarrow> 'z Object_scheme" where
  "on_meta f ob = ob\<lparr>ObjectMeta := f (ObjectMeta ob)\<rparr>"

text \<open>\<open>if m == nil { m = map[string]string{} }; m[k] = v\<close>\<close>

definition set_entry :: "string \<Rightarrow> string \<Rightarrow> str_map option \<Rightarrow> str_map option" where
  "set_entry k v mp = Some (fmupd k v (case mp of None \<Rightarrow> fmempty | Some f \<Rightarrow> f))"

text \<open>Writing back the elements of a slice after a loop over its indexes.\<close>

definition put_elems :: "'a list \<Rightarrow> 'a slice \<Rightarrow> 'a slice" where
  "put_elems xs s = map_option (\<lambda>_. xs) s"

text \<open>\<open>s[0].f = ...\<close> under \<open>len(s) > 0\<close>.\<close>

definition on_first :: "('a \<Rightarrow> 'a) \<Rightarrow> 'a slice \<Rightarrow> 'a slice" where
  "on_first f s = (case s of Some (x # xs) \<Rightarrow> Some (f x # xs) | _ \<Rightarrow> s)"

definition both_nonempty :: "'a slice \<times> 'b slice \<Rightarrow> bool" where
  "both_nonempty p \<longleftrightarrow> length (elems (fst p)) > 0 \<and> length (elems (snd p)) > 0"

section \<open>Metadata\<close>

definition add_label :: "'t rapid \<Rightarrow> 'z Object_scheme \<times> 'z Object_scheme \<Rightarrow> ('t, 'z Object_scheme \<times> 'z Object_scheme) gen" where
  "add_label R objs = do {
     labelKey \<leftarrow> StringMatching R [one az, rep az09 0 8] ''updateLabelKey'';
     labelValue \<leftarrow> StringMatching R [one az, rep az09_dash 0 8] ''updateLabelValue'';
     State_Monad.return (both (on_meta (\<lambda>md. md\<lparr>Labels := set_entry labelKey labelValue (Labels md)\<rparr>)) objs) }"

definition add_annotation :: "'t rapid \<Rightarrow> 'z Object_scheme \<times> 'z Object_scheme \<Rightarrow> ('t, 'z Object_scheme \<times> 'z Object_scheme) gen" where
  "add_annotation R objs = do {
     annotationKey \<leftarrow> StringMatching R [one az, rep az09 0 8] ''updateAnnotationKey'';
     annotationValue \<leftarrow> StringMatching R [one az, rep az09_dash 0 16] ''updateAnnotationValue'';
     State_Monad.return
       (both (on_meta (\<lambda>md. md\<lparr>Annotations := set_entry annotationKey annotationValue (Annotations md)\<rparr>)) objs) }"

definition SetUID :: "string \<Rightarrow> 'z Object_scheme \<Rightarrow> 'z Object_scheme" where
  "SetUID u = on_meta (\<lambda>md. md\<lparr>UID := u\<rparr>)"

definition SetResourceVersion :: "string \<Rightarrow> 'z Object_scheme \<Rightarrow> 'z Object_scheme" where
  "SetResourceVersion v = on_meta (\<lambda>md. md\<lparr>ResourceVersion := v\<rparr>)"

definition ObjectMetaMut ::
  "'t rapid \<Rightarrow> 'z Object_scheme \<times> 'z Object_scheme \<Rightarrow> bool \<Rightarrow> bool \<Rightarrow>
     ('t, ('z Object_scheme \<times> 'z Object_scheme) \<times> bool) gen" where
  "ObjectMetaMut R objs exists valid = do {
     objs \<leftarrow> add_label R objs;
     objs \<leftarrow> add_annotation R objs;
     if \<not> exists then State_Monad.return (both (SetResourceVersion [] \<circ> SetUID []) objs, False)
     else if valid then do {
       uidOmit \<leftarrow> Bool R ''validUpdateUIDOmit'';
       let objs = (if uidOmit then both (SetUID []) objs else objs);
       rvOmit \<leftarrow> Bool R ''validUpdateRVOmit'';
       let objs = (if rvOmit then both (SetResourceVersion []) objs else objs);
       State_Monad.return (objs, False) }
     else do {
       badUID \<leftarrow> Bool R ''invalidUpdateUsesBadUID'';
       State_Monad.return
         (if badUID then both (SetUID ''corrupted-uid'') objs
          else both (SetResourceVersion ''corrupted-rv'') objs, True) } }"

section \<open>Pods\<close>

definition on_podspec :: "(PodSpec \<Rightarrow> PodSpec) \<Rightarrow> Pod \<Rightarrow> Pod" where
  "on_podspec f p = p\<lparr>pod_Spec := f (pod_Spec p)\<rparr>"

definition on_podstatus :: "(PodStatus \<Rightarrow> PodStatus) \<Rightarrow> Pod \<Rightarrow> Pod" where
  "on_podstatus f p = p\<lparr>pod_Status := f (pod_Status p)\<rparr>"

definition new_images :: "string list" where
  "new_images = [''nginx:1.25'', ''nginx:1.27'', ''busybox:1.36'', ''alpine:3.19'']"

text \<open>The loop over the containers, which ends with the shorter list.\<close>

fun change_images ::
  "'t rapid \<Rightarrow> string \<Rightarrow> nat \<Rightarrow> Container list \<Rightarrow> Container list \<Rightarrow> ('t, Container list \<times> Container list) gen" where
  "change_images R prefix i (mc # ms) (rc # rs) = do {
     image \<leftarrow> SampledFrom R new_images (prefix @ format_nat i);
     let image = (if image = cont_Image mc then ''redis:7'' else image);
     (ms', rs') \<leftarrow> change_images R prefix (Suc i) ms rs;
     State_Monad.return (mc\<lparr>cont_Image := image\<rparr> # ms', rc\<lparr>cont_Image := image\<rparr> # rs') }"
| "change_images R prefix i ms rs = State_Monad.return (ms, rs)"

definition mutatePodContainerImages ::
  "'t rapid \<Rightarrow> Container slice \<times> Container slice \<Rightarrow> string \<Rightarrow> ('t, Container slice \<times> Container slice) gen" where
  "mutatePodContainerImages R cs drawPrefix = do {
     (ms, rs) \<leftarrow> change_images R drawPrefix 0 (elems (fst cs)) (elems (snd cs));
     State_Monad.return (put_elems ms (fst cs), put_elems rs (snd cs)) }"

definition allowed_images :: "'t rapid \<Rightarrow> Pod \<times> Pod \<Rightarrow> ('t, Pod \<times> Pod) gen" where
  "allowed_images R pods = do {
     (mc, rc) \<leftarrow> mutatePodContainerImages R (both (Containers \<circ> pod_Spec) pods) ''updatePodContainerImage'';
     (mi, ri) \<leftarrow> mutatePodContainerImages R (both (InitContainers \<circ> pod_Spec) pods) ''updatePodInitContainerImage'';
     State_Monad.return
       (on_podspec (\<lambda>s. s\<lparr>Containers := mc, InitContainers := mi\<rparr>) (fst pods),
        on_podspec (\<lambda>s. s\<lparr>Containers := rc, InitContainers := ri\<rparr>) (snd pods)) }"

definition new_deadline :: "'t rapid \<Rightarrow> int64 option \<Rightarrow> ('t, int64) gen" where
  "new_deadline R deadline =
     (case deadline of
        None \<Rightarrow> Int64Range R 1 300 ''updatePodActiveDeadlineValue''
      | Some oldSeconds \<Rightarrow>
          if sint oldSeconds \<le> 0 then State_Monad.return 0
          else do {
            seconds \<leftarrow> Int64Range R 0 (sint oldSeconds) ''updatePodActiveDeadlineValue'';
            State_Monad.return (if seconds = oldSeconds then oldSeconds - 1 else seconds) })"

definition allowed_deadline :: "'t rapid \<Rightarrow> Pod \<times> Pod \<Rightarrow> ('t, Pod \<times> Pod) gen" where
  "allowed_deadline R = maybe R ''updatePodActiveDeadlineSeconds'' (\<lambda>pods. do {
     seconds \<leftarrow> new_deadline R (ActiveDeadlineSeconds (pod_Spec (fst pods)));
     State_Monad.return (both (on_podspec (\<lambda>s. s\<lparr>ActiveDeadlineSeconds := Some seconds\<rparr>)) pods) })"

definition allowed_toleration :: "'t rapid \<Rightarrow> Pod \<times> Pod \<Rightarrow> ('t, Pod \<times> Pod) gen" where
  "allowed_toleration R = maybe R ''updatePodAddToleration'' (\<lambda>pods. do {
     key \<leftarrow> SampledFrom R [''example.com/not-ready'', ''example.com/drain'', ''example.com/spot''] ''updatePodTolerationKey'';
     let toleration = \<lparr>tol_Key = key, tol_Operator = ''Exists'', tol_Value = [], tol_Effect = ''NoSchedule'',
       tol_TolerationSeconds = None\<rparr>;
     State_Monad.return (both (on_podspec (\<lambda>s. s\<lparr>Tolerations := append_slice (Tolerations s) [toleration]\<rparr>)) pods) })"

text \<open>\<open>append(s[:idx], s[idx+1:]...)\<close>, for an index of the slice; the two pods have equally many gates.\<close>

definition delete_at :: "nat \<Rightarrow> 'a slice \<Rightarrow> 'a slice" where
  "delete_at i s = map_option (\<lambda>xs. take i xs @ drop (Suc i) xs) s"

definition allowed_gate :: "'t rapid \<Rightarrow> Pod \<times> Pod \<Rightarrow> ('t, Pod \<times> Pod) gen" where
  "allowed_gate R pods =
     (if both_nonempty (both (SchedulingGates \<circ> pod_Spec) pods) then
        maybe R ''updatePodDeleteSchedulingGate'' (\<lambda>pods. do {
          idx \<leftarrow> IntRange R 0 (int (length (elems (SchedulingGates (pod_Spec (fst pods))))) - 1) ''updatePodSchedulingGateIdx'';
          State_Monad.return (both (on_podspec (\<lambda>s. s\<lparr>SchedulingGates := delete_at (nat idx) (SchedulingGates s)\<rparr>)) pods) }) pods
      else State_Monad.return pods)"

definition negative_grace :: "Pod \<Rightarrow> bool" where
  "negative_grace p \<longleftrightarrow>
     (case TerminationGracePeriodSeconds (pod_Spec p) of None \<Rightarrow> False | Some g \<Rightarrow> sint g < 0)"

definition allowed_grace :: "'t rapid \<Rightarrow> Pod \<times> Pod \<Rightarrow> ('t, Pod \<times> Pod) gen" where
  "allowed_grace R pods =
     (if TerminationGracePeriodSeconds (pod_Spec (snd pods)) \<noteq> None \<and> negative_grace (fst pods) then
        maybe R ''updatePodNegativeTerminationGracePeriod'' (\<lambda>pods.
          State_Monad.return (both (on_podspec (\<lambda>s. s\<lparr>TerminationGracePeriodSeconds := Some 1\<rparr>)) pods)) pods
      else State_Monad.return pods)"

definition mutateAllowedPodSpecFields :: "'t rapid \<Rightarrow> Pod \<times> Pod \<Rightarrow> ('t, Pod \<times> Pod) gen" where
  "mutateAllowedPodSpecFields R pods = do {
     pods \<leftarrow> allowed_images R pods;
     pods \<leftarrow> allowed_deadline R pods;
     pods \<leftarrow> allowed_toleration R pods;
     pods \<leftarrow> allowed_gate R pods;
     allowed_grace R pods }"

definition mutateAllowedPodStatusFields :: "'t rapid \<Rightarrow> Pod \<times> Pod \<Rightarrow> ('t, Pod \<times> Pod) gen" where
  "mutateAllowedPodStatusFields R pods = do {
     phase \<leftarrow> SampledFrom R [''Pending'', ''Running'', ''Succeeded'', ''Failed'', ''Unknown''] ''updatePodStatusPhase'';
     observedGeneration \<leftarrow> Int64Range R 0 10 ''updatePodStatusObservedGeneration'';
     reason \<leftarrow> SampledFrom R [''Scheduled'', ''Running'', ''Completed''] ''updatePodStatusReason'';
     message \<leftarrow> SampledFrom R [''pod scheduled'', ''containers running'', ''completed''] ''updatePodStatusMessage'';
     State_Monad.return (both (on_podstatus (\<lambda>st. st\<lparr>pod_Phase := phase, pod_ObservedGeneration := observedGeneration,
       pod_Reason := reason, pod_Message := message\<rparr>)) pods) }"

definition mutateInvalidPodStatusFields :: "Pod \<times> Pod \<Rightarrow> Pod \<times> Pod" where
  "mutateInvalidPodStatusFields = both (on_podstatus (\<lambda>st. st\<lparr>pod_ObservedGeneration := - 1\<rparr>))"

text \<open>The fields a pod update may not change. A value that happens to be the old one is replaced.\<close>

definition other_than :: "'a \<Rightarrow> 'a \<Rightarrow> 'a \<Rightarrow> 'a" where
  "other_than old fallback x = (if x = old then fallback else x)"

definition immutable_policies :: "'t rapid \<Rightarrow> Pod \<times> Pod \<Rightarrow> ('t, Pod \<times> Pod) gen" where
  "immutable_policies R pods = (let old = pod_Spec (fst pods) in do {
     let restartPolicy = other_than (RestartPolicy old) ''OnFailure'' ''Never'';
     let dnsPolicy = other_than (DNSPolicy old) ''ClusterFirst'' ''Default'';
     account \<leftarrow> StringMatching R [one az, rep az09 2 8] ''updatePodServiceAccount'';
     scheduler \<leftarrow> StringMatching R [one az, rep az09_dash 2 12] ''updatePodSchedulerName'';
     key \<leftarrow> StringMatching R [one az, rep az09 0 8] ''updatePodNodeSelectorKey'';
     val \<leftarrow> StringMatching R [one az, rep az09_dash 0 8] ''updatePodNodeSelectorValue'';
     period \<leftarrow> Int64Range R 1 120 ''updatePodTerminationGracePeriod'';
     State_Monad.return (both (on_podspec (\<lambda>s. s\<lparr>RestartPolicy := restartPolicy, DNSPolicy := dnsPolicy,
       ServiceAccountName := other_than (ServiceAccountName old) ''otheraccount'' account,
       SchedulerName := other_than (SchedulerName old) ''other-scheduler'' scheduler,
       NodeSelector := Some (fmupd key val fmempty),
       TerminationGracePeriodSeconds :=
         Some (if TerminationGracePeriodSeconds old = Some period then period + 1 else period)\<rparr>)) pods) })"

definition add_env :: "string \<Rightarrow> string \<Rightarrow> Container \<Rightarrow> Container" where
  "add_env name val c = c\<lparr>cont_Env := append_slice (cont_Env c) [\<lparr>env_Name = name, env_Value = val, env_rest = []\<rparr>]\<rparr>"

definition immutable_container :: "'t rapid \<Rightarrow> Pod \<times> Pod \<Rightarrow> ('t, Pod \<times> Pod) gen" where
  "immutable_container R pods =
     (if both_nonempty (both (Containers \<circ> pod_Spec) pods) then do {
        command \<leftarrow> SampledFrom R [''sleep'', ''sh'', ''echo''] ''updatePodCommand'';
        arg \<leftarrow> SampledFrom R [''1'', ''60'', ''hello''] ''updatePodCommandArg'';
        envName \<leftarrow> StringMatching R [one AZ, rep AZ09_us 1 8] ''updatePodEnvName'';
        envValue \<leftarrow> StringMatching R [rep az09_dash 1 8] ''updatePodEnvValue'';
        State_Monad.return (both (on_podspec (\<lambda>s. s\<lparr>Containers :=
          on_first (\<lambda>c. add_env envName envValue (c\<lparr>cont_Command := Some [command, arg]\<rparr>)) (Containers s)\<rparr>)) pods) }
      else State_Monad.return pods)"

definition empty_dir_volume :: "string \<Rightarrow> Volume" where
  "empty_dir_volume name = \<lparr>vol_Name = name, vol_PersistentVolumeClaim = None,
     vol_EmptyDir = Some \<lparr>ed_Medium = [], ed_SizeLimit = None\<rparr>, vol_rest = []\<rparr>"

definition mutateImmutablePodUpdateFields :: "'t rapid \<Rightarrow> Pod \<times> Pod \<Rightarrow> ('t, Pod \<times> Pod) gen" where
  "mutateImmutablePodUpdateFields R pods = do {
     pods \<leftarrow> immutable_policies R pods;
     pods \<leftarrow> immutable_container R pods;
     pullSecretName \<leftarrow> StringMatching R [one az, rep az09_dash 2 10] ''updatePodImagePullSecret'';
     volumeName \<leftarrow> StringMatching R [one az, rep az09_dash 2 10] ''updatePodVolumeName'';
     State_Monad.return (both
       (on_podstatus (\<lambda>st. st\<lparr>pod_Phase := ''Running''\<rparr>) \<circ>
        on_podspec (\<lambda>s. s\<lparr>ImagePullSecrets := append_slice (ImagePullSecrets s) [pullSecretName],
          Volumes := append_slice (Volumes s) [empty_dir_volume volumeName]\<rparr>)) pods) }"

definition ComprehensivePodMut :: "'t rapid \<Rightarrow> Pod \<times> Pod \<Rightarrow> bool \<Rightarrow> bool \<Rightarrow> ('t, Pod \<times> Pod) gen" where
  "ComprehensivePodMut R pods exists valid = do {
     (pods, metadataInvalid) \<leftarrow> ObjectMetaMut R pods exists valid;
     if valid then mutateAllowedPodSpecFields R pods
     else if \<not> exists \<or> metadataInvalid then mutateAllowedPodSpecFields R pods
     else do {
       pods \<leftarrow> mutateAllowedPodSpecFields R pods;
       mutateImmutablePodUpdateFields R pods } }"

definition ComprehensivePodStatusMut :: "'t rapid \<Rightarrow> Pod \<times> Pod \<Rightarrow> bool \<Rightarrow> bool \<Rightarrow> ('t, Pod \<times> Pod) gen" where
  "ComprehensivePodStatusMut R pods exists valid = do {
     (pods, metadataInvalid) \<leftarrow> ObjectMetaMut R pods exists valid;
     if valid then mutateAllowedPodStatusFields R pods
     else if \<not> exists \<or> metadataInvalid then mutateAllowedPodStatusFields R pods
     else State_Monad.return (mutateInvalidPodStatusFields pods) }"

section \<open>Pod templates\<close>

text \<open>
  The part of a replica set or deployment update that changes the pod template, with the prefix
  of the labels of its draws. \<open>sel\<close> is the selector of the model object.
\<close>

definition mutateReplicaSetTemplateContainerImages ::
  "'t rapid \<Rightarrow> Container slice \<times> Container slice \<Rightarrow> ('t, Container slice \<times> Container slice) gen" where
  "mutateReplicaSetTemplateContainerImages R cs = do {
     (ms, rs) \<leftarrow> change_images R ''updateRSImage'' 0 (elems (fst cs)) (elems (snd cs));
     State_Monad.return (put_elems ms (fst cs), put_elems rs (snd cs)) }"

definition on_tmpl_spec :: "(PodSpec \<Rightarrow> PodSpec) \<Rightarrow> PodTemplateSpec \<Rightarrow> PodTemplateSpec" where
  "on_tmpl_spec f t = t\<lparr>tmpl_Spec := f (tmpl_Spec t)\<rparr>"

definition on_tmpl_meta :: "(ObjectMeta \<Rightarrow> ObjectMeta) \<Rightarrow> PodTemplateSpec \<Rightarrow> PodTemplateSpec" where
  "on_tmpl_meta f t = t\<lparr>tmpl_ObjectMeta := f (tmpl_ObjectMeta t)\<rparr>"

definition free_label :: "LabelSelector option \<Rightarrow> string \<Rightarrow> string" where
  "free_label sel key =
     (case sel of None \<Rightarrow> key
      | Some s \<Rightarrow> if map_get (MatchLabels s) key \<noteq> None then ''extra-update'' else key)"

definition template_label ::
  "'t rapid \<Rightarrow> string \<Rightarrow> LabelSelector option \<Rightarrow> PodTemplateSpec \<times> PodTemplateSpec \<Rightarrow>
     ('t, PodTemplateSpec \<times> PodTemplateSpec) gen" where
  "template_label R prefix sel tmpls = do {
     key \<leftarrow> StringMatching R [one az, rep az09 0 8] (prefix @ ''TemplateLabelKey'');
     val \<leftarrow> StringMatching R [one az, rep az09_dash 0 8] (prefix @ ''TemplateLabelValue'');
     State_Monad.return (both (on_tmpl_meta (\<lambda>md. md\<lparr>Labels := set_entry (free_label sel key) val (Labels md)\<rparr>)) tmpls) }"

definition template_images ::
  "'t rapid \<Rightarrow> PodTemplateSpec \<times> PodTemplateSpec \<Rightarrow> ('t, PodTemplateSpec \<times> PodTemplateSpec) gen" where
  "template_images R tmpls = do {
     (mc, rc) \<leftarrow> mutateReplicaSetTemplateContainerImages R (both (Containers \<circ> tmpl_Spec) tmpls);
     State_Monad.return (on_tmpl_spec (\<lambda>s. s\<lparr>Containers := mc\<rparr>) (fst tmpls),
       on_tmpl_spec (\<lambda>s. s\<lparr>Containers := rc\<rparr>) (snd tmpls)) }"

definition template_env ::
  "'t rapid \<Rightarrow> string \<Rightarrow> PodTemplateSpec \<times> PodTemplateSpec \<Rightarrow> ('t, PodTemplateSpec \<times> PodTemplateSpec) gen" where
  "template_env R prefix tmpls =
     (if both_nonempty (both (Containers \<circ> tmpl_Spec) tmpls) then
        maybe R (prefix @ ''TemplateEnv'') (\<lambda>tmpls. do {
          envName \<leftarrow> StringMatching R [one AZ, rep AZ09_us 1 8] (prefix @ ''TemplateEnvName'');
          envValue \<leftarrow> StringMatching R [rep az09_dash 1 8] (prefix @ ''TemplateEnvValue'');
          State_Monad.return (both (on_tmpl_spec (\<lambda>s. s\<lparr>Containers :=
            on_first (add_env envName envValue) (Containers s)\<rparr>)) tmpls) }) tmpls
      else State_Monad.return tmpls)"

definition template_annotation ::
  "'t rapid \<Rightarrow> string \<Rightarrow> PodTemplateSpec \<times> PodTemplateSpec \<Rightarrow> ('t, PodTemplateSpec \<times> PodTemplateSpec) gen" where
  "template_annotation R prefix = maybe R (prefix @ ''TemplateAnnotation'') (\<lambda>tmpls. do {
     key \<leftarrow> StringMatching R [one az, rep az09 0 8] (prefix @ ''TemplateAnnotationKey'');
     val \<leftarrow> StringMatching R [one az, rep az09_dash 0 8] (prefix @ ''TemplateAnnotationValue'');
     State_Monad.return (both (on_tmpl_meta (\<lambda>md. md\<lparr>Annotations := set_entry key val (Annotations md)\<rparr>)) tmpls) })"

definition template_node_selector ::
  "'t rapid \<Rightarrow> string \<Rightarrow> PodTemplateSpec \<times> PodTemplateSpec \<Rightarrow> ('t, PodTemplateSpec \<times> PodTemplateSpec) gen" where
  "template_node_selector R prefix = maybe R (prefix @ ''TemplateNodeSelector'') (\<lambda>tmpls. do {
     key \<leftarrow> StringMatching R [one az, rep az09 0 8] (prefix @ ''TemplateNodeSelectorKey'');
     val \<leftarrow> StringMatching R [one az, rep az09_dash 0 8] (prefix @ ''TemplateNodeSelectorValue'');
     State_Monad.return (both (on_tmpl_spec (\<lambda>s. s\<lparr>NodeSelector := Some (fmupd key val fmempty)\<rparr>)) tmpls) })"

definition mutate_template ::
  "'t rapid \<Rightarrow> string \<Rightarrow> LabelSelector option \<Rightarrow> PodTemplateSpec \<times> PodTemplateSpec \<Rightarrow>
     ('t, PodTemplateSpec \<times> PodTemplateSpec) gen" where
  "mutate_template R prefix sel tmpls = do {
     tmpls \<leftarrow> template_label R prefix sel tmpls;
     tmpls \<leftarrow> template_images R tmpls;
     tmpls \<leftarrow> template_env R prefix tmpls;
     tmpls \<leftarrow> template_annotation R prefix tmpls;
     template_node_selector R prefix tmpls }"

section \<open>Replica sets\<close>

definition on_rsspec :: "(ReplicaSetSpec \<Rightarrow> ReplicaSetSpec) \<Rightarrow> ReplicaSet \<Rightarrow> ReplicaSet" where
  "on_rsspec f rs = rs\<lparr>rs_Spec := f (rs_Spec rs)\<rparr>"

definition on_rsstatus :: "(ReplicaSetStatus \<Rightarrow> ReplicaSetStatus) \<Rightarrow> ReplicaSet \<Rightarrow> ReplicaSet" where
  "on_rsstatus f rs = rs\<lparr>rs_Status := f (rs_Status rs)\<rparr>"

text \<open>\<open>(replicas + 1) % 6\<close> when the drawn number is the old one.\<close>

definition other_replicas :: "bool \<Rightarrow> int32 option \<Rightarrow> int32 \<Rightarrow> int32" where
  "other_replicas exists old replicas = (if exists \<and> old = Some replicas then (replicas + 1) mod 6 else replicas)"

definition mutateAllowedReplicaSetUpdateFields ::
  "'t rapid \<Rightarrow> ReplicaSet \<times> ReplicaSet \<Rightarrow> bool \<Rightarrow> ('t, ReplicaSet \<times> ReplicaSet) gen" where
  "mutateAllowedReplicaSetUpdateFields R sets exists = do {
     replicas \<leftarrow> Int32Range R 0 5 ''updateRSReplicas'';
     let replicas = other_replicas exists (rs_Replicas (rs_Spec (fst sets))) replicas;
     let sets = both (on_rsspec (\<lambda>s. s\<lparr>rs_Replicas := Some replicas\<rparr>)) sets;
     sets \<leftarrow> maybe R ''updateRSMinReadySeconds'' (\<lambda>sets. do {
       minReadySeconds \<leftarrow> Int32Range R 0 30 ''updateRSMinReadySecondsValue'';
       State_Monad.return (both (on_rsspec (\<lambda>s. s\<lparr>rs_MinReadySeconds := minReadySeconds\<rparr>)) sets) }) sets;
     (mt, rt) \<leftarrow> mutate_template R ''updateRS'' (rs_Selector (rs_Spec (fst sets))) (both (rs_Template \<circ> rs_Spec) sets);
     State_Monad.return (on_rsspec (\<lambda>s. s\<lparr>rs_Template := mt\<rparr>) (fst sets), on_rsspec (\<lambda>s. s\<lparr>rs_Template := rt\<rparr>) (snd sets)) }"

definition mutateAllowedReplicaSetStatusFields ::
  "'t rapid \<Rightarrow> ReplicaSet \<times> ReplicaSet \<Rightarrow> ('t, ReplicaSet \<times> ReplicaSet) gen" where
  "mutateAllowedReplicaSetStatusFields R sets = do {
     replicas \<leftarrow> Int32Range R 0 5 ''updateRSStatusReplicas'';
     fullyLabeledReplicas \<leftarrow> Int32Range R 0 (sint replicas) ''updateRSStatusFullyLabeledReplicas'';
     readyReplicas \<leftarrow> Int32Range R 0 (sint replicas) ''updateRSStatusReadyReplicas'';
     availableReplicas \<leftarrow> Int32Range R 0 (sint readyReplicas) ''updateRSStatusAvailableReplicas'';
     observedGeneration \<leftarrow> Int64Range R 0 10 ''updateRSStatusObservedGeneration'';
     State_Monad.return (both (on_rsstatus (\<lambda>st. st\<lparr>st_Replicas := replicas,
       st_FullyLabeledReplicas := fullyLabeledReplicas, st_ReadyReplicas := readyReplicas,
       st_AvailableReplicas := availableReplicas, st_ObservedGeneration := observedGeneration\<rparr>)) sets) }"

definition mutateInvalidReplicaSetStatusFields :: "ReplicaSet \<times> ReplicaSet \<Rightarrow> ReplicaSet \<times> ReplicaSet" where
  "mutateInvalidReplicaSetStatusFields = both (on_rsstatus (\<lambda>st. st\<lparr>st_Replicas := - 1\<rparr>))"

definition app_selector :: "string \<Rightarrow> LabelSelector" where
  "app_selector val = \<lparr>MatchLabels = Some (fmupd ''app'' val fmempty), MatchExpressions = None\<rparr>"

definition set_app_label :: "string \<Rightarrow> PodTemplateSpec \<Rightarrow> PodTemplateSpec" where
  "set_app_label val = on_tmpl_meta (\<lambda>md. md\<lparr>Labels := set_entry ''app'' val (Labels md)\<rparr>)"

definition mutateImmutableReplicaSetUpdateFields ::
  "'t rapid \<Rightarrow> ReplicaSet \<times> ReplicaSet \<Rightarrow> ('t, ReplicaSet \<times> ReplicaSet) gen" where
  "mutateImmutableReplicaSetUpdateFields R sets = do {
     selectorValue \<leftarrow> StringMatching R [one az, rep az09_dash 2 8] ''updateRSSelectorValue'';
     let sets = both (on_rsspec (\<lambda>s. s\<lparr>rs_Selector := Some (app_selector selectorValue),
       rs_Template := set_app_label selectorValue (rs_Template s)\<rparr>)) sets;
     statusReplicas \<leftarrow> Int32Range R 0 5 ''updateRSStatusReplicas'';
     readyReplicas \<leftarrow> Int32Range R 0 (sint statusReplicas) ''updateRSReadyReplicas'';
     availableReplicas \<leftarrow> Int32Range R 0 (sint readyReplicas) ''updateRSAvailableReplicas'';
     observedGeneration \<leftarrow> Int64Range R 1 10 ''updateRSObservedGeneration'';
     State_Monad.return (both (on_rsstatus (\<lambda>st. st\<lparr>st_Replicas := statusReplicas, st_ReadyReplicas := readyReplicas,
       st_AvailableReplicas := availableReplicas, st_ObservedGeneration := observedGeneration\<rparr>)) sets) }"

definition ComprehensiveReplicaSetMut ::
  "'t rapid \<Rightarrow> ReplicaSet \<times> ReplicaSet \<Rightarrow> bool \<Rightarrow> bool \<Rightarrow> ('t, ReplicaSet \<times> ReplicaSet) gen" where
  "ComprehensiveReplicaSetMut R sets exists valid = do {
     (sets, metadataInvalid) \<leftarrow> ObjectMetaMut R sets exists valid;
     if valid then mutateAllowedReplicaSetUpdateFields R sets exists
     else if \<not> exists \<or> metadataInvalid then mutateAllowedReplicaSetUpdateFields R sets exists
     else do {
       sets \<leftarrow> mutateAllowedReplicaSetUpdateFields R sets exists;
       mutateImmutableReplicaSetUpdateFields R sets } }"

definition ComprehensiveReplicaSetStatusMut ::
  "'t rapid \<Rightarrow> ReplicaSet \<times> ReplicaSet \<Rightarrow> bool \<Rightarrow> bool \<Rightarrow> ('t, ReplicaSet \<times> ReplicaSet) gen" where
  "ComprehensiveReplicaSetStatusMut R sets exists valid = do {
     (sets, metadataInvalid) \<leftarrow> ObjectMetaMut R sets exists valid;
     if valid then mutateAllowedReplicaSetStatusFields R sets
     else if \<not> exists \<or> metadataInvalid then mutateAllowedReplicaSetStatusFields R sets
     else State_Monad.return (mutateInvalidReplicaSetStatusFields sets) }"

section \<open>Deployments\<close>

definition on_dspec :: "(DeploymentSpec \<Rightarrow> DeploymentSpec) \<Rightarrow> Deployment \<Rightarrow> Deployment" where
  "on_dspec f d = d\<lparr>d_Spec := f (d_Spec d)\<rparr>"

definition on_dstatus :: "(DeploymentStatus \<Rightarrow> DeploymentStatus) \<Rightarrow> Deployment \<Rightarrow> Deployment" where
  "on_dstatus f d = d\<lparr>d_Status := f (d_Status d)\<rparr>"

text \<open>\<open>intstr.FromString(fmt.Sprintf("%d%%", ...))\<close> or \<open>intstr.FromInt32(...)\<close>\<close>

definition percent_or_int :: "'t rapid \<Rightarrow> string \<Rightarrow> ('t, IntOrString) gen" where
  "percent_or_int R name = do {
     isPercent \<leftarrow> Bool R (name @ ''IsPercent'');
     if isPercent then do {
       n \<leftarrow> IntRange R 1 100 (name @ ''Percent'');
       State_Monad.return (FromString (format_int n @ ''%'')) }
     else do {
       n \<leftarrow> Int32Range R 0 3 (name @ ''Int'');
       State_Monad.return (FromInt32 n) } }"

definition deploymentStrategyGen :: "'t rapid \<Rightarrow> ('t, DeploymentStrategy) gen" where
  "deploymentStrategyGen R = do {
     recreate \<leftarrow> Bool R ''strategyRecreate'';
     if recreate then State_Monad.return \<lparr>strategy_Type = ''Recreate'', strategy_RollingUpdate = None\<rparr>
     else maybe R ''hasRollingUpdateBlock'' (\<lambda>strategy. do {
       maxSurge \<leftarrow> percent_or_int R ''maxSurge'';
       maxUnavailable \<leftarrow> percent_or_int R ''maxUnavailable'';
       let maxUnavailable = (if maxSurge = FromInt32 0 \<and> maxUnavailable = FromInt32 0 then FromInt32 1 else maxUnavailable);
       State_Monad.return (strategy\<lparr>strategy_RollingUpdate :=
         Some \<lparr>MaxUnavailable = Some maxUnavailable, MaxSurge = Some maxSurge\<rparr>\<rparr>) })
       \<lparr>strategy_Type = ''RollingUpdate'', strategy_RollingUpdate = None\<rparr> }"

definition mutateAllowedDeploymentUpdateFields ::
  "'t rapid \<Rightarrow> Deployment \<times> Deployment \<Rightarrow> bool \<Rightarrow> ('t, Deployment \<times> Deployment) gen" where
  "mutateAllowedDeploymentUpdateFields R ds exists = do {
     replicas \<leftarrow> Int32Range R 0 5 ''updateDeploymentReplicas'';
     let replicas = other_replicas exists (d_Replicas (d_Spec (fst ds))) replicas;
     let ds = both (on_dspec (\<lambda>s. s\<lparr>d_Replicas := Some replicas\<rparr>)) ds;
     ds \<leftarrow> maybe R ''updateDeploymentMinReadySeconds'' (\<lambda>ds. do {
       minReadySeconds \<leftarrow> Int32Range R 0 30 ''updateDeploymentMinReadySecondsValue'';
       State_Monad.return (both (on_dspec (\<lambda>s. s\<lparr>d_MinReadySeconds := minReadySeconds\<rparr>)) ds) }) ds;
     ds \<leftarrow> maybe R ''updateDeploymentStrategy'' (\<lambda>ds. do {
       strategy \<leftarrow> deploymentStrategyGen R;
       State_Monad.return (both (on_dspec (\<lambda>s. s\<lparr>d_Strategy := strategy\<rparr>)) ds) }) ds;
     ds \<leftarrow> maybe R ''updateDeploymentPaused'' (\<lambda>ds. do {
       paused \<leftarrow> Bool R ''updateDeploymentPausedValue'';
       State_Monad.return (both (on_dspec (\<lambda>s. s\<lparr>d_Paused := paused\<rparr>)) ds) }) ds;
     (mt, rt) \<leftarrow> mutate_template R ''updateDeployment'' (d_Selector (d_Spec (fst ds))) (both (d_Template \<circ> d_Spec) ds);
     State_Monad.return (on_dspec (\<lambda>s. s\<lparr>d_Template := mt\<rparr>) (fst ds), on_dspec (\<lambda>s. s\<lparr>d_Template := rt\<rparr>) (snd ds)) }"

definition mutateImmutableDeploymentUpdateFields ::
  "'t rapid \<Rightarrow> Deployment \<times> Deployment \<Rightarrow> ('t, Deployment \<times> Deployment) gen" where
  "mutateImmutableDeploymentUpdateFields R ds = do {
     selectorValue \<leftarrow> StringMatching R [one az, rep az09_dash 2 8] ''updateDeploymentSelectorValue'';
     State_Monad.return (both (on_dspec (\<lambda>s. s\<lparr>d_Selector := Some (app_selector selectorValue),
       d_Template := set_app_label selectorValue (d_Template s)\<rparr>)) ds) }"

definition mutateAllowedDeploymentStatusFields ::
  "'t rapid \<Rightarrow> Deployment \<times> Deployment \<Rightarrow> ('t, Deployment \<times> Deployment) gen" where
  "mutateAllowedDeploymentStatusFields R ds = do {
     replicas \<leftarrow> Int32Range R 0 5 ''updateDeploymentStatusReplicas'';
     updatedReplicas \<leftarrow> Int32Range R 0 (sint replicas) ''updateDeploymentStatusUpdatedReplicas'';
     readyReplicas \<leftarrow> Int32Range R 0 (sint replicas) ''updateDeploymentStatusReadyReplicas'';
     availableReplicas \<leftarrow> Int32Range R 0 (sint readyReplicas) ''updateDeploymentStatusAvailableReplicas'';
     unavailableReplicas \<leftarrow> Int32Range R 0 5 ''updateDeploymentStatusUnavailableReplicas'';
     observedGeneration \<leftarrow> Int64Range R 0 10 ''updateDeploymentStatusObservedGeneration'';
     State_Monad.return (both (on_dstatus (\<lambda>st. st\<lparr>dst_Replicas := replicas, dst_UpdatedReplicas := updatedReplicas,
       dst_ReadyReplicas := readyReplicas, dst_AvailableReplicas := availableReplicas,
       dst_UnavailableReplicas := unavailableReplicas, dst_ObservedGeneration := observedGeneration\<rparr>)) ds) }"

definition mutateInvalidDeploymentStatusFields :: "Deployment \<times> Deployment \<Rightarrow> Deployment \<times> Deployment" where
  "mutateInvalidDeploymentStatusFields = both (on_dstatus (\<lambda>st. st\<lparr>dst_Replicas := - 1\<rparr>))"

definition ComprehensiveDeploymentMut ::
  "'t rapid \<Rightarrow> Deployment \<times> Deployment \<Rightarrow> bool \<Rightarrow> bool \<Rightarrow> ('t, Deployment \<times> Deployment) gen" where
  "ComprehensiveDeploymentMut R ds exists valid = do {
     (ds, metadataInvalid) \<leftarrow> ObjectMetaMut R ds exists valid;
     if valid then mutateAllowedDeploymentUpdateFields R ds exists
     else if \<not> exists \<or> metadataInvalid then mutateAllowedDeploymentUpdateFields R ds exists
     else do {
       ds \<leftarrow> mutateAllowedDeploymentUpdateFields R ds exists;
       mutateImmutableDeploymentUpdateFields R ds } }"

definition ComprehensiveDeploymentStatusMut ::
  "'t rapid \<Rightarrow> Deployment \<times> Deployment \<Rightarrow> bool \<Rightarrow> bool \<Rightarrow> ('t, Deployment \<times> Deployment) gen" where
  "ComprehensiveDeploymentStatusMut R ds exists valid = do {
     (ds, metadataInvalid) \<leftarrow> ObjectMetaMut R ds exists valid;
     if valid then mutateAllowedDeploymentStatusFields R ds
     else if \<not> exists \<or> metadataInvalid then mutateAllowedDeploymentStatusFields R ds
     else State_Monad.return (mutateInvalidDeploymentStatusFields ds) }"

section \<open>Stateful sets\<close>

definition on_ssspec :: "(StatefulSetSpec \<Rightarrow> StatefulSetSpec) \<Rightarrow> StatefulSet \<Rightarrow> StatefulSet" where
  "on_ssspec f ss = ss\<lparr>ss_Spec := f (ss_Spec ss)\<rparr>"

definition on_ssstatus :: "(StatefulSetStatus \<Rightarrow> StatefulSetStatus) \<Rightarrow> StatefulSet \<Rightarrow> StatefulSet" where
  "on_ssstatus f ss = ss\<lparr>ss_Status := f (ss_Status ss)\<rparr>"

definition on_sstmpl :: "(PodSpec \<Rightarrow> PodSpec) \<Rightarrow> StatefulSet \<Rightarrow> StatefulSet" where
  "on_sstmpl f = on_ssspec (\<lambda>s. s\<lparr>ss_Template := on_tmpl_spec f (ss_Template s)\<rparr>)"

definition mutateAllowedStatefulSetUpdateFields ::
  "'t rapid \<Rightarrow> StatefulSet \<times> StatefulSet \<Rightarrow> ('t, StatefulSet \<times> StatefulSet) gen" where
  "mutateAllowedStatefulSetUpdateFields R sets = do {
     replicas \<leftarrow> Int32Range R 0 5 ''updateSTSReplicas'';
     let sets = both (on_ssspec (\<lambda>s. s\<lparr>ss_Replicas := Some replicas\<rparr>)) sets;
     sets \<leftarrow> (if both_nonempty (both (Containers \<circ> tmpl_Spec \<circ> ss_Template \<circ> ss_Spec) sets) then do {
         image \<leftarrow> SampledFrom R new_images ''updateSTSImage'';
         State_Monad.return (both (on_sstmpl (\<lambda>s. s\<lparr>Containers :=
           on_first (\<lambda>c. c\<lparr>cont_Image := image\<rparr>) (Containers s)\<rparr>)) sets) }
       else State_Monad.return sets);
     maybe R ''updateSTSMinReadySeconds'' (\<lambda>sets. do {
       minReadySeconds \<leftarrow> Int32Range R 0 30 ''updateSTSMinReadySecondsValue'';
       State_Monad.return (both (on_ssspec (\<lambda>s. s\<lparr>ss_MinReadySeconds := minReadySeconds\<rparr>)) sets) }) sets }"

definition mutateAllowedStatefulSetStatusFields ::
  "'t rapid \<Rightarrow> StatefulSet \<times> StatefulSet \<Rightarrow> ('t, StatefulSet \<times> StatefulSet) gen" where
  "mutateAllowedStatefulSetStatusFields R sets = do {
     replicas \<leftarrow> Int32Range R 0 5 ''updateSTSStatusReplicas'';
     readyReplicas \<leftarrow> Int32Range R 0 (sint replicas) ''updateSTSStatusReadyReplicas'';
     currentReplicas \<leftarrow> Int32Range R 0 (sint replicas) ''updateSTSStatusCurrentReplicas'';
     updatedReplicas \<leftarrow> Int32Range R 0 (sint replicas) ''updateSTSStatusUpdatedReplicas'';
     availableReplicas \<leftarrow> Int32Range R 0 (sint readyReplicas) ''updateSTSStatusAvailableReplicas'';
     observedGeneration \<leftarrow> Int64Range R 0 10 ''updateSTSStatusObservedGeneration'';
     let sets = both (on_ssstatus (\<lambda>st. st\<lparr>sst_Replicas := replicas, sst_ReadyReplicas := readyReplicas,
       sst_CurrentReplicas := currentReplicas, sst_UpdatedReplicas := updatedReplicas,
       sst_AvailableReplicas := availableReplicas, sst_ObservedGeneration := observedGeneration\<rparr>)) sets;
     maybe R ''updateSTSCollisionCount'' (\<lambda>sets. do {
       collisionCount \<leftarrow> Int32Range R 0 5 ''updateSTSCollisionCountValue'';
       State_Monad.return (both (on_ssstatus (\<lambda>st. st\<lparr>sst_CollisionCount := Some collisionCount\<rparr>)) sets) }) sets }"

definition ComprehensiveStatefulSetMut ::
  "'t rapid \<Rightarrow> StatefulSet \<times> StatefulSet \<Rightarrow> bool \<Rightarrow> bool \<Rightarrow> ('t, StatefulSet \<times> StatefulSet) gen" where
  "ComprehensiveStatefulSetMut R sets exists valid = do {
     (sets, metadataInvalid) \<leftarrow> ObjectMetaMut R sets exists valid;
     if valid then mutateAllowedStatefulSetUpdateFields R sets
     else if \<not> exists \<or> metadataInvalid then mutateAllowedStatefulSetUpdateFields R sets
     else do {
       sets \<leftarrow> mutateAllowedStatefulSetUpdateFields R sets;
       State_Monad.return (both (on_ssspec (\<lambda>s. s\<lparr>ServiceName := ''changed-service''\<rparr>)) sets) } }"

definition ComprehensiveStatefulSetStatusMut ::
  "'t rapid \<Rightarrow> StatefulSet \<times> StatefulSet \<Rightarrow> bool \<Rightarrow> bool \<Rightarrow> ('t, StatefulSet \<times> StatefulSet) gen" where
  "ComprehensiveStatefulSetStatusMut R sets exists valid = do {
     (sets, metadataInvalid) \<leftarrow> ObjectMetaMut R sets exists valid;
     if valid \<or> \<not> exists \<or> metadataInvalid then mutateAllowedStatefulSetStatusFields R sets
     else State_Monad.return (both (on_ssstatus (\<lambda>st. st\<lparr>sst_Replicas := 1, sst_ReadyReplicas := 2\<rparr>)) sets) }"

section \<open>Persistent volume claims\<close>

definition ComprehensivePersistentVolumeClaimMut ::
  "'t rapid \<Rightarrow> PersistentVolumeClaim \<times> PersistentVolumeClaim \<Rightarrow> bool \<Rightarrow> bool \<Rightarrow>
     ('t, PersistentVolumeClaim \<times> PersistentVolumeClaim) gen" where
  "ComprehensivePersistentVolumeClaimMut R pvcs exists valid = do {
     (pvcs, metadataInvalid) \<leftarrow> ObjectMetaMut R pvcs exists valid;
     State_Monad.return
       (if valid \<or> \<not> exists \<or> metadataInvalid then pvcs
        else both (\<lambda>c. c\<lparr>pvc_Spec := (pvc_Spec c)\<lparr>AccessModes := Some [''ReadOnlyMany'']\<rparr>\<rparr>) pvcs) }"

definition storage_list :: "'t rapid \<Rightarrow> string \<Rightarrow> resource_list" where
  "storage_list R qty = Some (fmupd ''storage'' (MustParse R qty) fmempty)"

definition mutateAllowedPersistentVolumeClaimStatusFields ::
  "'t rapid \<Rightarrow> PersistentVolumeClaim \<times> PersistentVolumeClaim \<Rightarrow>
     ('t, PersistentVolumeClaim \<times> PersistentVolumeClaim) gen" where
  "mutateAllowedPersistentVolumeClaimStatusFields R pvcs = do {
     sizeGi \<leftarrow> IntRange R 1 16 ''pvcStatusStorageGi'';
     phase \<leftarrow> SampledFrom R [''Pending'', ''Bound'', ''Lost''] ''pvcStatusPhase'';
     State_Monad.return (both (\<lambda>c. c\<lparr>pvc_Capacity := storage_list R (format_int sizeGi @ ''Gi''), pvc_Phase := phase\<rparr>) pvcs) }"

definition ComprehensivePersistentVolumeClaimStatusMut ::
  "'t rapid \<Rightarrow> PersistentVolumeClaim \<times> PersistentVolumeClaim \<Rightarrow> bool \<Rightarrow> bool \<Rightarrow>
     ('t, PersistentVolumeClaim \<times> PersistentVolumeClaim) gen" where
  "ComprehensivePersistentVolumeClaimStatusMut R pvcs exists valid = do {
     (pvcs, metadataInvalid) \<leftarrow> ObjectMetaMut R pvcs exists valid;
     if valid \<or> \<not> exists \<or> metadataInvalid then mutateAllowedPersistentVolumeClaimStatusFields R pvcs
     else State_Monad.return (both (\<lambda>c. c\<lparr>pvc_Capacity := storage_list R ''-1Gi''\<rparr>) pvcs) }"

section \<open>Controller revisions\<close>

text \<open>This function does not call \<open>ObjectMetaMut\<close> and does not look at \<open>exists\<close>.\<close>

definition ComprehensiveControllerRevisionMut ::
  "'t rapid \<Rightarrow> ControllerRevision \<times> ControllerRevision \<Rightarrow> bool \<Rightarrow> bool \<Rightarrow>
     ('t, ControllerRevision \<times> ControllerRevision) gen" where
  "ComprehensiveControllerRevisionMut R revs exists valid =
     (if valid then do {
        n \<leftarrow> Int64Range R 0 1000 ''revisionNumber'';
        State_Monad.return (both (\<lambda>r. r\<lparr>rev_Revision := n\<rparr>) revs) }
      else do {
        which \<leftarrow> IntRange R 0 2 ''invalidRevisionUpdate'';
        State_Monad.return
          (if which = 0 then both (\<lambda>r. r\<lparr>rev_Revision := - 1\<rparr>) revs
           else if which = 1 then
             both (\<lambda>r. r\<lparr>rev_Data_Raw := Some ''{\"changed\":true}'', rev_Data_Object := None\<rparr>) revs
           else if which = 2 then both (SetResourceVersion ''999999999999999999'') revs
           else revs) })"

end
