(* ===== verification/Conf_Generators.thy ===== *)
theory Conf_Generators
  imports Conf_Mutators Api_Patch
begin

text \<open>
  The create and patch inputs of the conformance tests: the generators of objects (the \<open>...Gen\<close>
  functions of src/kubernetes_model/apimodel/pbtesting/generators) and of patch requests
  (patch.go). The \<open>Minimal\<close> and \<open>Comprehensive\<close> generators are meant to give valid objects, the
  \<open>Invalid\<close> ones objects that validation rejects.

  The three workload generators build labels, annotations and a container by the same code; it is
  defined once, with the bounds as arguments.
\<close>

section \<open>Common parts\<close>

definition meta_in_default :: "string \<Rightarrow> ObjectMeta" where
  "meta_in_default name = empty_ObjectMeta\<lparr>Name := name, Namespace := ''default''\<rparr>"

definition plain_container :: "string \<Rightarrow> string \<Rightarrow> Container" where
  "plain_container name img = empty_Container\<lparr>cont_Name := name, cont_Image := img\<rparr>"

definition podspec_of :: "Container \<Rightarrow> PodSpec" where
  "podspec_of c = empty_PodSpec\<lparr>Containers := Some [c]\<rparr>"

definition template_of :: "str_map \<Rightarrow> PodSpec \<Rightarrow> PodTemplateSpec" where
  "template_of labels spec = \<lparr>tmpl_ObjectMeta = empty_ObjectMeta\<lparr>Labels := Some labels\<rparr>, tmpl_Spec = spec\<rparr>"

definition app_labels :: "string \<Rightarrow> str_map" where
  "app_labels appLabel = fmupd ''app'' appLabel fmempty"

definition random_name :: "'t rapid \<Rightarrow> string \<Rightarrow> ('t, string) gen" where
  "random_name R label = StringMatching R [one az, rep az09 0 10] label"

text \<open>\<open>for i := 0; i < numLabels; i++ { labels[key] = val }\<close>\<close>

definition random_labels :: "'t rapid \<Rightarrow> string \<Rightarrow> int \<Rightarrow> str_map \<Rightarrow> ('t, str_map) gen" where
  "random_labels R flag most = maybe R flag (\<lambda>labels. do {
     numLabels \<leftarrow> IntRange R 1 most ''numLabels'';
     loop (\<lambda>i labels. do {
       key \<leftarrow> StringMatching R [one az, rep az09 0 8] (''labelKey'' @ format_nat i);
       val \<leftarrow> StringMatching R [one az, rep az09 0 8] (''labelVal'' @ format_nat i);
       State_Monad.return (fmupd key val labels) }) 0 (nat numLabels) labels })"

definition random_annotations :: "'t rapid \<Rightarrow> ('t, str_map) gen" where
  "random_annotations R = maybe R ''hasAnnotations'' (\<lambda>annotations. do {
     numAnnotations \<leftarrow> IntRange R 1 2 ''numAnnotations'';
     loop (\<lambda>i annotations. do {
       key \<leftarrow> StringMatching R [one az, rep az09 0 8] (''annoKey'' @ format_nat i);
       val \<leftarrow> StringMatching R [one az, rep az09_dash 0 20] (''annoVal'' @ format_nat i);
       State_Monad.return (fmupd key val annotations) }) 0 (nat numAnnotations) annotations }) fmempty"

text \<open>The map of a resource list with the CPU in millicores and the memory in mebibytes.\<close>

definition cpu_memory :: "'t rapid \<Rightarrow> int \<Rightarrow> int \<Rightarrow> resource_list" where
  "cpu_memory R cpu mem =
     Some (fmupd ''memory'' (MustParse R (format_int mem @ ''Mi'')) (fmupd ''cpu'' (MustParse R (format_int cpu @ ''m'')) fmempty))"

definition random_env :: "'t rapid \<Rightarrow> int \<Rightarrow> Container \<Rightarrow> ('t, Container) gen" where
  "random_env R most = maybe R ''hasEnv'' (\<lambda>container. do {
     numEnvVars \<leftarrow> IntRange R 1 most ''numEnvVars'';
     env \<leftarrow> loop (\<lambda>i env. do {
       name \<leftarrow> StringMatching R [one AZ, rep AZ09_us 0 8] (''envName'' @ format_nat i);
       val \<leftarrow> StringMatching R [rep az09 0 10] (''envVal'' @ format_nat i);
       State_Monad.return (env @ [\<lparr>env_Name = name, env_Value = val, env_rest = []\<rparr>]) }) 0 (nat numEnvVars) [];
     State_Monad.return (container\<lparr>cont_Env := Some env\<rparr>) })"

section \<open>Pods\<close>

definition MinimalPodGen :: "'t rapid \<Rightarrow> ('t, Pod) gen" where
  "MinimalPodGen R = do {
     name \<leftarrow> random_name R ''name'';
     containerName \<leftarrow> random_name R ''containerName'';
     image \<leftarrow> SampledFrom R [''nginx:latest'', ''busybox:1.36'', ''alpine:3.19'', ''redis:7''] ''image'';
     State_Monad.return \<lparr>TypeMeta = empty_TypeMeta, ObjectMeta = meta_in_default name,
       pod_Spec = podspec_of (plain_container containerName image), pod_Status = empty_PodStatus\<rparr> }"

text \<open>The limits are drawn after the requests, under the same labels, and doubled.\<close>

definition pod_resources :: "'t rapid \<Rightarrow> Container \<Rightarrow> ('t, Container) gen" where
  "pod_resources R = maybe R ''hasResources'' (\<lambda>container. do {
     cpu \<leftarrow> IntRange R 10 1000 ''cpuRequest'';
     mem \<leftarrow> IntRange R 16 512 ''memRequest'';
     maybe R ''hasLimits'' (\<lambda>container. do {
       cpuReq \<leftarrow> IntRange R 10 1000 ''cpuRequest'';
       memReq \<leftarrow> IntRange R 16 512 ''memRequest'';
       State_Monad.return (container\<lparr>cont_Limits := cpu_memory R (cpuReq * 2) (memReq * 2)\<rparr>) })
       (container\<lparr>cont_Requests := cpu_memory R cpu mem\<rparr>) })"

definition pod_options :: "'t rapid \<Rightarrow> PodSpec \<Rightarrow> ('t, PodSpec) gen" where
  "pod_options R spec = do {
     spec \<leftarrow> maybe R ''hasRestartPolicy'' (\<lambda>spec. do {
       p \<leftarrow> SampledFrom R [''Always'', ''OnFailure'', ''Never''] ''restartPolicy'';
       State_Monad.return (spec\<lparr>RestartPolicy := p\<rparr>) }) spec;
     spec \<leftarrow> maybe R ''hasDNSPolicy'' (\<lambda>spec. do {
       p \<leftarrow> SampledFrom R [''ClusterFirst'', ''ClusterFirstWithHostNet'', ''Default''] ''dnsPolicy'';
       State_Monad.return (spec\<lparr>DNSPolicy := p\<rparr>) }) spec;
     spec \<leftarrow> maybe R ''hasTerminationGracePeriod'' (\<lambda>spec. do {
       tgps \<leftarrow> Int64Range R 0 60 ''terminationGracePeriod'';
       State_Monad.return (spec\<lparr>TerminationGracePeriodSeconds := Some tgps\<rparr>) }) spec;
     spec \<leftarrow> maybe R ''hasNodeSelector'' (\<lambda>spec. do {
       d \<leftarrow> SampledFrom R [''ssd'', ''hdd''] ''disktype'';
       State_Monad.return (spec\<lparr>NodeSelector := Some (fmupd ''disktype'' d fmempty)\<rparr>) }) spec;
     spec \<leftarrow> maybe R ''hasServiceAccount'' (\<lambda>spec. do {
       a \<leftarrow> StringMatching R [one az, rep az09 0 8] ''serviceAccount'';
       State_Monad.return (spec\<lparr>ServiceAccountName := a\<rparr>) }) spec;
     maybe R ''hasSchedulerName'' (\<lambda>spec. State_Monad.return (spec\<lparr>SchedulerName := ''default-scheduler''\<rparr>)) spec }"

definition ComprehensivePodGen :: "'t rapid \<Rightarrow> ('t, Pod) gen" where
  "ComprehensivePodGen R = do {
     name \<leftarrow> random_name R ''name'';
     containerName \<leftarrow> random_name R ''containerName'';
     image \<leftarrow> SampledFrom R [''nginx:latest'', ''nginx:1.25'', ''busybox:1.36'', ''alpine:3.19'', ''redis:7''] ''image'';
     labels \<leftarrow> random_labels R ''hasLabels'' 3 fmempty;
     annotations \<leftarrow> random_annotations R;
     container \<leftarrow> pod_resources R (plain_container containerName image);
     container \<leftarrow> random_env R 3 container;
     spec \<leftarrow> pod_options R (podspec_of container);
     State_Monad.return \<lparr>TypeMeta = empty_TypeMeta,
       ObjectMeta = (meta_in_default name)\<lparr>Labels := Some labels, Annotations := Some annotations\<rparr>,
       pod_Spec = spec, pod_Status = empty_PodStatus\<rparr> }"

definition test_pod :: "string \<Rightarrow> Container list \<Rightarrow> Pod" where
  "test_pod name containers = \<lparr>TypeMeta = empty_TypeMeta, ObjectMeta = meta_in_default name,
     pod_Spec = empty_PodSpec\<lparr>Containers := Some containers\<rparr>, pod_Status = empty_PodStatus\<rparr>"

definition InvalidPodGen :: "'t rapid \<Rightarrow> ('t, Pod) gen" where
  "InvalidPodGen R = do {
     invalidType \<leftarrow> IntRange R 0 3 ''invalidType'';
     State_Monad.return
       (if invalidType = 0 then test_pod ''test-pod'' [plain_container [] ''nginx:latest'']
        else if invalidType = 1 then test_pod ''test-pod'' []
        else if invalidType = 2 then test_pod ''test-pod'' [plain_container ''container'' []]
        else test_pod ''INVALID-NAME'' [plain_container ''container'' ''nginx:latest'']) }"

section \<open>Replica sets\<close>

definition rs_with :: "ObjectMeta \<Rightarrow> ReplicaSetSpec \<Rightarrow> ReplicaSet" where
  "rs_with md spec = \<lparr>TypeMeta = empty_TypeMeta, ObjectMeta = md, rs_Spec = spec, rs_Status = empty_ReplicaSetStatus\<rparr>"

definition rsspec_with :: "int32 \<Rightarrow> LabelSelector option \<Rightarrow> PodTemplateSpec \<Rightarrow> ReplicaSetSpec" where
  "rsspec_with replicas sel tmpl = \<lparr>rs_Replicas = Some replicas, rs_MinReadySeconds = 0, rs_Selector = sel, rs_Template = tmpl\<rparr>"

definition MinimalReplicaSetGen :: "'t rapid \<Rightarrow> ('t, ReplicaSet) gen" where
  "MinimalReplicaSetGen R = do {
     name \<leftarrow> random_name R ''name'';
     appLabel \<leftarrow> random_name R ''appLabel'';
     containerName \<leftarrow> random_name R ''containerName'';
     replicas \<leftarrow> Int32Range R 0 5 ''replicas'';
     State_Monad.return (rs_with (meta_in_default name)
       (rsspec_with replicas (Some (app_selector appLabel))
         (template_of (app_labels appLabel) (podspec_of (plain_container containerName ''nginx:latest''))))) }"

definition template_resources :: "'t rapid \<Rightarrow> Container \<Rightarrow> ('t, Container) gen" where
  "template_resources R = maybe R ''hasResources'' (\<lambda>container. do {
     cpu \<leftarrow> IntRange R 10 500 ''cpuRequest'';
     mem \<leftarrow> IntRange R 16 256 ''memRequest'';
     State_Monad.return (container\<lparr>cont_Requests := cpu_memory R cpu mem\<rparr>) })"

definition template_dns :: "'t rapid \<Rightarrow> PodSpec \<Rightarrow> ('t, PodSpec) gen" where
  "template_dns R = maybe R ''hasDNSPolicy'' (\<lambda>spec. do {
     p \<leftarrow> SampledFrom R [''ClusterFirst'', ''Default''] ''dnsPolicy'';
     State_Monad.return (spec\<lparr>DNSPolicy := p\<rparr>) })"

text \<open>\<open>if len(annotations) > 0 { meta.Annotations = annotations }\<close>\<close>

definition labelled_meta :: "string \<Rightarrow> str_map \<Rightarrow> str_map \<Rightarrow> ObjectMeta" where
  "labelled_meta name labels annotations = (meta_in_default name)\<lparr>Labels := Some labels,
     Annotations := (if annotations \<noteq> fmempty then Some annotations else None)\<rparr>"

definition ComprehensiveReplicaSetGen :: "'t rapid \<Rightarrow> ('t, ReplicaSet) gen" where
  "ComprehensiveReplicaSetGen R = do {
     name \<leftarrow> random_name R ''name'';
     appLabel \<leftarrow> random_name R ''appLabel'';
     containerName \<leftarrow> random_name R ''containerName'';
     replicas \<leftarrow> Int32Range R 0 5 ''replicas'';
     labels \<leftarrow> random_labels R ''hasExtraLabels'' 2 (app_labels appLabel);
     annotations \<leftarrow> random_annotations R;
     container \<leftarrow> template_resources R (plain_container containerName ''nginx:latest'');
     container \<leftarrow> random_env R 2 container;
     podspec \<leftarrow> maybe R ''hasRestartPolicy'' (\<lambda>spec. do {
       p \<leftarrow> SampledFrom R [''Always'', ''OnFailure''] ''restartPolicy'';
       State_Monad.return (spec\<lparr>RestartPolicy := p\<rparr>) }) (podspec_of container);
     podspec \<leftarrow> template_dns R podspec;
     spec \<leftarrow> maybe R ''hasMinReadySeconds'' (\<lambda>spec. do {
       n \<leftarrow> Int32Range R 0 30 ''minReadySeconds'';
       State_Monad.return (spec\<lparr>rs_MinReadySeconds := n\<rparr>) })
       (rsspec_with replicas (Some (app_selector appLabel)) (template_of labels podspec));
     State_Monad.return (rs_with (labelled_meta name labels annotations) spec) }"

definition test_template :: "string \<Rightarrow> PodTemplateSpec" where
  "test_template app = template_of (app_labels app) (podspec_of (plain_container ''container'' ''nginx:latest''))"

definition InvalidReplicaSetGen :: "'t rapid \<Rightarrow> ('t, ReplicaSet) gen" where
  "InvalidReplicaSetGen R = do {
     invalidType \<leftarrow> IntRange R 0 3 ''invalidType'';
     State_Monad.return
       (if invalidType = 0 then rs_with (meta_in_default ''test-rs'')
          (rsspec_with 1 (Some (app_selector ''foo'')) (test_template ''bar''))
        else if invalidType = 1 then rs_with (meta_in_default ''test-rs'') (rsspec_with 1 None (test_template ''test''))
        else if invalidType = 2 then rs_with (meta_in_default ''test-rs'')
          (rsspec_with (- 1) (Some (app_selector ''test'')) (test_template ''test''))
        else rs_with (meta_in_default ''INVALID_NAME'')
          (rsspec_with 1 (Some (app_selector ''test'')) (test_template ''test''))) }"

section \<open>Deployments\<close>

definition d_with :: "ObjectMeta \<Rightarrow> DeploymentSpec \<Rightarrow> Deployment" where
  "d_with md spec = \<lparr>TypeMeta = empty_TypeMeta, ObjectMeta = md, d_Spec = spec, d_Status = empty_DeploymentStatus\<rparr>"

definition dspec_with :: "int32 \<Rightarrow> LabelSelector option \<Rightarrow> PodTemplateSpec \<Rightarrow> DeploymentStrategy \<Rightarrow> DeploymentSpec" where
  "dspec_with replicas sel tmpl strategy = \<lparr>d_Replicas = Some replicas, d_Selector = sel, d_Template = tmpl,
     d_Strategy = strategy, d_MinReadySeconds = 0, d_RevisionHistoryLimit = None, d_Paused = False,
     d_ProgressDeadlineSeconds = None\<rparr>"

definition MinimalDeploymentGen :: "'t rapid \<Rightarrow> ('t, Deployment) gen" where
  "MinimalDeploymentGen R = do {
     name \<leftarrow> random_name R ''name'';
     appLabel \<leftarrow> random_name R ''appLabel'';
     containerName \<leftarrow> random_name R ''containerName'';
     replicas \<leftarrow> Int32Range R 0 5 ''replicas'';
     State_Monad.return (d_with (meta_in_default name)
       (dspec_with replicas (Some (app_selector appLabel))
         (template_of (app_labels appLabel) (podspec_of (plain_container containerName ''nginx:latest'')))
         empty_DeploymentStrategy)) }"

definition deployment_options :: "'t rapid \<Rightarrow> DeploymentSpec \<Rightarrow> ('t, DeploymentSpec) gen" where
  "deployment_options R spec = do {
     spec \<leftarrow> maybe R ''hasMinReadySeconds'' (\<lambda>spec. do {
       n \<leftarrow> Int32Range R 0 30 ''minReadySeconds'';
       State_Monad.return (spec\<lparr>d_MinReadySeconds := n\<rparr>) }) spec;
     spec \<leftarrow> maybe R ''hasRevisionHistoryLimit'' (\<lambda>spec. do {
       n \<leftarrow> Int32Range R 0 10 ''revisionHistoryLimit'';
       State_Monad.return (spec\<lparr>d_RevisionHistoryLimit := Some n\<rparr>) }) spec;
     spec \<leftarrow> maybe R ''hasProgressDeadlineSeconds'' (\<lambda>spec. do {
       n \<leftarrow> Int32Range R 60 600 ''progressDeadlineSeconds'';
       State_Monad.return (spec\<lparr>d_ProgressDeadlineSeconds := Some n\<rparr>) }) spec;
     maybe R ''hasPaused'' (\<lambda>spec. do {
       p \<leftarrow> Bool R ''paused'';
       State_Monad.return (spec\<lparr>d_Paused := p\<rparr>) }) spec }"

definition ComprehensiveDeploymentGen :: "'t rapid \<Rightarrow> ('t, Deployment) gen" where
  "ComprehensiveDeploymentGen R = do {
     name \<leftarrow> random_name R ''name'';
     appLabel \<leftarrow> random_name R ''appLabel'';
     containerName \<leftarrow> random_name R ''containerName'';
     replicas \<leftarrow> Int32Range R 0 5 ''replicas'';
     labels \<leftarrow> random_labels R ''hasExtraLabels'' 2 (app_labels appLabel);
     annotations \<leftarrow> random_annotations R;
     container \<leftarrow> template_resources R (plain_container containerName ''nginx:latest'');
     container \<leftarrow> random_env R 2 container;
     podspec \<leftarrow> template_dns R (podspec_of container);
     strategy \<leftarrow> deploymentStrategyGen R;
     spec \<leftarrow> deployment_options R (dspec_with replicas (Some (app_selector appLabel)) (template_of labels podspec) strategy);
     State_Monad.return (d_with (labelled_meta name labels annotations) spec) }"

definition test_deployment :: "string \<Rightarrow> int32 \<Rightarrow> LabelSelector option \<Rightarrow> string \<Rightarrow> DeploymentStrategy \<Rightarrow> Deployment" where
  "test_deployment name replicas sel app strategy =
     d_with (meta_in_default name) (dspec_with replicas sel (test_template app) strategy)"

definition InvalidDeploymentGen :: "'t rapid \<Rightarrow> ('t, Deployment) gen" where
  "InvalidDeploymentGen R = do {
     invalidType \<leftarrow> IntRange R 0 4 ''invalidType'';
     let sel = Some (app_selector ''test'');
     let plain = empty_DeploymentStrategy;
     State_Monad.return
       (if invalidType = 0 then test_deployment ''test-deployment'' 1 (Some (app_selector ''foo'')) ''bar'' plain
        else if invalidType = 1 then test_deployment ''test-deployment'' 1 None ''test'' plain
        else if invalidType = 2 then test_deployment ''test-deployment'' (- 1) sel ''test'' plain
        else if invalidType = 3 then test_deployment ''test-deployment'' 1 sel ''test''
          \<lparr>strategy_Type = ''Recreate'', strategy_RollingUpdate =
            Some \<lparr>MaxUnavailable = Some (FromInt32 1), MaxSurge = Some (FromInt32 1)\<rparr>\<rparr>
        else test_deployment ''INVALID_NAME'' 1 sel ''test'' plain) }"

section \<open>Stateful sets\<close>

definition MinimalStatefulSetGen :: "'t rapid \<Rightarrow> ('t, StatefulSet) gen" where
  "MinimalStatefulSetGen R = do {
     name \<leftarrow> random_name R ''name'';
     appLabel \<leftarrow> random_name R ''appLabel'';
     containerName \<leftarrow> random_name R ''containerName'';
     replicas \<leftarrow> Int32Range R 0 5 ''replicas'';
     State_Monad.return \<lparr>TypeMeta = empty_TypeMeta, ObjectMeta = meta_in_default name,
       ss_Spec = \<lparr>ss_Replicas = Some replicas, ss_Selector = Some (app_selector appLabel),
         ss_Template = template_of (app_labels appLabel)
           ((podspec_of (plain_container containerName ''nginx:latest''))\<lparr>RestartPolicy := ''Always''\<rparr>),
         VolumeClaimTemplates = None, ServiceName = [], ss_MinReadySeconds = 0, ssspec_rest = []\<rparr>,
       ss_Status = empty_StatefulSetStatus\<rparr> }"

definition claim_spec :: "'t rapid \<Rightarrow> string \<Rightarrow> PersistentVolumeClaimSpec" where
  "claim_spec R qty = empty_PersistentVolumeClaimSpec\<lparr>AccessModes := Some [''ReadWriteOnce''],
     claim_Requests := storage_list R qty\<rparr>"

definition claim_with :: "ObjectMeta \<Rightarrow> PersistentVolumeClaimSpec \<Rightarrow> PersistentVolumeClaim" where
  "claim_with md spec = \<lparr>TypeMeta = empty_TypeMeta, ObjectMeta = md, pvc_Spec = spec, pvc_Phase = [],
     pvc_Capacity = None, pvcstatus_rest = []\<rparr>"

definition ComprehensiveStatefulSetGen :: "'t rapid \<Rightarrow> ('t, StatefulSet) gen" where
  "ComprehensiveStatefulSetGen R = do {
     sts \<leftarrow> MinimalStatefulSetGen R;
     sts \<leftarrow> maybe R ''hasSTSServiceName'' (\<lambda>sts. do {
       n \<leftarrow> StringMatching R [one az, rep az09_dash 0 12] ''stsServiceName'';
       State_Monad.return (on_ssspec (\<lambda>s. s\<lparr>ServiceName := n\<rparr>) sts) }) sts;
     sts \<leftarrow> maybe R ''hasSTSMinReadySeconds'' (\<lambda>sts. do {
       n \<leftarrow> Int32Range R 0 30 ''stsMinReadySeconds'';
       State_Monad.return (on_ssspec (\<lambda>s. s\<lparr>ss_MinReadySeconds := n\<rparr>) sts) }) sts;
     maybe R ''hasSTSVolumeClaimTemplate'' (\<lambda>sts. do {
       claimName \<leftarrow> StringMatching R [one az, rep az09 0 8] ''stsClaimName'';
       State_Monad.return (on_ssspec (\<lambda>s. s\<lparr>VolumeClaimTemplates :=
           Some [claim_with (empty_ObjectMeta\<lparr>Name := claimName\<rparr>) (claim_spec R ''1Gi'')]\<rparr>)
         (on_sstmpl (\<lambda>s. s\<lparr>Containers := on_first (\<lambda>c. c\<lparr>cont_VolumeMounts :=
             Some [\<lparr>vm_Name = claimName, vm_MountPath = ''/data'', vm_rest = []\<rparr>]\<rparr>) (Containers s)\<rparr>) sts)) }) sts }"

definition InvalidStatefulSetGen :: "'t rapid \<Rightarrow> ('t, StatefulSet) gen" where
  "InvalidStatefulSetGen R = do {
     invalidType \<leftarrow> IntRange R 0 3 ''invalidStatefulSetType'';
     sts \<leftarrow> MinimalStatefulSetGen R;
     State_Monad.return
       (if invalidType = 0 then on_ssspec (\<lambda>s. s\<lparr>ss_Selector := None\<rparr>) sts
        else if invalidType = 1 then
          (let app = map_index (Labels (tmpl_ObjectMeta (ss_Template (ss_Spec sts)))) ''app'';
               selectorValue = (if app = ''other'' then ''other2'' else ''other'')
           in on_ssspec (\<lambda>s. s\<lparr>ss_Selector := Some (app_selector selectorValue)\<rparr>) sts)
        else if invalidType = 2 then on_ssspec (\<lambda>s. s\<lparr>ss_Replicas := Some (- 1)\<rparr>) sts
        else on_meta (\<lambda>md. md\<lparr>Name := ''INVALID_NAME''\<rparr>) sts) }"

section \<open>Persistent volume claims\<close>

definition MinimalPersistentVolumeClaimGen :: "'t rapid \<Rightarrow> ('t, PersistentVolumeClaim) gen" where
  "MinimalPersistentVolumeClaimGen R = do {
     name \<leftarrow> random_name R ''name'';
     State_Monad.return (claim_with (meta_in_default name) (claim_spec R ''1Gi'')) }"

definition on_claimspec :: "(PersistentVolumeClaimSpec \<Rightarrow> PersistentVolumeClaimSpec) \<Rightarrow> PersistentVolumeClaim \<Rightarrow> PersistentVolumeClaim" where
  "on_claimspec f pvc = pvc\<lparr>pvc_Spec := f (pvc_Spec pvc)\<rparr>"

text \<open>\<open>pvc.Spec.Resources.Requests[corev1.ResourceStorage] = ...\<close>\<close>

definition request_storage :: "'t rapid \<Rightarrow> string \<Rightarrow> PersistentVolumeClaim \<Rightarrow> PersistentVolumeClaim" where
  "request_storage R qty = on_claimspec (\<lambda>s. s\<lparr>claim_Requests :=
     map_option (fmupd ''storage'' (MustParse R qty)) (claim_Requests s)\<rparr>)"

definition ComprehensivePersistentVolumeClaimGen :: "'t rapid \<Rightarrow> ('t, PersistentVolumeClaim) gen" where
  "ComprehensivePersistentVolumeClaimGen R = do {
     pvc \<leftarrow> MinimalPersistentVolumeClaimGen R;
     sizeGi \<leftarrow> IntRange R 1 16 ''storageGi'';
     let pvc = request_storage R (format_int sizeGi @ ''Gi'') pvc;
     pvc \<leftarrow> maybe R ''hasPVCLabels'' (\<lambda>pvc. do {
       l \<leftarrow> StringMatching R [one az, rep az09 0 8] ''pvcLabel'';
       State_Monad.return (on_meta (\<lambda>md. md\<lparr>Labels := Some (app_labels l)\<rparr>) pvc) }) pvc;
     pvc \<leftarrow> maybe R ''hasPVCStorageClass'' (\<lambda>pvc. do {
       c \<leftarrow> StringMatching R [one az, rep az09_dash 0 12] ''storageClassName'';
       State_Monad.return (on_claimspec (\<lambda>s. s\<lparr>StorageClassName := Some c\<rparr>) pvc) }) pvc;
     maybe R ''hasPVCVolumeMode'' (\<lambda>pvc. do {
       m \<leftarrow> SampledFrom R [''Filesystem'', ''Block''] ''volumeMode'';
       State_Monad.return (on_claimspec (\<lambda>s. s\<lparr>VolumeMode := Some m\<rparr>) pvc) }) pvc }"

definition InvalidPersistentVolumeClaimGen :: "'t rapid \<Rightarrow> ('t, PersistentVolumeClaim) gen" where
  "InvalidPersistentVolumeClaimGen R = do {
     invalidType \<leftarrow> IntRange R 0 3 ''invalidPVCType'';
     pvc \<leftarrow> MinimalPersistentVolumeClaimGen R;
     State_Monad.return
       (if invalidType = 0 then on_claimspec (\<lambda>s. s\<lparr>AccessModes := None\<rparr>) pvc
        else if invalidType = 1 then on_claimspec (\<lambda>s. s\<lparr>claim_Requests := None\<rparr>) pvc
        else if invalidType = 2 then request_storage R ''-1Gi'' pvc
        else on_meta (\<lambda>md. md\<lparr>Name := ''INVALID_NAME''\<rparr>) pvc) }"

section \<open>Controller revisions\<close>

definition MinimalControllerRevisionGen :: "'t rapid \<Rightarrow> ('t, ControllerRevision) gen" where
  "MinimalControllerRevisionGen R = do {
     name \<leftarrow> random_name R ''name'';
     revision \<leftarrow> Int64Range R 0 100 ''revision'';
     State_Monad.return \<lparr>TypeMeta = empty_TypeMeta, ObjectMeta = meta_in_default name,
       rev_Data_Raw = Some ''{\"spec\":{\"template\":{\"metadata\":{},\"spec\":{\"containers\":[]}}}}'',
       rev_Data_Object = None, rev_Revision = revision\<rparr> }"

definition ComprehensiveControllerRevisionGen :: "'t rapid \<Rightarrow> ('t, ControllerRevision) gen" where
  "ComprehensiveControllerRevisionGen R = do {
     r \<leftarrow> MinimalControllerRevisionGen R;
     app \<leftarrow> StringMatching R [rep az 1 10] ''app'';
     note \<leftarrow> String R ''note'';
     let r = on_meta (\<lambda>md. md\<lparr>Labels := Some (app_labels app), Annotations := Some (fmupd ''note'' note fmempty)\<rparr>) r;
     maybe R ''emptyPayload'' (\<lambda>r. State_Monad.return (r\<lparr>rev_Data_Raw := Some ''{}''\<rparr>)) r }"

definition InvalidControllerRevisionGen :: "'t rapid \<Rightarrow> ('t, ControllerRevision) gen" where
  "InvalidControllerRevisionGen R = do {
     r \<leftarrow> MinimalControllerRevisionGen R;
     invalidRevision \<leftarrow> IntRange R 0 5 ''invalidRevision'';
     State_Monad.return
       (if invalidRevision = 0 then r\<lparr>rev_Revision := - 1\<rparr>
        else if invalidRevision = 1 then r\<lparr>rev_Data_Raw := None\<rparr>
        else if invalidRevision = 2 then r\<lparr>rev_Data_Raw := Some ''null''\<rparr>
        else if invalidRevision = 3 then r\<lparr>rev_Data_Raw := Some ''[]''\<rparr>
        else if invalidRevision = 4 then r\<lparr>rev_Data_Raw := Some ''1''\<rparr>
        else if invalidRevision = 5 then on_meta (\<lambda>md. md\<lparr>Name := ''INVALID!''\<rparr>) r
        else r) }"

section \<open>JSON\<close>

text \<open>
  The documents a patch is made of, and \<open>json.Marshal\<close> on them: keys of a Go map in order,
  strings quoted, with the escapes of encoding/json.
\<close>

datatype json =
    JNull
  | JBool bool
  | JInt int
  | JString string
  | JArray "json list"
  | JObject "(string \<times> json) list"

definition hex_digit :: "nat \<Rightarrow> char" where
  "hex_digit d = (if d < 10 then digit_char d else char_of (87 + d))"

definition escape :: "char \<Rightarrow> string" where
  "escape c = (let n = (of_char c :: nat) in
     if n = 34 \<or> n = 92 then [CHR 92, c]
     else if n = 8 then [CHR 92, CHR ''b''] else if n = 9 then [CHR 92, CHR ''t'']
     else if n = 10 then [CHR 92, CHR ''n''] else if n = 12 then [CHR 92, CHR ''f'']
     else if n = 13 then [CHR 92, CHR ''r'']
     else if n < 32 \<or> n = 38 \<or> n = 60 \<or> n = 62
     then CHR 92 # ''u00'' @ [hex_digit (n div 16), hex_digit (n mod 16)]
     else [c])"

definition quote :: "string \<Rightarrow> string" where
  "quote s = CHR 34 # concat (map escape s) @ [CHR 34]"

fun commas :: "string list \<Rightarrow> string" where
  "commas [] = []"
| "commas [x] = x"
| "commas (x # xs) = x @ CHR '','' # commas xs"

fun json_text :: "json \<Rightarrow> string" where
  "json_text JNull = ''null''"
| "json_text (JBool b) = (if b then ''true'' else ''false'')"
| "json_text (JInt i) = format_int i"
| "json_text (JString s) = quote s"
| "json_text (JArray xs) = CHR ''['' # commas (map json_text xs) @ '']''"
| "json_text (JObject kvs) =
     CHR ''{'' # commas (map (\<lambda>(k, t). quote k @ CHR '':'' # t) (sort_key fst (map (\<lambda>(k, v). (k, json_text v)) kvs))) @ ''}''"

section \<open>Patches\<close>

record Patch =
  patch_Type :: string
  patch_Data :: string
  patch_Subresources :: "string slice"

text \<open>
  What the switch over the modes leaves: the document of a merge patch, the path and the value of
  the JSON patch, and the subresources. \<open>metadata\<close> is a map inside \<open>document\<close>, so a key set in it
  is seen in \<open>document\<close>.
\<close>

record patch_case =
  pa_document :: json
  pa_path :: string
  pa_value :: json
  pa_subs :: "string slice"

definition metadata_patch :: "string \<Rightarrow> json \<Rightarrow> patch_case" where
  "metadata_patch field val = \<lparr>pa_document = JObject [(''metadata'', JObject [(field, val)])],
     pa_path = ''/metadata/'' @ field, pa_value = val, pa_subs = None\<rparr>"

definition status_value :: "string \<Rightarrow> json" where
  "status_value kind =
     (if kind = ''Pod'' then JObject [(''phase'', JString ''Running'')]
      else if kind = ''PersistentVolumeClaim'' then JObject [(''phase'', JString ''Pending'')]
      else JObject [(''observedGeneration'', JInt 2)])"

definition owner_value :: json where
  "owner_value = JArray [JObject [(''apiVersion'', JString ''apps/v1''), (''kind'', JString ''ReplicaSet''),
     (''name'', JString ''patch-owner''), (''uid'', JString ''patch-owner-uid''), (''controller'', JBool True)]]"

text \<open>The default paths and documents are those before the switch.\<close>

definition patch_switch :: "'t rapid \<Rightarrow> string \<Rightarrow> bool \<Rightarrow> nat \<Rightarrow> ('t, patch_case) gen" where
  "patch_switch R kind valid mode =
     (if mode \<in> {0, 1, 2, 3} then do {
        s \<leftarrow> StringMatching R [rep az 1 8] ''patchValue'';
        State_Monad.return (metadata_patch ''annotations'' (JObject [(''pbt-patch'', JString s)])) }
      else if mode = 4 then State_Monad.return (metadata_patch ''labels'' (JObject [(''bad key'', JString ''invalid'')]))
      else if mode = 5 then State_Monad.return (metadata_patch ''resourceVersion'' (JString ''1''))
      else if mode = 6 then State_Monad.return (metadata_patch ''name'' (JString ''wrong-patch-name''))
      else if mode = 7 then State_Monad.return (metadata_patch ''finalizers'' (JArray [JString ''example.com/pbt-patch'']))
      else if mode = 8 then State_Monad.return \<lparr>pa_document = JObject [(''status'', status_value kind)],
        pa_path = ''/status'', pa_value = status_value kind, pa_subs = Some [''status'']\<rparr>
      else if mode = 9 then do {
        n \<leftarrow> (if valid then IntRange R 0 5 ''patchReplicas'' else State_Monad.return (- 1));
        State_Monad.return \<lparr>pa_document = JObject [(''spec'', JObject [(''replicas'', JInt n)])],
          pa_path = ''/spec/replicas'', pa_value = JInt n, pa_subs = None\<rparr> }
      else if mode = 10 then State_Monad.return \<lparr>pa_document = JObject [],
        pa_path = ''/metadata/annotations'', pa_value = JNull, pa_subs = None\<rparr>
      else if mode = 12 then State_Monad.return (metadata_patch ''ownerReferences'' owner_value)
      else if mode = 11 then State_Monad.return (metadata_patch ''annotations'' JNull)
      else State_Monad.return \<lparr>pa_document = JObject [(''metadata'', JObject [])],
        pa_path = ''/metadata/annotations'', pa_value = JNull, pa_subs = None\<rparr>)"

definition patch_modes :: "string \<Rightarrow> bool \<Rightarrow> nat list" where
  "patch_modes kind valid =
     (if \<not> valid then [4, 5, 6, 9]
      else if kind = ''ControllerRevision'' then [0, 1, 2, 3, 7, 10, 11, 12]
      else [0, 1, 2, 3, 7, 8, 9, 10, 11, 12])"

definition patch_document :: "string \<Rightarrow> nat \<Rightarrow> patch_case \<Rightarrow> json" where
  "patch_document pt mode c =
     (if pt = JSONPatchType then
        if mode = 10 then JArray []
        else JArray [JObject [(''op'', JString ''add''), (''path'', JString (pa_path c)), (''value'', pa_value c)]]
      else pa_document c)"

definition PatchGen :: "'t rapid \<Rightarrow> string \<Rightarrow> bool \<Rightarrow> ('t, Patch) gen" where
  "PatchGen R kind valid = do {
     pt \<leftarrow> SampledFrom R [JSONPatchType, MergePatchType, StrategicMergePatchType] ''patchType'';
     mode \<leftarrow> SampledFrom R (patch_modes kind valid) ''patchCase'';
     c \<leftarrow> patch_switch R kind valid mode;
     State_Monad.return \<lparr>patch_Type = pt, patch_Data = json_text (patch_document pt mode c),
       patch_Subresources = pa_subs c\<rparr> }"

end
