(* ===== verification/Conf_Mutators_Spec.thy ===== *)
theory Conf_Mutators_Spec
  imports Conf_Generators Conf_Compare Api_Resources
begin

text \<open>
  Properties of the update inputs of the conformance tests (\<open>Conf_Mutators\<close>): the two objects of a
  pair stay equal up to what a server assigns, which fields are ever changed, and what the
  corrupted metadata does to an update of the API model.
\<close>

section \<open>Rules\<close>

lemma pred_bindI:
  "pred_state Q g \<Longrightarrow> (\<And>x. Q x \<Longrightarrow> pred_state P (f x)) \<Longrightarrow> pred_state P (g \<bind> f)"
  by (rule pred_bind) (rule pred_mono)

lemma pred_maybeI: "P x \<Longrightarrow> (P x \<Longrightarrow> pred_state P (f x)) \<Longrightarrow> pred_state P (maybe R label f x)"
  by (simp add: pred_maybe)

text \<open>A draw whose value does not matter.\<close>

lemma pred_any: "(\<And>x. pred_state P (f x)) \<Longrightarrow> pred_state P (g \<bind> f)"
  by (rule pred_bindI [of "\<lambda>_. True"]) simp_all

section \<open>The metadata mutation\<close>

text \<open>
  \<open>ObjectMetaMut\<close> reports a metadata rejection for each invalid update of an existing object, so
  every mutation takes its allowed branch.
\<close>

lemmas mut_defs = ComprehensivePodMut_def ComprehensivePodStatusMut_def ComprehensiveReplicaSetMut_def
  ComprehensiveReplicaSetStatusMut_def ComprehensiveDeploymentMut_def ComprehensiveDeploymentStatusMut_def
  ComprehensiveStatefulSetMut_def ComprehensiveStatefulSetStatusMut_def
  ComprehensivePersistentVolumeClaimMut_def ComprehensivePersistentVolumeClaimStatusMut_def

lemma mutations_allowed:
  "ComprehensivePodMut R pods exists valid =
     ObjectMetaMut R pods exists valid \<bind> (\<lambda>(pods, _). mutateAllowedPodSpecFields R pods)"
  "ComprehensivePodStatusMut R pods exists valid =
     ObjectMetaMut R pods exists valid \<bind> (\<lambda>(pods, _). mutateAllowedPodStatusFields R pods)"
  "ComprehensiveReplicaSetMut R sets exists valid =
     ObjectMetaMut R sets exists valid \<bind> (\<lambda>(sets, _). mutateAllowedReplicaSetUpdateFields R sets exists)"
  "ComprehensiveReplicaSetStatusMut R sets exists valid =
     ObjectMetaMut R sets exists valid \<bind> (\<lambda>(sets, _). mutateAllowedReplicaSetStatusFields R sets)"
  "ComprehensiveDeploymentMut R ds exists valid =
     ObjectMetaMut R ds exists valid \<bind> (\<lambda>(ds, _). mutateAllowedDeploymentUpdateFields R ds exists)"
  "ComprehensiveDeploymentStatusMut R ds exists valid =
     ObjectMetaMut R ds exists valid \<bind> (\<lambda>(ds, _). mutateAllowedDeploymentStatusFields R ds)"
  "ComprehensiveStatefulSetMut R ssets exists valid =
     ObjectMetaMut R ssets exists valid \<bind> (\<lambda>(ssets, _). mutateAllowedStatefulSetUpdateFields R ssets)"
  "ComprehensiveStatefulSetStatusMut R ssets exists valid =
     ObjectMetaMut R ssets exists valid \<bind> (\<lambda>(ssets, _). mutateAllowedStatefulSetStatusFields R ssets)"
  "ComprehensivePersistentVolumeClaimMut R pvcs exists valid =
     ObjectMetaMut R pvcs exists valid \<bind> (\<lambda>(pvcs, _). State_Monad.return pvcs)"
  "ComprehensivePersistentVolumeClaimStatusMut R pvcs exists valid =
     ObjectMetaMut R pvcs exists valid \<bind> (\<lambda>(pvcs, _). mutateAllowedPersistentVolumeClaimStatusFields R pvcs)"
  unfolding mut_defs
  by (cases exists; cases valid; simp add: ObjectMetaMut_def Let_def)+

lemma on_meta_simps [simp]:
  "ObjectMeta (on_meta f ob) = f (ObjectMeta ob)" "on_meta f (on_meta g ob) = on_meta (f \<circ> g) ob"
  by (simp_all add: on_meta_def)

text \<open>Objects that differ in their metadata only.\<close>

definition same_body :: "'z Object_scheme \<Rightarrow> 'z Object_scheme \<Rightarrow> bool" where
  "same_body a b \<longleftrightarrow> b = a\<lparr>ObjectMeta := ObjectMeta b\<rparr>"

lemma same_body_refl [simp]: "same_body a a"
  by (simp add: same_body_def)

lemma same_body_on_meta [simp]: "same_body a (on_meta f b) \<longleftrightarrow> same_body a b"
  by (cases a; cases b) (auto simp: same_body_def on_meta_def)

definition metadata_rejected :: "ObjectMeta \<Rightarrow> ObjectMeta \<Rightarrow> bool" where
  "metadata_rejected old new \<longleftrightarrow> Name new = Name old \<and>
     (UID new = ''corrupted-uid'' \<or> UID new = UID old \<and> ResourceVersion new = ''corrupted-rv'')"

definition metadata_accepted :: "ObjectMeta \<Rightarrow> ObjectMeta \<Rightarrow> bool" where
  "metadata_accepted old new \<longleftrightarrow> Name new = Name old \<and> (UID new = [] \<or> UID new = UID old) \<and>
     (ResourceVersion new = [] \<or> ResourceVersion new = ResourceVersion old)"

lemma ObjectMetaMut_fst:
  "pred_state (\<lambda>(q, invalid). same_body (fst p) (fst q) \<and> same_body (snd p) (snd q) \<and>
     invalid = (exists \<and> \<not> valid) \<and>
     (if invalid then metadata_rejected (ObjectMeta (fst p)) (ObjectMeta (fst q))
      else exists \<longrightarrow> metadata_accepted (ObjectMeta (fst p)) (ObjectMeta (fst q))))
   (ObjectMetaMut R p exists valid)"
  unfolding ObjectMetaMut_def add_label_def add_annotation_def
  by (auto simp: Let_def SetUID_def SetResourceVersion_def metadata_rejected_def metadata_accepted_def intro!: pred_any)

section \<open>Paired objects\<close>

definition without_assigned :: "ObjectMeta \<Rightarrow> ObjectMeta" where
  "without_assigned md = md\<lparr>UID := [], ResourceVersion := [], CreationTimestamp := 0, DeletionTimestamp := None,
     ManagedFields := None, SelfLink := []\<rparr>"

definition paired :: "'z Object_scheme \<times> 'z Object_scheme \<Rightarrow> bool" where
  "paired p \<longleftrightarrow> same_body (fst p) (snd p) \<and>
     without_assigned (ObjectMeta (fst p)) = without_assigned (ObjectMeta (snd p))"

lemma meta_set_eq:
  fixes a b :: "'z Object_scheme"
  shows "a\<lparr>ObjectMeta := x\<rparr> = b\<lparr>ObjectMeta := y\<rparr> \<longleftrightarrow> x = y \<and> same_body a b"
  by (cases a; cases b) (auto simp: same_body_def)

lemma paired_iff:
  "clearServerAssignedFields (KPod a) = clearServerAssignedFields (KPod b) \<longleftrightarrow> paired (a, b)"
  "clearServerAssignedFields (KReplicaSet rs) = clearServerAssignedFields (KReplicaSet rs') \<longleftrightarrow> paired (rs, rs')"
  "clearServerAssignedFields (KDeployment d) = clearServerAssignedFields (KDeployment d') \<longleftrightarrow> paired (d, d')"
  "clearServerAssignedFields (KStatefulSet ss) = clearServerAssignedFields (KStatefulSet ss') \<longleftrightarrow> paired (ss, ss')"
  "clearServerAssignedFields (KPersistentVolumeClaim c) = clearServerAssignedFields (KPersistentVolumeClaim c') \<longleftrightarrow> paired (c, c')"
  "clearServerAssignedFields (KControllerRevision r) = clearServerAssignedFields (KControllerRevision r') \<longleftrightarrow> paired (r, r')"
  by (simp_all add: clearServerAssignedFields_def paired_def without_assigned_def meta_set_eq conj_commute)

lemma same_body_both: "same_body a b \<Longrightarrow> same_body (on_meta f a) b"
  by (cases a; cases b) (auto simp: same_body_def on_meta_def)

lemma paired_meta:
  assumes "paired p" and "\<And>a b. without_assigned a = without_assigned b \<Longrightarrow> without_assigned (f a) = without_assigned (f b)"
  shows "paired (both (on_meta f) p)"
  using assms(1) assms(2) [of "ObjectMeta (fst p)" "ObjectMeta (snd p)"]
  by (simp add: paired_def same_body_both)

lemma without_assigned_eqD:
  "without_assigned a = without_assigned b \<Longrightarrow> Labels a = Labels b \<and> Annotations a = Annotations b"
  by (drule arg_cong [where f = "\<lambda>md. (Labels md, Annotations md)"]) (simp add: without_assigned_def)

lemma without_assigned_updates:
  "without_assigned (a\<lparr>Labels := l\<rparr>) = (without_assigned a)\<lparr>Labels := l\<rparr>"
  "without_assigned (a\<lparr>Annotations := l\<rparr>) = (without_assigned a)\<lparr>Annotations := l\<rparr>"
  "without_assigned (a\<lparr>UID := u\<rparr>) = without_assigned a"
  "without_assigned (a\<lparr>ResourceVersion := v\<rparr>) = without_assigned a"
  by (simp_all add: without_assigned_def)

lemma paired_updates [simp]:
  "paired p \<Longrightarrow> paired (both (on_meta (\<lambda>md. md\<lparr>Labels := set_entry k v (Labels md)\<rparr>)) p)"
  "paired p \<Longrightarrow> paired (both (on_meta (\<lambda>md. md\<lparr>Annotations := set_entry k v (Annotations md)\<rparr>)) p)"
  "paired p \<Longrightarrow> paired (both (SetUID u) p)"
  "paired p \<Longrightarrow> paired (both (SetResourceVersion w) p)"
  unfolding SetUID_def SetResourceVersion_def
  by (rule paired_meta; simp add: without_assigned_updates; metis without_assigned_eqD)+

lemma both_comp: "both (f \<circ> g) p = both f (both g p)"
  by (simp add: both_def prod.map_comp)

lemma ObjectMetaMut_paired:
  "paired p \<Longrightarrow> pred_state (\<lambda>(q, _). paired q) (ObjectMetaMut R p exists valid)"
  unfolding ObjectMetaMut_def add_label_def add_annotation_def
  by (auto simp: Let_def both_comp intro!: pred_any) 

section \<open>What the allowed mutations keep\<close>

text \<open>
  The part of a pod spec an update may not change: everything but the images, the tolerations,
  the scheduling gates, the deadline and a negative grace period
  (\<open>ValidatePodUpdate\<close> compares the specs in this form).
\<close>

definition without_image :: "Container slice \<Rightarrow> Container slice" where
  "without_image = map_option (map (\<lambda>c. c\<lparr>cont_Image := []\<rparr>))"

definition immutable_part :: "PodSpec \<Rightarrow> PodSpec" where
  "immutable_part s = s\<lparr>Containers := without_image (Containers s), InitContainers := without_image (InitContainers s),
     ActiveDeadlineSeconds := None, Tolerations := None, SchedulingGates := None,
     TerminationGracePeriodSeconds := map_option (\<lambda>g. if sint g < 0 then 1 else g) (TerminationGracePeriodSeconds s)\<rparr>"

definition keeps :: "('z Object_scheme \<Rightarrow> 'b) \<Rightarrow> 'z Object_scheme \<times> 'z Object_scheme \<Rightarrow> 'z Object_scheme \<times> 'z Object_scheme \<Rightarrow> bool" where
  "keeps part p q \<longleftrightarrow> ObjectMeta (fst q) = ObjectMeta (fst p) \<and> part (fst q) = part (fst p) \<and> (paired p \<longrightarrow> paired q)"

lemma keeps_refl [simp]: "keeps part p p"
  by (simp add: keeps_def)

lemma keeps_trans: "keeps part p q \<Longrightarrow> keeps part q r \<Longrightarrow> keeps part p r"
  by (simp add: keeps_def)

lemma keeps_bind:
  assumes "pred_state (keeps part p) g" and "\<And>q. pred_state (keeps part q) (f q)"
  shows "pred_state (keeps part p) (g \<bind> f)"
  using assms(1) by (rule pred_bindI) (meson assms(2) keeps_trans pred_mono)

lemma keeps_return_bind:
  assumes "keeps part p q" and "pred_state (keeps part q) g"
  shows "pred_state (keeps part p) g"
  using assms(2) by (rule pred_mono) (rule keeps_trans [OF assms(1)])

lemma keeps_maybe:
  "(\<And>p. pred_state (keeps part p) (f p)) \<Longrightarrow> pred_state (keeps part p) (maybe R label f p)"
  by (rule pred_maybeI [where P = "keeps part p"]) simp_all

text \<open>Assigning the same value to both objects of a pair.\<close>

lemma paired_body:
  assumes "\<And>ob md. f (ob\<lparr>ObjectMeta := md\<rparr>) = (f ob)\<lparr>ObjectMeta := md\<rparr>"
    and "\<And>ob. ObjectMeta (f ob) = ObjectMeta ob" and "paired p"
  shows "paired (both f p)"
proof -
  have "f (snd p) = (f (fst p))\<lparr>ObjectMeta := ObjectMeta (snd p)\<rparr>"
    using assms(1) [where ob = "fst p" and md = "ObjectMeta (snd p)"] assms(3) unfolding paired_def same_body_def by simp
  then show ?thesis
    using assms(2,3) by (simp add: paired_def same_body_def)
qed

lemma paired_parts:
  assumes "\<And>ob md. f (ob\<lparr>ObjectMeta := md\<rparr>) = (f ob)\<lparr>ObjectMeta := md\<rparr>"
    and "\<And>ob. ObjectMeta (f ob) = ObjectMeta ob" and "paired p"
  shows "paired (f (fst p), f (snd p))"
  using paired_body [OF assms] by (simp add: both_def map_prod_def split_beta)

lemma on_simps [simp]:
  "ObjectMeta (on_podspec f p) = ObjectMeta p" "pod_Spec (on_podspec f p) = f (pod_Spec p)"
  "ObjectMeta (on_podstatus g p) = ObjectMeta p" "pod_Spec (on_podstatus g p) = pod_Spec p"
  "pod_Status (on_podstatus g p) = g (pod_Status p)"
  "on_podspec f (p\<lparr>ObjectMeta := md\<rparr>) = (on_podspec f p)\<lparr>ObjectMeta := md\<rparr>"
  "on_podstatus g (p\<lparr>ObjectMeta := md\<rparr>) = (on_podstatus g p)\<lparr>ObjectMeta := md\<rparr>"
  by (simp_all add: on_podspec_def on_podstatus_def)

lemma keeps_both:
  assumes "\<And>ob md. f (ob\<lparr>ObjectMeta := md\<rparr>) = (f ob)\<lparr>ObjectMeta := md\<rparr>"
    and "\<And>ob. ObjectMeta (f ob) = ObjectMeta ob" and "part (f (fst p)) = part (fst p)"
  shows "keeps part p (both f p)"
  using assms paired_body [of f p] by (simp add: keeps_def)

section \<open>Pods\<close>

lemma change_images_paired:
  "pred_state (\<lambda>(ms, rs). ms = rs) (change_images R prefix i cs cs)"
proof (induction cs arbitrary: i)
  case (Cons c cs)
  show ?case
    by (simp add: Let_def) (rule pred_any, rule pred_bindI [OF Cons.IH], auto)
qed simp

lemma change_images_without:
  "pred_state (\<lambda>(ms, rs). map (\<lambda>c. c\<lparr>cont_Image := []\<rparr>) ms = map (\<lambda>c. c\<lparr>cont_Image := []\<rparr>) ms0)
     (change_images R prefix i ms0 rs0)"
proof (induction R prefix i ms0 rs0 rule: change_images.induct)
  case (1 R prefix i mc ms rc rs)
  show ?case
    by (simp add: Let_def) (rule pred_any, rule pred_bindI [OF 1], auto)
qed simp_all

lemma mutatePodContainerImages_paired:
  "fst cs = snd cs \<Longrightarrow> pred_state (\<lambda>(ms, rs). ms = rs) (mutatePodContainerImages R cs prefix)"
  unfolding mutatePodContainerImages_def
  by simp (rule pred_bindI [OF change_images_paired], auto)

lemma mutatePodContainerImages_without:
  "pred_state (\<lambda>(ms, rs). without_image ms = without_image (fst cs)) (mutatePodContainerImages R cs prefix)"
  unfolding mutatePodContainerImages_def
  by (rule pred_bindI [OF change_images_without], cases "fst cs") (auto simp: without_image_def put_elems_def)

lemma pred_conj: "pred_state P g \<Longrightarrow> pred_state Q g \<Longrightarrow> pred_state (\<lambda>x. P x \<and> Q x) g"
  by (simp add: pred_state_iff)

definition pod_part :: "Pod \<Rightarrow> PodSpec" where "pod_part p = immutable_part (pod_Spec p)"

lemma images_keep: "pred_state (keeps pod_part pods) (allowed_images R pods)"
proof -
  have images: "pred_state (\<lambda>(ms, rs). (paired pods \<longrightarrow> ms = rs) \<and> without_image ms = without_image (sel (pod_Spec (fst pods))))
      (mutatePodContainerImages R (both (sel \<circ> pod_Spec) pods) prefix)" for sel prefix
  proof -
    have "paired pods \<Longrightarrow> fst (both (sel \<circ> pod_Spec) pods) = snd (both (sel \<circ> pod_Spec) pods)"
      by (cases "fst pods"; cases "snd pods") (auto simp: paired_def same_body_def)
    with mutatePodContainerImages_paired [of "both (sel \<circ> pod_Spec) pods" R prefix]
      mutatePodContainerImages_without [of "both (sel \<circ> pod_Spec) pods" R prefix]
    show ?thesis by (auto simp: pred_state_iff split_beta)
  qed
  show ?thesis
    unfolding allowed_images_def
    by (rule pred_bindI [OF images], clarsimp, rule pred_bindI [OF images])
      (auto simp: keeps_def pod_part_def immutable_part_def paired_parts)
qed

lemma keeps_podspec:
  "immutable_part (f (pod_Spec (fst pods))) = immutable_part (pod_Spec (fst pods)) \<Longrightarrow>
    keeps pod_part pods (both (on_podspec f) pods)"
  by (rule keeps_both) (simp_all add: pod_part_def)

lemma keeps_podstatus: "keeps pod_part pods (both (on_podstatus f) pods)"
  by (rule keeps_both) (simp_all add: pod_part_def)

lemma mutateAllowedPodSpecFields_keeps: "pred_state (keeps pod_part pods) (mutateAllowedPodSpecFields R pods)"
proof -
  have deadline: "pred_state (keeps pod_part p) (allowed_deadline R p)" for p
    unfolding allowed_deadline_def
    by (rule keeps_maybe) (auto intro!: pred_any keeps_podspec simp: immutable_part_def)
  have toleration: "pred_state (keeps pod_part p) (allowed_toleration R p)" for p
    unfolding allowed_toleration_def
    by (rule keeps_maybe) (auto intro!: pred_any keeps_podspec simp: immutable_part_def Let_def)
  have gate: "pred_state (keeps pod_part p) (allowed_gate R p)" for p
    unfolding allowed_gate_def
    by (auto intro!: keeps_maybe pred_any keeps_podspec simp: immutable_part_def)
  have grace: "pred_state (keeps pod_part p) (allowed_grace R p)" for p
    unfolding allowed_grace_def negative_grace_def maybe_def
    by (auto intro!: pred_any keeps_podspec simp: immutable_part_def split: option.splits)
  show ?thesis
    unfolding mutateAllowedPodSpecFields_def
    by (intro keeps_bind images_keep deadline toleration gate grace)
qed

lemma mutateAllowedPodStatusFields_keeps: "pred_state (keeps pod_part pods) (mutateAllowedPodStatusFields R pods)"
  unfolding mutateAllowedPodStatusFields_def
  by (auto intro!: pred_any keeps_podstatus)

section \<open>Templates\<close>

definition untouched :: "LabelSelector option \<Rightarrow> string \<Rightarrow> bool" where
  "untouched sel k \<longleftrightarrow> (\<exists>s. sel = Some s \<and> map_get (MatchLabels s) k \<noteq> None) \<and> k \<noteq> ''extra-update''"

definition template_keeps ::
  "LabelSelector option \<Rightarrow> PodTemplateSpec \<times> PodTemplateSpec \<Rightarrow> PodTemplateSpec \<times> PodTemplateSpec \<Rightarrow> bool" where
  "template_keeps sel p q \<longleftrightarrow> (fst p = snd p \<longrightarrow> fst q = snd q) \<and>
     (\<forall>k. untouched sel k \<longrightarrow>
        map_get (Labels (tmpl_ObjectMeta (fst q))) k = map_get (Labels (tmpl_ObjectMeta (fst p))) k)"

lemma template_keeps_refl [simp]: "template_keeps sel p p"
  by (simp add: template_keeps_def)

lemma template_keeps_bind:
  assumes "pred_state (template_keeps sel p) g" and "\<And>q. pred_state (template_keeps sel q) (f q)"
  shows "pred_state (template_keeps sel p) (g \<bind> f)"
  using assms(1)
proof (rule pred_bindI)
  fix q assume q: "template_keeps sel p q"
  show "pred_state (template_keeps sel p) (f q)"
    using assms(2) by (rule pred_mono) (use q in \<open>simp add: template_keeps_def\<close>)
qed

lemma template_keeps_both:
  assumes "\<And>t k. untouched sel k \<Longrightarrow>
    map_get (Labels (tmpl_ObjectMeta (f t))) k = map_get (Labels (tmpl_ObjectMeta t)) k"
  shows "template_keeps sel p (both f p)"
  using assms by (simp add: template_keeps_def)

lemma template_keeps_maybe:
  "(\<And>p. pred_state (template_keeps sel p) (f p)) \<Longrightarrow> pred_state (template_keeps sel p) (maybe R label f p)"
  by (rule pred_maybeI [where P = "template_keeps sel p"]) simp_all

lemma map_get_set_key: "map_get (set_entry k' v mp) k = (if k = k' then Some v else map_get mp k)"
  by (cases mp) (auto simp: set_entry_def)

lemma free_label_untouched [simp]: "\<not> untouched sel (free_label sel key)"
  by (cases sel) (auto simp: untouched_def free_label_def split: if_splits)

lemma mutate_template_keeps: "pred_state (template_keeps sel p) (mutate_template R prefix sel p)"
proof -
  have label: "pred_state (template_keeps sel p) (template_label R prefix sel p)" for p
    unfolding template_label_def
    by (auto intro!: pred_any template_keeps_both simp: on_tmpl_meta_def map_get_set_key)
  have images: "pred_state (template_keeps sel p) (template_images R p)" for p
  proof (cases "fst p = snd p")
    case True
    then show ?thesis
      unfolding template_images_def mutateReplicaSetTemplateContainerImages_def
      by simp (rule pred_bindI [OF change_images_paired], auto simp: template_keeps_def on_tmpl_spec_def)
  next
    case False
    then show ?thesis
      unfolding template_images_def mutateReplicaSetTemplateContainerImages_def
      by (auto intro!: pred_any simp: template_keeps_def on_tmpl_spec_def split: prod.splits)
  qed
  have env: "pred_state (template_keeps sel p) (template_env R prefix p)" for p
    unfolding template_env_def
    by (auto intro!: template_keeps_maybe pred_any template_keeps_both simp: on_tmpl_spec_def)
  have annotation: "pred_state (template_keeps sel p) (template_annotation R prefix p)" for p
    unfolding template_annotation_def
    by (rule template_keeps_maybe) (auto intro!: pred_any template_keeps_both simp: on_tmpl_meta_def)
  have node: "pred_state (template_keeps sel p) (template_node_selector R prefix p)" for p
    unfolding template_node_selector_def
    by (rule template_keeps_maybe) (auto intro!: pred_any template_keeps_both simp: on_tmpl_spec_def)
  show ?thesis
    unfolding mutate_template_def by (intro template_keeps_bind label images env annotation node)
qed

section \<open>Workloads\<close>

lemma on_workload_simps [simp]:
  "ObjectMeta (on_rsspec f rs) = ObjectMeta rs" "rs_Spec (on_rsspec f rs) = f (rs_Spec rs)"
  "rs_Status (on_rsspec f rs) = rs_Status rs" "on_rsspec f (rs\<lparr>ObjectMeta := md\<rparr>) = (on_rsspec f rs)\<lparr>ObjectMeta := md\<rparr>"
  "ObjectMeta (on_rsstatus g rs) = ObjectMeta rs" "rs_Spec (on_rsstatus g rs) = rs_Spec rs"
  "rs_Status (on_rsstatus g rs) = g (rs_Status rs)"
  "on_rsstatus g (rs\<lparr>ObjectMeta := md\<rparr>) = (on_rsstatus g rs)\<lparr>ObjectMeta := md\<rparr>"
  "ObjectMeta (on_dspec h d) = ObjectMeta d" "d_Spec (on_dspec h d) = h (d_Spec d)"
  "d_Status (on_dspec h d) = d_Status d" "on_dspec h (d\<lparr>ObjectMeta := md\<rparr>) = (on_dspec h d)\<lparr>ObjectMeta := md\<rparr>"
  "ObjectMeta (on_dstatus i d) = ObjectMeta d" "d_Spec (on_dstatus i d) = d_Spec d"
  "d_Status (on_dstatus i d) = i (d_Status d)"
  "on_dstatus i (d\<lparr>ObjectMeta := md\<rparr>) = (on_dstatus i d)\<lparr>ObjectMeta := md\<rparr>"
  "ObjectMeta (on_ssspec j ss) = ObjectMeta ss" "ss_Spec (on_ssspec j ss) = j (ss_Spec ss)"
  "ss_Status (on_ssspec j ss) = ss_Status ss" "on_ssspec j (ss\<lparr>ObjectMeta := md\<rparr>) = (on_ssspec j ss)\<lparr>ObjectMeta := md\<rparr>"
  "ObjectMeta (on_ssstatus k ss) = ObjectMeta ss" "ss_Spec (on_ssstatus k ss) = ss_Spec ss"
  "ss_Status (on_ssstatus k ss) = k (ss_Status ss)"
  "on_ssstatus k (ss\<lparr>ObjectMeta := md\<rparr>) = (on_ssstatus k ss)\<lparr>ObjectMeta := md\<rparr>"
  by (simp_all add: on_rsspec_def on_rsstatus_def on_dspec_def on_dstatus_def on_ssspec_def on_ssstatus_def)

lemma paired_body_eq: "paired p \<Longrightarrow> sel (fst p) = sel (snd p)"
  if "\<And>ob md. sel (ob\<lparr>ObjectMeta := md\<rparr>) = sel ob" for sel :: "'z Object_scheme \<Rightarrow> 'b"
  using that [of "ObjectMeta (snd p)" "fst p"] by (auto simp: paired_def same_body_def)

definition rs_part :: "ReplicaSet \<Rightarrow> LabelSelector option \<times> ReplicaSetStatus" where
  "rs_part rs = (rs_Selector (rs_Spec rs), rs_Status rs)"

lemma keeps_rsspec:
  "rs_Selector (f (rs_Spec (fst p))) = rs_Selector (rs_Spec (fst p)) \<Longrightarrow> keeps rs_part p (both (on_rsspec f) p)"
  by (rule keeps_both) (simp_all add: rs_part_def)

lemma keeps_rstemplate:
  assumes "template_keeps sel (both (rs_Template \<circ> rs_Spec) p) (mt, rt)"
  shows "keeps rs_part p (on_rsspec (\<lambda>s. s\<lparr>rs_Template := mt\<rparr>) (fst p), on_rsspec (\<lambda>s. s\<lparr>rs_Template := rt\<rparr>) (snd p))"
proof -
  have "mt = rt" if "paired p"
    using assms paired_body_eq [OF _ that, of "rs_Template \<circ> rs_Spec"] by (simp add: template_keeps_def)
  then show ?thesis
    by (auto simp: keeps_def rs_part_def paired_parts)
qed

lemma rstemplate_keeps:
  "pred_state (keeps rs_part p)
     (mutate_template R prefix (rs_Selector (rs_Spec (fst p))) (both (rs_Template \<circ> rs_Spec) p) \<bind>
       (\<lambda>(mt, rt). State_Monad.return (on_rsspec (\<lambda>s. s\<lparr>rs_Template := mt\<rparr>) (fst p), on_rsspec (\<lambda>s. s\<lparr>rs_Template := rt\<rparr>) (snd p))))"
proof (rule pred_bindI [OF mutate_template_keeps])
  fix ts assume "template_keeps (rs_Selector (rs_Spec (fst p))) (both (rs_Template \<circ> rs_Spec) p) ts"
  then show "pred_state (keeps rs_part p) (case ts of (mt, rt) \<Rightarrow> State_Monad.return
      (on_rsspec (\<lambda>s. s\<lparr>rs_Template := mt\<rparr>) (fst p), on_rsspec (\<lambda>s. s\<lparr>rs_Template := rt\<rparr>) (snd p)))"
    using keeps_rstemplate [of _ p "fst ts" "snd ts"] by (simp add: split_beta)
qed

lemma keeps_after:
  "pred_state (keeps part q) g \<Longrightarrow> keeps part p q \<Longrightarrow> pred_state (keeps part p) g"
  by (rule keeps_return_bind)

lemma keeps_assign:
  "(\<And>x q. keeps part q (both (f x) q)) \<Longrightarrow>
    pred_state (keeps part p) (maybe R label (\<lambda>q. g \<bind> (\<lambda>x. State_Monad.return (both (f x) q))) p)"
  by (rule keeps_maybe, rule pred_any) simp

lemma keeps_if:
  "pred_state (keeps part p) g \<Longrightarrow> pred_state (keeps part p) (if b then g else State_Monad.return p)"
  by simp

lemma mutateAllowedReplicaSetUpdateFields_keeps:
  "pred_state (keeps rs_part p) (mutateAllowedReplicaSetUpdateFields R p exists)"
  unfolding mutateAllowedReplicaSetUpdateFields_def Let_def
  by (rule pred_any, rule keeps_after, rule keeps_bind, rule keeps_assign)
    (simp_all add: keeps_rsspec rstemplate_keeps)

lemma mutateAllowedReplicaSetStatusFields_keeps:
  "pred_state (keeps rs_Spec p) (mutateAllowedReplicaSetStatusFields R p)"
  unfolding mutateAllowedReplicaSetStatusFields_def
  by (auto intro!: pred_any keeps_both)

definition d_part :: "Deployment \<Rightarrow> LabelSelector option \<times> DeploymentStatus" where
  "d_part d = (d_Selector (d_Spec d), d_Status d)"

lemma keeps_dspec:
  "d_Selector (f (d_Spec (fst p))) = d_Selector (d_Spec (fst p)) \<Longrightarrow> keeps d_part p (both (on_dspec f) p)"
  by (rule keeps_both) (simp_all add: d_part_def)

lemma keeps_dtemplate:
  assumes "template_keeps sel (both (d_Template \<circ> d_Spec) p) (mt, rt)"
  shows "keeps d_part p (on_dspec (\<lambda>s. s\<lparr>d_Template := mt\<rparr>) (fst p), on_dspec (\<lambda>s. s\<lparr>d_Template := rt\<rparr>) (snd p))"
proof -
  have "mt = rt" if "paired p"
    using assms paired_body_eq [OF _ that, of "d_Template \<circ> d_Spec"] by (simp add: template_keeps_def)
  then show ?thesis
    by (auto simp: keeps_def d_part_def paired_parts)
qed

lemma dtemplate_keeps:
  "pred_state (keeps d_part p)
     (mutate_template R prefix (d_Selector (d_Spec (fst p))) (both (d_Template \<circ> d_Spec) p) \<bind>
       (\<lambda>(mt, rt). State_Monad.return (on_dspec (\<lambda>s. s\<lparr>d_Template := mt\<rparr>) (fst p), on_dspec (\<lambda>s. s\<lparr>d_Template := rt\<rparr>) (snd p))))"
proof (rule pred_bindI [OF mutate_template_keeps])
  fix ts assume "template_keeps (d_Selector (d_Spec (fst p))) (both (d_Template \<circ> d_Spec) p) ts"
  then show "pred_state (keeps d_part p) (case ts of (mt, rt) \<Rightarrow> State_Monad.return
      (on_dspec (\<lambda>s. s\<lparr>d_Template := mt\<rparr>) (fst p), on_dspec (\<lambda>s. s\<lparr>d_Template := rt\<rparr>) (snd p)))"
    using keeps_dtemplate [of _ p "fst ts" "snd ts"] by (simp add: split_beta)
qed

lemma mutateAllowedDeploymentUpdateFields_keeps:
  "pred_state (keeps d_part p) (mutateAllowedDeploymentUpdateFields R p exists)"
  unfolding mutateAllowedDeploymentUpdateFields_def Let_def
  by (rule pred_any, rule keeps_after, rule keeps_bind, rule keeps_assign, rule keeps_dspec, simp,
      intro keeps_bind keeps_assign dtemplate_keeps)
    (simp_all add: keeps_dspec)

lemma mutateAllowedDeploymentStatusFields_keeps:
  "pred_state (keeps d_Spec p) (mutateAllowedDeploymentStatusFields R p)"
  unfolding mutateAllowedDeploymentStatusFields_def
  by (auto intro!: pred_any keeps_both)

definition ss_part :: "StatefulSet \<Rightarrow> LabelSelector option \<times> string \<times> PersistentVolumeClaim slice \<times> StatefulSetStatus" where
  "ss_part ss = (ss_Selector (ss_Spec ss), ServiceName (ss_Spec ss), VolumeClaimTemplates (ss_Spec ss), ss_Status ss)"

definition fixed_ss :: "StatefulSetSpec \<Rightarrow> LabelSelector option \<times> string \<times> PersistentVolumeClaim slice" where
  "fixed_ss s = (ss_Selector s, ServiceName s, VolumeClaimTemplates s)"

lemma keeps_ssspec:
  "fixed_ss (f (ss_Spec (fst p))) = fixed_ss (ss_Spec (fst p)) \<Longrightarrow> keeps ss_part p (both (on_ssspec f) p)"
  by (rule keeps_both) (simp_all add: ss_part_def fixed_ss_def)

lemma mutateAllowedStatefulSetUpdateFields_keeps:
  "pred_state (keeps ss_part p) (mutateAllowedStatefulSetUpdateFields R p)"
  unfolding mutateAllowedStatefulSetUpdateFields_def Let_def on_sstmpl_def
  by (rule pred_any, rule keeps_after, rule keeps_bind, rule keeps_if, rule pred_any, subst pred_return,
      rule keeps_ssspec, simp add: fixed_ss_def, rule keeps_assign)
    (simp_all add: keeps_ssspec fixed_ss_def)

lemma mutateAllowedStatefulSetStatusFields_keeps:
  "pred_state (keeps ss_Spec p) (mutateAllowedStatefulSetStatusFields R p)"
  unfolding mutateAllowedStatefulSetStatusFields_def Let_def
  by (intro pred_any, rule keeps_after, rule keeps_maybe) (auto intro!: pred_any keeps_both)

lemma claim_status_keeps:
  "pred_state (keeps pvc_Spec p) (mutateAllowedPersistentVolumeClaimStatusFields R p)"
  unfolding mutateAllowedPersistentVolumeClaimStatusFields_def
  by (auto intro!: pred_any keeps_both)

lemma revision_paired:
  "paired p \<Longrightarrow> pred_state paired (ComprehensiveControllerRevisionMut R p exists valid)"
  unfolding ComprehensiveControllerRevisionMut_def
  by (auto intro!: pred_any paired_body)

section \<open>Properties\<close>

lemma part_meta [simp]:
  "pod_part (p\<lparr>ObjectMeta := md\<rparr>) = pod_part p" "rs_part (rs\<lparr>ObjectMeta := md\<rparr>) = rs_part rs"
  "d_part (d\<lparr>ObjectMeta := md\<rparr>) = d_part d" "ss_part (ss\<lparr>ObjectMeta := md\<rparr>) = ss_part ss"
  by (simp_all add: pod_part_def rs_part_def d_part_def ss_part_def)

lemma spec_meta:
  "pod_Spec (p\<lparr>ObjectMeta := md\<rparr>) = pod_Spec p" "rs_Spec (rs\<lparr>ObjectMeta := md\<rparr>) = rs_Spec rs"
  "d_Spec (d\<lparr>ObjectMeta := md\<rparr>) = d_Spec d" "ss_Spec (ss\<lparr>ObjectMeta := md\<rparr>) = ss_Spec ss"
  "pvc_Spec (c\<lparr>ObjectMeta := md\<rparr>) = pvc_Spec c"
  by simp_all

lemma claim_keeps: "pred_state (keeps pvc_Spec p) (State_Monad.return p)"
  by simp

lemma status_keeps_spec: "pred_state (keeps pod_Spec pods) (mutateAllowedPodStatusFields R pods)"
  unfolding mutateAllowedPodStatusFields_def on_podstatus_def
  by (auto intro!: pred_any keeps_both)

text \<open>
  What an update keeps: a part of the body, and all metadata but the UID, the version, the labels
  and the annotations.
\<close>

definition kept_meta :: "ObjectMeta \<Rightarrow> ObjectMeta" where
  "kept_meta md = md\<lparr>UID := [], ResourceVersion := [], Labels := None, Annotations := None\<rparr>"

definition update_keeps :: "('z Object_scheme \<Rightarrow> 'b) \<Rightarrow> 'z Object_scheme \<Rightarrow> 'z Object_scheme \<Rightarrow> bool" where
  "update_keeps part old new \<longleftrightarrow> part new = part old \<and> kept_meta (ObjectMeta new) = kept_meta (ObjectMeta old)"

lemma ObjectMetaMut_kept:
  "pred_state (\<lambda>(q, _). kept_meta (ObjectMeta (fst q)) = kept_meta (ObjectMeta (fst p))) (ObjectMetaMut R p exists valid)"
  unfolding ObjectMetaMut_def add_label_def add_annotation_def
  by (auto simp: Let_def SetUID_def SetResourceVersion_def kept_meta_def intro!: pred_any)

text \<open>One fact for each mutation.\<close>

lemma mutation_updates:
  assumes "\<And>q. pred_state (keeps part q) (f q)" and "\<And>ob md. part (ob\<lparr>ObjectMeta := md\<rparr>) = part ob"
  shows "pred_state (\<lambda>q. update_keeps part (fst p) (fst q)) (ObjectMetaMut R p exists valid \<bind> (\<lambda>(q, _). f q))"
proof -
  have "pred_state (\<lambda>(q, _). update_keeps part (fst p) (fst q)) (ObjectMetaMut R p exists valid)"
    using ObjectMetaMut_fst [of p "exists" valid R] ObjectMetaMut_kept [of p R "exists" valid] assms(2)
    unfolding same_body_def update_keeps_def pred_state_iff split_beta by metis
  then show ?thesis
    by (rule pred_bindI) (auto intro!: pred_mono [OF assms(1)] simp: keeps_def update_keeps_def)
qed

lemmas updates_keep =
  mutation_updates [OF mutateAllowedPodSpecFields_keeps part_meta(1)]
  mutation_updates [OF mutateAllowedReplicaSetUpdateFields_keeps part_meta(2)]
  mutation_updates [OF mutateAllowedDeploymentUpdateFields_keeps part_meta(3)]
  mutation_updates [OF mutateAllowedStatefulSetUpdateFields_keeps part_meta(4)]
  mutation_updates [OF claim_keeps spec_meta(5)]

lemmas status_updates_keep =
  mutation_updates [OF status_keeps_spec spec_meta(1)]
  mutation_updates [OF mutateAllowedReplicaSetStatusFields_keeps spec_meta(2)]
  mutation_updates [OF mutateAllowedDeploymentStatusFields_keeps spec_meta(3)]
  mutation_updates [OF mutateAllowedStatefulSetStatusFields_keeps spec_meta(4)]
  mutation_updates [OF claim_status_keeps spec_meta(5)]

text \<open>The data of a controller revision, which an update may not change either.\<close>

definition revision_data :: "ControllerRevision \<Rightarrow> string option \<times> opaque option" where
  "revision_data r = (rev_Data_Raw r, rev_Data_Object r)"

definition changed_data :: "string option \<times> opaque option" where
  "changed_data = (Some ''{\"changed\":true}'', None)"

lemma valid_revision_keeps:
  "pred_state (\<lambda>q. revision_data (fst q) = revision_data (fst revs)) (ComprehensiveControllerRevisionMut R revs exists True)"
  unfolding ComprehensiveControllerRevisionMut_def
  by (auto simp: revision_data_def intro!: pred_any)

lemma invalid_revision_changes:
  "pred_state (\<lambda>q. revision_data (fst q) = revision_data (fst revs)) (ComprehensiveControllerRevisionMut tape revs exists False)
     \<longleftrightarrow> revision_data (fst revs) = changed_data"
    (is "pred_state ?same ?gen \<longleftrightarrow> _")
proof
  assume "pred_state ?same ?gen"
  then have "?same (fst (run_state ?gen [Num 1]))" by (simp add: pred_state_iff)
  then show "revision_data (fst revs) = changed_data"
    by (simp add: ComprehensiveControllerRevisionMut_def revision_data_def changed_data_def)
next
  assume "revision_data (fst revs) = changed_data"
  then show "pred_state ?same ?gen" unfolding ComprehensiveControllerRevisionMut_def
    by (auto simp: revision_data_def changed_data_def SetResourceVersion_def on_meta_def intro!: pred_any)
qed

text \<open>C36: What the mutations of the tests change of the model's object. An update of a pod, replica set,
  deployment, stateful set or claim, asked to be valid or not, of an object that exists or not, keeps
  what the API lets no update change (of a pod the spec but images, tolerations, gates, deadline and a
  negative grace period; of a replica set and a deployment the selector, of a stateful set selector,
  service name and claim templates; of these three also the status; of a claim the whole spec), and a
  status update keeps the whole spec. Of the metadata only the UID, the version, the labels and the
  annotations change. So the branches of the code that change an immutable field are not reached: the
  metadata mutation has already spoilt the update when it is to be invalid. A controller
  revision is the exception, whose mutation does not go through the metadata: a valid one keeps the
  data, an invalid one replaces it in one of its draws, unless it is the replacement already.\<close>

theorem updates_keep_immutable_fields:
  "pred_state (\<lambda>q. update_keeps pod_part (fst pods) (fst q)) (ComprehensivePodMut R pods exists valid) \<and>
   pred_state (\<lambda>q. update_keeps rs_part (fst sets) (fst q)) (ComprehensiveReplicaSetMut R sets exists valid) \<and>
   pred_state (\<lambda>q. update_keeps d_part (fst ds) (fst q)) (ComprehensiveDeploymentMut R ds exists valid) \<and>
   pred_state (\<lambda>q. update_keeps ss_part (fst ssets) (fst q)) (ComprehensiveStatefulSetMut R ssets exists valid) \<and>
   pred_state (\<lambda>q. update_keeps pvc_Spec (fst pvcs) (fst q)) (ComprehensivePersistentVolumeClaimMut R pvcs exists valid) \<and>
   pred_state (\<lambda>q. update_keeps pod_Spec (fst pods) (fst q)) (ComprehensivePodStatusMut R pods exists valid) \<and>
   pred_state (\<lambda>q. update_keeps rs_Spec (fst sets) (fst q)) (ComprehensiveReplicaSetStatusMut R sets exists valid) \<and>
   pred_state (\<lambda>q. update_keeps d_Spec (fst ds) (fst q)) (ComprehensiveDeploymentStatusMut R ds exists valid) \<and>
   pred_state (\<lambda>q. update_keeps ss_Spec (fst ssets) (fst q)) (ComprehensiveStatefulSetStatusMut R ssets exists valid) \<and>
   pred_state (\<lambda>q. update_keeps pvc_Spec (fst pvcs) (fst q)) (ComprehensivePersistentVolumeClaimStatusMut R pvcs exists valid) \<and>
   pred_state (\<lambda>q. revision_data (fst q) = revision_data (fst revs)) (ComprehensiveControllerRevisionMut R revs exists True) \<and>
   (pred_state (\<lambda>q. revision_data (fst q) = revision_data (fst revs)) (ComprehensiveControllerRevisionMut tape revs exists False)
     \<longleftrightarrow> revision_data (fst revs) = changed_data)"
  unfolding mutations_allowed
  by (intro conjI updates_keep status_updates_keep valid_revision_keeps invalid_revision_changes)

section \<open>Updates with mutated metadata\<close>

text \<open>A client holds the metadata of the object of this kind and name.\<close>

definition read_from :: "State \<Rightarrow> string \<Rightarrow> string \<Rightarrow> ObjectMeta \<Rightarrow> bool" where
  "read_from s kind namespace md \<longleftrightarrow> (\<exists>ob. st_m s (KKey kind (Name md) namespace) = Some ob \<and>
     UID (metadata ob) = UID md \<and> ResourceVersion (metadata ob) = ResourceVersion md)"

lemma rejected_checks:
  assumes laws: "upstream_laws E" and read: "read_from s kind namespace md" and "UID md \<noteq> ''corrupted-uid''"
    and rej: "metadata_rejected md (metadata ob)"
  shows "\<exists>e. update_checks pipe msg E kind namespace ob True s = Inl e"
proof (cases "EnsureObjectNamespaceMatchesRequestNamespace E namespace (metadata ob)")
  case (Inr md')
  then have md': "md' = (metadata ob)\<lparr>Namespace := namespace\<rparr>"
    using laws unfolding upstream_laws_def by blast
  have "parse_uint ''corrupted-rv'' 64 = None"
    by (simp add: parse_uint_def digit_val_def)
  with Inr md' assms(2-) show ?thesis
    by (auto simp: update_checks_def Let_def read_from_def metadata_rejected_def request_rv_def split: option.splits)
qed (simp add: update_checks_def)

text \<open>C37: The corruption of the metadata does what it is for: an invalid mutation of an object as the
  client read it is reported, and with whatever other changes, the API model rejects the update and
  the status update and is left as it was.\<close>

theorem invalid_metadata_rejected:
  assumes "upstream_laws E" "read_from s kind namespace (ObjectMeta (fst p))" "UID (ObjectMeta (fst p)) \<noteq> ''corrupted-uid''"
  shows "pred_state (\<lambda>(q, reported). reported \<and> (\<forall>ob. metadata ob = ObjectMeta (fst q) \<longrightarrow>
      (\<exists>e. update E ch kind namespace ob s = Some (Inl e, s)) \<and>
      (\<exists>e. updateStatus E ch kind namespace ob s = Some (Inl e, s))))
    (ObjectMetaMut R p True False)"
proof (rule pred_mono [OF ObjectMetaMut_fst])
  fix x :: "('a Object_scheme \<times> 'a Object_scheme) \<times> bool"
  obtain q reported where x: "x = (q, reported)" by (cases x)
  assume "case x of (q, invalid) \<Rightarrow> same_body (fst p) (fst q) \<and> same_body (snd p) (snd q) \<and> invalid = (True \<and> \<not> False) \<and>
     (if invalid then metadata_rejected (ObjectMeta (fst p)) (ObjectMeta (fst q))
      else True \<longrightarrow> metadata_accepted (ObjectMeta (fst p)) (ObjectMeta (fst q)))"
  then have "reported" and rej: "metadata_rejected (ObjectMeta (fst p)) (ObjectMeta (fst q))"
    by (simp_all add: x)
  moreover have "\<exists>e. update_with pipe msg E ch kind namespace ob True s = Some (Inl e, s)"
    if "metadata ob = ObjectMeta (fst q)" for ob pipe msg
    using rejected_checks [OF assms, of ob pipe msg] rej that by (auto simp: update_with_def)
  ultimately show "case x of (q, reported) \<Rightarrow> reported \<and> (\<forall>ob. metadata ob = ObjectMeta (fst q) \<longrightarrow>
      (\<exists>e. update E ch kind namespace ob s = Some (Inl e, s)) \<and>
      (\<exists>e. updateStatus E ch kind namespace ob s = Some (Inl e, s)))"
    by (simp add: x update_def updateStatus_def updateLocked_def updateStatusLocked_def)
qed

lemma pod_read: "read_from example_state ''Pod'' ''default'' (ObjectMeta (example_pod stored_meta))"
  by (simp add: read_from_def example_state_simps example_meta_simps stored_meta_simps stored_key_def)

theorem invalid_metadata_rejected_witness:
  "let ((q, _), reported) = fst (run_state (ObjectMetaMut tape (example_pod stored_meta, example_pod stored_meta) True False) [])
   in reported \<and> (\<exists>e. PodUpdate example_env example_choices ''default'' q example_state = Some (Inl e, example_state))"
proof -
  let ?g = "ObjectMetaMut tape (example_pod stored_meta, example_pod stored_meta) True False"
  obtain q q' reported where run: "fst (run_state ?g []) = ((q, q'), reported)"
    by (metis surj_pair)
  have "UID (ObjectMeta (fst (example_pod stored_meta, example_pod stored_meta))) \<noteq> ''corrupted-uid''"
    by (simp add: example_meta_simps stored_meta_simps)
  then have "pred_state (\<lambda>(q, reported). reported \<and> (\<forall>ob. metadata ob = ObjectMeta (fst q) \<longrightarrow>
      (\<exists>e. update example_env example_choices ''Pod'' ''default'' ob example_state = Some (Inl e, example_state)) \<and>
      (\<exists>e. updateStatus example_env example_choices ''Pod'' ''default'' ob example_state = Some (Inl e, example_state)))) ?g"
    by (intro invalid_metadata_rejected [OF example_env_laws]) (simp_all add: pod_read)
  then have "reported \<and> (\<forall>ob. metadata ob = ObjectMeta q \<longrightarrow>
      (\<exists>e. update example_env example_choices ''Pod'' ''default'' ob example_state = Some (Inl e, example_state)) \<and>
      (\<exists>e. updateStatus example_env example_choices ''Pod'' ''default'' ob example_state = Some (Inl e, example_state)))"
    unfolding pred_state_iff by (drule_tac x = "[]" in spec) (simp add: run)
  moreover from this obtain e where "update example_env example_choices ''Pod'' ''default'' (KPod q) example_state = Some (Inl e, example_state)"
    by (metis metadata.simps(1))
  ultimately show ?thesis
    by (simp add: run PodUpdate_def assert_call_def)
qed

text \<open>A valid mutation never fails at the metadata: the update of an object as the client read it gets
  past the UID and the version checks, with whatever other changes, and goes to the validation
  pipeline with the stored version.\<close>

theorem valid_metadata_reaches_validation:
  assumes "upstream_laws E" "wf_state s" "st_m s (KKey kind (Name (ObjectMeta (fst p))) namespace) = Some stored"
    and "UID (ObjectMeta (fst p)) = UID (metadata stored)" "ResourceVersion (ObjectMeta (fst p)) = ResourceVersion (metadata stored)"
    and "allowUnconditionalUpdate kind = Inr True" "Name (ObjectMeta (fst p)) \<noteq> []"
  shows "pred_state (\<lambda>(q, reported). \<not> reported \<and> (\<forall>ob. metadata ob = ObjectMeta (fst q) \<longrightarrow>
      update_checks pipe msg E kind namespace ob True s =
        ebind (EnsureObjectNamespaceMatchesRequestNamespace E namespace (metadata ob)) (\<lambda>md.
        ebind (pipe (set_metadata ob (md\<lparr>ResourceVersion := ResourceVersion (metadata stored)\<rparr>)) stored namespace) (\<lambda>updated.
        Inr (KKey kind (Name (metadata ob)) namespace, updated, stored)))))
    (ObjectMetaMut R p True True)"
proof (rule pred_mono [OF ObjectMetaMut_fst])
  fix x :: "('a Object_scheme \<times> 'a Object_scheme) \<times> bool"
  obtain q reported where x: "x = (q, reported)" by (cases x)
  have rv: "parse_uint (ResourceVersion (metadata stored)) 64 \<noteq> None"
    using assms(2,3) by (auto simp: wf_state_def stored_ok_def)
  assume "case x of (q, invalid) \<Rightarrow> same_body (fst p) (fst q) \<and> same_body (snd p) (snd q) \<and> invalid = (True \<and> \<not> True) \<and>
     (if invalid then metadata_rejected (ObjectMeta (fst p)) (ObjectMeta (fst q))
      else True \<longrightarrow> metadata_accepted (ObjectMeta (fst p)) (ObjectMeta (fst q)))"
  then have "\<not> reported" and acc: "metadata_accepted (ObjectMeta (fst p)) (ObjectMeta (fst q))"
    by (simp_all add: x)
  moreover have "update_checks pipe msg E kind namespace ob True s =
        ebind (EnsureObjectNamespaceMatchesRequestNamespace E namespace (metadata ob)) (\<lambda>md.
        ebind (pipe (set_metadata ob (md\<lparr>ResourceVersion := ResourceVersion (metadata stored)\<rparr>)) stored namespace) (\<lambda>updated.
        Inr (KKey kind (Name (metadata ob)) namespace, updated, stored)))"
    if ob: "metadata ob = ObjectMeta (fst q)" for ob
  proof (cases "EnsureObjectNamespaceMatchesRequestNamespace E namespace (metadata ob)")
    case (Inr md')
    then have "md' = (metadata ob)\<lparr>Namespace := namespace\<rparr>"
      using assms(1) unfolding upstream_laws_def by blast
    with Inr acc assms(3-) rv ob show ?thesis
      by (auto simp: update_checks_def Let_def metadata_accepted_def request_rv_def)
  qed (simp add: update_checks_def)
  ultimately show "case x of (q, reported) \<Rightarrow> \<not> reported \<and> (\<forall>ob. metadata ob = ObjectMeta (fst q) \<longrightarrow>
      update_checks pipe msg E kind namespace ob True s =
        ebind (EnsureObjectNamespaceMatchesRequestNamespace E namespace (metadata ob)) (\<lambda>md.
        ebind (pipe (set_metadata ob (md\<lparr>ResourceVersion := ResourceVersion (metadata stored)\<rparr>)) stored namespace) (\<lambda>updated.
        Inr (KKey kind (Name (metadata ob)) namespace, updated, stored))))"
    by (simp add: x)
qed

theorem valid_metadata_reaches_validation_witness:
  "let ((q, _), reported) = fst (run_state (ObjectMetaMut tape (example_pod stored_meta, example_pod stored_meta) True True) [])
   in \<not> reported \<and> update_checks (\<lambda>ob _ _. Inr ob) [] example_env ''Pod'' ''default'' (KPod q) True example_state =
     ebind (example_ensure_namespace ''default'' (ObjectMeta q)) (\<lambda>md.
       Inr (KKey ''Pod'' (Name (ObjectMeta q)) ''default'', set_metadata (KPod q) (md\<lparr>ResourceVersion := ''7''\<rparr>),
         KPod (example_pod stored_meta)))"
proof -
  let ?g = "ObjectMetaMut tape (example_pod stored_meta, example_pod stored_meta) True True"
  let ?pipe = "\<lambda>ob _ _. Inr ob"
  obtain q q' reported where run: "fst (run_state ?g []) = ((q, q'), reported)"
    by (metis surj_pair)
  have "pred_state (\<lambda>(q, reported). \<not> reported \<and> (\<forall>ob. metadata ob = ObjectMeta (fst q) \<longrightarrow>
      update_checks ?pipe [] example_env ''Pod'' ''default'' ob True example_state =
        ebind (EnsureObjectNamespaceMatchesRequestNamespace example_env ''default'' (metadata ob)) (\<lambda>md.
        ebind (?pipe (set_metadata ob (md\<lparr>ResourceVersion := ResourceVersion (metadata (KPod (example_pod stored_meta)))\<rparr>))
          (KPod (example_pod stored_meta)) ''default'') (\<lambda>updated.
        Inr (KKey ''Pod'' (Name (metadata ob)) ''default'', updated, KPod (example_pod stored_meta)))))) ?g"
    by (intro valid_metadata_reaches_validation [OF example_env_laws example_state_wf])
      (simp_all add: example_state_simps example_meta_simps stored_meta_simps stored_key_def
        allowUnconditionalUpdate_def updatable_kinds_def)
  then show ?thesis
    unfolding pred_state_iff
    by (drule_tac x = "[]" in spec) (simp add: run example_env_simps example_meta_simps stored_meta_simps)
qed

section \<open>Pairs\<close>

definition agree :: "('a \<Rightarrow> kobject) \<Rightarrow> 'a \<times> 'a \<Rightarrow> bool" where
  "agree k p \<longleftrightarrow> clearServerAssignedFields (k (fst p)) = clearServerAssignedFields (k (snd p))"

lemma agree_paired [simp]:
  "agree KPod = paired" "agree KReplicaSet = paired" "agree KDeployment = paired" "agree KStatefulSet = paired"
  "agree KPersistentVolumeClaim = paired" "agree KControllerRevision = paired"
  by (auto simp: agree_def paired_iff)

lemma mutation_paired:
  assumes "paired p" and "\<And>q. pred_state (keeps part q) (f q)"
  shows "pred_state paired (ObjectMetaMut R p exists valid \<bind> (\<lambda>(q, _). f q))"
  using ObjectMetaMut_paired [OF assms(1)]
  by (rule pred_bindI) (auto intro!: pred_mono [OF assms(2)] simp: keeps_def)

text \<open>The two objects of a pair are changed in the same way: if the comparators see the same object in
  the answers of the model and of the server, they see the same object in the two update inputs,
  for each kind, for updates and status updates, whether the update is to be valid or not.\<close>

theorem mutated_pairs_agree:
  assumes "agree KPod pods" "agree KReplicaSet sets" "agree KDeployment ds" "agree KStatefulSet ssets"
    "agree KPersistentVolumeClaim pvcs" "agree KControllerRevision revs"
  shows "pred_state (agree KPod) (ComprehensivePodMut R pods exists valid) \<and>
    pred_state (agree KPod) (ComprehensivePodStatusMut R pods exists valid) \<and>
    pred_state (agree KReplicaSet) (ComprehensiveReplicaSetMut R sets exists valid) \<and>
    pred_state (agree KReplicaSet) (ComprehensiveReplicaSetStatusMut R sets exists valid) \<and>
    pred_state (agree KDeployment) (ComprehensiveDeploymentMut R ds exists valid) \<and>
    pred_state (agree KDeployment) (ComprehensiveDeploymentStatusMut R ds exists valid) \<and>
    pred_state (agree KStatefulSet) (ComprehensiveStatefulSetMut R ssets exists valid) \<and>
    pred_state (agree KStatefulSet) (ComprehensiveStatefulSetStatusMut R ssets exists valid) \<and>
    pred_state (agree KPersistentVolumeClaim) (ComprehensivePersistentVolumeClaimMut R pvcs exists valid) \<and>
    pred_state (agree KPersistentVolumeClaim) (ComprehensivePersistentVolumeClaimStatusMut R pvcs exists valid) \<and>
    pred_state (agree KControllerRevision) (ComprehensiveControllerRevisionMut R revs exists valid)"
  using assms unfolding mutations_allowed agree_paired
  by (intro conjI mutation_paired [OF _ mutateAllowedPodSpecFields_keeps] mutation_paired [OF _ mutateAllowedPodStatusFields_keeps]
      mutation_paired [OF _ mutateAllowedReplicaSetUpdateFields_keeps] mutation_paired [OF _ mutateAllowedReplicaSetStatusFields_keeps]
      mutation_paired [OF _ mutateAllowedDeploymentUpdateFields_keeps] mutation_paired [OF _ mutateAllowedDeploymentStatusFields_keeps]
      mutation_paired [OF _ mutateAllowedStatefulSetUpdateFields_keeps] mutation_paired [OF _ mutateAllowedStatefulSetStatusFields_keeps]
      mutation_paired [OF _ claim_keeps] mutation_paired [OF _ claim_status_keeps] revision_paired)

definition draw_object :: "(draw list, 'a) gen \<Rightarrow> 'a" where
  "draw_object g = fst (run_state g [])"

text \<open>A drawn object, and the same object as a server stored it.\<close>

definition as_stored :: "'z Object_scheme \<Rightarrow> 'z Object_scheme \<times> 'z Object_scheme" where
  "as_stored x = (SetResourceVersion ''1'' (SetUID ''model'' x), SetResourceVersion ''77'' (SetUID ''server'' x))"

lemma as_stored_paired: "paired (as_stored x)"
  by (simp add: paired_def as_stored_def SetUID_def SetResourceVersion_def same_body_both without_assigned_def)

theorem mutated_pairs_agree_witness:
  "agree KPod (fst (run_state (ComprehensivePodMut tape (as_stored (draw_object (MinimalPodGen tape))) True True) [Text ''k'']))"
proof -
  have "pred_state (agree KPod) (ComprehensivePodMut tape (as_stored (draw_object (MinimalPodGen tape))) True True)"
    by (rule mutated_pairs_agree [of _ "as_stored (draw_object (MinimalReplicaSetGen tape))"
        "as_stored (draw_object (MinimalDeploymentGen tape))" "as_stored (draw_object (MinimalStatefulSetGen tape))"
        "as_stored (draw_object (MinimalPersistentVolumeClaimGen tape))"
        "as_stored (draw_object (MinimalControllerRevisionGen tape))", THEN conjunct1])
      (simp_all add: as_stored_paired)
  then show ?thesis by (simp only: pred_state_iff)
qed

section \<open>Values\<close>

lemma sint_small: "0 \<le> n \<Longrightarrow> n \<le> 600 \<Longrightarrow> sint (word_of_int n :: int32) = n"
  by (simp add: signed_of_int signed_take_bit_int_eq_self)

text \<open>A draw of an \<open>int32\<close> count.\<close>

lemma pred_count:
  assumes "rapid_ok R" "0 \<le> hi" "hi \<le> 600" "\<And>w. 0 \<le> sint w \<Longrightarrow> sint w \<le> hi \<Longrightarrow> pred_state P (f w)"
  shows "pred_state P (Int32Range R 0 hi label \<bind> f)"
  by (rule pred_bind, rule pred_Int32Range [OF assms(1,2)], rule assms(4)) (use assms(3) in \<open>simp_all add: sint_small\<close>)

lemma rs_status_ordered:
  assumes "rapid_ok R"
  shows "pred_state (\<lambda>q. let st = rs_Status (fst q) in
      0 \<le> sint (st_AvailableReplicas st) \<and> sint (st_AvailableReplicas st) \<le> sint (st_ReadyReplicas st) \<and>
      sint (st_ReadyReplicas st) \<le> sint (st_Replicas st) \<and> sint (st_FullyLabeledReplicas st) \<le> sint (st_Replicas st) \<and>
      sint (st_Replicas st) \<le> 5)
    (mutateAllowedReplicaSetStatusFields R sets)"
  unfolding mutateAllowedReplicaSetStatusFields_def
  by ((rule pred_count [OF assms], simp, simp)+, rule pred_any, simp)

lemma d_status_ordered:
  assumes "rapid_ok R"
  shows "pred_state (\<lambda>q. let st = d_Status (fst q) in
      0 \<le> sint (dst_AvailableReplicas st) \<and> sint (dst_AvailableReplicas st) \<le> sint (dst_ReadyReplicas st) \<and>
      sint (dst_ReadyReplicas st) \<le> sint (dst_Replicas st) \<and> sint (dst_UpdatedReplicas st) \<le> sint (dst_Replicas st) \<and>
      sint (dst_Replicas st) \<le> 5)
    (mutateAllowedDeploymentStatusFields R ds)"
  unfolding mutateAllowedDeploymentStatusFields_def
  by ((rule pred_count [OF assms], simp, simp)+, rule pred_any, simp)

lemma ss_status_ordered:
  assumes "rapid_ok R"
  shows "pred_state (\<lambda>q. let st = ss_Status (fst q) in
      0 \<le> sint (sst_AvailableReplicas st) \<and> sint (sst_AvailableReplicas st) \<le> sint (sst_ReadyReplicas st) \<and>
      sint (sst_ReadyReplicas st) \<le> sint (sst_Replicas st) \<and> sint (sst_CurrentReplicas st) \<le> sint (sst_Replicas st) \<and>
      sint (sst_UpdatedReplicas st) \<le> sint (sst_Replicas st) \<and> sint (sst_Replicas st) \<le> 5)
    (mutateAllowedStatefulSetStatusFields R ssets)"
  unfolding mutateAllowedStatefulSetStatusFields_def Let_def
  by ((rule pred_count [OF assms], simp, simp)+, rule pred_any, rule pred_maybeI, simp, rule pred_any, simp)

lemma after_metadata:
  "(\<And>q. pred_state P (f q)) \<Longrightarrow> pred_state P (ObjectMetaMut R p exists valid \<bind> (\<lambda>(q, _). f q))"
  by (rule pred_any) (simp add: split_beta)

text \<open>Every status a status mutation makes has counts that a controller could report: no more
  available than ready, no more ready than existing replicas, at most five; also where the mutation is
  asked for an invalid status.\<close>

theorem status_counts_ordered:
  assumes "rapid_ok R"
  shows "pred_state (\<lambda>q. let st = rs_Status (fst q) in
      0 \<le> sint (st_AvailableReplicas st) \<and> sint (st_AvailableReplicas st) \<le> sint (st_ReadyReplicas st) \<and>
      sint (st_ReadyReplicas st) \<le> sint (st_Replicas st) \<and> sint (st_FullyLabeledReplicas st) \<le> sint (st_Replicas st) \<and>
      sint (st_Replicas st) \<le> 5)
    (ComprehensiveReplicaSetStatusMut R sets exists valid) \<and>
    pred_state (\<lambda>q. let st = d_Status (fst q) in
      0 \<le> sint (dst_AvailableReplicas st) \<and> sint (dst_AvailableReplicas st) \<le> sint (dst_ReadyReplicas st) \<and>
      sint (dst_ReadyReplicas st) \<le> sint (dst_Replicas st) \<and> sint (dst_UpdatedReplicas st) \<le> sint (dst_Replicas st) \<and>
      sint (dst_Replicas st) \<le> 5)
    (ComprehensiveDeploymentStatusMut R ds exists valid) \<and>
    pred_state (\<lambda>q. let st = ss_Status (fst q) in
      0 \<le> sint (sst_AvailableReplicas st) \<and> sint (sst_AvailableReplicas st) \<le> sint (sst_ReadyReplicas st) \<and>
      sint (sst_ReadyReplicas st) \<le> sint (sst_Replicas st) \<and> sint (sst_CurrentReplicas st) \<le> sint (sst_Replicas st) \<and>
      sint (sst_UpdatedReplicas st) \<le> sint (sst_Replicas st) \<and> sint (sst_Replicas st) \<le> 5)
    (ComprehensiveStatefulSetStatusMut R ssets exists valid)"
  unfolding mutations_allowed
  by (intro conjI after_metadata rs_status_ordered d_status_ordered ss_status_ordered assms)

theorem status_counts_ordered_witness:
  "let st = rs_Status (fst (fst (run_state (ComprehensiveReplicaSetStatusMut tape
      (as_stored (draw_object (MinimalReplicaSetGen tape))) True False) [Text ''k'', Text ''v'', Text ''k'', Text ''v'', Num 1, Num 4])))
   in 0 \<le> sint (st_AvailableReplicas st) \<and> sint (st_Replicas st) \<le> 5"
proof -
  have "pred_state (\<lambda>q. let st = rs_Status (fst q) in
      0 \<le> sint (st_AvailableReplicas st) \<and> sint (st_AvailableReplicas st) \<le> sint (st_ReadyReplicas st) \<and>
      sint (st_ReadyReplicas st) \<le> sint (st_Replicas st) \<and> sint (st_FullyLabeledReplicas st) \<le> sint (st_Replicas st) \<and>
      sint (st_Replicas st) \<le> 5)
    (ComprehensiveReplicaSetStatusMut tape (as_stored (draw_object (MinimalReplicaSetGen tape))) True False)"
    by (rule status_counts_ordered [OF tape_ok, THEN conjunct1])
  then show ?thesis by (simp add: pred_state_iff Let_def)
qed

text \<open>A label selector and the labels of a template.\<close>

definition selects :: "LabelSelector option \<Rightarrow> PodTemplateSpec \<Rightarrow> bool" where
  "selects sel tmpl \<longleftrightarrow> (case sel of None \<Rightarrow> True
     | Some s \<Rightarrow> \<forall>k v. map_get (MatchLabels s) k = Some v \<longrightarrow> map_get (Labels (tmpl_ObjectMeta tmpl)) k = Some v)"

lemma selects_keep:
  assumes "template_keeps sel p q" "selects sel (fst p)" "\<And>s. sel = Some s \<Longrightarrow> map_get (MatchLabels s) ''extra-update'' = None"
  shows "selects sel (fst q)"
  using assms by (fastforce simp: selects_def template_keeps_def untouched_def split: option.splits)

lemma other_replicas_differs:
  assumes "0 \<le> sint (n :: int32)" "sint n \<le> 5"
  shows "0 \<le> sint (other_replicas ex old n) \<and> sint (other_replicas ex old n) \<le> 5 \<and>
    (ex \<longrightarrow> old \<noteq> Some (other_replicas ex old n))"
proof -
  have "\<exists>i \<in> {0, 1, 2, 3, 4, 5}. n = word_of_int i"
    by (rule bexI [of _ "sint n"]) (use assms in auto)
  then show ?thesis by (auto simp: other_replicas_def)
qed

definition replicas_move :: "bool \<Rightarrow> int32 option \<Rightarrow> int32 option \<Rightarrow> bool" where
  "replicas_move exists old new \<longleftrightarrow> (\<exists>n. new = Some n \<and> 0 \<le> sint n \<and> sint n \<le> 5) \<and> (exists \<longrightarrow> new \<noteq> old)"

lemma replicas_move_other:
  "0 \<le> sint n \<Longrightarrow> sint n \<le> 5 \<Longrightarrow> replicas_move exists old (Some (other_replicas exists old n))"
  using other_replicas_differs [of n "exists" old] by (auto simp: replicas_move_def)

definition extra_free :: "LabelSelector option \<Rightarrow> bool" where
  "extra_free sel \<longleftrightarrow> (case sel of None \<Rightarrow> True | Some s \<Rightarrow> map_get (MatchLabels s) ''extra-update'' = None)"

lemma selects_kept:
  "template_keeps sel p q \<Longrightarrow> selects sel (fst p) \<Longrightarrow> extra_free sel \<Longrightarrow> selects sel (fst q)"
  by (rule selects_keep) (auto simp: extra_free_def)

lemma pred_assign:
  "Q p \<Longrightarrow> (\<And>x q. Q q \<Longrightarrow> Q (both (f x) q)) \<Longrightarrow>
    pred_state Q (maybe R label (\<lambda>q. g \<bind> (\<lambda>x. State_Monad.return (both (f x) q))) p)"
  by (rule pred_maybeI, assumption, rule pred_any) simp

definition rs_moved :: "bool \<Rightarrow> ReplicaSet \<Rightarrow> ReplicaSet \<Rightarrow> bool" where
  "rs_moved exists old new \<longleftrightarrow>
     replicas_move exists (rs_Replicas (rs_Spec old)) (rs_Replicas (rs_Spec new)) \<and>
     selects (rs_Selector (rs_Spec new)) (rs_Template (rs_Spec new)) \<and> extra_free (rs_Selector (rs_Spec new))"

definition d_moved :: "bool \<Rightarrow> Deployment \<Rightarrow> Deployment \<Rightarrow> bool" where
  "d_moved exists old new \<longleftrightarrow>
     replicas_move exists (d_Replicas (d_Spec old)) (d_Replicas (d_Spec new)) \<and>
     selects (d_Selector (d_Spec new)) (d_Template (d_Spec new)) \<and> extra_free (d_Selector (d_Spec new))"

lemma rs_update_moves:
  assumes "rapid_ok R" "selects (rs_Selector (rs_Spec (fst p))) (rs_Template (rs_Spec (fst p)))"
    "extra_free (rs_Selector (rs_Spec (fst p)))"
  shows "pred_state (\<lambda>q. rs_moved exists (fst p) (fst q)) (mutateAllowedReplicaSetUpdateFields R p exists)"
  unfolding mutateAllowedReplicaSetUpdateFields_def Let_def
  by (rule pred_count [OF assms(1)], simp, simp,
      rule pred_bindI [where Q = "\<lambda>q. rs_moved exists (fst p) (fst q)"], rule pred_assign)
    (auto simp: rs_moved_def replicas_move_other assms split_beta dest: selects_kept
      intro!: pred_bindI [OF mutate_template_keeps])

lemma d_update_moves:
  assumes "rapid_ok R" "selects (d_Selector (d_Spec (fst p))) (d_Template (d_Spec (fst p)))"
    "extra_free (d_Selector (d_Spec (fst p)))"
  shows "pred_state (\<lambda>q. d_moved exists (fst p) (fst q)) (mutateAllowedDeploymentUpdateFields R p exists)"
proof -
  note step = pred_bindI [where Q = "\<lambda>q. d_moved exists (fst p) (fst q)"]
  show ?thesis
    unfolding mutateAllowedDeploymentUpdateFields_def Let_def
    by (rule pred_count [OF assms(1)], simp, simp, rule step, rule pred_assign,
        simp add: d_moved_def replicas_move_other assms, simp add: d_moved_def,
        rule step, rule pred_assign, assumption, simp add: d_moved_def,
        rule step, rule pred_assign, assumption, simp add: d_moved_def,
        rule pred_bindI [OF mutate_template_keeps])
      (auto simp: d_moved_def split_beta dest: selects_kept)
qed

lemma after_metadata_body:
  assumes "\<And>q. same_body (fst p) (fst q) \<Longrightarrow> pred_state P (f q)"
  shows "pred_state P (ObjectMetaMut R p exists valid \<bind> (\<lambda>(q, _). f q))"
  using ObjectMetaMut_fst by (rule pred_bindI) (auto intro: assms)

lemma same_body_specs:
  "same_body rs rs' \<Longrightarrow> rs_Spec rs' = rs_Spec rs" "same_body d d' \<Longrightarrow> d_Spec d' = d_Spec d"
  unfolding same_body_def
  by (drule arg_cong [where f = rs_Spec], simp) (drule arg_cong [where f = d_Spec], simp)

text \<open>The update of a replica set or deployment is a real change that stays valid: the number of
  replicas is one of zero to five and differs from the stored one, and the template still carries the
  labels the selector asks for, as the label that is added never has a key of the selector.\<close>

theorem workload_updates_move:
  assumes "rapid_ok R"
    and "selects (rs_Selector (rs_Spec (fst sets))) (rs_Template (rs_Spec (fst sets)))" "extra_free (rs_Selector (rs_Spec (fst sets)))"
    and "selects (d_Selector (d_Spec (fst ds))) (d_Template (d_Spec (fst ds)))" "extra_free (d_Selector (d_Spec (fst ds)))"
  shows "pred_state (\<lambda>q. rs_moved exists (fst sets) (fst q)) (ComprehensiveReplicaSetMut R sets exists valid) \<and>
    pred_state (\<lambda>q. d_moved exists (fst ds) (fst q)) (ComprehensiveDeploymentMut R ds exists valid)"
  unfolding mutations_allowed
proof (intro conjI after_metadata_body)
  fix q :: "ReplicaSet \<times> ReplicaSet"
  assume "same_body (fst sets) (fst q)"
  then show "pred_state (\<lambda>q. rs_moved exists (fst sets) (fst q)) (mutateAllowedReplicaSetUpdateFields R q exists)"
    using rs_update_moves [OF assms(1), of q "exists"] assms(2,3) by (simp add: rs_moved_def same_body_specs)
next
  fix q :: "Deployment \<times> Deployment"
  assume "same_body (fst ds) (fst q)"
  then show "pred_state (\<lambda>q. d_moved exists (fst ds) (fst q)) (mutateAllowedDeploymentUpdateFields R q exists)"
    using d_update_moves [OF assms(1), of q "exists"] assms(4,5) by (simp add: d_moved_def same_body_specs)
qed

theorem workload_updates_move_witness:
  "rs_moved True (draw_object (MinimalReplicaSetGen tape))
     (fst (fst (run_state (ComprehensiveReplicaSetMut tape (as_stored (draw_object (MinimalReplicaSetGen tape))) True True)
       [Text ''k'', Text ''v'', Text ''k'', Text ''v'', Num 0, Num 0, Num 0])))"
proof -
  let ?rs = "draw_object (MinimalReplicaSetGen tape)" and ?d = "draw_object (MinimalDeploymentGen tape)"
  have as_stored: "rs_Spec (fst (as_stored rs)) = rs_Spec rs" "d_Spec (fst (as_stored d)) = d_Spec d" for rs :: ReplicaSet and d :: Deployment
    by (simp_all add: as_stored_def SetUID_def SetResourceVersion_def on_meta_def)
  have "pred_state (\<lambda>q. rs_moved True (fst (as_stored ?rs)) (fst q)) (ComprehensiveReplicaSetMut tape (as_stored ?rs) True True)"
    by (rule workload_updates_move [OF tape_ok, of _ "as_stored ?d", THEN conjunct1])
      (auto simp: as_stored draw_object_def MinimalReplicaSetGen_def MinimalDeploymentGen_def random_name_def Int32Range_def
        selects_def extra_free_def rs_with_def rsspec_with_def d_with_def dspec_with_def template_of_def app_selector_def app_labels_def)
  then show ?thesis
    by (simp add: pred_state_iff rs_moved_def as_stored)
qed

end
