(* ===== verification/Conf_Generators_Spec.thy ===== *)
theory Conf_Generators_Spec
  imports Conf_Mutators_Spec
begin

text \<open>
  Properties of the create and patch inputs of the conformance tests (\<open>Conf_Generators\<close>): what the
  generated deployments satisfy, draws at which a generator misses what it is for, and the one
  change a generated patch names.
\<close>

section \<open>Rules\<close>

lemma pred_between:
  assumes "rapid_ok R" "0 \<le> lo" "lo \<le> hi" "hi \<le> 600" "\<And>w. lo \<le> sint w \<Longrightarrow> sint w \<le> hi \<Longrightarrow> pred_state P (f w)"
  shows "pred_state P (Int32Range R lo hi label \<bind> f)"
  by (rule pred_bind, rule pred_Int32Range [OF assms(1,3)], rule assms(5))
    (use assms(2,4) in \<open>simp_all add: sint_small\<close>)

lemma pred_IntRange_bind:
  "rapid_ok R \<Longrightarrow> lo \<le> hi \<Longrightarrow> (\<And>n. lo \<le> n \<Longrightarrow> n \<le> hi \<Longrightarrow> pred_state P (f n)) \<Longrightarrow> pred_state P (IntRange R lo hi label \<bind> f)"
  by (rule pred_bind) (rule pred_IntRange)

lemma pred_SampledFrom_bind:
  "rapid_ok R \<Longrightarrow> xs \<noteq> [] \<Longrightarrow> (\<And>x. x \<in> set xs \<Longrightarrow> pred_state P (f x)) \<Longrightarrow> pred_state P (SampledFrom R xs label \<bind> f)"
  by (rule pred_bind) (rule pred_SampledFrom)

section \<open>Deployments\<close>

text \<open>The rules of \<open>ValidateDeploymentStrategy\<close>, as the comment on \<open>deploymentStrategyGen\<close> gives them.\<close>

definition resolves_to_zero :: "IntOrString option \<Rightarrow> bool" where
  "resolves_to_zero v \<longleftrightarrow> v = Some (FromInt32 0) \<or> v = Some (FromString ''0%'')"

definition strategy_ok :: "DeploymentStrategy \<Rightarrow> bool" where
  "strategy_ok st \<longleftrightarrow>
     (strategy_Type st = ''Recreate'' \<and> strategy_RollingUpdate st = None \<or>
      strategy_Type st = ''RollingUpdate'' \<and>
        (case strategy_RollingUpdate st of None \<Rightarrow> True
         | Some r \<Rightarrow> \<not> (resolves_to_zero (MaxSurge r) \<and> resolves_to_zero (MaxUnavailable r))))"

lemma percent_not_zero: "1 \<le> n \<Longrightarrow> format_int n @ ''%'' \<noteq> ''0%''"
  using format_nat_inject [of "nat n" 0] by (auto simp: format_int_def format_nat_0)

lemma percent_or_int_ok:
  assumes "rapid_ok R"
  shows "pred_state (\<lambda>v. v \<noteq> FromString ''0%'') (percent_or_int R name)"
  unfolding percent_or_int_def
  by (rule pred_any, simp, intro conjI impI, rule pred_IntRange_bind [OF assms], simp, simp add: percent_not_zero,
    rule pred_any, simp)

lemma deploymentStrategyGen_ok:
  assumes "rapid_ok R"
  shows "pred_state strategy_ok (deploymentStrategyGen R)"
  unfolding deploymentStrategyGen_def
  by (rule pred_any, simp add: strategy_ok_def, intro impI, rule pred_maybeI, simp add: strategy_ok_def,
      rule pred_bindI [OF percent_or_int_ok [OF assms]], rule pred_bindI [OF percent_or_int_ok [OF assms]])
    (auto simp: strategy_ok_def resolves_to_zero_def Let_def)

text \<open>The deadline defaults to 600 seconds when it is not set.\<close>

definition deadline_of :: "DeploymentSpec \<Rightarrow> int" where
  "deadline_of s = (case d_ProgressDeadlineSeconds s of None \<Rightarrow> 600 | Some n \<Rightarrow> sint n)"

definition options_ok :: "DeploymentSpec \<Rightarrow> bool" where
  "options_ok s \<longleftrightarrow> 0 \<le> sint (d_MinReadySeconds s) \<and> sint (d_MinReadySeconds s) \<le> 30 \<and> 60 \<le> deadline_of s \<and>
     (case d_RevisionHistoryLimit s of None \<Rightarrow> True | Some n \<Rightarrow> 0 \<le> sint n)"

definition fixed_spec :: "DeploymentSpec \<Rightarrow> int32 option \<times> LabelSelector option \<times> PodTemplateSpec \<times> DeploymentStrategy" where
  "fixed_spec s = (d_Replicas s, d_Selector s, d_Template s, d_Strategy s)"

lemma deployment_options_ok:
  assumes "rapid_ok R" "options_ok s"
  shows "pred_state (\<lambda>s'. options_ok s' \<and> fixed_spec s' = fixed_spec s) (deployment_options R s)"
proof -
  note step = pred_bindI [where Q = "\<lambda>s'. options_ok s' \<and> fixed_spec s' = fixed_spec s"]
  show ?thesis
    unfolding deployment_options_def
    by (rule step, rule pred_maybeI, simp add: assms, rule pred_between [OF assms(1)], simp, simp, simp,
        simp add: options_ok_def deadline_of_def fixed_spec_def,
        rule step, rule pred_maybeI, assumption, rule pred_between [OF assms(1)], simp, simp, simp,
        simp add: options_ok_def deadline_of_def fixed_spec_def,
        rule step, rule pred_maybeI, assumption, rule pred_between [OF assms(1)], simp, simp, simp,
        simp add: options_ok_def deadline_of_def fixed_spec_def,
        rule pred_maybeI, assumption, rule pred_any)
      (simp add: options_ok_def deadline_of_def fixed_spec_def)
qed

text \<open>Every generated deployment satisfies the rules its generator states: zero to five replicas, a
  strategy that is either to recreate, without a rolling update block, or a rolling update that does not
  resolve to zero on both sides, and a progress deadline beyond the seconds to be ready.\<close>

theorem generated_deployments_fit:
  assumes "rapid_ok R"
  shows "pred_state (\<lambda>d. (\<exists>n. d_Replicas (d_Spec d) = Some n \<and> 0 \<le> sint n \<and> sint n \<le> 5) \<and>
      strategy_ok (d_Strategy (d_Spec d)) \<and> 0 \<le> sint (d_MinReadySeconds (d_Spec d)) \<and>
      sint (d_MinReadySeconds (d_Spec d)) < deadline_of (d_Spec d) \<and>
      (case d_RevisionHistoryLimit (d_Spec d) of None \<Rightarrow> True | Some n \<Rightarrow> 0 \<le> sint n))
    (ComprehensiveDeploymentGen R)"
proof -
  have "pred_state (\<lambda>d. (\<exists>n. d_Replicas (d_Spec d) = Some n \<and> 0 \<le> sint n \<and> sint n \<le> 5) \<and>
      strategy_ok (d_Strategy (d_Spec d)) \<and> options_ok (d_Spec d)) (ComprehensiveDeploymentGen R)"
    unfolding ComprehensiveDeploymentGen_def
  proof (rule pred_any, rule pred_any, rule pred_any, rule pred_count [OF assms], simp, simp,
      rule pred_any, rule pred_any, rule pred_any, rule pred_any, rule pred_any,
      rule pred_bindI [OF deploymentStrategyGen_ok [OF assms]])
    fix name appLabel containerName labels annotations container containerE podspec strategy and replicas :: int32
    assume "0 \<le> sint replicas" "sint replicas \<le> 5" "strategy_ok strategy"
    moreover have "options_ok (dspec_with replicas (Some (app_selector appLabel)) (template_of labels podspec) strategy)"
      by (simp add: options_ok_def deadline_of_def dspec_with_def)
    ultimately show "pred_state (\<lambda>d. (\<exists>n. d_Replicas (d_Spec d) = Some n \<and> 0 \<le> sint n \<and> sint n \<le> 5) \<and>
        strategy_ok (d_Strategy (d_Spec d)) \<and> options_ok (d_Spec d))
      (deployment_options R (dspec_with replicas (Some (app_selector appLabel)) (template_of labels podspec) strategy) \<bind>
        (\<lambda>spec. State_Monad.return (d_with (labelled_meta name labels annotations) spec)))"
      by (intro pred_bindI [OF deployment_options_ok [OF assms]]) (auto simp: fixed_spec_def dspec_with_def d_with_def)
  qed
  then show ?thesis by (rule pred_mono) (auto simp: options_ok_def)
qed

theorem generated_deployments_fit_witness:
  "strategy_ok (d_Strategy (d_Spec (fst (run_state (ComprehensiveDeploymentGen tape)
    [Text ''d'', Text ''a'', Text ''c'', Num 3, Num 0, Num 0, Num 0, Num 0, Num 0, Num 0, Num 1, Num 0, Num 0, Num 0, Num 0]))))"
  using pred_state_run_state [OF generated_deployments_fit [OF tape_ok]] by blast

section \<open>Inputs that miss their purpose\<close>

text \<open>Draws at which the extra label of a workload has the key of the selector.\<close>

definition app_label_draws :: "draw list" where
  "app_label_draws = [Text ''web'', Text ''a'', Text ''c'', Num 1, Num 1, Num 0, Text ''app'', Text ''b'']"

text \<open>Draws at which the second draw of the CPU is smaller than the first.\<close>

definition small_limit_draws :: "draw list" where
  "small_limit_draws = [Text ''web'', Text ''c'', Num 0, Num 0, Num 0, Num 1, Num 990, Num 0, Num 1]"

definition cpu_of :: "resource_list \<Rightarrow> string option" where
  "cpu_of l = map_get l ''cpu''"

lemma mismatch:
  assumes "map_option (\<lambda>s. map_get (MatchLabels s) ''app'') sel = Some (Some ''a'')"
    and "map_get (Labels (tmpl_ObjectMeta tmpl)) ''app'' = Some ''b''"
  shows "\<not> selects sel tmpl"
  using assms by (auto simp: selects_def)

text \<open>Draws at which an input is not what its generator says: the extra
  label of a replica set or deployment overwrites the label the selector asks for; the CPU limit of
  a pod (20m) is below its request (1000m), as the value that is doubled is drawn a second time; a valid
  metadata mutation adds a label value that ends with a dash; and a stateful set that is invalid by
  its name is, after any further draws, the one of the valid generator once the test has given both a fresh name.\<close>

lemma generators_can_miss:
  "(let spec = rs_Spec (fst (run_state (ComprehensiveReplicaSetGen tape) app_label_draws))
    in \<not> selects (rs_Selector spec) (rs_Template spec)) \<and>
   (let spec = d_Spec (fst (run_state (ComprehensiveDeploymentGen tape) app_label_draws))
    in \<not> selects (d_Selector spec) (d_Template spec)) \<and>
   map (\<lambda>c. (cpu_of (cont_Requests c), cpu_of (cont_Limits c)))
     (elems (Containers (pod_Spec (fst (run_state (ComprehensivePodGen tape) small_limit_draws))))) =
     [(Some ''1000m'', Some ''20m'')] \<and>
   (let p = fst (run_state (MinimalPodGen tape) [])
    in map_get (Labels (ObjectMeta (fst (fst (fst (run_state (ObjectMetaMut tape (p, p) True True)
      [Text ''k'', Text ''a-'', Text ''k'', Text ''v'', Num 0, Num 0])))))) ''k'' = Some ''a-'') \<and>
   (\<forall>t. on_meta (\<lambda>md. md\<lparr>Name := ''fresh''\<rparr>) (fst (run_state (InvalidStatefulSetGen tape) (Num 3 # t))) =
     on_meta (\<lambda>md. md\<lparr>Name := ''fresh''\<rparr>) (fst (run_state (MinimalStatefulSetGen tape) t)))"
proof (intro conjI)
  show "let spec = rs_Spec (fst (run_state (ComprehensiveReplicaSetGen tape) app_label_draws))
    in \<not> selects (rs_Selector spec) (rs_Template spec)"
    unfolding Let_def by (rule mismatch; code_simp)
  show "let spec = d_Spec (fst (run_state (ComprehensiveDeploymentGen tape) app_label_draws))
    in \<not> selects (d_Selector spec) (d_Template spec)"
    unfolding Let_def by (rule mismatch; code_simp)
  show "map (\<lambda>c. (cpu_of (cont_Requests c), cpu_of (cont_Limits c)))
     (elems (Containers (pod_Spec (fst (run_state (ComprehensivePodGen tape) small_limit_draws))))) =
     [(Some ''1000m'', Some ''20m'')]"
    by code_simp
  show "let p = fst (run_state (MinimalPodGen tape) [])
    in map_get (Labels (ObjectMeta (fst (fst (fst (run_state (ObjectMetaMut tape (p, p) True True)
      [Text ''k'', Text ''a-'', Text ''k'', Text ''v'', Num 0, Num 0])))))) ''k'' = Some ''a-''"
    by code_simp
  have "run_state (InvalidStatefulSetGen tape) (Num 3 # t) =
      (on_meta (\<lambda>md. md\<lparr>Name := ''INVALID_NAME''\<rparr>) (fst (run_state (MinimalStatefulSetGen tape) t)),
       snd (run_state (MinimalStatefulSetGen tape) t))" for t
    by (simp add: InvalidStatefulSetGen_def split_beta)
  then have "on_meta (\<lambda>md. md\<lparr>Name := ''fresh''\<rparr>) (fst (run_state (InvalidStatefulSetGen tape) (Num 3 # t))) =
      on_meta (\<lambda>md. md\<lparr>Name := ''fresh''\<rparr>) (fst (run_state (MinimalStatefulSetGen tape) t))" for t
    by (simp add: comp_def)
  then show "\<forall>t. on_meta (\<lambda>md. md\<lparr>Name := ''fresh''\<rparr>) (fst (run_state (InvalidStatefulSetGen tape) (Num 3 # t))) =
      on_meta (\<lambda>md. md\<lparr>Name := ''fresh''\<rparr>) (fst (run_state (MinimalStatefulSetGen tape) t))"
    by blast
qed

section \<open>Patches\<close>

text \<open>A document that sets the value at a path of keys and nothing else.\<close>

fun nest :: "string list \<Rightarrow> json \<Rightarrow> json" where
  "nest [] v = v"
| "nest (k # ks) v = JObject [(k, nest ks v)]"

fun path_text :: "string list \<Rightarrow> string" where
  "path_text [] = []"
| "path_text (k # ks) = CHR ''/'' # k @ path_text ks"

text \<open>The request changes the value at a path, in the form of its media type.\<close>

definition carries :: "Patch \<Rightarrow> string list \<Rightarrow> json \<Rightarrow> bool" where
  "carries r ks v \<longleftrightarrow>
     patch_Data r = json_text
       (if patch_Type r = JSONPatchType
        then JArray [JObject [(''op'', JString ''add''), (''path'', JString (path_text ks)), (''value'', v)]]
        else nest ks v) \<and>
     patch_Subresources r = (if ks = [''status''] then Some [''status''] else None)"

definition changes_nothing :: "Patch \<Rightarrow> bool" where
  "changes_nothing r \<longleftrightarrow>
     patch_Data r = (if patch_Type r = JSONPatchType then ''[]'' else ''{}'') \<and> patch_Subresources r = None"

definition valid_change :: "string \<Rightarrow> string list \<Rightarrow> json \<Rightarrow> bool" where
  "valid_change kind ks v \<longleftrightarrow>
     ks = [''metadata'', ''annotations''] \<and>
       (v = JNull \<or> (\<exists>s. matches [rep az 1 8] s \<and> v = JObject [(''pbt-patch'', JString s)])) \<or>
     ks = [''metadata'', ''finalizers''] \<and> v = JArray [JString ''example.com/pbt-patch''] \<or>
     ks = [''metadata'', ''ownerReferences''] \<and> v = owner_value \<or>
     kind \<noteq> ''ControllerRevision'' \<and>
       (ks = [''status''] \<and> v = status_value kind \<or>
        ks = [''spec'', ''replicas''] \<and> (\<exists>n. 0 \<le> n \<and> n \<le> 5 \<and> v = JInt n))"

definition invalid_change :: "string list \<Rightarrow> json \<Rightarrow> bool" where
  "invalid_change ks v \<longleftrightarrow>
     ks = [''metadata'', ''labels''] \<and> v = JObject [(''bad key'', JString ''invalid'')] \<or>
     ks = [''metadata'', ''resourceVersion''] \<and> v = JString ''1'' \<or>
     ks = [''metadata'', ''name''] \<and> v = JString ''wrong-patch-name'' \<or>
     ks = [''spec'', ''replicas''] \<and> v = JInt (- 1)"

text \<open>The case a mode gives: a path of keys and a value.\<close>

definition case_of :: "patch_case \<Rightarrow> string list \<Rightarrow> json \<Rightarrow> bool" where
  "case_of c ks v \<longleftrightarrow> pa_document c = nest ks v \<and> pa_path c = path_text ks \<and> pa_value c = v \<and>
     pa_subs c = (if ks = [''status''] then Some [''status''] else None)"

lemma case_of_metadata: "case_of (metadata_patch field v) [''metadata'', field] v"
  by (simp add: case_of_def metadata_patch_def)

lemma carries_case:
  "case_of c ks v \<Longrightarrow> mode \<noteq> 10 \<Longrightarrow>
    carries \<lparr>patch_Type = pt, patch_Data = json_text (patch_document pt mode c), patch_Subresources = pa_subs c\<rparr> ks v"
  by (simp add: carries_def case_of_def patch_document_def)

lemma patch_switch_draws:
  "mode \<in> {0, 1, 2, 3} \<Longrightarrow> patch_switch R kind valid mode = do {
     s \<leftarrow> StringMatching R [rep az 1 8] ''patchValue'';
     State_Monad.return (metadata_patch ''annotations'' (JObject [(''pbt-patch'', JString s)])) }"
  "patch_switch R kind valid 9 = do {
     n \<leftarrow> (if valid then IntRange R 0 5 ''patchReplicas'' else State_Monad.return (- 1));
     State_Monad.return \<lparr>pa_document = JObject [(''spec'', JObject [(''replicas'', JInt n)])],
       pa_path = ''/spec/replicas'', pa_value = JInt n, pa_subs = None\<rparr> }"
  by (auto simp: patch_switch_def)

lemma patch_switch_values:
  "patch_switch R kind valid 4 = State_Monad.return (metadata_patch ''labels'' (JObject [(''bad key'', JString ''invalid'')]))"
  "patch_switch R kind valid 5 = State_Monad.return (metadata_patch ''resourceVersion'' (JString ''1''))"
  "patch_switch R kind valid 6 = State_Monad.return (metadata_patch ''name'' (JString ''wrong-patch-name''))"
  "patch_switch R kind valid 7 = State_Monad.return (metadata_patch ''finalizers'' (JArray [JString ''example.com/pbt-patch'']))"
  "patch_switch R kind valid 8 = State_Monad.return \<lparr>pa_document = JObject [(''status'', status_value kind)],
     pa_path = ''/status'', pa_value = status_value kind, pa_subs = Some [''status'']\<rparr>"
  "patch_switch R kind valid 10 = State_Monad.return \<lparr>pa_document = JObject [], pa_path = ''/metadata/annotations'',
     pa_value = JNull, pa_subs = None\<rparr>"
  "patch_switch R kind valid 11 = State_Monad.return (metadata_patch ''annotations'' JNull)"
  "patch_switch R kind valid 12 = State_Monad.return (metadata_patch ''ownerReferences'' owner_value)"
  by (simp_all add: patch_switch_def)

definition good_case :: "string \<Rightarrow> bool \<Rightarrow> patch_case \<Rightarrow> bool" where
  "good_case kind valid c \<longleftrightarrow>
     (\<exists>ks v. case_of c ks v \<and> (if valid then valid_change kind ks v else invalid_change ks v))"

lemma good_metadata:
  "(if valid then valid_change kind [''metadata'', field] v else invalid_change [''metadata'', field] v) \<Longrightarrow>
    good_case kind valid (metadata_patch field v)"
  unfolding good_case_def using case_of_metadata by blast

lemma good_annotations:
  assumes "rapid_ok R" "mode \<in> {0, 1, 2, 3}"
  shows "pred_state (good_case kind True) (patch_switch R kind valid mode)"
  unfolding patch_switch_draws(1) [OF assms(2)]
proof (rule pred_bind, rule pred_StringMatching [OF assms(1)])
  fix s assume "matches [rep az 1 8] s"
  then show "pred_state (good_case kind True)
      (State_Monad.return (metadata_patch ''annotations'' (JObject [(''pbt-patch'', JString s)])))"
    unfolding pred_return by (intro good_metadata) (auto simp: valid_change_def)
qed simp

lemma good_replicas:
  assumes "rapid_ok R" "valid \<Longrightarrow> kind \<noteq> ''ControllerRevision''"
  shows "pred_state (good_case kind valid) (patch_switch R kind valid 9)"
proof -
  have good: "good_case kind valid \<lparr>pa_document = JObject [(''spec'', JObject [(''replicas'', JInt n)])],
      pa_path = ''/spec/replicas'', pa_value = JInt n, pa_subs = None\<rparr>"
    if "valid \<Longrightarrow> 0 \<le> n \<and> n \<le> 5" "\<not> valid \<Longrightarrow> n = - 1" for n
    unfolding good_case_def using that assms(2)
    by (intro exI [of _ "[''spec'', ''replicas'']"] exI [of _ "JInt n"])
      (auto simp: case_of_def valid_change_def invalid_change_def)
  show ?thesis
    unfolding patch_switch_draws(2)
  proof (cases valid)
    case True
    show "pred_state (good_case kind valid) ((if valid then IntRange R 0 5 ''patchReplicas'' else State_Monad.return (- 1)) \<bind>
        (\<lambda>n. State_Monad.return \<lparr>pa_document = JObject [(''spec'', JObject [(''replicas'', JInt n)])],
          pa_path = ''/spec/replicas'', pa_value = JInt n, pa_subs = None\<rparr>))"
      unfolding if_P [OF True]
      by (rule pred_IntRange_bind [OF assms(1)], simp, simp only: pred_return, rule good) (simp_all add: True)
  next
    case False
    then show "pred_state (good_case kind valid) ((if valid then IntRange R 0 5 ''patchReplicas'' else State_Monad.return (- 1)) \<bind>
        (\<lambda>n. State_Monad.return \<lparr>pa_document = JObject [(''spec'', JObject [(''replicas'', JInt n)])],
          pa_path = ''/spec/replicas'', pa_value = JInt n, pa_subs = None\<rparr>))"
      using good [of "- 1"] by simp
  qed
qed

lemma good_status:
  assumes "kind \<noteq> ''ControllerRevision''"
  shows "good_case kind True \<lparr>pa_document = JObject [(''status'', status_value kind)],
     pa_path = ''/status'', pa_value = status_value kind, pa_subs = Some [''status'']\<rparr>"
  unfolding good_case_def using assms
  by (intro exI [of _ "[''status'']"] exI [of _ "status_value kind"]) (auto simp: case_of_def valid_change_def)

lemma patch_switch_good:
  assumes "rapid_ok R" "mode \<in> set (patch_modes kind valid)" "mode \<noteq> 10"
  shows "pred_state (good_case kind valid) (patch_switch R kind valid mode)"
proof (cases valid)
  case True
  with assms(2,3) consider "mode \<in> {0, 1, 2, 3}" | "mode = 7" | "mode = 8 \<and> kind \<noteq> ''ControllerRevision''"
    | "mode = 9 \<and> kind \<noteq> ''ControllerRevision''" | "mode = 11" | "mode = 12"
    by (auto simp: patch_modes_def split: if_splits)
  then show ?thesis
    using True good_annotations [OF assms(1)] good_replicas [OF assms(1)] good_status
    by cases (auto simp: patch_switch_values valid_change_def intro!: good_metadata)
next
  case False
  with assms(2) consider "mode = 4" | "mode = 5" | "mode = 6" | "mode = 9"
    by (auto simp: patch_modes_def)
  then show ?thesis
    using False good_replicas [OF assms(1), of False kind]
    by cases (auto simp: patch_switch_values invalid_change_def intro!: good_metadata)
qed

text \<open>C38: A generated patch names at most one change, in the form of its media type. For every source of draws
  that respects its ranges, the request has one of the three media types, and either it is an empty
  document (\<open>[]\<close> or \<open>{}\<close>; only a valid patch can be), or it names one value at one path of keys: as the one
  \<open>add\<close> operation of a JSON patch, or as the document nested along the same path of the two merge
  forms. For a valid patch that is one annotation or no annotations, the finalizer, the owner
  reference, or, unless the kind is a controller revision, the status of the kind or zero to five replicas; for an
  invalid one a label with a bad key, a version, another name or minus one replica. The request goes to the
  status subresource exactly when the path is the status. Whether the server accepts it is not claimed.\<close>

theorem PatchGen_one_change:
  assumes "rapid_ok R"
  shows "pred_state (\<lambda>r. patch_Type r \<in> {JSONPatchType, MergePatchType, StrategicMergePatchType} \<and>
      (valid \<and> changes_nothing r \<or>
       (\<exists>ks v. carries r ks v \<and> (if valid then valid_change kind ks v else invalid_change ks v))))
    (PatchGen R kind valid)"
  unfolding PatchGen_def
proof (rule pred_SampledFrom_bind [OF assms], simp, rule pred_SampledFrom_bind [OF assms])
  show "patch_modes kind valid \<noteq> []" by (simp add: patch_modes_def)
  fix pt mode assume pt: "pt \<in> set [JSONPatchType, MergePatchType, StrategicMergePatchType]"
    and mode: "mode \<in> set (patch_modes kind valid)"
  let ?P = "\<lambda>r. patch_Type r \<in> {JSONPatchType, MergePatchType, StrategicMergePatchType} \<and>
      (valid \<and> changes_nothing r \<or>
       (\<exists>ks v. carries r ks v \<and> (if valid then valid_change kind ks v else invalid_change ks v)))"
  let ?r = "\<lambda>c. \<lparr>patch_Type = pt, patch_Data = json_text (patch_document pt mode c), patch_Subresources = pa_subs c\<rparr>"
  show "pred_state ?P (patch_switch R kind valid mode \<bind> (\<lambda>c. State_Monad.return (?r c)))"
  proof (cases "mode = 10")
    case True
    then have "valid" using mode by (cases valid) (auto simp: patch_modes_def)
    with True pt show ?thesis
      by (simp add: patch_switch_values changes_nothing_def patch_document_def)
  next
    case False
    have "?P (?r c)" if "good_case kind valid c" for c
      using that pt carries_case [OF _ False, of c _ _ pt] unfolding good_case_def by fastforce
    then show ?thesis
      by (intro pred_bindI [OF patch_switch_good [OF assms mode False]]) simp
  qed
qed

theorem PatchGen_one_change_witness:
  "let r = fst (run_state (PatchGen tape ''ReplicaSet'' False) [Num 1, Num 3])
   in (\<exists>ks v. carries r ks v \<and> invalid_change ks v) \<and> patch_Data r = ''{\"spec\":{\"replicas\":-1}}''"
proof -
  have "\<exists>ks v. carries (fst (run_state (PatchGen tape ''ReplicaSet'' False) [Num 1, Num 3])) ks v \<and> invalid_change ks v"
    using pred_state_run_state [OF PatchGen_one_change [OF tape_ok, of False "''ReplicaSet''"], of "[Num 1, Num 3]"]
    by simp
  moreover have "patch_Data (fst (run_state (PatchGen tape ''ReplicaSet'' False) [Num 1, Num 3])) =
      ''{\"spec\":{\"replicas\":-1}}''"
    by code_simp
  ultimately show ?thesis by (simp add: Let_def)
qed

end
