(* ===== verification/Conf_Server.thy ===== *)
theory Conf_Server
  imports Conf_Compare Conf_Mutators
begin

text \<open>
  The test server of the conformance tests (src/kubernetes_model/apimodel/pbtesting/testserver):
  it starts a local control plane or connects to a cluster, and forwards the calls of the tests to
  the client of that cluster, in one namespace.

  client-go, controller-runtime's envtest and clientcmd are not under src/: a client set is a record of
  one record of calls per resource, a \<open>platform\<close> holds what starts and stops a control plane and
  what the code reads of its surroundings. Calls are programs in the state monad over the world
  \<open>'w\<close>, the state of the cluster and of the processes. The context, the options that are always
  empty and the \<open>rest.Config\<close> (opaque) have no influence on the code.
\<close>

section \<open>The client\<close>

record ('w, 'a) resource_client =
  rc_Create :: "'a \<Rightarrow> ('w, go_error + 'a) state"
  rc_Get :: "string \<Rightarrow> ('w, go_error + 'a) state"
  rc_Update :: "'a \<Rightarrow> ('w, go_error + 'a) state"
  rc_UpdateStatus :: "'a \<Rightarrow> ('w, go_error + 'a) state"
  rc_Patch :: "string \<Rightarrow> string \<Rightarrow> string \<Rightarrow> string list \<Rightarrow> ('w, go_error + 'a) state"
  rc_Delete :: "string \<Rightarrow> DeleteOptions \<Rightarrow> ('w, go_error option) state"
  rc_DeleteCollection :: "DeleteOptions \<Rightarrow> ('w, go_error option) state"

record 'w clientset =
  Namespaces :: "('w, NamespaceObj) resource_client"
  Pods :: "string \<Rightarrow> ('w, Pod) resource_client"
  PersistentVolumeClaims :: "string \<Rightarrow> ('w, PersistentVolumeClaim) resource_client"
  ReplicaSets :: "string \<Rightarrow> ('w, ReplicaSet) resource_client"
  StatefulSets :: "string \<Rightarrow> ('w, StatefulSet) resource_client"
  Deployments :: "string \<Rightarrow> ('w, Deployment) resource_client"
  ControllerRevisions :: "string \<Rightarrow> ('w, ControllerRevision) resource_client"

record 'w TestServer =
  client :: "'w clientset"
  config :: opaque
  server_namespace :: string
  testEnv :: bool \<comment> \<open>not nil\<close>

record Config =
  Config_Namespace :: string
  UseExternalCluster :: bool

record 'w platform =
  env_Start :: "('w, go_error + opaque) state"
  env_Stop :: "('w, go_error option) state"
  NewForConfig :: "opaque \<Rightarrow> go_error + 'w clientset"
  Getenv :: "string \<Rightarrow> 'w \<Rightarrow> string"
  UserHomeDir :: "'w \<Rightarrow> go_error + string"
  no_such_file :: "string \<Rightarrow> 'w \<Rightarrow> bool"
  BuildConfigFromFlags :: "string \<Rightarrow> string \<Rightarrow> 'w \<Rightarrow> go_error + opaque"

text \<open>\<open>fmt.Errorf("...: %w", err)\<close>\<close>

definition wrap_error :: "string \<Rightarrow> go_error \<Rightarrow> go_error" where
  "wrap_error msg e = Wrapped (msg @ '': '' @ error_string e) e"

section \<open>Paths\<close>

text \<open>
  \<open>filepath.Join\<close> on Unix: the elements that are not empty, with slashes in between, cleaned:
  no empty element, no \<open>.\<close>, and a \<open>..\<close> removes the element before it.
\<close>

fun split_path :: "string \<Rightarrow> string \<Rightarrow> string list" where
  "split_path acc [] = [rev acc]"
| "split_path acc (c # cs) = (if c = CHR ''/'' then rev acc # split_path [] cs else split_path (c # acc) cs)"

fun clean_elements :: "bool \<Rightarrow> string list \<Rightarrow> string list \<Rightarrow> string list" where
  "clean_elements rooted acc [] = rev acc"
| "clean_elements rooted acc (e # es) =
     (if e = [] \<or> e = ''.'' then clean_elements rooted acc es
      else if e = ''..'' then
        (case acc of
           [] \<Rightarrow> clean_elements rooted (if rooted then [] else [e]) es
         | a # rest \<Rightarrow> clean_elements rooted (if a = ''..'' then e # acc else rest) es)
      else clean_elements rooted (e # acc) es)"

fun with_slashes :: "string list \<Rightarrow> string" where
  "with_slashes [] = []"
| "with_slashes [e] = e"
| "with_slashes (e # es) = e @ CHR ''/'' # with_slashes es"

definition Clean :: "string \<Rightarrow> string" where
  "Clean path = (let rooted = (path \<noteq> [] \<and> hd path = CHR ''/'');
       out = with_slashes (clean_elements rooted [] (split_path [] path))
     in if rooted then CHR ''/'' # out else if out = [] then ''.'' else out)"

definition Join :: "string list \<Rightarrow> string" where
  "Join es = (let es = filter (\<lambda>e. e \<noteq> []) es in if es = [] then [] else Clean (with_slashes es))"

section \<open>Starting and stopping\<close>

definition getExternalClusterConfig :: "'w platform \<Rightarrow> 'w \<Rightarrow> go_error + opaque" where
  "getExternalClusterConfig P w =
     ebind (if Getenv P ''KUBECONFIG'' w = [] then
              (case UserHomeDir P w of
                 Inl e \<Rightarrow> Inl (wrap_error ''failed to get home dir'' e)
               | Inr home \<Rightarrow> Inr (Join [home, ''.kube'', ''config'']))
            else Inr (Getenv P ''KUBECONFIG'' w))
       (\<lambda>kubeconfig. if no_such_file P kubeconfig w
          then Inl (PlainError (''kubeconfig not found at '' @ kubeconfig))
          else BuildConfigFromFlags P [] kubeconfig w)"

text \<open>\<open>for i := 0; i <= len(s)-len(substr); i++\<close>\<close>

definition contains :: "string \<Rightarrow> string \<Rightarrow> bool" where
  "contains s substr \<longleftrightarrow>
     length substr \<le> length s \<and>
     list_ex (\<lambda>i. take (length substr) (drop i s) = substr) [0..<Suc (length s - length substr)]"

definition isAlreadyExists :: "go_error option \<Rightarrow> bool" where
  "isAlreadyExists err = (case err of None \<Rightarrow> False
     | Some e \<Rightarrow> contains (error_string e) ''already exists'' \<or> contains (error_string e) ''AlreadyExists'')"

definition namespace_named :: "string \<Rightarrow> NamespaceObj" where
  "namespace_named name = \<lparr>TypeMeta = empty_TypeMeta, ObjectMeta = empty_ObjectMeta\<lparr>Name := name\<rparr>,
     ns_Phase = [], ns_rest = []\<rparr>"

definition ensureNamespace :: "'w TestServer \<Rightarrow> ('w, go_error option) state" where
  "ensureNamespace s = do {
     r \<leftarrow> rc_Create (Namespaces (client s)) (namespace_named (server_namespace s));
     State_Monad.return (case r of
         Inl err \<Rightarrow> if \<not> isAlreadyExists (Some err) then Some err else None
       | Inr _ \<Rightarrow> None) }"

definition Stop :: "'w platform \<Rightarrow> 'w TestServer \<Rightarrow> ('w, go_error option) state" where
  "Stop P s = (if testEnv s then env_Stop P else State_Monad.return None)"

text \<open>The configuration and whether there is an environment of its own, with the errors of both ways.\<close>

definition start_cluster :: "'w platform \<Rightarrow> Config \<Rightarrow> ('w, go_error + opaque \<times> bool) state" where
  "start_cluster P cfg =
     (if UseExternalCluster cfg then do {
        w \<leftarrow> State_Monad.get;
        State_Monad.return (case getExternalClusterConfig P w of
            Inl err \<Rightarrow> Inl (wrap_error ''failed to get external cluster config'' err)
          | Inr conf \<Rightarrow> Inr (conf, False)) }
      else do {
        r \<leftarrow> env_Start P;
        case r of
          Inl err \<Rightarrow> do { _ \<leftarrow> env_Stop P; State_Monad.return (Inl (wrap_error ''failed to start envtest'' err)) }
        | Inr conf \<Rightarrow> State_Monad.return (Inr (conf, True)) })"

definition NewTestServer :: "'w platform \<Rightarrow> Config \<Rightarrow> ('w, go_error + 'w TestServer) state" where
  "NewTestServer P cfg = do {
     let namespace = (if Config_Namespace cfg = [] then ''pbt'' else Config_Namespace cfg);
     started \<leftarrow> start_cluster P cfg;
     case started of
       Inl err \<Rightarrow> State_Monad.return (Inl err)
     | Inr (conf, own) \<Rightarrow>
         (case NewForConfig P conf of
            Inl err \<Rightarrow> do {
              _ \<leftarrow> (if own then env_Stop P else State_Monad.return None);
              State_Monad.return (Inl (wrap_error ''failed to create client'' err)) }
          | Inr cl \<Rightarrow> do {
              let server = \<lparr>client = cl, config = conf, server_namespace = namespace, testEnv = own\<rparr>;
              err \<leftarrow> ensureNamespace server;
              case err of
                Some e \<Rightarrow> do {
                  _ \<leftarrow> Stop P server;
                  State_Monad.return (Inl (wrap_error ''failed to ensure namespace'' e)) }
              | None \<Rightarrow> State_Monad.return (Inr server) }) }"

section \<open>Calls\<close>

definition test_Namespace :: "'w TestServer \<Rightarrow> string" where
  "test_Namespace s = server_namespace s"

definition test_Client :: "'w TestServer \<Rightarrow> 'w clientset" where
  "test_Client s = client s"

text \<open>\<open>obj = obj.DeepCopy(); obj.Namespace = s.namespace\<close>\<close>

definition in_server :: "'w TestServer \<Rightarrow> 'z Object_scheme \<Rightarrow> 'z Object_scheme" where
  "in_server s = on_meta (\<lambda>md. md\<lparr>Namespace := server_namespace s\<rparr>)"

definition CreatePod :: "'w TestServer \<Rightarrow> Pod \<Rightarrow> ('w, go_error + Pod) state" where
  "CreatePod s x = rc_Create (Pods (client s) (server_namespace s)) (in_server s x)"

definition GetPod :: "'w TestServer \<Rightarrow> string \<Rightarrow> ('w, go_error + Pod) state" where
  "GetPod s name = rc_Get (Pods (client s) (server_namespace s)) name"

definition UpdatePod :: "'w TestServer \<Rightarrow> Pod \<Rightarrow> ('w, go_error + Pod) state" where
  "UpdatePod s x = rc_Update (Pods (client s) (server_namespace s)) (in_server s x)"

definition PatchPod ::
  "'w TestServer \<Rightarrow> string \<Rightarrow> string \<Rightarrow> string \<Rightarrow> string list \<Rightarrow> ('w, go_error + Pod) state" where
  "PatchPod s name patchType data subresources =
     rc_Patch (Pods (client s) (server_namespace s)) name patchType data subresources"

definition UpdatePodStatus :: "'w TestServer \<Rightarrow> Pod \<Rightarrow> ('w, go_error + Pod) state" where
  "UpdatePodStatus s x = rc_UpdateStatus (Pods (client s) (server_namespace s)) (in_server s x)"

definition DeletePod :: "'w TestServer \<Rightarrow> string \<Rightarrow> DeleteOptions \<Rightarrow> ('w, go_error option) state" where
  "DeletePod s name options = rc_Delete (Pods (client s) (server_namespace s)) name options"

definition CreatePersistentVolumeClaim :: "'w TestServer \<Rightarrow> PersistentVolumeClaim \<Rightarrow> ('w, go_error + PersistentVolumeClaim) state" where
  "CreatePersistentVolumeClaim s x = rc_Create (PersistentVolumeClaims (client s) (server_namespace s)) (in_server s x)"

definition GetPersistentVolumeClaim :: "'w TestServer \<Rightarrow> string \<Rightarrow> ('w, go_error + PersistentVolumeClaim) state" where
  "GetPersistentVolumeClaim s name = rc_Get (PersistentVolumeClaims (client s) (server_namespace s)) name"

definition UpdatePersistentVolumeClaim :: "'w TestServer \<Rightarrow> PersistentVolumeClaim \<Rightarrow> ('w, go_error + PersistentVolumeClaim) state" where
  "UpdatePersistentVolumeClaim s x = rc_Update (PersistentVolumeClaims (client s) (server_namespace s)) (in_server s x)"

definition PatchPersistentVolumeClaim ::
  "'w TestServer \<Rightarrow> string \<Rightarrow> string \<Rightarrow> string \<Rightarrow> string list \<Rightarrow> ('w, go_error + PersistentVolumeClaim) state" where
  "PatchPersistentVolumeClaim s name patchType data subresources =
     rc_Patch (PersistentVolumeClaims (client s) (server_namespace s)) name patchType data subresources"

definition UpdatePersistentVolumeClaimStatus :: "'w TestServer \<Rightarrow> PersistentVolumeClaim \<Rightarrow> ('w, go_error + PersistentVolumeClaim) state" where
  "UpdatePersistentVolumeClaimStatus s x = rc_UpdateStatus (PersistentVolumeClaims (client s) (server_namespace s)) (in_server s x)"

definition DeletePersistentVolumeClaim :: "'w TestServer \<Rightarrow> string \<Rightarrow> DeleteOptions \<Rightarrow> ('w, go_error option) state" where
  "DeletePersistentVolumeClaim s name options = rc_Delete (PersistentVolumeClaims (client s) (server_namespace s)) name options"

definition CreateReplicaSet :: "'w TestServer \<Rightarrow> ReplicaSet \<Rightarrow> ('w, go_error + ReplicaSet) state" where
  "CreateReplicaSet s x = rc_Create (ReplicaSets (client s) (server_namespace s)) (in_server s x)"

definition GetReplicaSet :: "'w TestServer \<Rightarrow> string \<Rightarrow> ('w, go_error + ReplicaSet) state" where
  "GetReplicaSet s name = rc_Get (ReplicaSets (client s) (server_namespace s)) name"

definition UpdateReplicaSet :: "'w TestServer \<Rightarrow> ReplicaSet \<Rightarrow> ('w, go_error + ReplicaSet) state" where
  "UpdateReplicaSet s x = rc_Update (ReplicaSets (client s) (server_namespace s)) (in_server s x)"

definition PatchReplicaSet ::
  "'w TestServer \<Rightarrow> string \<Rightarrow> string \<Rightarrow> string \<Rightarrow> string list \<Rightarrow> ('w, go_error + ReplicaSet) state" where
  "PatchReplicaSet s name patchType data subresources =
     rc_Patch (ReplicaSets (client s) (server_namespace s)) name patchType data subresources"

definition UpdateReplicaSetStatus :: "'w TestServer \<Rightarrow> ReplicaSet \<Rightarrow> ('w, go_error + ReplicaSet) state" where
  "UpdateReplicaSetStatus s x = rc_UpdateStatus (ReplicaSets (client s) (server_namespace s)) (in_server s x)"

definition DeleteReplicaSet :: "'w TestServer \<Rightarrow> string \<Rightarrow> DeleteOptions \<Rightarrow> ('w, go_error option) state" where
  "DeleteReplicaSet s name options = rc_Delete (ReplicaSets (client s) (server_namespace s)) name options"

definition CreateStatefulSet :: "'w TestServer \<Rightarrow> StatefulSet \<Rightarrow> ('w, go_error + StatefulSet) state" where
  "CreateStatefulSet s x = rc_Create (StatefulSets (client s) (server_namespace s)) (in_server s x)"

definition GetStatefulSet :: "'w TestServer \<Rightarrow> string \<Rightarrow> ('w, go_error + StatefulSet) state" where
  "GetStatefulSet s name = rc_Get (StatefulSets (client s) (server_namespace s)) name"

definition UpdateStatefulSet :: "'w TestServer \<Rightarrow> StatefulSet \<Rightarrow> ('w, go_error + StatefulSet) state" where
  "UpdateStatefulSet s x = rc_Update (StatefulSets (client s) (server_namespace s)) (in_server s x)"

definition PatchStatefulSet ::
  "'w TestServer \<Rightarrow> string \<Rightarrow> string \<Rightarrow> string \<Rightarrow> string list \<Rightarrow> ('w, go_error + StatefulSet) state" where
  "PatchStatefulSet s name patchType data subresources =
     rc_Patch (StatefulSets (client s) (server_namespace s)) name patchType data subresources"

definition UpdateStatefulSetStatus :: "'w TestServer \<Rightarrow> StatefulSet \<Rightarrow> ('w, go_error + StatefulSet) state" where
  "UpdateStatefulSetStatus s x = rc_UpdateStatus (StatefulSets (client s) (server_namespace s)) (in_server s x)"

definition DeleteStatefulSet :: "'w TestServer \<Rightarrow> string \<Rightarrow> DeleteOptions \<Rightarrow> ('w, go_error option) state" where
  "DeleteStatefulSet s name options = rc_Delete (StatefulSets (client s) (server_namespace s)) name options"

definition CreateDeployment :: "'w TestServer \<Rightarrow> Deployment \<Rightarrow> ('w, go_error + Deployment) state" where
  "CreateDeployment s x = rc_Create (Deployments (client s) (server_namespace s)) (in_server s x)"

definition GetDeployment :: "'w TestServer \<Rightarrow> string \<Rightarrow> ('w, go_error + Deployment) state" where
  "GetDeployment s name = rc_Get (Deployments (client s) (server_namespace s)) name"

definition UpdateDeployment :: "'w TestServer \<Rightarrow> Deployment \<Rightarrow> ('w, go_error + Deployment) state" where
  "UpdateDeployment s x = rc_Update (Deployments (client s) (server_namespace s)) (in_server s x)"

definition PatchDeployment ::
  "'w TestServer \<Rightarrow> string \<Rightarrow> string \<Rightarrow> string \<Rightarrow> string list \<Rightarrow> ('w, go_error + Deployment) state" where
  "PatchDeployment s name patchType data subresources =
     rc_Patch (Deployments (client s) (server_namespace s)) name patchType data subresources"

definition UpdateDeploymentStatus :: "'w TestServer \<Rightarrow> Deployment \<Rightarrow> ('w, go_error + Deployment) state" where
  "UpdateDeploymentStatus s x = rc_UpdateStatus (Deployments (client s) (server_namespace s)) (in_server s x)"

definition DeleteDeployment :: "'w TestServer \<Rightarrow> string \<Rightarrow> DeleteOptions \<Rightarrow> ('w, go_error option) state" where
  "DeleteDeployment s name options = rc_Delete (Deployments (client s) (server_namespace s)) name options"

definition CreateControllerRevision :: "'w TestServer \<Rightarrow> ControllerRevision \<Rightarrow> ('w, go_error + ControllerRevision) state" where
  "CreateControllerRevision s x = rc_Create (ControllerRevisions (client s) (server_namespace s)) (in_server s x)"

definition GetControllerRevision :: "'w TestServer \<Rightarrow> string \<Rightarrow> ('w, go_error + ControllerRevision) state" where
  "GetControllerRevision s name = rc_Get (ControllerRevisions (client s) (server_namespace s)) name"

definition UpdateControllerRevision :: "'w TestServer \<Rightarrow> ControllerRevision \<Rightarrow> ('w, go_error + ControllerRevision) state" where
  "UpdateControllerRevision s x = rc_Update (ControllerRevisions (client s) (server_namespace s)) (in_server s x)"

definition PatchControllerRevision ::
  "'w TestServer \<Rightarrow> string \<Rightarrow> string \<Rightarrow> string \<Rightarrow> string list \<Rightarrow> ('w, go_error + ControllerRevision) state" where
  "PatchControllerRevision s name patchType data subresources =
     rc_Patch (ControllerRevisions (client s) (server_namespace s)) name patchType data subresources"

definition DeleteControllerRevision :: "'w TestServer \<Rightarrow> string \<Rightarrow> DeleteOptions \<Rightarrow> ('w, go_error option) state" where
  "DeleteControllerRevision s name options = rc_Delete (ControllerRevisions (client s) (server_namespace s)) name options"

section \<open>Cleanup\<close>

text \<open>\<open>if err := ...; err != nil { return err }\<close>\<close>

fun until_error :: "('w, go_error option) state list \<Rightarrow> ('w, go_error option) state" where
  "until_error [] = State_Monad.return None"
| "until_error (call # calls) = do {
     err \<leftarrow> call;
     case err of Some e \<Rightarrow> State_Monad.return (Some e) | None \<Rightarrow> until_error calls }"

definition Cleanup :: "'w TestServer \<Rightarrow> ('w, go_error option) state" where
  "Cleanup s = (let cs = client s; ns = server_namespace s in until_error
     [rc_DeleteCollection (ControllerRevisions cs ns) empty_DeleteOptions,
      rc_DeleteCollection (Pods cs ns) empty_DeleteOptions,
      rc_DeleteCollection (PersistentVolumeClaims cs ns) empty_DeleteOptions,
      rc_DeleteCollection (ReplicaSets cs ns) empty_DeleteOptions,
      rc_DeleteCollection (StatefulSets cs ns) empty_DeleteOptions,
      rc_DeleteCollection (Deployments cs ns) empty_DeleteOptions])"

section \<open>Properties\<close>

text \<open>The substring test finds exactly the substrings.\<close>

lemma contains_iff: "contains s substr \<longleftrightarrow> (\<exists>a b. s = a @ substr @ b)"
proof
  assume "contains s substr"
  then obtain i where "take (length substr) (drop i s) = substr"
    by (auto simp: contains_def list_ex_iff simp del: upt_Suc)
  then have "s = take i s @ substr @ drop (length substr) (drop i s)"
    by (metis append_take_drop_id)
  then show "\<exists>a b. s = a @ substr @ b" by blast
next
  assume "\<exists>a b. s = a @ substr @ b"
  then obtain a b where "s = a @ substr @ b" by blast
  then show "contains s substr"
    by (auto simp: contains_def list_ex_iff simp del: upt_Suc intro!: bexI [of _ "length a"])
qed

text \<open>The namespace is taken as ensured exactly when it was created or the error says that it exists.\<close>

lemma ensureNamespace_None:
  "fst (run_state (ensureNamespace s) w) = None \<longleftrightarrow>
    (case fst (run_state (rc_Create (Namespaces (client s)) (namespace_named (server_namespace s))) w) of
       Inr _ \<Rightarrow> True
     | Inl e \<Rightarrow> \<exists>a b. error_string e = a @ ''already exists'' @ b \<or> error_string e = a @ ''AlreadyExists'' @ b)"
  by (auto simp: ensureNamespace_def isAlreadyExists_def contains_iff split_beta split: sum.splits)

text \<open>
  \<open>owed w\<close>: a local control plane was started and nobody has asked it to stop since. It is owed after
  a start, also one that fails half way, no longer after a stop, and the calls of a client
  have nothing to do with it.
\<close>

definition platform_ok :: "('w \<Rightarrow> bool) \<Rightarrow> 'w platform \<Rightarrow> bool" where
  "platform_ok owed P \<longleftrightarrow>
     (\<forall>w. owed (snd (run_state (env_Start P) w))) \<and>
     (\<forall>w. \<not> owed (snd (run_state (env_Stop P) w))) \<and>
     (\<forall>conf cl ns w. NewForConfig P conf = Inr cl \<longrightarrow> owed (snd (run_state (rc_Create (Namespaces cl) ns) w)) = owed w)"

lemma start_cluster_owed:
  assumes "platform_ok owed P" "\<not> owed w"
  shows "case run_state (start_cluster P cfg) w of
      (Inl e, w') \<Rightarrow> \<not> owed w'
    | (Inr (conf, own), w') \<Rightarrow> (owed w' \<longleftrightarrow> own) \<and> (own \<longleftrightarrow> \<not> UseExternalCluster cfg)"
  using assms by (auto simp: start_cluster_def platform_ok_def split_beta split: sum.splits)

lemma ensureNamespace_owed:
  assumes "platform_ok owed P" "NewForConfig P conf = Inr (client s)"
  shows "owed (snd (run_state (ensureNamespace s) w)) = owed w"
  using assms by (simp add: ensureNamespace_def platform_ok_def split_beta)

lemma Stop_owed: "platform_ok owed P \<Longrightarrow> \<not> owed (snd (run_state (Stop P s) w)) \<longleftrightarrow> testEnv s \<or> \<not> owed w"
  by (simp add: Stop_def platform_ok_def)

text \<open>C40: A local control plane is never leaked. \<open>owed\<close> says that one was started and has not been asked to
  stop since: when \<open>NewTestServer\<close> fails, at whatever step, none is owed; when it succeeds, one is
  owed exactly when the server has an environment of its own, which it has unless an external cluster was
  asked for, and after \<open>Stop\<close> none is; the namespace of the server is the configured one, or \<open>pbt\<close>.\<close>

theorem NewTestServer_releases:
  assumes "platform_ok owed P" "\<not> owed w"
  shows "case run_state (NewTestServer P cfg) w of
      (Inl e, w') \<Rightarrow> \<not> owed w'
    | (Inr s, w') \<Rightarrow> (owed w' \<longleftrightarrow> testEnv s) \<and> (testEnv s \<longleftrightarrow> \<not> UseExternalCluster cfg) \<and>
        \<not> owed (snd (run_state (Stop P s) w')) \<and>
        server_namespace s = (if Config_Namespace cfg = [] then ''pbt'' else Config_Namespace cfg)"
proof -
  obtain r w1 where start: "run_state (start_cluster P cfg) w = (r, w1)" by force
  show ?thesis
  proof (cases r)
    case (Inr conf_own)
    then obtain conf own where r: "r = Inr (conf, own)" by force
    then have owed: "owed w1 \<longleftrightarrow> own" "own \<longleftrightarrow> \<not> UseExternalCluster cfg"
      using start_cluster_owed [OF assms, of cfg] by (simp_all add: start)
    show ?thesis
    proof (cases "NewForConfig P conf")
      case (Inl err)
      with assms(1) owed show ?thesis
        by (simp add: NewTestServer_def start r split_beta platform_ok_def)
    next
      case (Inr cl)
      define ns where "ns = (if Config_Namespace cfg = [] then ''pbt'' else Config_Namespace cfg)"
      let ?s = "\<lparr>client = cl, config = conf, server_namespace = ns, testEnv = own\<rparr>"
      obtain err w2 where ensured: "run_state (ensureNamespace ?s) w1 = (err, w2)" by force
      have "owed w2 \<longleftrightarrow> own"
        using ensureNamespace_owed [OF assms(1), of conf ?s w1] Inr owed(1) ensured by simp
      moreover have "run_state (NewTestServer P cfg) w = (case err of
          None \<Rightarrow> (Inr ?s, w2)
        | Some e \<Rightarrow> (Inl (wrap_error ''failed to ensure namespace'' e), snd (run_state (Stop P ?s) w2)))"
        unfolding NewTestServer_def Let_def ns_def [symmetric]
        by (cases err) (simp_all add: start r Inr ensured split_beta)
      ultimately show ?thesis
        using owed(2) Stop_owed [OF assms(1), of ?s w2] unfolding ns_def by (cases err) simp_all
    qed
  qed (use start_cluster_owed [OF assms, of cfg] in \<open>simp add: NewTestServer_def start\<close>)
qed

text \<open>A platform with a client whose namespace is there already, in the world of one control plane.\<close>

definition taken :: "(bool, 'a) resource_client" where
  "taken = (let e = PlainError ''namespaces pbt already exists''; refuse = State_Monad.return (Inl e)
     in \<lparr>rc_Create = \<lambda>_. refuse, rc_Get = \<lambda>_. refuse, rc_Update = \<lambda>_. refuse, rc_UpdateStatus = \<lambda>_. refuse,
       rc_Patch = \<lambda>_ _ _ _. refuse, rc_Delete = \<lambda>_ _. State_Monad.return (Some e),
       rc_DeleteCollection = \<lambda>_. State_Monad.return (Some e)\<rparr>)"

definition example_clientset :: "bool clientset" where
  "example_clientset = \<lparr>Namespaces = taken, Pods = \<lambda>_. taken, PersistentVolumeClaims = \<lambda>_. taken, ReplicaSets = \<lambda>_. taken,
     StatefulSets = \<lambda>_. taken, Deployments = \<lambda>_. taken, ControllerRevisions = \<lambda>_. taken\<rparr>"

text \<open>With no client for the configuration called \<open>bad\<close>.\<close>

definition example_platform :: "opaque \<Rightarrow> bool platform" where
  "example_platform conf = \<lparr>env_Start = State (\<lambda>_. (Inr conf, True)), env_Stop = State (\<lambda>_. (None, False)),
     NewForConfig = \<lambda>c. if c = ''bad'' then Inl (PlainError ''bad config'') else Inr example_clientset,
     Getenv = \<lambda>_ _. [], UserHomeDir = \<lambda>_. Inr ''/home/dev'', no_such_file = \<lambda>_ _. False,
     BuildConfigFromFlags = \<lambda>_ path _. Inr path\<rparr>"

lemma example_platform_ok: "platform_ok (\<lambda>w. w) (example_platform conf)"
  by (simp add: platform_ok_def example_platform_def example_clientset_def taken_def Let_def)

theorem NewTestServer_releases_witness:
  "(let cfg = \<lparr>Config_Namespace = [], UseExternalCluster = False\<rparr>;
        (r, w) = run_state (NewTestServer (example_platform ''local'') cfg) False;
        (r', w') = run_state (NewTestServer (example_platform ''bad'') cfg) False
    in (case r of Inl _ \<Rightarrow> False | Inr s \<Rightarrow> testEnv s \<and> w) \<and> (case r' of Inl _ \<Rightarrow> \<not> w' | Inr _ \<Rightarrow> False))"
proof -
  let ?cfg = "\<lparr>Config_Namespace = [], UseExternalCluster = False\<rparr>"
  have "\<exists>s w. run_state (NewTestServer (example_platform ''local'') ?cfg) False = (Inr s, w)"
    "\<exists>e w. run_state (NewTestServer (example_platform ''bad'') ?cfg) False = (Inl e, w)"
    by (auto simp: NewTestServer_def start_cluster_def example_platform_def ensureNamespace_def example_clientset_def
        taken_def isAlreadyExists_def contains_def Let_def)
  then show ?thesis
    using NewTestServer_releases [OF example_platform_ok [of "''local''"], of False ?cfg]
      NewTestServer_releases [OF example_platform_ok [of "''bad''"], of False ?cfg]
    by auto
qed

end
