(* ===== verification/Script_Schema.thy ===== *)
theory Script_Schema
  imports K8s_Prelude
begin

text \<open>
  The schema extractor (src/scripts/extract_schema.go), which walks the Go types of the API from
  the configured roots and lists a node for every type it meets. A program's types are a set
  \<open>'ty\<close> with the answers of \<open>reflect.Type\<close> as the record \<open>go_types\<close>: which types exist is
  an input of the code. Encoding the result as JSON is not modelled.
\<close>

section \<open>Types\<close>

text \<open>\<open>reflect.Kind\<close>, with a \<open>K\<close> before the name.\<close>

datatype Kind = KInvalid | KBool | KInt | KInt8 | KInt16 | KInt32 | KInt64 | KUint | KUint8 | KUint16 | KUint32 | KUint64
  | KUintptr | KFloat32 | KFloat64 | KComplex64 | KComplex128 | KArray | KChan | KFunc | KInterface | KMap | KPointer
  | KSlice | KString | KStruct | KUnsafePointer

fun Kind_String :: "Kind \<Rightarrow> string" where
  "Kind_String KInvalid = ''invalid''" | "Kind_String KBool = ''bool''" | "Kind_String KInt = ''int''"
| "Kind_String KInt8 = ''int8''" | "Kind_String KInt16 = ''int16''" | "Kind_String KInt32 = ''int32''"
| "Kind_String KInt64 = ''int64''" | "Kind_String KUint = ''uint''" | "Kind_String KUint8 = ''uint8''"
| "Kind_String KUint16 = ''uint16''" | "Kind_String KUint32 = ''uint32''" | "Kind_String KUint64 = ''uint64''"
| "Kind_String KUintptr = ''uintptr''" | "Kind_String KFloat32 = ''float32''" | "Kind_String KFloat64 = ''float64''"
| "Kind_String KComplex64 = ''complex64''" | "Kind_String KComplex128 = ''complex128''"
| "Kind_String KArray = ''array''" | "Kind_String KChan = ''chan''" | "Kind_String KFunc = ''func''"
| "Kind_String KInterface = ''interface''" | "Kind_String KMap = ''map''" | "Kind_String KPointer = ''ptr''"
| "Kind_String KSlice = ''slice''" | "Kind_String KString = ''string''" | "Kind_String KStruct = ''struct''"
| "Kind_String KUnsafePointer = ''unsafe.Pointer''"

record 'ty go_types =
  ty_String :: "'ty \<Rightarrow> string"
  ty_Name :: "'ty \<Rightarrow> string"
  ty_PkgPath :: "'ty \<Rightarrow> string"
  ty_Kind :: "'ty \<Rightarrow> Kind"
  ty_Elem :: "'ty \<Rightarrow> 'ty"
  ty_Key :: "'ty \<Rightarrow> 'ty"
  ty_Fields :: "'ty \<Rightarrow> (string \<times> 'ty) list"

record field =
  field_Name :: string
  field_Type :: string

record node =
  node_ID :: string
  node_Name :: string
  node_Pkg :: string
  node_Kind :: string
  node_Elem :: string
  node_Key :: string
  node_Fields :: "field list"

type_synonym 'ty rootGroup = "string \<times> 'ty list"

record visitor =
  nodes :: "string \<rightharpoonup> node"
  order :: "string list"

record schema =
  schema_Nodes :: "string \<rightharpoonup> node"
  schema_Order :: "string list"
  schema_Roots :: "string \<rightharpoonup> string list"

section \<open>The walk\<close>

definition type_id :: "'ty go_types \<Rightarrow> 'ty \<Rightarrow> string" where
  "type_id R t = (if ty_Name R t \<noteq> [] then ty_PkgPath R t @ ''/'' @ ty_Name R t else ty_String R t)"

definition bare_node :: "'ty go_types \<Rightarrow> 'ty \<Rightarrow> node" where
  "bare_node R t = \<lparr>node_ID = type_id R t, node_Name = ty_Name R t, node_Pkg = ty_PkgPath R t,
     node_Kind = Kind_String (ty_Kind R t), node_Elem = [], node_Key = [], node_Fields = []\<rparr>"

text \<open>The types the \<open>switch\<close> visits, in order, and the node it fills with the ids they got.\<close>

definition children :: "'ty go_types \<Rightarrow> 'ty \<Rightarrow> 'ty list" where
  "children R t =
     (case ty_Kind R t of
        KPointer \<Rightarrow> [ty_Elem R t]
      | KSlice \<Rightarrow> [ty_Elem R t]
      | KArray \<Rightarrow> [ty_Elem R t]
      | KMap \<Rightarrow> [ty_Key R t, ty_Elem R t]
      | KStruct \<Rightarrow> map snd (ty_Fields R t)
      | _ \<Rightarrow> [])"

definition filled_node :: "'ty go_types \<Rightarrow> 'ty \<Rightarrow> string list \<Rightarrow> node" where
  "filled_node R t ids =
     (let n = bare_node R t in
      case ty_Kind R t of
        KPointer \<Rightarrow> n\<lparr>node_Elem := hd ids\<rparr>
      | KSlice \<Rightarrow> n\<lparr>node_Elem := hd ids\<rparr>
      | KArray \<Rightarrow> n\<lparr>node_Elem := hd ids\<rparr>
      | KMap \<Rightarrow> n\<lparr>node_Key := hd ids, node_Elem := hd (tl ids)\<rparr>
      | KStruct \<Rightarrow> n\<lparr>node_Fields := map2 (\<lambda>f i. \<lparr>field_Name = fst f, field_Type = i\<rparr>) (ty_Fields R t) ids\<rparr>
      | _ \<Rightarrow> n)"

text \<open>
  \<open>visits\<close> is \<open>visit\<close> called on one type after another, as the \<open>switch\<close> does for the parts
  of a type; its value is \<open>None\<close> when the recursion never ends.
\<close>

partial_function (option) visits :: "'ty go_types \<Rightarrow> 'ty list \<Rightarrow> visitor \<Rightarrow> (string list \<times> visitor) option" where
  "visits R ts st =
     (case ts of
        [] \<Rightarrow> Some ([], st)
      | t # rest \<Rightarrow>
          Option.bind
            (if type_id R t \<in> dom (nodes st) then Some st
             else Option.bind (visits R (children R t) (st\<lparr>nodes := (nodes st)(type_id R t \<mapsto> bare_node R t)\<rparr>))
               (\<lambda>(ids, st1). Some (st1\<lparr>nodes := (nodes st1)(type_id R t \<mapsto> filled_node R t ids),
                  order := order st1 @ [type_id R t]\<rparr>)))
            (\<lambda>st2. Option.bind (visits R rest st2) (\<lambda>(ids, st3). Some (type_id R t # ids, st3))))"

definition visit :: "'ty go_types \<Rightarrow> 'ty \<Rightarrow> visitor \<Rightarrow> (string \<times> visitor) option" where
  "visit R t st = Option.bind (visits R [t] st) (\<lambda>(ids, st1). Some (hd ids, st1))"

fun visit_roots :: "'ty go_types \<Rightarrow> string \<Rightarrow> 'ty list \<Rightarrow> visitor \<times> (string \<rightharpoonup> string list) \<Rightarrow>
    (visitor \<times> (string \<rightharpoonup> string list)) option" where
  "visit_roots R name [] (st, roots) = Some (st, roots)"
| "visit_roots R name (typ # types) (st, roots) =
     Option.bind (visit R typ st) (\<lambda>(i, st1).
       visit_roots R name types
         (st1, roots(name \<mapsto> (case roots name of None \<Rightarrow> [] | Some old \<Rightarrow> old) @ [i])))"

fun visit_groups :: "'ty go_types \<Rightarrow> 'ty rootGroup list \<Rightarrow> visitor \<times> (string \<rightharpoonup> string list) \<Rightarrow>
    (visitor \<times> (string \<rightharpoonup> string list)) option" where
  "visit_groups R [] acc = Some acc"
| "visit_groups R ((name, types) # groups) acc = Option.bind (visit_roots R name types acc) (visit_groups R groups)"

definition extractSchema :: "'ty go_types \<Rightarrow> 'ty rootGroup list \<Rightarrow> schema option" where
  "extractSchema R groups =
     Option.bind (visit_groups R groups (\<lparr>nodes = Map.empty, order = []\<rparr>, Map.empty)) (\<lambda>(st, roots).
       Some \<lparr>schema_Nodes = nodes st, schema_Order = order st, schema_Roots = roots\<rparr>)"

section \<open>Reachable types\<close>

definition part_of :: "'ty go_types \<Rightarrow> ('ty \<times> 'ty) set" where
  "part_of R = {(t, c). c \<in> set (children R t)}"

definition reachable_types :: "'ty go_types \<Rightarrow> 'ty rootGroup list \<Rightarrow> 'ty set" where
  "reachable_types R groups = (part_of R)\<^sup>* `` (\<Union>g \<in> set groups. set (snd g))"

text \<open>The node of a type, without reference to the walk.\<close>

definition node_of :: "'ty go_types \<Rightarrow> 'ty \<Rightarrow> node" where
  "node_of R t = filled_node R t (map (type_id R) (children R t))"

definition roots_of :: "'ty go_types \<Rightarrow> 'ty rootGroup list \<Rightarrow> string \<Rightarrow> string list" where
  "roots_of R groups name = concat (map (\<lambda>g. if fst g = name then map (type_id R) (snd g) else []) groups)"

lemma visits_Nil [simp]: "visits R [] st = Some ([], st)"
  by (subst visits.simps) simp

definition visit_one :: "'ty go_types \<Rightarrow> 'ty \<Rightarrow> visitor \<Rightarrow> visitor option" where
  "visit_one R t st =
     (if type_id R t \<in> dom (nodes st) then Some st
      else Option.bind (visits R (children R t) (st\<lparr>nodes := (nodes st)(type_id R t \<mapsto> bare_node R t)\<rparr>))
        (\<lambda>(ids, st1). Some (st1\<lparr>nodes := (nodes st1)(type_id R t \<mapsto> filled_node R t ids),
           order := order st1 @ [type_id R t]\<rparr>)))"

lemma visits_Cons: "visits R (t # ts) st =
    Option.bind (visit_one R t st) (\<lambda>st2. Option.bind (visits R ts st2) (\<lambda>(ids, st3). Some (type_id R t # ids, st3)))"
  by (subst visits.simps) (simp add: visit_one_def)

lemma visit_eq: "visit R t st = Option.bind (visit_one R t st) (\<lambda>st1. Some (type_id R t, st1))"
  by (cases "visit_one R t st") (simp_all add: visit_def visits_Cons)

section \<open>The walk returns\<close>

text \<open>
  Every nested call has one more id in its map, so a call ends as soon as the ids of the types it
  can meet are finitely many.
\<close>

lemma visits_return:
  assumes U: "part_of R `` U \<subseteq> U" "finite (type_id R ` U)"
  shows "set ts \<subseteq> U \<Longrightarrow> \<exists>ids st'. visits R ts st = Some (ids, st') \<and> dom (nodes st) \<subseteq> dom (nodes st')"
proof (induction "card (type_id R ` U - dom (nodes st))" arbitrary: ts st rule: less_induct)
  case less
  have "\<exists>ids st'. visits R ts' st1 = Some (ids, st') \<and> dom (nodes st1) \<subseteq> dom (nodes st')"
    if "set ts' \<subseteq> U" "dom (nodes st) \<subseteq> dom (nodes st1)" for ts' st1
    using that
  proof (induction ts' arbitrary: st1)
    case Nil
    then show ?case by simp
  next
    case (Cons t ts')
    have "\<exists>st2. visit_one R t st1 = Some st2 \<and> dom (nodes st1) \<subseteq> dom (nodes st2)"
    proof (cases "type_id R t \<in> dom (nodes st1)")
      case False
      define st0 where "st0 = st1\<lparr>nodes := (nodes st1)(type_id R t \<mapsto> bare_node R t)\<rparr>"
      have "type_id R t \<in> type_id R ` U - dom (nodes st)" "type_id R t \<notin> type_id R ` U - dom (nodes st0)"
        using False Cons.prems by (auto simp: st0_def)
      moreover have "type_id R ` U - dom (nodes st0) \<subseteq> type_id R ` U - dom (nodes st)"
        using Cons.prems(2) by (auto simp: st0_def)
      ultimately have "type_id R ` U - dom (nodes st0) \<subset> type_id R ` U - dom (nodes st)" by blast
      then have "card (type_id R ` U - dom (nodes st0)) < card (type_id R ` U - dom (nodes st))"
        using U(2) by (intro psubset_card_mono) auto
      moreover have "set (children R t) \<subseteq> U" using U(1) Cons.prems(1) by (auto simp: part_of_def)
      ultimately obtain ids st' where "visits R (children R t) st0 = Some (ids, st')" "dom (nodes st0) \<subseteq> dom (nodes st')"
        using less.hyps by blast
      then show ?thesis using False by (auto simp: visit_one_def st0_def)
    qed (simp add: visit_one_def)
    then obtain st2 where st2: "visit_one R t st1 = Some st2" "dom (nodes st1) \<subseteq> dom (nodes st2)" by blast
    with Cons.prems have "set ts' \<subseteq> U" "dom (nodes st) \<subseteq> dom (nodes st2)" by auto
    then obtain ids st' where "visits R ts' st2 = Some (ids, st')" "dom (nodes st2) \<subseteq> dom (nodes st')"
      using Cons.IH by blast
    with st2 show ?case by (auto simp: visits_Cons)
  qed
  with less.prems show ?case by blast
qed

lemma visit_returns:
  assumes "part_of R `` U \<subseteq> U" "finite (type_id R ` U)" "t \<in> U"
  shows "\<exists>st'. visit R t st = Some (type_id R t, st')"
  using visits_return [OF assms(1,2), of "[t]" st] assms(3) by (auto simp: visit_eq visits_Cons bind_eq_Some_conv)

lemma visit_roots_return:
  assumes "part_of R `` U \<subseteq> U" "finite (type_id R ` U)"
  shows "set ts \<subseteq> U \<Longrightarrow> \<exists>acc. visit_roots R name ts (st, roots) = Some acc"
proof (induction ts arbitrary: st roots)
  case (Cons t ts)
  from visit_returns [OF assms, of t st] Cons.prems obtain st1 where "visit R t st = Some (type_id R t, st1)" by auto
  with Cons show ?case by simp
qed simp

lemma visit_groups_return:
  assumes "part_of R `` U \<subseteq> U" "finite (type_id R ` U)"
  shows "(\<And>g. g \<in> set groups \<Longrightarrow> set (snd g) \<subseteq> U) \<Longrightarrow> \<exists>acc'. visit_groups R groups acc = Some acc'"
proof (induction groups arbitrary: acc)
  case (Cons g groups)
  obtain name types where g: "g = (name, types)" by (cases g)
  with Cons.prems [of g] obtain acc1 where "visit_roots R name types acc = Some acc1"
    using visit_roots_return [OF assms, of types name "fst acc" "snd acc"] by auto
  with Cons show ?case by (simp add: g)
qed simp

section \<open>What the walk finds\<close>

definition parts_first :: "'ty go_types \<Rightarrow> 'ty list \<Rightarrow> bool" where
  "parts_first R bs \<longleftrightarrow> (\<forall>i < length bs. \<forall>c \<in> set (children R (bs ! i)).
     c \<in> set (take i bs) \<or> (c, bs ! i) \<in> (part_of R)\<^sup>*)"

lemma parts_first_snoc:
  assumes "parts_first R bs" "\<And>c. c \<in> set (children R t) \<Longrightarrow> c \<in> set bs \<or> (c, t) \<in> (part_of R)\<^sup>*"
  shows "parts_first R (bs @ [t])"
  unfolding parts_first_def
proof (intro allI ballI impI)
  fix i c
  assume "i < length (bs @ [t])" "c \<in> set (children R ((bs @ [t]) ! i))"
  then show "c \<in> set (take i (bs @ [t])) \<or> (c, (bs @ [t]) ! i) \<in> (part_of R)\<^sup>*"
    using assms by (cases "i < length bs") (auto simp: parts_first_def nth_append less_Suc_eq)
qed

text \<open>
  The state of the walk: \<open>bs\<close> are the finished types in the order they were finished, \<open>G\<close> the
  types whose visit has begun and not ended.
\<close>

definition walked :: "'ty go_types \<Rightarrow> 'ty set \<Rightarrow> 'ty list \<Rightarrow> visitor \<Rightarrow> bool" where
  "walked R G bs st \<longleftrightarrow> dom (nodes st) = type_id R ` (set bs \<union> G) \<and> order st = map (type_id R) bs \<and>
     distinct bs \<and> set bs \<inter> G = {} \<and> parts_first R bs \<and>
     (\<forall>b \<in> set bs. nodes st (type_id R b) = Some (node_of R b) \<and> set (children R b) \<subseteq> set bs \<union> G)"

lemma walked_start:
  assumes "walked R G bs st" "inj_on (type_id R) U" "set bs \<union> G \<subseteq> U" "t \<in> U" "type_id R t \<notin> dom (nodes st)"
  shows "walked R (insert t G) bs (st\<lparr>nodes := (nodes st)(type_id R t \<mapsto> n)\<rparr>)"
proof -
  from assms(1,5) have "t \<notin> set bs \<union> G" by (auto simp: walked_def)
  moreover from this have "type_id R b \<noteq> type_id R t" if "b \<in> set bs" for b
    using assms(2-4) that by (metis UnI1 inj_onD subsetD)
  ultimately show ?thesis using assms(1) by (auto simp: walked_def)
qed

lemma walked_finish:
  assumes "walked R (insert t G) bs st" "t \<notin> G" "inj_on (type_id R) U" "insert t (set bs) \<subseteq> U"
    and "set (children R t) \<subseteq> set bs \<union> insert t G" "\<And>g. g \<in> insert t G \<Longrightarrow> (g, t) \<in> (part_of R)\<^sup>*"
  shows "walked R G (bs @ [t]) (st\<lparr>nodes := (nodes st)(type_id R t \<mapsto> node_of R t), order := order st @ [type_id R t]\<rparr>)"
proof -
  from assms(1) have "t \<notin> set bs" by (auto simp: walked_def)
  then have other: "type_id R b \<noteq> type_id R t" if "b \<in> set bs" for b
    using assms(3,4) that by (metis inj_onD insertCI subsetD)
  have "parts_first R (bs @ [t])"
    using assms(1,5,6) by (intro parts_first_snoc) (auto simp: walked_def)
  with assms \<open>t \<notin> set bs\<close> other show ?thesis by (auto simp: walked_def)
qed

definition walk_ok :: "'ty go_types \<Rightarrow> 'ty list \<Rightarrow> visitor \<Rightarrow> string list \<Rightarrow> visitor \<Rightarrow> bool" where
  "walk_ok R ts st ids st' \<longleftrightarrow> ids = map (type_id R) ts \<and>
     (\<forall>U G bs. part_of R `` U \<subseteq> U \<longrightarrow> inj_on (type_id R) U \<longrightarrow> set ts \<union> set bs \<union> G \<subseteq> U \<longrightarrow> walked R G bs st \<longrightarrow>
        (\<forall>g \<in> G. \<forall>t \<in> set ts. (g, t) \<in> (part_of R)\<^sup>*) \<longrightarrow>
        (\<exists>bs'. walked R G bs' st' \<and> set bs \<subseteq> set bs' \<and> set bs' \<subseteq> set bs \<union> (part_of R)\<^sup>* `` set ts \<and>
           set ts \<subseteq> set bs' \<union> G))"

lemma walk_okD:
  assumes "walk_ok R ts st ids st'" "part_of R `` U \<subseteq> U" "inj_on (type_id R) U" "set ts \<union> set bs \<union> G \<subseteq> U"
    and "walked R G bs st" "\<And>g t. g \<in> G \<Longrightarrow> t \<in> set ts \<Longrightarrow> (g, t) \<in> (part_of R)\<^sup>*"
  obtains bs' where "walked R G bs' st'" "set bs \<subseteq> set bs'" "set bs' \<subseteq> set bs \<union> (part_of R)\<^sup>* `` set ts"
    "set ts \<subseteq> set bs' \<union> G"
  using assms unfolding walk_ok_def by meson

lemma reach_closed: "part_of R `` U \<subseteq> U \<Longrightarrow> T \<subseteq> U \<Longrightarrow> (part_of R)\<^sup>* `` T \<subseteq> U"
proof
  fix y assume U: "part_of R `` U \<subseteq> U" "T \<subseteq> U" and "y \<in> (part_of R)\<^sup>* `` T"
  then obtain x where "x \<in> U" "(x, y) \<in> (part_of R)\<^sup>*" by blast
  from this(2,1) U(1) show "y \<in> U" by (induction rule: rtrancl_induct) blast+
qed

lemma walk_ok_Nil: "walk_ok R [] st [] st"
  by (auto simp: walk_ok_def)

lemma walk_ok_Cons:
  assumes "walk_ok R [t] st [i] st1" "walk_ok R ts st1 ids st2"
  shows "walk_ok R (t # ts) st (i # ids) st2"
  unfolding walk_ok_def
proof (intro conjI allI impI)
  show "i # ids = map (type_id R) (t # ts)" using assms by (simp add: walk_ok_def)
  fix U G bs
  assume U: "part_of R `` U \<subseteq> U" "inj_on (type_id R) U" "set (t # ts) \<union> set bs \<union> G \<subseteq> U" and st: "walked R G bs st"
    and G: "\<forall>g \<in> G. \<forall>t' \<in> set (t # ts). (g, t') \<in> (part_of R)\<^sup>*"
  have sub: "set [t] \<union> set bs \<union> G \<subseteq> U" using U(3) by auto
  obtain bs1 where bs1: "walked R G bs1 st1" "set bs \<subseteq> set bs1"
    "set bs1 \<subseteq> set bs \<union> (part_of R)\<^sup>* `` set [t]" "set [t] \<subseteq> set bs1 \<union> G"
    by (rule walk_okD [OF assms(1) U(1,2) sub st]) (use G in auto)
  have "set ts \<union> set bs1 \<union> G \<subseteq> U" using bs1(3) U(3) reach_closed [OF U(1), of "set [t]"] by auto
  then obtain bs2 where bs2: "walked R G bs2 st2" "set bs1 \<subseteq> set bs2"
    "set bs2 \<subseteq> set bs1 \<union> (part_of R)\<^sup>* `` set ts" "set ts \<subseteq> set bs2 \<union> G"
    by (rule walk_okD [OF assms(2) U(1,2) _ bs1(1)]) (use G in auto)
  have reach: "(part_of R)\<^sup>* `` set (t # ts) = (part_of R)\<^sup>* `` set [t] \<union> (part_of R)\<^sup>* `` set ts" by auto
  show "\<exists>bs'. walked R G bs' st2 \<and> set bs \<subseteq> set bs' \<and>
      set bs' \<subseteq> set bs \<union> (part_of R)\<^sup>* `` set (t # ts) \<and> set (t # ts) \<subseteq> set bs' \<union> G"
  proof (intro exI conjI)
    show "walked R G bs2 st2" by (rule bs2(1))
    show "set bs \<subseteq> set bs2" using bs1(2) bs2(2) by (rule subset_trans)
    show "set bs2 \<subseteq> set bs \<union> (part_of R)\<^sup>* `` set (t # ts)" unfolding reach using bs2(3) bs1(3) by blast
    show "set (t # ts) \<subseteq> set bs2 \<union> G" using bs1(4) bs2(2,4) by auto
  qed
qed

lemma walk_ok_seen:
  assumes "type_id R t \<in> dom (nodes st)"
  shows "walk_ok R [t] st [type_id R t] st"
  unfolding walk_ok_def
proof (intro conjI allI impI)
  fix U G bs
  assume U: "inj_on (type_id R) U" "set [t] \<union> set bs \<union> G \<subseteq> U" and st: "walked R G bs st"
  from st assms obtain b where "b \<in> set bs \<union> G" "type_id R t = type_id R b" by (auto simp: walked_def)
  with U have "t \<in> set bs \<union> G" by (auto dest: inj_onD)
  with st show "\<exists>bs'. walked R G bs' st \<and> set bs \<subseteq> set bs' \<and> set bs' \<subseteq> set bs \<union> (part_of R)\<^sup>* `` set [t] \<and>
      set [t] \<subseteq> set bs' \<union> G" by (intro exI [of _ bs]) simp
qed simp

lemma walk_ok_new:
  assumes new: "type_id R t \<notin> dom (nodes st)"
    and parts: "walk_ok R (children R t) (st\<lparr>nodes := (nodes st)(type_id R t \<mapsto> bare_node R t)\<rparr>) ids st1"
  shows "walk_ok R [t] st [type_id R t]
    (st1\<lparr>nodes := (nodes st1)(type_id R t \<mapsto> filled_node R t ids), order := order st1 @ [type_id R t]\<rparr>)"
  unfolding walk_ok_def
proof (intro conjI allI impI)
  let ?st2 = "st1\<lparr>nodes := (nodes st1)(type_id R t \<mapsto> filled_node R t ids), order := order st1 @ [type_id R t]\<rparr>"
  fix U G bs
  assume U: "part_of R `` U \<subseteq> U" "inj_on (type_id R) U" "set [t] \<union> set bs \<union> G \<subseteq> U" and st: "walked R G bs st"
    and G: "\<forall>g \<in> G. \<forall>t' \<in> set [t]. (g, t') \<in> (part_of R)\<^sup>*"
  from new st have "t \<notin> G" by (auto simp: walked_def)
  have part: "(t, c) \<in> part_of R" if "c \<in> set (children R t)" for c using that by (simp add: part_of_def)
  have start: "walked R (insert t G) bs (st\<lparr>nodes := (nodes st)(type_id R t \<mapsto> bare_node R t)\<rparr>)"
    using U by (intro walked_start [OF st U(2) _ _ new]) auto
  have children: "set (children R t) \<union> set bs \<union> insert t G \<subseteq> U" using U part by auto
  have gray: "\<forall>g \<in> insert t G. \<forall>c \<in> set (children R t). (g, c) \<in> (part_of R)\<^sup>*"
    using G part by (auto intro: rtrancl_into_rtrancl)
  from parts have "ids = map (type_id R) (children R t)" by (simp add: walk_ok_def)
  then have node: "filled_node R t ids = node_of R t" by (simp add: node_of_def)
  obtain bs1 where bs1: "walked R (insert t G) bs1 st1" "set bs \<subseteq> set bs1"
    "set bs1 \<subseteq> set bs \<union> (part_of R)\<^sup>* `` set (children R t)" "set (children R t) \<subseteq> set bs1 \<union> insert t G"
    by (rule walk_okD [OF parts U(1,2) children start]) (use gray in auto)
  have reach: "(part_of R)\<^sup>* `` set (children R t) \<subseteq> (part_of R)\<^sup>* `` {t}"
    using part by (auto intro: converse_rtrancl_into_rtrancl)
  have "(part_of R)\<^sup>* `` {t} \<subseteq> U" using reach_closed [OF U(1), of "{t}"] U(3) by simp
  with reach bs1(3) U(3) have "insert t (set bs1) \<subseteq> U" by (meson insert_subset le_sup_iff list.set_intros(1) order_trans subsetD)
  then have "walked R G (bs1 @ [t]) ?st2"
    unfolding node using G by (intro walked_finish [OF bs1(1) \<open>t \<notin> G\<close> U(2) _ bs1(4)]) auto
  moreover have "set (bs1 @ [t]) \<subseteq> set bs \<union> (part_of R)\<^sup>* `` set [t]" using bs1(3) reach by auto
  ultimately show "\<exists>bs'. walked R G bs' ?st2 \<and> set bs \<subseteq> set bs' \<and> set bs' \<subseteq> set bs \<union> (part_of R)\<^sup>* `` set [t] \<and>
      set [t] \<subseteq> set bs' \<union> G" using bs1(2) by (intro exI [of _ "bs1 @ [t]"]) auto
qed simp

lemma visits_ok:
  assumes "visits R ts st = Some y"
  shows "walk_ok R ts st (fst y) (snd y)"
proof (rule visits.raw_induct [where P = "\<lambda>R ts st y. walk_ok R ts st (fst y) (snd y)", OF _ assms])
  fix visits :: "'a go_types \<Rightarrow> 'a list \<Rightarrow> visitor \<Rightarrow> (string list \<times> visitor) option" and R ts st y
  assume nested: "\<And>R ts st y. visits R ts st = Some y \<Longrightarrow> walk_ok R ts st (fst y) (snd y)"
    and body: "(case ts of
        [] \<Rightarrow> Some ([], st)
      | t # rest \<Rightarrow>
          Option.bind
            (if type_id R t \<in> dom (nodes st) then Some st
             else Option.bind (visits R (children R t) (st\<lparr>nodes := (nodes st)(type_id R t \<mapsto> bare_node R t)\<rparr>))
               (\<lambda>(ids, st1). Some (st1\<lparr>nodes := (nodes st1)(type_id R t \<mapsto> filled_node R t ids),
                  order := order st1 @ [type_id R t]\<rparr>)))
            (\<lambda>st2. Option.bind (visits R rest st2) (\<lambda>(ids, st3). Some (type_id R t # ids, st3)))) = Some y"
  show "walk_ok R ts st (fst y) (snd y)"
  proof (cases ts)
    case Nil
    with body show ?thesis by (auto simp: walk_ok_Nil)
  next
    case (Cons t rest)
    from body obtain st2 ids2 st3 where
      one: "(if type_id R t \<in> dom (nodes st) then Some st
             else Option.bind (visits R (children R t) (st\<lparr>nodes := (nodes st)(type_id R t \<mapsto> bare_node R t)\<rparr>))
               (\<lambda>(ids, st1). Some (st1\<lparr>nodes := (nodes st1)(type_id R t \<mapsto> filled_node R t ids),
                  order := order st1 @ [type_id R t]\<rparr>))) = Some st2"
      and rest: "visits R rest st2 = Some (ids2, st3)" and y: "y = (type_id R t # ids2, st3)"
      unfolding Cons list.case bind_eq_Some_conv by (elim exE conjE) (auto simp: bind_eq_Some_conv)
    have "walk_ok R [t] st [type_id R t] st2"
    proof (cases "type_id R t \<in> dom (nodes st)")
      case True
      with one show ?thesis by (simp add: walk_ok_seen)
    next
      case False
      with one obtain ids1 st1 where parts: "visits R (children R t)
          (st\<lparr>nodes := (nodes st)(type_id R t \<mapsto> bare_node R t)\<rparr>) = Some (ids1, st1)"
        and st2: "st2 = st1\<lparr>nodes := (nodes st1)(type_id R t \<mapsto> filled_node R t ids1), order := order st1 @ [type_id R t]\<rparr>"
        by (auto simp: bind_eq_Some_conv)
      show ?thesis unfolding st2 using nested [OF parts] by (simp add: walk_ok_new [OF False])
    qed
    then show ?thesis unfolding Cons y using nested [OF rest] by (simp add: walk_ok_Cons)
  qed
qed
lemma visit_ok: "visit R t st = Some (i, st') \<Longrightarrow> walk_ok R [t] st [i] st'"
  using visits_ok [of R "[t]" st "([i], st')"] by (auto simp: visit_eq visits_Cons bind_eq_Some_conv)

definition opt_list :: "'a list \<Rightarrow> 'a list option" where
  "opt_list xs = (if xs = [] then None else Some xs)"

lemma visit_roots_ok:
  assumes "visit_roots R name ts (st, \<lambda>n. opt_list (f n)) = Some (st', roots)"
  shows "(\<exists>ids. walk_ok R ts st ids st') \<and> roots = (\<lambda>n. opt_list (f n @ (if n = name then map (type_id R) ts else [])))"
  using assms
proof (induction ts arbitrary: st f)
  case Nil
  then show ?case by (auto intro: walk_ok_Nil)
next
  case (Cons t ts)
  then obtain i st1 where visit: "visit R t st = Some (i, st1)"
    and rest: "visit_roots R name ts (st1, (\<lambda>n. opt_list (f n))(name \<mapsto>
       (case opt_list (f name) of None \<Rightarrow> [] | Some old \<Rightarrow> old) @ [i])) = Some (st', roots)"
    by (auto simp: bind_eq_Some_conv)
  let ?f = "\<lambda>n. f n @ (if n = name then [i] else [])"
  have "(\<lambda>n. opt_list (f n))(name \<mapsto> (case opt_list (f name) of None \<Rightarrow> [] | Some old \<Rightarrow> old) @ [i]) = (\<lambda>n. opt_list (?f n))"
    by (rule ext) (simp add: opt_list_def)
  with rest have "visit_roots R name ts (st1, \<lambda>n. opt_list (?f n)) = Some (st', roots)" by simp
  from Cons.IH [OF this] obtain ids where rest: "walk_ok R ts st1 ids st'"
    "roots = (\<lambda>n. opt_list (?f n @ (if n = name then map (type_id R) ts else [])))" by blast
  have "walk_ok R (t # ts) st (i # ids) st'" by (rule walk_ok_Cons [OF visit_ok [OF visit] rest(1)])
  moreover have "i = type_id R t" using visit_ok [OF visit] by (simp add: walk_ok_def)
  ultimately show ?case using rest(2) by auto
qed

lemma visit_groups_ok:
  assumes "visit_groups R groups (st, \<lambda>n. opt_list (f n)) = Some (st', roots)"
    and U: "part_of R `` U \<subseteq> U" "inj_on (type_id R) U" "(\<Union>g \<in> set groups. set (snd g)) \<union> set bs \<subseteq> U" and "walked R {} bs st"
  shows "(\<exists>bs'. walked R {} bs' st' \<and> set bs \<subseteq> set bs' \<and> set bs' \<subseteq> set bs \<union> (part_of R)\<^sup>* `` (\<Union>g \<in> set groups. set (snd g)) \<and>
      (\<Union>g \<in> set groups. set (snd g)) \<subseteq> set bs') \<and> roots = (\<lambda>n. opt_list (f n @ roots_of R groups n))"
  using assms
proof (induction groups arbitrary: st f bs)
  case Nil
  then show ?case by (auto simp: roots_of_def)
next
  case (Cons g groups)
  obtain name types where g: "g = (name, types)" by (cases g)
  with Cons.prems(1) obtain st1 roots1 where first: "visit_roots R name types (st, \<lambda>n. opt_list (f n)) = Some (st1, roots1)"
    and rest: "visit_groups R groups (st1, roots1) = Some (st', roots)" by (auto simp: bind_eq_Some_conv)
  from visit_roots_ok [OF first] obtain ids where walk: "walk_ok R types st ids st1"
    and roots1: "roots1 = (\<lambda>n. opt_list (f n @ (if n = name then map (type_id R) types else [])))" by blast
  let ?T = "\<lambda>gs. \<Union>g \<in> set gs. set (snd g)"
  have "set types \<union> set bs \<union> {} \<subseteq> U" using Cons.prems(4) by (auto simp: g)
  then obtain bs1 where bs1: "walked R {} bs1 st1" "set bs \<subseteq> set bs1"
    "set bs1 \<subseteq> set bs \<union> (part_of R)\<^sup>* `` set types" "set types \<subseteq> set bs1 \<union> {}"
    by (rule walk_okD [OF walk Cons.prems(2,3) _ Cons.prems(5)]) auto
  have "(part_of R)\<^sup>* `` set types \<subseteq> U" using Cons.prems(4) by (intro reach_closed [OF Cons.prems(2)]) (simp add: g)
  then have "set bs1 \<subseteq> U" using bs1(3) Cons.prems(4) by (meson le_sup_iff order_trans)
  then have "?T groups \<union> set bs1 \<subseteq> U" using Cons.prems(4) by simp
  from Cons.IH [OF rest [unfolded roots1] Cons.prems(2,3) this bs1(1)]
  obtain bs2 where bs2: "walked R {} bs2 st'" "set bs1 \<subseteq> set bs2" "set bs2 \<subseteq> set bs1 \<union> (part_of R)\<^sup>* `` ?T groups"
    "?T groups \<subseteq> set bs2"
    and roots: "roots = (\<lambda>n. opt_list ((f n @ (if n = name then map (type_id R) types else [])) @ roots_of R groups n))" by blast
  have reach: "(part_of R)\<^sup>* `` ?T (g # groups) = (part_of R)\<^sup>* `` set types \<union> (part_of R)\<^sup>* `` ?T groups"
    by (auto simp: g)
  have "set bs2 \<subseteq> set bs \<union> (part_of R)\<^sup>* `` ?T (g # groups)" unfolding reach using bs2(3) bs1(3) by blast
  moreover have "?T (g # groups) \<subseteq> set bs2" using bs1(4) bs2(2,4) by (auto simp: g)
  moreover have "roots = (\<lambda>n. opt_list (f n @ roots_of R (g # groups) n))"
    unfolding roots by (rule ext) (simp add: roots_of_def g)
  ultimately show ?case using bs1(2) bs2(1,2) by blast
qed

section \<open>An example\<close>

text \<open>
  \<open>type Node struct { Next *Node; Tags []string }\<close> of package \<open>k8s\<close>, and two types
  \<open>v1.T\<close> of the packages \<open>a/v1\<close> and \<open>b/v1\<close> with their slices, which print alike.
\<close>

datatype example_ty = NodeT | NodePtr | Tags | Str | TA | TB | TAs | TBs

definition example_types :: "example_ty go_types" where
  "example_types = \<lparr>
     ty_String = (\<lambda>t. case t of NodeT \<Rightarrow> ''k8s.Node'' | NodePtr \<Rightarrow> ''*k8s.Node'' | Tags \<Rightarrow> ''[]string'' | Str \<Rightarrow> ''string''
       | TA \<Rightarrow> ''v1.T'' | TB \<Rightarrow> ''v1.T'' | TAs \<Rightarrow> ''[]v1.T'' | TBs \<Rightarrow> ''[]v1.T''),
     ty_Name = (\<lambda>t. case t of NodeT \<Rightarrow> ''Node'' | Str \<Rightarrow> ''string'' | TA \<Rightarrow> ''T'' | TB \<Rightarrow> ''T'' | _ \<Rightarrow> []),
     ty_PkgPath = (\<lambda>t. case t of NodeT \<Rightarrow> ''k8s'' | TA \<Rightarrow> ''a/v1'' | TB \<Rightarrow> ''b/v1'' | _ \<Rightarrow> []),
     ty_Kind = (\<lambda>t. case t of NodeT \<Rightarrow> KStruct | NodePtr \<Rightarrow> KPointer | Str \<Rightarrow> KString | TA \<Rightarrow> KStruct | TB \<Rightarrow> KStruct | _ \<Rightarrow> KSlice),
     ty_Elem = (\<lambda>t. case t of NodePtr \<Rightarrow> NodeT | TAs \<Rightarrow> TA | TBs \<Rightarrow> TB | _ \<Rightarrow> Str),
     ty_Key = (\<lambda>t. Str),
     ty_Fields = (\<lambda>t. case t of NodeT \<Rightarrow> [(''Next'', NodePtr), (''Tags'', Tags)] | _ \<Rightarrow> [])\<rparr>"

lemma example_children [simp]:
  "children example_types NodeT = [NodePtr, Tags]" "children example_types NodePtr = [NodeT]"
  "children example_types Tags = [Str]" "children example_types Str = []"
  "children example_types TA = []" "children example_types TB = []"
  "children example_types TAs = [TA]" "children example_types TBs = [TB]"
  by (simp_all add: children_def example_types_def)

lemma example_ids [simp]:
  "type_id example_types NodeT = ''k8s/Node''" "type_id example_types NodePtr = ''*k8s.Node''"
  "type_id example_types Tags = ''[]string''" "type_id example_types Str = ''/string''"
  "type_id example_types TA = ''a/v1/T''" "type_id example_types TB = ''b/v1/T''"
  "type_id example_types TAs = ''[]v1.T''" "type_id example_types TBs = ''[]v1.T''"
  by (simp_all add: type_id_def example_types_def)

lemma example_types_reachable: "reachable_types example_types [(''core'', [NodeT])] = {NodeT, NodePtr, Tags, Str}"
proof
  let ?U = "{NodeT, NodePtr, Tags, Str}"
  have "part_of example_types `` ?U \<subseteq> ?U" by (auto simp: part_of_def)
  then show "reachable_types example_types [(''core'', [NodeT])] \<subseteq> ?U"
    unfolding reachable_types_def by (rule reach_closed) simp
  have "(NodeT, NodePtr) \<in> part_of example_types" "(NodeT, Tags) \<in> part_of example_types" "(Tags, Str) \<in> part_of example_types"
    by (simp_all add: part_of_def)
  then show "?U \<subseteq> reachable_types example_types [(''core'', [NodeT])]"
    by (auto simp: reachable_types_def intro: r_into_rtrancl rtrancl_into_rtrancl)
qed

text \<open>
  The ids of unnamed types are what \<open>String\<close> prints, which need not tell types apart: the slices
  of the two \<open>v1.T\<close> share a node, and the element type of the second is never listed.
\<close>

lemma print_alike_lost:
  "\<exists>out. extractSchema example_types [(''core'', [TAs, TBs])] = Some out \<and> schema_Order out = [''a/v1/T'', ''[]v1.T''] \<and>
    TB \<in> reachable_types example_types [(''core'', [TAs, TBs])] \<and> schema_Nodes out (type_id example_types TB) = None"
proof -
  have "(TBs, TB) \<in> part_of example_types" by (simp add: part_of_def)
  then have "TB \<in> reachable_types example_types [(''core'', [TAs, TBs])]" by (auto simp: reachable_types_def)
  then show ?thesis by (simp add: extractSchema_def visit_eq visit_one_def visits_Cons)
qed

section \<open>Properties\<close>

text \<open>The extractor returns whenever the types reachable from the roots have finitely many ids,
  recursive types included.\<close>

lemma extractSchema_returns:
  assumes "finite (type_id R ` reachable_types R groups)"
  shows "\<exists>out. extractSchema R groups = Some out"
proof -
  have "part_of R `` reachable_types R groups \<subseteq> reachable_types R groups"
    by (auto simp: reachable_types_def intro: rtrancl_into_rtrancl)
  moreover have "set (snd g) \<subseteq> reachable_types R groups" if "g \<in> set groups" for g
    using that by (auto simp: reachable_types_def)
  ultimately show ?thesis
    using visit_groups_return [OF _ assms, of groups "(\<lparr>nodes = Map.empty, order = []\<rparr>, Map.empty)"]
    by (auto simp: extractSchema_def)
qed

lemma extracted_schema:
  assumes "inj_on (type_id R) (reachable_types R groups)" "extractSchema R groups = Some out"
  shows "dom (schema_Nodes out) = type_id R ` reachable_types R groups \<and>
    (\<forall>t \<in> reachable_types R groups. schema_Nodes out (type_id R t) = Some (node_of R t)) \<and>
    (\<exists>ts. schema_Order out = map (type_id R) ts \<and> distinct ts \<and> set ts = reachable_types R groups \<and> parts_first R ts) \<and>
    schema_Roots out = (\<lambda>name. if roots_of R groups name = [] then None else Some (roots_of R groups name))"
proof -
  let ?U = "reachable_types R groups" and ?T = "\<Union>g \<in> set groups. set (snd g)"
  have closed: "part_of R `` ?U \<subseteq> ?U" by (auto simp: reachable_types_def intro: rtrancl_into_rtrancl)
  from assms(2) obtain st roots where run: "visit_groups R groups (\<lparr>nodes = Map.empty, order = []\<rparr>, \<lambda>n. opt_list []) = Some (st, roots)"
    and out: "out = \<lparr>schema_Nodes = nodes st, schema_Order = order st, schema_Roots = roots\<rparr>"
    by (auto simp: extractSchema_def bind_eq_Some_conv opt_list_def)
  have "?T \<union> set [] \<subseteq> ?U" by (auto simp: reachable_types_def)
  moreover have "walked R {} [] \<lparr>nodes = Map.empty, order = []\<rparr>" by (simp add: walked_def parts_first_def)
  ultimately obtain bs where bs: "walked R {} bs st" "set bs \<subseteq> ?U" "?T \<subseteq> set bs"
    and roots: "roots = (\<lambda>n. opt_list (roots_of R groups n))"
    using visit_groups_ok [OF run closed assms(1), of "[]"] by (auto simp: reachable_types_def)
  have "part_of R `` set bs \<subseteq> set bs" using bs(1) by (auto simp: walked_def part_of_def)
  then have "?U \<subseteq> set bs" unfolding reachable_types_def using bs(3) by (rule reach_closed)
  with bs(2) have "set bs = ?U" by blast
  with bs(1) show ?thesis by (auto simp: out roots opt_list_def walked_def)
qed

text \<open>C39: When the types reachable from the roots are finitely many (recursive types included) and no
  two of them have the same id, the extractor returns, with a node for exactly the reachable types, each
  the description of its type; \<open>Order\<close> lists each type once, the parts of a type before the type unless
  they lead back to it; and \<open>Roots\<close> gives the ids of the configured types by group, groups of the same
  name joined and empty ones absent.\<close>

theorem extractSchema_describes:
  assumes "finite (reachable_types R groups)" "inj_on (type_id R) (reachable_types R groups)"
  shows "\<exists>out. extractSchema R groups = Some out \<and> dom (schema_Nodes out) = type_id R ` reachable_types R groups \<and>
    (\<forall>t \<in> reachable_types R groups. schema_Nodes out (type_id R t) = Some (node_of R t)) \<and>
    (\<exists>ts. schema_Order out = map (type_id R) ts \<and> distinct ts \<and> set ts = reachable_types R groups \<and> parts_first R ts) \<and>
    schema_Roots out = (\<lambda>name. if roots_of R groups name = [] then None else Some (roots_of R groups name))"
proof -
  from assms(1) have "finite (type_id R ` reachable_types R groups)" by simp
  from extractSchema_returns [OF this] obtain out where out: "extractSchema R groups = Some out" ..
  show ?thesis by (rule exI, rule conjI [OF out extracted_schema [OF assms(2) out]])
qed

theorem extractSchema_describes_witness:
  "\<exists>out. extractSchema example_types [(''core'', [NodeT])] = Some out \<and>
    schema_Nodes out ''*k8s.Node'' = Some (node_of example_types NodePtr) \<and> ''/string'' \<in> dom (schema_Nodes out)"
proof -
  have "finite (reachable_types example_types [(''core'', [NodeT])])"
    "inj_on (type_id example_types) (reachable_types example_types [(''core'', [NodeT])])"
    by (simp_all add: example_types_reachable)
  from extractSchema_describes [OF this] obtain out where
    out: "extractSchema example_types [(''core'', [NodeT])] = Some out"
      "dom (schema_Nodes out) = type_id example_types ` {NodeT, NodePtr, Tags, Str}"
      "\<forall>t \<in> {NodeT, NodePtr, Tags, Str}. schema_Nodes out (type_id example_types t) = Some (node_of example_types t)"
    unfolding example_types_reachable by blast
  have "schema_Nodes out (type_id example_types NodePtr) = Some (node_of example_types NodePtr)"
    using out(3) by blast
  moreover have "type_id example_types Str \<in> dom (schema_Nodes out)" unfolding out(2) by blast
  ultimately show ?thesis using out(1) by simp
qed

end
