(* ===== verification/Goose_Generic.thy ===== *)
theory Goose_Generic
  imports K8s_Prelude
begin

text \<open>
  The generic structs of src/kubernetes_model/goosetest/generic.go. A Go function reads and changes
  the state \<open>'s\<close> of the program and may panic (\<open>None\<close>); a function value or a pointer may be nil,
  and calling or following it then panics. Go makes the calls of an expression from left to right.
\<close>

type_synonym ('s, 'a) go_fun = "'s \<Rightarrow> ('a \<times> 's) option"

definition call_value :: "('s, 'a) go_fun option \<Rightarrow> ('s, 'a) go_fun" where
  "call_value f s = (case f of None \<Rightarrow> None | Some g \<Rightarrow> g s)"

definition go_bind :: "('s, 'a) go_fun \<Rightarrow> ('a \<Rightarrow> ('s, 'b) go_fun) \<Rightarrow> ('s, 'b) go_fun" where
  "go_bind m k s = (case m s of None \<Rightarrow> None | Some (x, s1) \<Rightarrow> k x s1)"

definition go_return :: "'a \<Rightarrow> ('s, 'a) go_fun" where
  "go_return x s = Some (x, s)"

definition deref :: "'a option \<Rightarrow> ('s, 'a) go_fun" where
  "deref p s = (case p of None \<Rightarrow> None | Some x \<Rightarrow> Some (x, s))"

record ('s, 't) Foo =
  newFoo :: "('s, 't) go_fun option"

record ('s, 't1, 't2) alsoBar =
  bar_obj :: "('s, 't1) Foo option"
  newBar :: "('s, 't2) go_fun option"

text \<open>The methods of the type parameters come with their interfaces, \<open>FooNum\<close> and \<open>BarNum\<close>.\<close>

definition Foo_A :: "('t \<Rightarrow> ('s, int64) go_fun) \<Rightarrow> ('s, 't) Foo option \<Rightarrow> 't \<Rightarrow> ('s, 't \<times> int64) go_fun" where
  "Foo_A FooNum o1 obj =
     go_bind (deref o1) (\<lambda>foo.
     go_bind (call_value (newFoo foo)) (\<lambda>new.
     go_bind (FooNum obj) (\<lambda>n. go_return (new, n))))"

definition alsoBar_B :: "('t1 \<Rightarrow> ('s, int64) go_fun) \<Rightarrow> ('t2 \<Rightarrow> ('s, int64) go_fun) \<Rightarrow> ('s, 't1, 't2) alsoBar option \<Rightarrow>
    't1 \<Rightarrow> 't2 \<Rightarrow> ('s, 't1 \<times> 't2 \<times> int64) go_fun" where
  "alsoBar_B FooNum BarNum o1 obj1 obj2 =
     go_bind (deref o1) (\<lambda>bar.
     go_bind (deref (bar_obj bar)) (\<lambda>foo.
     go_bind (call_value (newFoo foo)) (\<lambda>new1.
     go_bind (call_value (newBar bar)) (\<lambda>new2.
     go_bind (FooNum obj1) (\<lambda>n1.
     go_bind (BarNum obj2) (\<lambda>n2. go_return (new1, new2, n1 + n2)))))))"

lemmas go_defs = call_value_def go_bind_def go_return_def deref_def

text \<open>
  When the constructor of the bar and its number leave the state alone, \<open>B\<close> is \<open>A\<close> on the embedded
  struct with the bar and its number put in, and it panics exactly when \<open>A\<close> does.
\<close>

lemma B_is_A:
  assumes "newBar bar = Some (\<lambda>s. Some (x2, s))" "BarNum obj2 = (\<lambda>s. Some (n2, s))"
  shows "alsoBar_B FooNum BarNum (Some bar) obj1 obj2 s =
    map_option (\<lambda>((x1, n1), s1). ((x1, x2, n1 + n2), s1)) (Foo_A FooNum (bar_obj bar) obj1 s)"
  using assms by (simp add: alsoBar_B_def Foo_A_def go_defs split: option.split prod.split)

lemma nil_receiver_panics: "Foo_A FooNum None obj s = None" "alsoBar_B FooNum BarNum None obj1 obj2 s = None"
  by (simp_all add: Foo_A_def alsoBar_B_def go_defs)

end
