(* ===== verification/Spec2Isabelle.thy ===== *)
theory Spec2Isabelle
  imports Api_Reads Api_Admission_Spec Api_Write_Spec Api_Delete_Spec Api_Invariants Iam_Example Ctl_Wiring
    Ctl_ServiceAccount Ctl_ClusterRole Ctl_StatefulSet_Converge Ctl_ReplicaSet_Converge Ctl_Deployment_Converge
    Conf_Compare Conf_Generators_Spec Conf_Server Script_Schema Goose_Generic
begin

text \<open>
  \<^bold>\<open>A model of the Kubernetes API model, of the controllers on top of it, and of an IAM model\<close>

  The repository holds Go code that is translated to Rocq for verification. This library models
  that Go code: an in-memory model of the Kubernetes API server
  (src/kubernetes_model/apimodel: api_model.go, transaction.go, patch.go), five controllers that
  use it through a client (src/controllers), and a small model of identities and policies
  (src/iam_model/state.go) with a reconciler (src/iam_model/example/example.go). Around them: the inputs,
  comparators and server of the conformance tests, and the schema extractor of the build.

  \<^bold>\<open>Parts and theories\<close>

  \<^item> \<open>K8s_Prelude\<close>: Go integers as machine words, slices as options of lists (\<open>None\<close> is nil),
    errors as \<open>Inl\<close>, decimal text and the parsers of strconv, retry loops over random draws
    (\<open>draw_fresh\<close>), and the interface \<open>id_allocator\<close>.
  \<^item> \<open>K8s_Types\<close>: the Kubernetes objects as records. A record has each field the code reads or
    writes; the other fields of the Go struct are one opaque value that equality compares.
  \<^item> \<open>Api_State\<close> (\<open>State\<close>, \<open>KKey\<close>, \<open>objList\<close>, \<open>Index\<close>, \<open>ByIndex\<close>, \<open>get\<close>, the generators), with its
    properties in \<open>Api_Reads\<close>. It states the invariant \<open>wf_state\<close>, the history relation
    \<open>evolves\<close> (UIDs and resource versions are only ever added; what is new in the map has a new
    version, and a new UID or the one that was stored at its key), and the interface
    \<open>api_operation\<close>: an operation that keeps the first and respects the second.
  \<^item> \<open>Api_Admission\<close>, \<open>Api_Admission_Spec\<close>: the pipelines an object goes through on create, update
    and status update (lines 300 to 985 of api_model.go).
  \<^item> \<open>Api_Write\<close>, \<open>Api_Write_Spec\<close>: \<open>create\<close>, \<open>updateLocked\<close>, \<open>updateStatusLocked\<close>. The interface
    \<open>update_pipeline\<close> is what the two updates need of their pipeline.
  \<^item> \<open>Api_Delete\<close>, \<open>Api_Delete_Spec\<close>: delete options, garbage collection finalizers, graceful
    deletion, \<open>delete\<close>.
  \<^item> \<open>Api_Tx\<close>: \<open>updateTx\<close>, \<open>updateStatusTx\<close>, \<open>deleteTx\<close>, which read, write and start again on a
    conflict; \<open>Api_Patch\<close>: \<open>patch\<close>; \<open>Api_Resources\<close>: the typed operations of the nine kinds, as
    interpretations of the interface \<open>resource\<close>.
  \<^item> \<open>Api_System\<close>: the API as a step relation on states, its runs and reachable states.
    \<open>Api_Invariants\<close>: the interface \<open>stored_invariant\<close> of what every stored object satisfies, for
    the tolerations of pods and for the templates of stateful sets.
  \<^item> \<open>Iam_Model\<close>, \<open>Iam_Example\<close>: the IAM state and its reconciler.
  \<^item> \<open>Ctl_Client\<close>: the client calls of src/src/trusted_code/k8s_io/client_go as steps on a
    \<open>World\<close> (the state of the API, the number of calls made, the write requests sent), and the
    triple \<open>sends\<close>. \<open>Ctl_Wiring\<close>: the verbs of that client and of the listers at every type of
    object, and that the steps of \<open>Ctl_Client\<close> are these verbs. \<open>Ctl_Common\<close>: src/controllers/common, helpers of k8s.io/kubernetes, and
    the interface \<open>controller\<close>. \<open>Ctl_Log\<close>: rules about the requests a step sends.
  \<^item> \<open>Ctl_ServiceAccount\<close>, \<open>Ctl_ClusterRole\<close>, \<open>Ctl_StatefulSet\<close>, \<open>Ctl_ReplicaSet\<close>,
    \<open>Ctl_Deployment\<close>: one controller each, every function of its Go files under its Go name; the
    properties of the stateful set and the replica set controller are in \<open>Ctl_StatefulSet_Spec\<close>
    and \<open>Ctl_ReplicaSet_Spec\<close>. Each interprets \<open>controller\<close>. \<open>Ctl_ReplicaSet_Converge\<close> puts the
    replica set controller and the API together and follows the number of active pods in the state;
    \<open>Ctl_Deployment_Converge\<close> adds the deployment controller. There \<open>asked\<close> abstracts a state to the count
    each replica set of a deployment asks for, and a sync of the deployment is the one assignment \<open>rolled_out\<close>.
    \<open>Ctl_StatefulSet_Rollout\<close> and \<open>Ctl_StatefulSet_Converge\<close> do this for the stateful set controller: \<open>ordinals_of\<close>
    abstracts a state to the ordinals that have a pod and those whose pod is outdated, and a sync is the
    function \<open>next_ordinals\<close> on them.
  \<^item> \<open>Conf_Compare\<close>: the comparators by which the conformance tests decide whether the model and
    a real API server agree (src/kubernetes_model/apimodel/pbtesting/comparators/compare.go).
  \<^item> \<open>Conf_Rapid\<close>, \<open>Conf_Mutators\<close>, \<open>Conf_Generators\<close>: the random inputs of these tests
    (pbtesting/generators): draws from the library rapid as programs in the state monad, the
    functions that change a pair of objects before an update, the generators of objects and of
    patches, each under its Go name. Their properties are in \<open>Conf_Mutators_Spec\<close>, which runs the
    inputs against the API model, and \<open>Conf_Generators_Spec\<close>. \<open>pred_state P g\<close> says that all the
    values generator \<open>g\<close> can draw satisfy \<open>P\<close>.
  \<^item> \<open>Conf_Server\<close>: the server these tests send their requests to (pbtesting/testserver): its start and
    stop, and the calls it forwards to a client.
  \<^item> \<open>Script_Schema\<close>: the schema extractor (src/scripts/extract_schema.go), a walk over a graph of types;
    \<open>Goose_Generic\<close>: the generic structs of src/kubernetes_model/goosetest.
  \<^item> \<open>Api_Example\<close>, \<open>Ctl_Example\<close>: concrete objects, states and clusters for the witnesses.
  \<^item> This theory: the controllers as the jobs of one process.

  \<^bold>\<open>How Go is modelled\<close>

  A method of the API or IAM model holds the lock from its first to its last statement, so it is
  one function from a state to a result and a state; its error branches return the state as the
  code leaves it. Objects are values: the code copies an object whenever it enters or leaves the
  map, so a deep copy is the object. What the code draws from the world is an argument: random
  numbers, UUIDs, the clock and the order of \<open>range\<close> over a map (\<open>choices\<close>), what other clients
  do between two calls (\<open>interference\<close>, \<open>cluster\<close>), the schedule of goroutines and which error of
  a channel arrives first (\<open>runtime\<close>). A theorem holds for all of them; \<open>range_ok\<close>,
  \<open>fair_others\<close>, \<open>key_order_ok\<close> and \<open>runtime_ok\<close> say that a range visits each key once, that
  other clients keep the invariant of the API, and that a schedule runs each goroutine once.

  A loop that may not end is a partial function with the value \<open>None\<close> when it does not
  (\<open>draw_fresh\<close>, \<open>tx_loop\<close>, \<open>visits\<close>). That it does return is a property of its own: a generator returns when
  an unused value comes up, a transaction when nobody writes between its read and its write. A Go
  panic (a nil dereference, an index out of range) also ends a step without a result. There is
  no fuel; the loops of the controllers are recursions on lists or on a measure.

  Machine integers keep their width (\<open>int32\<close> replicas and counts, \<open>int64\<close> grace periods and
  generations) except for a Go \<open>int\<close> that counts the elements of a slice in memory.

  \<^bold>\<open>Parameters and their laws\<close>

  Kubernetes packages that are not under src/ are arguments: the strategies, schemes and
  defaulters of the API machinery (\<open>env\<close>), the codecs and patch libraries (\<open>codec\<close>), the library
  functions of the controllers (\<open>kube_lib\<close>), the random source of the tests (\<open>rapid\<close>; \<open>rapid_ok\<close>:
  a draw lies in its range and matches its pattern), the control plane and client of the test server
  (\<open>platform\<close>, \<open>clientset\<close>). The laws used are named: \<open>upstream_laws\<close> (a
  conversion or strategy keeps the identity of an object and hands over the metadata, the
  namespace check returns the object in that namespace), \<open>strategies_quiet\<close> (a strategy rejects
  an update as invalid, not with a conflict), \<open>create_hooks_keep_owners\<close>, \<open>status_hooks_keep_spec\<close>,
  \<open>set_hooks_keep\<close> (owners, specs and replica counts pass through defaulting, conversion and the
  strategies), \<open>hooks_keep_tolerations\<close> and \<open>role_hooks_keep\<close> (so do the tolerations of a pod and the rules of a
  cluster role), \<open>template_settled\<close>, \<open>settled_spec\<close> and \<open>settled_template\<close> (the template of a replica set, the spec of
  a pod and the template of a stateful set to which Kubernetes has nothing to add, asked only of the
  templates at hand), \<open>wipe_keeps\<close> (the reset of the system fields at a create keeps owners, labels and
  finalizers and clears the deletion timestamp), \<open>unscheduled_at_once\<close>
  (a pod bound to no node is deleted without a grace period), \<open>answers_no_taken\<close> (a strategy does not
  answer that a name is taken), \<open>semantic_equal\<close>, \<open>sort_permutes\<close>. Each is satisfied by
  the concrete instance the witnesses use.

  \<^bold>\<open>What is shown\<close>

  \<^item> The API: the invariant of all reachable states; identifiers are never reused and a version
    identifies contents; the exact effect of each successful write and of each failed one;
    optimistic concurrency (a stale write is rejected, so no update is lost); finalizers and
    grace periods are respected; every stored pod has the default tolerations; when the loops return.
  \<^item> Transactions: a delete is of the object it had read, still stored and unchanged, whatever the
    others do; what a successful update leaves stored; they return once
    undisturbed; one way in which they never return.
  \<^item> The controllers: the stateful set and deployment controllers refine a plan that is a
    function of the observed pods or replica sets; the order of ordinals; bounds on creates and
    deletes, guarded by UIDs; the slow start against a plain loop; statuses count truly and
    settle; left alone, the replica set controller reaches the wanted number of pods and stays
    there, and after a sync of a deployment its replica sets, synced in any order, reach the
    deployment's number of pods in total; the replica set a deployment makes is stored and found by
    its next sync, which changes nothing; a role ends up stored with the rules its selectors ask
    for; the stateful set controller replaces its pods one ordinal at a time and comes to rest with one pod of
    the template per ordinal, for a template to which Kubernetes adds nothing and pods that are
    neither scheduled, terminating nor finalized (\<open>settled_template\<close>, \<open>orderly\<close>), but never does when the template lacks
    the tolerations that admission adds; round trips of names; any interleaving of all five keeps the contract
    of the API.
  \<^item> IAM: the reconciler establishes exactly the desired access, is idempotent, and on an error
    grants nothing undesired.
  \<^item> Conformance: which differences the comparators accept; the two objects of a pair are changed
    alike; an update with corrupted metadata is rejected by the API model and changes nothing; a
    valid one is a change the selector still fits; immutable fields of the spec are not changed, although
    the code has branches for it, except the data of a controller revision; a patch names at most one
    change, in one of the three patch formats; the start of a test server leaks no control plane.
  \<^item> The schema extractor returns on recursive types too, and describes exactly the reachable ones,
    provided no two of them print alike.

  \<^bold>\<open>Not modelled\<close>

  The driver of the conformance tests, api_model_pb_test.go (it draws operations and compares the
  answers of the model and of the server), the text of the Rocq views that scripts/generate_views.py
  writes, the JSON the schema extractor prints, and the Rocq theories under src/src, of which only the trusted client
  and the translated Kubernetes helpers the controllers call are read as code. Server side apply,
  admission webhooks and API options are outside the Go model itself. Informer caches: the
  trusted listers read the API model directly, and so does this model. The mutations of test
  inputs are functions on pairs of objects: they are called on deep copies, so an assignment to one
  object is not seen in the other one, nor in another field of it.
\<close>

section \<open>The controllers together\<close>

text \<open>
  A job is a key taken from the work queue of one of the controllers. The controllers run in one
  process against one API; between any two of their requests the other clients may act.
\<close>

datatype job =
    SyncNamespace string
  | SyncClusterRole string
  | SyncStatefulSet string string
  | SyncReplicaSet string string
  | SyncDeployment string string

record controllers =
  ct_lib :: kube_lib
  ct_runtime :: runtime
  ct_order :: key_order
  ct_rs :: rs_controller

fun sync_job :: "controllers \<Rightarrow> job \<Rightarrow> cluster \<Rightarrow> unit step" where
  "sync_job K (SyncNamespace key) C = syncNamespace C key"
| "sync_job K (SyncClusterRole name) C = syncClusterRole C (ct_lib K) name"
| "sync_job K (SyncStatefulSet ns name) C = syncStatefulSet C (ct_lib K) (ct_order K) ns name"
| "sync_job K (SyncReplicaSet ns name) C = syncReplicaSet C (ct_lib K) (ct_runtime K) (ct_rs K) ns name"
| "sync_job K (SyncDeployment ns name) C = syncDeployment C (ct_lib K) ns name"

fun job_request :: "job \<Rightarrow> client_write \<Rightarrow> bool" where
  "job_request (SyncNamespace key) = account_create key"
| "job_request (SyncClusterRole name) = role_update name"
| "job_request (SyncStatefulSet ns name) = set_request (ns, name)"
| "job_request (SyncReplicaSet ns name) = rs_request (ns, name)"
| "job_request (SyncDeployment ns name) = dep_request (ns, name)"

lemma sync_job_sends: "sends_only C (job_request j) (sync_job K j C)"
proof (cases j)
  case (SyncStatefulSet ns name)
  then show ?thesis using statefulset.sync_sends [of C "(ns, name)"] by simp
next
  case (SyncReplicaSet ns name)
  then show ?thesis using replicaset.sync_sends [of C "(ns, name)"] by simp
next
  case (SyncDeployment ns name)
  then show ?thesis using deployment.sync_sends [of C "(ns, name)"] by simp
qed (simp_all add: serviceaccount.sync_sends clusterrole.sync_sends)

interpretation jobs: controller "sync_job K" job_request
  by unfold_locales (rule sync_job_sends)

definition run_jobs :: "controllers \<Rightarrow> job list \<Rightarrow> cluster \<Rightarrow> unit step" where
  "run_jobs K = controller.work (sync_job K)"

lemma run_jobs_simps [simp]:
  "run_jobs K [] C = done_with ()"
  "run_jobs K (j # js) C = with_result (sync_job K j C) (\<lambda>_. run_jobs K js C)"
  by (simp_all add: run_jobs_def)

section \<open>Properties\<close>

text \<open>C10: Whatever keys the controllers take from their queues, in whatever order, and whatever the other
  clients do meanwhile within the contract of the API, every state they leave is well formed, no
  UID or resource version is reused, and every request they sent is one its key allows.\<close>

theorem controllers_keep_contract:
  assumes "cluster_ok C" "wf_state (w_state w)" "run_jobs K js C w = Some (r, w')"
  shows "wf_state (w_state w') \<and> evolves (w_state w) (w_state w') \<and>
    (\<exists>ws. w_log w' = w_log w @ ws \<and> list_all (\<lambda>x. \<exists>j \<in> set js. job_request j x) ws)"
  using sendsD [OF jobs.work_sends assms(1,2), of K js r w'] assms(3)
  by (auto simp: run_jobs_def advances_def)

theorem controllers_keep_contract_witness:
  "wf_state shop_after \<and> evolves shop_state shop_after"
proof -
  let ?K = "\<lparr>ct_lib = example_lib, ct_runtime = example_runtime, ct_order = example_key_order,
    ct_rs = \<lparr>burstReplicas = 5, DeploymentReplicaSetTerminatingReplicas = True, EnableStatusTerminatingReplicas = True\<rparr>\<rparr>"
  have "run_jobs ?K [SyncNamespace ''shop''] example_cluster (world shop_state) =
      Some (Inr (), \<lparr>w_state = shop_after, w_calls = 3,
        w_log = [WServiceAccountCreate ''shop'' (in_namespace ''shop'' default_account)]\<rparr>)"
    by (simp add: with_result_def shop_sync done_with_def)
  from controllers_keep_contract [OF example_cluster_ok _ this] shop_state_wf show ?thesis by simp
qed

text \<open>C22: The delete a replica set controller sends under a UID guard never touches another object: not
  even one that has taken the name of the pod since the controller looked.\<close>

theorem guarded_delete_spares_others:
  assumes "PodDelete E ch ns name (NewDeleteOptionsWithUID uid) s = Some (r, s')"
    and "st_m s key = Some ob" "UID (metadata ob) \<noteq> uid"
  shows "st_m s' key = Some ob"
proof (cases "key = KKey ''Pod'' name ns")
  case True
  with assms have "s' = s"
    by (auto simp: PodDelete_def delete_def validateDeletePreconditions_def NewDeleteOptionsWithUID_def Let_def
        split: option.splits)
  with assms(2) show ?thesis by simp
next
  case False
  from assms(1) have "delete E ch (KKey ''Pod'' name ns) (NewDeleteOptionsWithUID uid) s = Some (r, s')"
    by (simp add: PodDelete_def)
  then show ?thesis
  proof (cases rule: delete_outcomes)
    case (marked ob1 g checked options' objCopy r')
    from marked(5) show ?thesis using False assms(2)
      by (cases r') (auto simp: store_object_def Let_def dest!: generateNewRV_frame split: option.splits)
  qed (use False assms(2) in simp_all)
qed

theorem guarded_delete_spares_others_witness:
  "\<exists>r. PodDelete example_env example_choices ''default'' ''p'' (NewDeleteOptionsWithUID ''other'') example_state =
    Some (r, example_state) \<and> st_m example_state stored_key = Some (KPod (example_pod stored_meta))"
proof -
  obtain r where "PodDelete example_env example_choices ''default'' ''p'' (NewDeleteOptionsWithUID ''other'') example_state =
      Some (r, example_state)"
  proof -
    let ?options = "NewDeleteOptionsWithUID ''other''"
    have "validateDeletePreconditions (metadata (KPod (example_pod stored_meta))) ?options ''Pod'' \<noteq> None"
      by (simp add: validateDeletePreconditions_def NewDeleteOptionsWithUID_def example_meta_simps stored_meta_simps)
    then obtain e where "validateDeletePreconditions (metadata (KPod (example_pod stored_meta))) ?options ''Pod'' = Some e"
      by blast
    then show thesis
      using that example_state_simps unfolding stored_key_def
      by (cases "validateDeleteOptions ?options") (auto simp: PodDelete_def delete_def Let_def)
  qed
  moreover from guarded_delete_spares_others [OF this, of stored_key]
  have "st_m example_state stored_key = Some (KPod (example_pod stored_meta))"
    by (simp add: example_state_simps stored_meta_simps)
  ultimately show ?thesis by blast
qed

end
